(* ===== verification/Relay_Prelude.thy ===== *)
theory Relay_Prelude
  imports Complex_Main "HOL-Library.Char_ord" "HOL-Library.List_Lexorder"
begin

text \<open>
  What the components of the relay share: the error taxonomy of errors.py, the clock reading of
  clock.py, JSON values, the parts of Python's string library the package uses, and the table
  operations every SQL statement of the store is written with (select one row, update where,
  insert, insert or ignore, upsert). Strings are lists of code points below 256; times are
  rational numbers of seconds.
\<close>

named_theorems table_simps "how the table operations act on keys, members and lookups"

section \<open>Errors\<close>

text \<open>\<^verbatim>\<open>errors.RefusalReason\<close>, constructor by constructor.\<close>

datatype (plugins only: code) RefusalReason =
    UNREGISTERED_RELATIONSHIP | RELATIONSHIP_NOT_ACTIVE | RELATIONSHIP_CONFLICT
  | STALE_GENERATION | UNKNOWN_GENERATION | UNBOUND_GENERATION | ANCHOR_ALREADY_BOUND
  | SCOPE_ESCAPE | RECIPIENT_NOT_AUTHORIZED | SYMLINK_COMPONENT | PATH_CHANGED | PATH_RELOCATED
  | ROOT_MOVED | UNVERIFIABLE_PATH_BINDING | INSUFFICIENT_PATH_BINDING
  | ARTIFACT_MUTATED_DURING_READ | ARTIFACT_LEASE_BROKEN | NOT_A_REGULAR_FILE
  | MANIFEST_REQUIRED | MANIFEST_FORBIDDEN | MANIFEST_UNVERIFIED | REVISION_MISMATCH
  | EVENT_ID_MISMATCH | TURNREF_MISMATCH | UNASSIGNED_TURN | CONTRADICTORY_OBSERVATION
  | MALFORMED_RECEIPT | OUTCOME_INCONSISTENT | PRODUCER_NOT_PERMITTED | DUPLICATE_EVENT
  | NOT_CLAIMABLE | WRONG_DELIVERY_KIND | ACK_PROOF_MISMATCH | ACK_TURN_UNVERIFIED
  | DISPOSITION_CONFLICT | NOT_ACKNOWLEDGED | OPERATOR_RELEASE_DISABLED
  | RELEASE_EVIDENCE_MISSING | SETTINGS_UNAVAILABLE | SETTINGS_INCOMPLETE
  | UNSUPPORTED_SANDBOX_TYPE | UNSUPPORTED_APPROVAL_POLICY | SUPERSEDED_REVISION
  | REVISION_AMBIGUOUS | REVISION_LINEAGE_INVALID | CRITERIA_UNREGISTERED | CRITERIA_NOT_COVERED
  | CRITERIA_SET_CHANGED | UNKNOWN_CRITERION | FINDINGS_REQUIRED | DUPLICATE_ASSIGNMENT
  | READBACK_MISMATCH | SYNC_NOT_CLAIMABLE | SYNC_TARGET_MISMATCH | REVIEW_NOT_BOUND
  | STALE_MARK_CONTEXT | RESTORATION_UNDELIVERABLE

text \<open>
  The subclasses of \<^verbatim>\<open>RelayError\<close> that carry a reason, and the Python exceptions the modelled
  code can raise on its own account; \<open>HostError\<close> is whatever a read of the host raised, \<open>BindError\<close>
  what \<^verbatim>\<open>sqlite3\<close> raises for a parameter it cannot bind. The free text of a message is not modelled.
\<close>

datatype exc_class = ScopeError | RegistrationError | ReceiptRefused | DeliveryRefused | AckRefused

datatype err =
    RelayError exc_class RefusalReason
  | ValueError | KeyError | TypeError | AttributeError | AssertionError | IntegrityError | HostError
  | BindError | OverflowError

section \<open>Results\<close>

definition bindE :: "'e + 'a \<Rightarrow> ('a \<Rightarrow> 'e + 'b) \<Rightarrow> 'e + 'b" where
  "bindE m f = (case m of Inl e \<Rightarrow> Inl e | Inr x \<Rightarrow> f x)"

lemma bindE_Inl [simp]: "bindE (Inl e) f = Inl e"
  by (simp add: bindE_def)

lemma bindE_Inr [simp]: "bindE (Inr x) f = f x"
  by (simp add: bindE_def)

lemma bindE_eq_Inr [simp]: "(bindE m f = Inr y) = (\<exists>x. m = Inr x \<and> f x = Inr y)"
  by (cases m) auto

lemma bindE_eq_Inl [simp]: "(bindE m f = Inl e) = (m = Inl e \<or> (\<exists>x. m = Inr x \<and> f x = Inl e))"
  by (cases m) auto

definition is_ok :: "'e + 'a \<Rightarrow> bool" where
  "is_ok m = (case m of Inl _ \<Rightarrow> False | Inr _ \<Rightarrow> True)"

lemma is_ok_simps [simp]: "is_ok (Inl e) = False" "is_ok (Inr x) = True"
  by (simp_all add: is_ok_def)

text \<open>\<^verbatim>\<open>if x\<close> on an optional text column: null and the empty string are false.\<close>

definition truthy_text :: "string option \<Rightarrow> bool" where
  "truthy_text s = (case s of None \<Rightarrow> False | Some t \<Rightarrow> t \<noteq> [])"

lemma truthy_text_simps [simp]:
  "truthy_text None = False" "truthy_text (Some t) = (t \<noteq> [])"
  by (simp_all add: truthy_text_def)

section \<open>The clock\<close>

text \<open>
  \<^verbatim>\<open>clock.now()\<close> and \<^verbatim>\<open>clock.iso()\<close>. Every operation is given one reading and uses it throughout,
  as it would with \<^verbatim>\<open>FakeClock\<close>; a real clock may move between two calls of one operation.
\<close>

record clock =
  clk_now :: rat
  clk_iso :: string

section \<open>JSON values\<close>

datatype json =
    JNull
  | JBool bool
  | JInt int
  | JStr string
  | JList "json list"
  | JObj "(string \<times> json) list"

text \<open>\<^verbatim>\<open>d.get(k)\<close> on a dictionary: null when the key is absent.\<close>

fun jget :: "json \<Rightarrow> string \<Rightarrow> json" where
  "jget (JObj kvs) k = (case map_of kvs k of None \<Rightarrow> JNull | Some v \<Rightarrow> v)"
| "jget _ k = JNull"

fun jtruthy :: "json \<Rightarrow> bool" where
  "jtruthy JNull = False"
| "jtruthy (JBool b) = b"
| "jtruthy (JInt i) = (i \<noteq> 0)"
| "jtruthy (JStr s) = (s \<noteq> [])"
| "jtruthy (JList xs) = (xs \<noteq> [])"
| "jtruthy (JObj kvs) = (kvs \<noteq> [])"

fun is_obj :: "json \<Rightarrow> bool" where
  "is_obj (JObj _) = True"
| "is_obj _ = False"

definition jopt :: "string option \<Rightarrow> json" where
  "jopt s = (case s of None \<Rightarrow> JNull | Some t \<Rightarrow> JStr t)"

section \<open>Strings\<close>

definition is_space :: "char \<Rightarrow> bool" where
  "is_space c = (let n = (of_char c :: nat)
     in (9 \<le> n \<and> n \<le> 13) \<or> (28 \<le> n \<and> n \<le> 32) \<or> n = 133 \<or> n = 160)"

text \<open>\<^verbatim>\<open>not value.strip()\<close>.\<close>

definition blank :: "string \<Rightarrow> bool" where
  "blank s = list_all is_space s"

definition strip :: "string \<Rightarrow> string" where
  "strip s = rev (dropWhile is_space (rev (dropWhile is_space s)))"

lemma dropWhile_all: "dropWhile P s = [] \<longleftrightarrow> list_all P s"
  by (induction s) auto

lemma all_dropWhile: "(\<forall>x\<in>set (dropWhile P s). P x) \<longleftrightarrow> (\<forall>x\<in>set s. P x)"
  by (induction s) auto

lemma strip_empty_iff: "strip s = [] \<longleftrightarrow> blank s"
proof -
  have "strip s = [] \<longleftrightarrow> list_all is_space (rev (dropWhile is_space s))"
    unfolding strip_def rev_is_Nil_conv dropWhile_all ..
  also have "\<dots> \<longleftrightarrow> (\<forall>x\<in>set (dropWhile is_space s). is_space x)"
    unfolding list_all_iff set_rev ..
  finally show ?thesis
    unfolding blank_def list_all_iff all_dropWhile .
qed

lemma blank_Nil [simp]: "blank []"
  by (simp add: blank_def)

definition starts_with :: "string \<Rightarrow> string \<Rightarrow> bool" where
  "starts_with p s = (take (length p) s = p)"

lemma starts_with_append [simp]: "starts_with p (p @ s)"
  by (simp add: starts_with_def)

lemma starts_with_iff: "starts_with p s \<longleftrightarrow> (\<exists>t. s = p @ t)"
  by (metis append_take_drop_id append_eq_conv_conj starts_with_def)

definition hex_digit :: "nat \<Rightarrow> char" where
  "hex_digit n = ''0123456789abcdef'' ! n"

definition is_hex :: "char \<Rightarrow> bool" where
  "is_hex c = (c \<in> set ''0123456789abcdef'')"

definition is_digit :: "char \<Rightarrow> bool" where
  "is_digit c = (c \<in> set ''0123456789'')"

lemma hex_digit_is_hex: "n < 16 \<Longrightarrow> is_hex (hex_digit n)"
  unfolding is_hex_def hex_digit_def by (rule nth_mem) simp

text \<open>
  A pattern ending in \<^verbatim>\<open>$\<close> matches at the end of the string and also before a final newline, as
  Python's \<^verbatim>\<open>re\<close> does without \<^verbatim>\<open>MULTILINE\<close>.
\<close>

definition chomp :: "string \<Rightarrow> string" where
  "chomp s = (if s \<noteq> [] \<and> last s = CHR 0x0A then butlast s else s)"

definition re_hex :: "nat \<Rightarrow> string \<Rightarrow> bool" where
  "re_hex n s = (let t = (if length s = n + 1 then chomp s else s)
     in length t = n \<and> list_all is_hex t)"

lemma re_hex_exact: "length s = n \<Longrightarrow> list_all is_hex s \<Longrightarrow> re_hex n s"
  by (simp add: re_hex_def)

lemma re_hex_newline: "length s = n \<Longrightarrow> list_all is_hex s \<Longrightarrow> re_hex n (s @ [CHR 0x0A])"
  by (simp add: re_hex_def chomp_def)

lemma re_hexD: "re_hex n s \<Longrightarrow> (length s = n \<or> length s = n + 1) \<and> list_all is_hex (take n s)"
  by (cases "s = []")
     (auto simp: re_hex_def chomp_def Let_def butlast_conv_take split: if_splits)

subsection \<open>Decimal rendering\<close>

definition digit_char :: "nat \<Rightarrow> char" where
  "digit_char n = ''0123456789'' ! n"

fun nat_str :: "nat \<Rightarrow> string" where
  "nat_str n = (if n < 10 then [digit_char n] else nat_str (n div 10) @ [digit_char (n mod 10)])"

declare nat_str.simps [simp del]

definition int_str :: "int \<Rightarrow> string" where
  "int_str i = (if i < 0 then ''-'' @ nat_str (nat (- i)) else nat_str (nat i))"

definition digit_val :: "char \<Rightarrow> nat" where
  "digit_val c = of_char c - 48"

definition str_nat :: "string \<Rightarrow> nat" where
  "str_nat s = foldl (\<lambda>a c. 10 * a + digit_val c) 0 s"

lemma less_10_cases: "(n::nat) < 10 \<Longrightarrow> n \<in> {0, 1, 2, 3, 4, 5, 6, 7, 8, 9}"
  by auto

lemma digit_char_facts:
  assumes "n < 10"
  shows "is_digit (digit_char n)" and "digit_val (digit_char n) = n" and "digit_char n \<noteq> CHR ''|''"
    and "digit_char n \<noteq> CHR ''-''" and "digit_char n \<noteq> CHR 0x0A"
  using less_10_cases [OF assms] by (auto simp: digit_char_def is_digit_def digit_val_def)

lemma nat_str_digits: "list_all is_digit (nat_str n)"
proof (induction n rule: nat_str.induct)
  case (1 n)
  then show ?case
    by (subst nat_str.simps) (simp add: digit_char_facts)
qed

lemma nat_str_nonempty [simp]: "nat_str n \<noteq> []"
  by (subst nat_str.simps) simp

lemma is_digit_not: "is_digit c \<Longrightarrow> c \<noteq> CHR ''|'' \<and> c \<noteq> CHR ''-'' \<and> c \<noteq> CHR 0x0A"
  by (auto simp: is_digit_def)

lemma nat_str_clean: "c \<in> set (nat_str n) \<Longrightarrow> c \<noteq> CHR ''|'' \<and> c \<noteq> CHR ''-'' \<and> c \<noteq> CHR 0x0A"
  using nat_str_digits [of n] is_digit_not by (auto simp: list_all_iff)

lemma str_nat_nat_str [simp]: "str_nat (nat_str n) = n"
proof (induction n rule: nat_str.induct)
  case (1 n)
  then show ?case
    by (subst nat_str.simps) (simp add: str_nat_def digit_char_facts)
qed

lemma nat_str_inject [simp]: "nat_str m = nat_str n \<longleftrightarrow> m = n"
  by (metis str_nat_nat_str)

lemma int_str_no_bar: "CHR ''|'' \<notin> set (int_str i)"
  by (auto simp: int_str_def dest: nat_str_clean)

lemma int_str_inject: "int_str i = int_str j \<longleftrightarrow> i = j"
proof
  assume eq: "int_str i = int_str j"
  have hd: "hd (int_str k) = CHR ''-'' \<longleftrightarrow> k < 0" for k
    using nat_str_clean [of "hd (nat_str (nat k))" "nat k"]
    by (auto simp: int_str_def)
  have "i < 0 \<longleftrightarrow> j < 0" using eq hd by metis
  then show "i = j" using eq by (auto simp: int_str_def split: if_splits)
qed simp

subsection \<open>Fields joined by a separator\<close>

text \<open>
  An f-string such as \<^verbatim>\<open>f"{a}|{b}|{c}"\<close>. Where no field but the last holds the separator, the
  fields can be read back.
\<close>

lemma sep_inject:
  assumes "a @ x # b = a' @ x # b'" "x \<notin> set a" "x \<notin> set a'"
  shows "a = a' \<and> b = b'"
  using assms
proof (induction a arbitrary: a')
  case Nil
  then show ?case by (cases a') auto
next
  case (Cons y a)
  then show ?case by (cases a') auto
qed

lemma sep_inject_last:
  assumes "a @ x # b = a' @ x # b'" "x \<notin> set b" "x \<notin> set b'"
  shows "a = a' \<and> b = b'"
proof -
  have "rev b @ x # rev a = rev b' @ x # rev a'"
    using assms(1) by (metis append.assoc append_Cons append_Nil rev.simps(2) rev_append)
  from sep_inject [OF this] assms(2,3) show ?thesis by simp
qed

section \<open>Tables\<close>

text \<open>
  A table is the list of its rows in insertion order. \<^verbatim>\<open>SELECT ... fetchone()\<close> is
  \<^const>\<open>List.find\<close>; the statements that write are the following.
\<close>

definition update_where :: "('r \<Rightarrow> bool) \<Rightarrow> ('r \<Rightarrow> 'r) \<Rightarrow> 'r list \<Rightarrow> 'r list" where
  "update_where P f t = map (\<lambda>r. if P r then f r else r) t"

definition delete_where :: "('r \<Rightarrow> bool) \<Rightarrow> 'r list \<Rightarrow> 'r list" where
  "delete_where P t = filter (\<lambda>r. \<not> P r) t"

definition rowcount :: "('r \<Rightarrow> bool) \<Rightarrow> 'r list \<Rightarrow> nat" where
  "rowcount P t = length (filter P t)"

text \<open>\<^verbatim>\<open>INSERT\<close>: a duplicate key raises \<^verbatim>\<open>IntegrityError\<close>.\<close>

definition insert_row :: "('r \<Rightarrow> 'k) \<Rightarrow> 'r \<Rightarrow> 'r list \<Rightarrow> err + 'r list" where
  "insert_row k r t = (if k r \<in> set (map k t) then Inl IntegrityError else Inr (t @ [r]))"

text \<open>\<^verbatim>\<open>INSERT OR IGNORE\<close>, also \<^verbatim>\<open>ON CONFLICT DO NOTHING\<close>.\<close>

definition insert_or_ignore :: "('r \<Rightarrow> 'k) \<Rightarrow> 'r \<Rightarrow> 'r list \<Rightarrow> 'r list" where
  "insert_or_ignore k r t = (if k r \<in> set (map k t) then t else t @ [r])"

text \<open>\<^verbatim>\<open>INSERT ... ON CONFLICT DO UPDATE\<close>.\<close>

definition upsert :: "('r \<Rightarrow> 'k) \<Rightarrow> 'r \<Rightarrow> ('r \<Rightarrow> 'r) \<Rightarrow> 'r list \<Rightarrow> 'r list" where
  "upsert k r m t = (if k r \<in> set (map k t) then update_where (\<lambda>x. k x = k r) m t else t @ [r])"

lemma set_update_where [table_simps]:
  "set (update_where P f t) = (\<lambda>r. if P r then f r else r) ` set t"
  by (simp add: update_where_def)

lemma length_update_where [simp]: "length (update_where P f t) = length t"
  by (simp add: update_where_def)

lemma update_where_Nil [simp]: "update_where P f [] = []"
  by (simp add: update_where_def)

lemma update_where_Cons [simp]:
  "update_where P f (x # t) = (if P x then f x else x) # update_where P f t"
  by (simp add: update_where_def)

lemma update_where_append [simp]:
  "update_where P f (s @ t) = update_where P f s @ update_where P f t"
  by (simp add: update_where_def)

lemma update_where_none: "(\<And>r. r \<in> set t \<Longrightarrow> \<not> P r) \<Longrightarrow> update_where P f t = t"
  by (simp add: update_where_def map_idI)

lemma map_update_where [table_simps]:
  "(\<And>r. P r \<Longrightarrow> g (f r) = g r) \<Longrightarrow> map g (update_where P f t) = map g t"
  by (simp add: update_where_def)

lemma find_Some_iff_mem: "List.find P t = Some r \<Longrightarrow> r \<in> set t \<and> P r"
  by (induction t) (auto split: if_splits)

lemma find_None_iff_none: "List.find P t = None \<longleftrightarrow> (\<forall>r\<in>set t. \<not> P r)"
  by (induction t) auto

lemma find_snoc:
  "List.find P (t @ [x]) =
     (case List.find P t of None \<Rightarrow> if P x then Some x else None | Some y \<Rightarrow> Some y)"
  by (induction t) auto

lemma find_not_None: "r \<in> set t \<Longrightarrow> P r \<Longrightarrow> List.find P t \<noteq> None"
  by (auto simp: find_None_iff_none)

text \<open>On a table whose key is distinct the lookup by key is the row itself.\<close>

lemma find_key:
  assumes "distinct (map k t)" "r \<in> set t"
  shows "List.find (\<lambda>x. k x = k r) t = Some r"
  using assms by (induction t) auto

lemma key_unique: "distinct (map k t) \<Longrightarrow> x \<in> set t \<Longrightarrow> y \<in> set t \<Longrightarrow> k x = k y \<Longrightarrow> x = y"
  by (auto simp: distinct_map inj_on_def)

lemma find_key_iff:
  assumes "distinct (map k t)"
  shows "List.find (\<lambda>x. k x = v) t = Some r \<longleftrightarrow> r \<in> set t \<and> k r = v"
proof
  assume "List.find (\<lambda>x. k x = v) t = Some r"
  then show "r \<in> set t \<and> k r = v" by (rule find_Some_iff_mem)
next
  assume "r \<in> set t \<and> k r = v"
  with find_key [OF assms, of r] show "List.find (\<lambda>x. k x = v) t = Some r" by simp
qed

lemma find_update_where_other:
  assumes "\<And>r. P r \<Longrightarrow> Q (f r) = Q r" "\<And>r. Q r \<Longrightarrow> \<not> P r"
  shows "List.find Q (update_where P f t) = List.find Q t"
  by (induction t) (auto simp: assms)

lemma find_update_where_hit:
  assumes "\<And>r. P r \<Longrightarrow> Q (f r) = Q r"
  shows "List.find Q (update_where P f t) =
    map_option (\<lambda>r. if P r then f r else r) (List.find Q t)"
  by (induction t) (auto simp: assms)

lemma keys_insert_or_ignore [table_simps]:
  "set (map k (insert_or_ignore k r t)) = insert (k r) (set (map k t))"
  by (auto simp: insert_or_ignore_def)

lemma distinct_insert_or_ignore [table_simps]:
  "distinct (map k t) \<Longrightarrow> distinct (map k (insert_or_ignore k r t))"
  by (simp add: insert_or_ignore_def)

lemma distinct_upsert [table_simps]:
  assumes "distinct (map k t)" "\<And>x. k x = k r \<Longrightarrow> k (m x) = k r"
  shows "distinct (map k (upsert k r m t))"
proof -
  have "map k (update_where (\<lambda>x. k x = k r) m t) = map k t"
    by (rule map_update_where) (simp add: assms(2))
  with assms(1) show ?thesis by (simp add: upsert_def)
qed

lemma insert_row_Inr: "insert_row k r t = Inr t' \<longleftrightarrow> k r \<notin> set (map k t) \<and> t' = t @ [r]"
  by (auto simp: insert_row_def)

lemma distinct_insert_row:
  "distinct (map k t) \<Longrightarrow> insert_row k r t = Inr t' \<Longrightarrow> distinct (map k t')"
  by (auto simp: insert_row_Inr)

lemma set_delete_where [table_simps]: "set (delete_where P t) = {r \<in> set t. \<not> P r}"
  by (simp add: delete_where_def)

lemma distinct_delete_where [table_simps]:
  "distinct (map k t) \<Longrightarrow> distinct (map k (delete_where P t))"
  by (simp add: delete_where_def distinct_map_filter)

section \<open>State machines\<close>

text \<open>
  The interface by which a component states an invariant of its steps: what holds at the start
  and is kept by every step holds in every reachable state.
\<close>

inductive reachable :: "('s \<Rightarrow> 's \<Rightarrow> bool) \<Rightarrow> 's \<Rightarrow> 's \<Rightarrow> bool"
  for step :: "'s \<Rightarrow> 's \<Rightarrow> bool" and s0 :: 's where
  reach_start: "reachable step s0 s0"
| reach_step: "reachable step s0 s \<Longrightarrow> step s t \<Longrightarrow> reachable step s0 t"

lemma reach_one: "step s t \<Longrightarrow> reachable step s t"
  by (rule reach_step [OF reach_start])

locale invariant_machine =
  fixes step :: "'s \<Rightarrow> 's \<Rightarrow> bool"
    and inv :: "'s \<Rightarrow> bool"
  assumes step_inv: "step s t \<Longrightarrow> inv s \<Longrightarrow> inv t"
begin

lemma reachable_inv: "reachable step s0 s \<Longrightarrow> inv s0 \<Longrightarrow> inv s"
  by (induction rule: reachable.induct) (auto intro: step_inv)

end

end
