(* ===== verification/Transport.thy ===== *)
theory Transport
  imports Relay_Prelude
begin

text \<open>
  \<^verbatim>\<open>transport.py\<close>: turning one transport receipt, an arbitrary JSON value the host returned, into
  delivery facts; the attempt record and the conditional rules it is checked against before it is
  stored.
\<close>

section \<open>The vocabulary\<close>

datatype receipt_status = ACCEPTED | FAILED | OUTCOME_UNKNOWN | UNFINISHED

datatype delivery_state =
    DISPATCHED | DEFERRED_BUSY | WITHHELD_PRE_SEND | HELD_UNCERTAIN | INBOX_ONLY | QUEUED
  | ACKNOWLEDGED | SUPERSEDED | SENDING

datatype send_attempted = Send_yes | Send_no | Send_unknown

datatype operation =
    Op_initialize | Op_thread_read | Op_thread_resume | Op_turn_start | Op_transport
  | Op_unclassified

definition SETTINGS_REFUSALS :: "string list" where
  "SETTINGS_REFUSALS = [''settings_not_preserved'', ''setting_unobservable'',
     ''environments_unknown'', ''unverifiable_permission_profile'']"

text \<open>The strings the code writes for them.\<close>

definition receipt_status_str :: "receipt_status \<Rightarrow> string" where
  "receipt_status_str s = (case s of ACCEPTED \<Rightarrow> ''accepted'' | FAILED \<Rightarrow> ''failed''
     | OUTCOME_UNKNOWN \<Rightarrow> ''outcome_unknown'' | UNFINISHED \<Rightarrow> ''in_progress_or_unknown'')"

definition delivery_state_str :: "delivery_state \<Rightarrow> string" where
  "delivery_state_str s = (case s of DISPATCHED \<Rightarrow> ''dispatched'' | DEFERRED_BUSY \<Rightarrow> ''deferred_busy''
     | WITHHELD_PRE_SEND \<Rightarrow> ''withheld_pre_send'' | HELD_UNCERTAIN \<Rightarrow> ''held_uncertain''
     | INBOX_ONLY \<Rightarrow> ''inbox_only'' | QUEUED \<Rightarrow> ''queued'' | ACKNOWLEDGED \<Rightarrow> ''acknowledged''
     | SUPERSEDED \<Rightarrow> ''superseded'' | SENDING \<Rightarrow> ''sending'')"

record TransportFacts =
  transport_receipt_status :: receipt_status
  delivery_state :: delivery_state
  send_attempted :: send_attempted
  retry_safe :: bool
  failed_operation :: "operation option"
  turn_id :: "string option"
  approval_policy :: json
  rpc_error_code :: json
  error_text :: json

section \<open>Classification\<close>

text \<open>The part before the first \<^verbatim>\<open>": "\<close>, or nothing when there is none.\<close>

fun before_colon :: "string \<Rightarrow> string option" where
  "before_colon (c # d # s) =
     (if c = CHR '':'' \<and> d = CHR '' '' then Some []
      else map_option (\<lambda>p. c # p) (before_colon (d # s)))"
| "before_colon _ = None"

definition method_prefix :: "json \<Rightarrow> operation option" where
  "method_prefix error = (case error of
       JStr s \<Rightarrow> (case before_colon s of
           Some m \<Rightarrow>
             (if m = ''initialize'' then Some Op_initialize
              else if m = ''thread/read'' then Some Op_thread_read
              else if m = ''thread/resume'' then Some Op_thread_resume
              else if m = ''turn/start'' then Some Op_turn_start
              else None)
         | None \<Rightarrow> None)
     | _ \<Rightarrow> None)"

definition usable_turn_id :: "json \<Rightarrow> string option" where
  "usable_turn_id v = (case v of JStr s \<Rightarrow> if blank s then None else Some s | _ \<Rightarrow> None)"

definition unclassified_facts :: TransportFacts where
  "unclassified_facts = \<lparr>transport_receipt_status = OUTCOME_UNKNOWN,
     delivery_state = HELD_UNCERTAIN, send_attempted = Send_unknown, retry_safe = False,
     failed_operation = Some Op_unclassified, turn_id = None, approval_policy = JNull,
     rpc_error_code = JNull, error_text = JNull\<rparr>"

text \<open>
  The fields every call of \<^verbatim>\<open>TransportFacts(...)\<close> takes by position, and the branch of a failed
  receipt: the row of the classification table it falls in, if any.
\<close>

type_synonym fact_row = "receipt_status \<times> delivery_state \<times> send_attempted \<times> bool \<times> operation option"

definition unclassified_row :: fact_row where
  "unclassified_row = (OUTCOME_UNKNOWN, HELD_UNCERTAIN, Send_unknown, False, Some Op_unclassified)"

definition failed_row :: "json \<Rightarrow> json \<Rightarrow> json \<Rightarrow> fact_row" where
  "failed_row code resumed error =
     (if code = JStr ''thread_busy'' \<and> \<not> jtruthy resumed then
        (FAILED, DEFERRED_BUSY, Send_no, True, Some Op_thread_read)
      else if code = JStr ''unsupported_approval_policy'' \<and> jtruthy resumed then
        (FAILED, INBOX_ONLY, Send_no, False, Some Op_thread_resume)
      else if code \<in> JStr ` set SETTINGS_REFUSALS \<and> jtruthy resumed then
        (FAILED, WITHHELD_PRE_SEND, Send_no, True, Some Op_thread_resume)
      else if method_prefix error = Some Op_initialize then
        (FAILED, HELD_UNCERTAIN, Send_unknown, False, Some Op_initialize)
      else if method_prefix error = Some Op_turn_start then
        (FAILED, HELD_UNCERTAIN, Send_yes, False, Some Op_turn_start)
      else if method_prefix error \<in> {Some Op_thread_read, Some Op_thread_resume}
           \<and> \<not> jtruthy resumed then
        (FAILED, WITHHELD_PRE_SEND, Send_no, True, method_prefix error)
      else unclassified_row)"

definition facts_of :: "json \<Rightarrow> json \<Rightarrow> json \<Rightarrow> string option \<Rightarrow> fact_row \<Rightarrow> TransportFacts" where
  "facts_of policy code error turn row = (case row of (st, ds, sa, rs, op) \<Rightarrow>
     \<lparr>transport_receipt_status = st, delivery_state = ds, send_attempted = sa, retry_safe = rs,
      failed_operation = op, turn_id = turn, approval_policy = policy, rpc_error_code = code,
      error_text = error\<rparr>)"

text \<open>
  The branches in the source's order. \<open>rpcError\<close> must be a dictionary or false: the code calls
  \<^verbatim>\<open>.get\<close> on it, which raises \<^verbatim>\<open>AttributeError\<close> on any other value.
\<close>

definition classify_operation_receipt :: "json \<Rightarrow> err + TransportFacts" where
  "classify_operation_receipt receipt =
    (if \<not> is_obj receipt then Inr unclassified_facts
     else let status = jget receipt ''status'';
              error = jget receipt ''error'';
              rpc = (if jtruthy (jget receipt ''rpcError'') then jget receipt ''rpcError''
                     else JObj []);
              resumed = jget receipt ''resumed'';
              code = jget rpc ''code'';
              policy = (if is_obj resumed then jget resumed ''approvalPolicy'' else JNull);
              turn = usable_turn_id (jget receipt ''turnId'');
              facts = facts_of policy code error
     in if \<not> is_obj rpc then Inl AttributeError
        else if status = JStr ''accepted'' then
          (if turn \<noteq> None then Inr (facts turn (ACCEPTED, DISPATCHED, Send_yes, False, None))
           else Inr (facts None unclassified_row))
        else if status = JStr ''in_progress_or_unknown'' then
          Inr (facts None (UNFINISHED, HELD_UNCERTAIN, Send_unknown, False, None))
        else if status = JStr ''outcome_unknown'' then
          Inr (facts None (OUTCOME_UNKNOWN, HELD_UNCERTAIN, Send_unknown, False, Some Op_transport))
        else if status = JStr ''failed'' then
          Inr (facts None (failed_row code resumed error))
        else Inr (facts None unclassified_row))"

section \<open>The attempt record\<close>

datatype evidence = TURN_FOUND | RECEIPT_TURN_ID | CONFIRMED_PRE_SEND_REJECTION | NONE

record reconciliation =
  operationReceiptChecked :: bool
  recipientTurnsChecked :: bool
  affirmativeEvidence :: evidence
  checkedAt :: string

record AttemptRecord =
  requestId :: string
  eventId :: string
  attemptNo :: int
  recipientTaskId :: string
  deliveryState :: delivery_state
  sendAttempted :: send_attempted
  retrySafe :: bool
  observedAt :: string
  recipientStatusBefore :: string
  recipientApprovalPolicy :: json
  transportReceiptStatus :: receipt_status
  failedOperation :: "operation option"
  turnId :: "string option"
  record_reconciliation :: "reconciliation option"

text \<open>The assertions of \<^verbatim>\<open>assert_attempt_invariants\<close>, conjunct by conjunct.\<close>

definition assert_attempt_invariants :: "AttemptRecord \<Rightarrow> bool" where
  "assert_attempt_invariants r =
    ((deliveryState r = HELD_UNCERTAIN \<longrightarrow> \<not> retrySafe r \<and> sendAttempted r \<in> {Send_unknown, Send_yes})
     \<and> (retrySafe r \<longrightarrow> sendAttempted r = Send_no \<and> transportReceiptStatus r = FAILED
         \<and> deliveryState r \<in> {WITHHELD_PRE_SEND, DEFERRED_BUSY}
         \<and> failedOperation r \<in> {Some Op_thread_read, Some Op_thread_resume})
     \<and> (transportReceiptStatus r = UNFINISHED \<longrightarrow> sendAttempted r = Send_unknown \<and> \<not> retrySafe r)
     \<and> (deliveryState r = DISPATCHED \<longrightarrow> truthy_text (turnId r) \<and> sendAttempted r = Send_yes
         \<and> \<not> retrySafe r)
     \<and> (failedOperation r \<in> {Some Op_turn_start, Some Op_transport, Some Op_initialize,
           Some Op_unclassified} \<longrightarrow>
         \<not> retrySafe r \<and> sendAttempted r \<in> {Send_unknown, Send_yes}))"

definition attempt_record ::
  "TransportFacts \<Rightarrow> string \<Rightarrow> string \<Rightarrow> int \<Rightarrow> string \<Rightarrow> string \<Rightarrow> string \<Rightarrow> reconciliation option
     \<Rightarrow> err + AttemptRecord" where
  "attempt_record facts request event no recipient status_before observed rec =
    (let r = \<lparr>requestId = request, eventId = event, attemptNo = no, recipientTaskId = recipient,
       deliveryState = delivery_state facts, sendAttempted = send_attempted facts,
       retrySafe = retry_safe facts, observedAt = observed, recipientStatusBefore = status_before,
       recipientApprovalPolicy = approval_policy facts,
       transportReceiptStatus = transport_receipt_status facts,
       failedOperation = failed_operation facts, turnId = turn_id facts,
       record_reconciliation = rec\<rparr>
     in if assert_attempt_invariants r then Inr r else Inl AssertionError)"

section \<open>What classification establishes\<close>

lemma usable_turn_id_Some: "usable_turn_id v = Some t \<Longrightarrow> v = JStr t \<and> t \<noteq> []"
  by (auto simp: usable_turn_id_def split: json.splits if_splits)

lemma method_prefix_ops:
  "method_prefix e = Some op \<Longrightarrow> op \<in> {Op_initialize, Op_thread_read, Op_thread_resume, Op_turn_start}"
  by (auto simp: method_prefix_def split: json.splits option.splits if_splits)

text \<open>The rows of the classification table.\<close>

definition fact_row :: "TransportFacts \<Rightarrow> fact_row" where
  "fact_row f = (transport_receipt_status f, delivery_state f, send_attempted f, retry_safe f,
     failed_operation f)"

definition fact_rows :: "fact_row list" where
  "fact_rows =
     [(ACCEPTED, DISPATCHED, Send_yes, False, None),
      (UNFINISHED, HELD_UNCERTAIN, Send_unknown, False, None),
      (OUTCOME_UNKNOWN, HELD_UNCERTAIN, Send_unknown, False, Some Op_transport),
      (OUTCOME_UNKNOWN, HELD_UNCERTAIN, Send_unknown, False, Some Op_unclassified),
      (FAILED, DEFERRED_BUSY, Send_no, True, Some Op_thread_read),
      (FAILED, INBOX_ONLY, Send_no, False, Some Op_thread_resume),
      (FAILED, WITHHELD_PRE_SEND, Send_no, True, Some Op_thread_resume),
      (FAILED, WITHHELD_PRE_SEND, Send_no, True, Some Op_thread_read),
      (FAILED, HELD_UNCERTAIN, Send_unknown, False, Some Op_initialize),
      (FAILED, HELD_UNCERTAIN, Send_yes, False, Some Op_turn_start)]"

lemma fact_row_facts_of [simp]:
  "fact_row (facts_of p c e t row) = row" "turn_id (facts_of p c e t row) = t"
  by (cases row; simp add: facts_of_def fact_row_def)+

lemma failed_row_cases:
  "failed_row c r e \<in> set (drop 4 fact_rows) \<union> {unclassified_row}"
  unfolding failed_row_def by (auto simp: fact_rows_def)

lemma unclassified_facts_row: "fact_row unclassified_facts = unclassified_row"
  by (simp add: fact_row_def unclassified_facts_def unclassified_row_def)

text \<open>Every receipt falls under one of these, with what it says of the receipt.\<close>

lemma classify_obj:
  assumes "classify_operation_receipt receipt = Inr f" "is_obj receipt"
  shows "\<exists>p c e. (jget receipt ''status'' = JStr ''accepted''
        \<and> (\<exists>t. usable_turn_id (jget receipt ''turnId'') = Some t
             \<and> f = facts_of p c e (Some t) (ACCEPTED, DISPATCHED, Send_yes, False, None)))
    \<or> (jget receipt ''status'' = JStr ''failed''
        \<and> f = facts_of p c e None (failed_row c (jget receipt ''resumed'') e))
    \<or> (\<exists>row\<in>set (tl (take 4 fact_rows)). f = facts_of p c e None row)"
proof -
  have rows: "\<And>row. row \<in> {(UNFINISHED, HELD_UNCERTAIN, Send_unknown, False, None),
      (OUTCOME_UNKNOWN, HELD_UNCERTAIN, Send_unknown, False, Some Op_transport), unclassified_row}
      \<Longrightarrow> row \<in> set (tl (take 4 fact_rows))"
    by (auto simp: fact_rows_def unclassified_row_def)
  show ?thesis
    using assms unfolding classify_operation_receipt_def Let_def
    by (simp split: if_splits; blast intro: rows)
qed

lemma classify_cases:
  assumes "classify_operation_receipt receipt = Inr f"
  obtains (accepted) t where "jget receipt ''status'' = JStr ''accepted''"
      "usable_turn_id (jget receipt ''turnId'') = Some t" "turn_id f = Some t"
      "fact_row f = (ACCEPTED, DISPATCHED, Send_yes, False, None)"
    | (failed) "jget receipt ''status'' = JStr ''failed''" "turn_id f = None"
      "fact_row f \<in> set (drop 4 fact_rows)"
    | (uncertain) "turn_id f = None" "fact_row f \<in> set (tl (take 4 fact_rows))"
proof (cases "is_obj receipt")
  case False
  then have "f = unclassified_facts" using assms by (simp add: classify_operation_receipt_def)
  then have "turn_id f = None \<and> fact_row f = unclassified_row"
    using unclassified_facts_row by (simp add: unclassified_facts_def)
  then show thesis by (intro uncertain) (simp_all add: fact_rows_def unclassified_row_def)
next
  case True
  have unc: "unclassified_row \<in> set (tl (take 4 fact_rows))"
    by (simp add: fact_rows_def unclassified_row_def)
  from classify_obj [OF assms True] obtain p c e where
    "(jget receipt ''status'' = JStr ''accepted''
        \<and> (\<exists>t. usable_turn_id (jget receipt ''turnId'') = Some t
             \<and> f = facts_of p c e (Some t) (ACCEPTED, DISPATCHED, Send_yes, False, None)))
    \<or> (jget receipt ''status'' = JStr ''failed''
        \<and> f = facts_of p c e None (failed_row c (jget receipt ''resumed'') e))
    \<or> (\<exists>row\<in>set (tl (take 4 fact_rows)). f = facts_of p c e None row)" by blast
  then show thesis
  proof (elim disjE)
    assume "jget receipt ''status'' = JStr ''accepted''
        \<and> (\<exists>t. usable_turn_id (jget receipt ''turnId'') = Some t
             \<and> f = facts_of p c e (Some t) (ACCEPTED, DISPATCHED, Send_yes, False, None))"
    then show thesis using accepted by fastforce
  next
    assume "jget receipt ''status'' = JStr ''failed''
        \<and> f = facts_of p c e None (failed_row c (jget receipt ''resumed'') e)"
    then show thesis
      using failed_row_cases [of c "jget receipt ''resumed''" e] failed uncertain unc by force
  next
    assume "\<exists>row\<in>set (tl (take 4 fact_rows)). f = facts_of p c e None row"
    then show thesis using uncertain by fastforce
  qed
qed

lemma classify_row:
  "classify_operation_receipt receipt = Inr f \<Longrightarrow> fact_row f \<in> set fact_rows"
  by (erule classify_cases) (auto simp: fact_rows_def)

lemma classify_turn:
  "classify_operation_receipt receipt = Inr f \<Longrightarrow>
    (if delivery_state f = DISPATCHED
     then \<exists>t. jget receipt ''turnId'' = JStr t \<and> t \<noteq> [] \<and> turn_id f = Some t
     else turn_id f = None)"
  by (erule classify_cases)
     (auto simp: fact_rows_def fact_row_def dest: usable_turn_id_Some)

lemma classify_status:
  "classify_operation_receipt receipt = Inr f \<Longrightarrow>
    (transport_receipt_status f = FAILED \<longrightarrow> jget receipt ''status'' = JStr ''failed'')
    \<and> (transport_receipt_status f = ACCEPTED \<longrightarrow> jget receipt ''status'' = JStr ''accepted'')"
  by (erule classify_cases) (auto simp: fact_rows_def fact_row_def)

lemma classify_error:
  "classify_operation_receipt receipt = Inl e \<Longrightarrow>
    e = AttributeError \<and> jtruthy (jget receipt ''rpcError'') \<and> \<not> is_obj (jget receipt ''rpcError'')"
  by (auto simp: classify_operation_receipt_def Let_def split: if_splits)

lemma classify_state:
  "classify_operation_receipt receipt = Inr f \<Longrightarrow>
    delivery_state f \<in> {DISPATCHED, DEFERRED_BUSY, WITHHELD_PRE_SEND, HELD_UNCERTAIN, INBOX_ONLY}"
  by (drule classify_row) (auto simp: fact_row_def fact_rows_def)

lemma classify_retry_safe:
  "classify_operation_receipt receipt = Inr f \<Longrightarrow>
    retry_safe f \<longleftrightarrow> delivery_state f \<in> {DEFERRED_BUSY, WITHHELD_PRE_SEND}"
  by (drule classify_row) (auto simp: fact_row_def fact_rows_def)

lemma classify_turn_id:
  "classify_operation_receipt receipt = Inr f \<Longrightarrow>
    turn_id f \<noteq> None \<longleftrightarrow> delivery_state f = DISPATCHED"
  by (drule classify_turn) (auto split: if_splits)

lemma attempt_record_Inr_iff:
  assumes "classify_operation_receipt receipt = Inr f"
  shows "\<exists>r. attempt_record f q e n p b w rc = Inr r"
  using classify_row [OF assms] classify_turn [OF assms]
  by (auto simp: fact_row_def fact_rows_def attempt_record_def assert_attempt_invariants_def
      Let_def split: if_splits)

lemma attempt_record_fields:
  "attempt_record f q e n p b w rc = Inr r \<Longrightarrow>
     deliveryState r = delivery_state f \<and> attemptNo r = n \<and> retrySafe r = retry_safe f
     \<and> turnId r = turn_id f \<and> failedOperation r = failed_operation f \<and> requestId r = q
     \<and> eventId r = e \<and> observedAt r = w \<and> assert_attempt_invariants r
     \<and> record_reconciliation r = rc"
  by (auto simp: attempt_record_def Let_def split: if_splits)

section \<open>Properties\<close>

text \<open>
  every receipt that classification accepts gives facts whose attempt record satisfies the
  frozen conditional rules, so the assertions before persisting never fire, whatever the host
  returned.
\<close>

theorem classified_record_never_asserts:
  assumes "classify_operation_receipt receipt = Inr facts"
  shows "\<exists>r. attempt_record facts q e n p b w rc = Inr r \<and> assert_attempt_invariants r"
  using attempt_record_Inr_iff [OF assms, of q e n p b w rc] attempt_record_fields by blast

theorem classified_record_never_asserts_witness:
  "\<exists>r. attempt_record unclassified_facts ''q'' ''e'' 1 ''p'' ''idle'' ''now'' None = Inr r
     \<and> assert_attempt_invariants r"
  by (rule classified_record_never_asserts [of JNull])
     (simp add: classify_operation_receipt_def)

text \<open>
  a receipt is retry-safe only when the transport reported a completed failure before any
  turn was started, and a dispatch is only ever read off an accepted receipt carrying a turn id.
\<close>

theorem retry_safe_only_before_send:
  assumes "classify_operation_receipt receipt = Inr facts" and "retry_safe facts"
  shows "jget receipt ''status'' = JStr ''failed'' \<and> send_attempted facts = Send_no
    \<and> failed_operation facts \<in> {Some Op_thread_read, Some Op_thread_resume}
    \<and> delivery_state facts \<in> {DEFERRED_BUSY, WITHHELD_PRE_SEND} \<and> turn_id facts = None"
  using classify_row [OF assms(1)] classify_turn [OF assms(1)] classify_status [OF assms(1)] assms(2)
  by (auto simp: fact_row_def fact_rows_def split: if_splits)

definition busy_receipt :: json where
  "busy_receipt = JObj [(''status'', JStr ''failed''),
     (''rpcError'', JObj [(''code'', JStr ''thread_busy'')])]"

theorem retry_safe_only_before_send_witness:
  "\<exists>f. classify_operation_receipt busy_receipt = Inr f \<and> retry_safe f
     \<and> jget busy_receipt ''status'' = JStr ''failed'' \<and> send_attempted f = Send_no"
proof -
  obtain f where f: "classify_operation_receipt busy_receipt = Inr f" "retry_safe f"
    by (simp add: classify_operation_receipt_def busy_receipt_def Let_def usable_turn_id_def
        failed_row_def facts_of_def)
  from retry_safe_only_before_send [OF f] f show ?thesis by blast
qed

end
