(* ===== verification/Policy.thy ===== *)
theory Policy
  imports Relay_Prelude
begin

text \<open>
  \<^verbatim>\<open>policy.py\<close>: the retry schedules and caps. Seconds are rational; \<^verbatim>\<open>math.ceil(math.log2(x))\<close> is
  the least number of doublings that reaches \<open>x\<close> (floating-point rounding is not modelled).
\<close>

definition ATTEMPT_CAP :: string where "ATTEMPT_CAP = ''attempt_cap''"
definition BUSY_CAP :: string where "BUSY_CAP = ''busy_cap''"
definition PUSH_CHANNEL_CLOSED :: string where "PUSH_CHANNEL_CLOSED = ''push_channel_closed''"
definition SUPERSEDED_HOLD :: string where "SUPERSEDED_HOLD = ''superseded''"
definition RECIPIENT_UNDELIVERABLE :: string where
  "RECIPIENT_UNDELIVERABLE = ''recipient_undeliverable''"

record RetryPolicy =
  busy_base_seconds :: rat
  busy_max_seconds :: rat
  busy_max_attempts :: int
  presend_base_seconds :: rat
  presend_max_seconds :: rat
  max_attempts :: int
  min_send_interval_seconds :: rat
  max_sends_per_recipient_per_hour :: int
  lifecycle_recheck_seconds :: rat
  lease_seconds :: rat
  max_sends_per_parent_per_tick :: nat
  restart_interval_seconds :: rat
  restart_base_seconds :: rat
  restart_backoff_max_seconds :: rat

definition default_policy :: RetryPolicy where
  "default_policy = \<lparr>busy_base_seconds = 15, busy_max_seconds = 300, busy_max_attempts = 40,
     presend_base_seconds = 30, presend_max_seconds = 900, max_attempts = 6,
     min_send_interval_seconds = 5, max_sends_per_recipient_per_hour = 12,
     lifecycle_recheck_seconds = 60, lease_seconds = 300, max_sends_per_parent_per_tick = 2,
     restart_interval_seconds = 2, restart_base_seconds = 2, restart_backoff_max_seconds = 300\<rparr>"

section \<open>Backoff\<close>

text \<open>The number of times \<open>base\<close> must be doubled to reach \<open>cap\<close>.\<close>

function doublings :: "rat \<Rightarrow> rat \<Rightarrow> nat" where
  "doublings base cap =
     (if 0 < base \<and> base < cap then Suc (doublings (2 * base) cap) else 0)"
  by pat_completeness auto

lemma ceiling_div_decreases:
  fixes base cap :: rat
  assumes "0 < base" "base < cap"
  shows "\<lceil>cap / (2 * base)\<rceil> < \<lceil>cap / base\<rceil>"
proof -
  define q where "q = cap / base"
  have q: "1 < q" using assms by (simp add: q_def)
  have half: "cap / (2 * base) = q / 2" by (simp add: q_def)
  have "\<lceil>q / 2\<rceil> < \<lceil>q\<rceil>"
  proof -
    have c: "q \<le> of_int \<lceil>q\<rceil>" by simp
    have ge: "2 \<le> \<lceil>q\<rceil>" using q by linarith
    have "(2::rat) \<le> of_int \<lceil>q\<rceil>" using ge by linarith
    then have "q / 2 \<le> of_int \<lceil>q\<rceil> - 1" using c by linarith
    then have "q / 2 \<le> of_int (\<lceil>q\<rceil> - 1)" by (simp only: of_int_diff of_int_1)
    then have "\<lceil>q / 2\<rceil> \<le> \<lceil>q\<rceil> - 1" by (rule ceiling_le)
    then show ?thesis by simp
  qed
  then show ?thesis unfolding half q_def [symmetric] .
qed

termination doublings
  by (relation "measure (\<lambda>(base, cap). nat \<lceil>cap / base\<rceil>)")
     (auto simp: ceiling_div_decreases)

declare doublings.simps [simp del]

definition restart_delay_for :: "RetryPolicy \<Rightarrow> int \<Rightarrow> rat" where
  "restart_delay_for p consecutive_failures =
     (if consecutive_failures \<le> 0 then restart_interval_seconds p
      else let base = restart_base_seconds p; cap = restart_backoff_max_seconds p
      in if base \<le> 0 \<or> cap \<le> base then cap
         else if int (doublings base cap) \<le> consecutive_failures - 1 then cap
         else min cap (base * 2 ^ nat (consecutive_failures - 1)))"

definition delay_for :: "RetryPolicy \<Rightarrow> int \<Rightarrow> string \<Rightarrow> rat" where
  "delay_for p attempt_no reason =
     (let (base, cap) = (if reason = ''busy''
        then (busy_base_seconds p, busy_max_seconds p)
        else (presend_base_seconds p, presend_max_seconds p))
      in min cap (base * 2 ^ nat (max 0 (attempt_no - 1))))"

definition cap_for :: "RetryPolicy \<Rightarrow> string \<Rightarrow> int" where
  "cap_for p reason = (if reason = ''busy'' then busy_max_attempts p else max_attempts p)"

definition cap_reason :: "string \<Rightarrow> string" where
  "cap_reason reason = (if reason = ''busy'' then BUSY_CAP else ATTEMPT_CAP)"

text \<open>\<^verbatim>\<open>DeliveryService._backoff\<close> in delivery.py, which computes the same schedule behind a guard.\<close>

definition backoff :: "RetryPolicy \<Rightarrow> int \<Rightarrow> rat" where
  "backoff p attempts =
     (let base = presend_base_seconds p; cap = presend_max_seconds p
      in if base \<le> 0 then cap
         else let steps = max 0 (attempts - 1)
         in if cap \<le> base \<or> int (doublings base cap) \<le> steps then cap
            else min cap (base * 2 ^ nat steps))"

section \<open>Lemmas\<close>

lemma doublings_reach: "0 < base \<Longrightarrow> cap \<le> base * 2 ^ doublings base cap"
proof (induction base cap rule: doublings.induct)
  case (1 base cap)
  show ?case
  proof (cases "base < cap")
    case True
    with 1 have "cap \<le> 2 * base * 2 ^ doublings (2 * base) cap" by simp
    with True 1(2) show ?thesis by (simp add: doublings.simps [of base] algebra_simps)
  next
    case False
    then show ?thesis by (simp add: doublings.simps [of base])
  qed
qed

lemma doublings_least: "0 < base \<Longrightarrow> n < doublings base cap \<Longrightarrow> base * 2 ^ n < cap"
proof (induction base cap arbitrary: n rule: doublings.induct)
  case (1 base cap)
  then have lt: "base < cap" and n: "n < Suc (doublings (2 * base) cap)"
    by (auto simp: doublings.simps [of base cap] split: if_splits)
  show ?case
  proof (cases n)
    case 0
    with lt show ?thesis by simp
  next
    case (Suc m)
    with 1(1) [of m] 1(2) lt n show ?thesis by (simp add: algebra_simps)
  qed
qed

lemma doublings_enough:
  assumes "0 < base" "doublings base cap \<le> n"
  shows "cap \<le> base * 2 ^ n"
proof -
  have "(2::rat) ^ doublings base cap \<le> 2 ^ n"
    using assms(2) by (simp add: power_increasing)
  then have "base * 2 ^ doublings base cap \<le> base * 2 ^ n"
    using assms(1) by simp
  with doublings_reach [OF assms(1), of cap] show ?thesis by simp
qed

lemma restart_delay_plain:
  assumes "0 < restart_base_seconds p" "1 \<le> n"
    and "restart_base_seconds p \<le> restart_backoff_max_seconds p"
  shows "restart_delay_for p n =
    min (restart_backoff_max_seconds p) (restart_base_seconds p * 2 ^ nat (n - 1))"
proof -
  have "restart_backoff_max_seconds p \<le> restart_base_seconds p * 2 ^ nat (n - 1)"
    if "int (doublings (restart_base_seconds p) (restart_backoff_max_seconds p)) \<le> n - 1"
    using that by (intro doublings_enough assms) linarith
  moreover have "restart_base_seconds p \<le> restart_base_seconds p * 2 ^ nat (n - 1)"
    using assms(1) by simp
  ultimately show ?thesis
    using assms by (auto simp: restart_delay_for_def Let_def min_def)
qed

section \<open>Properties\<close>

text \<open>
  the delay after a failed attempt grows with the attempt number and never passes the
  cap of its schedule.
\<close>

theorem delay_for_monotone_capped:
  assumes "0 \<le> busy_base_seconds p" and "0 \<le> presend_base_seconds p" and "m \<le> n"
  shows "delay_for p m reason \<le> delay_for p n reason
    \<and> delay_for p n reason \<le> (if reason = ''busy'' then busy_max_seconds p else presend_max_seconds p)"
proof -
  have "(2::rat) ^ nat (max 0 (m - 1)) \<le> 2 ^ nat (max 0 (n - 1))"
    using assms(3) by (intro power_increasing) auto
  then have "b * 2 ^ nat (max 0 (m - 1)) \<le> b * 2 ^ nat (max 0 (n - 1))" if "0 \<le> b" for b :: rat
    using that by (rule mult_left_mono)
  with assms(1,2) show ?thesis
    by (auto simp: delay_for_def Let_def intro: min.coboundedI2)
qed

theorem delay_for_monotone_capped_witness:
  "delay_for default_policy 2 ''busy'' \<le> delay_for default_policy 9 ''busy''
    \<and> delay_for default_policy 9 ''busy'' \<le> 300"
  using delay_for_monotone_capped [of default_policy 2 9 "''busy''"]
  by (simp add: default_policy_def)

text \<open>
  the guarded backoff of delivery intents, which tests the number of doublings before it
  evaluates a power, is the plain capped exponential: the guard changes no result.
\<close>

theorem backoff_eq_plain:
  assumes "0 < presend_base_seconds p" and "presend_base_seconds p \<le> presend_max_seconds p"
  shows "backoff p n = delay_for p n ''presend''"
proof -
  let ?b = "presend_base_seconds p" and ?c = "presend_max_seconds p" and ?s = "max 0 (n - 1)"
  have "?c \<le> ?b * 2 ^ nat ?s" if "int (doublings ?b ?c) \<le> ?s"
    using that by (intro doublings_enough assms) linarith
  moreover have "?b \<le> ?b * 2 ^ nat ?s" using assms(1) by simp
  ultimately show ?thesis
    using assms by (auto simp: backoff_def delay_for_def Let_def min_def)
qed

theorem backoff_eq_plain_witness: "backoff default_policy 4 = delay_for default_policy 4 ''presend''"
  using backoff_eq_plain [of default_policy 4] by (simp add: default_policy_def)

end
