(* ===== verification/Store.thy ===== *)
theory Store
  imports Transport Policy
begin

text \<open>
  \<^verbatim>\<open>store.py\<close>: the tables of the relay's SQLite database, one record type per table and one field
  per column. A nullable column is an option; a column that holds JSON holds the decoded value.
  Columns that hold only prose for an operator (\<^verbatim>\<open>detail\<close> of refusals, failures and lifecycle rows)
  are left out, and so are the tables no modelled operation touches.

  An operation that runs inside \<^verbatim>\<open>with store.transaction()\<close> has type \<open>db \<Rightarrow> err + db \<times> 'a\<close>: \<^term>\<open>Inl\<close>
  is the exception that rolled the transaction back, so no partial write is ever visible.
\<close>

section \<open>Rows\<close>

record relationship_row =
  r_id :: string
  r_issue_key :: string
  r_status :: string
  r_parent_task :: string
  r_parent_host :: string
  r_parent_cwd :: "string option"
  r_parent_cxc :: "string option"
  r_child_task :: string
  r_child_host :: string
  r_child_cwd :: "string option"
  r_child_cxc :: "string option"
  r_generation :: int
  r_artifact_roots :: "string list"
  r_allowed_recipients :: "string list"
  r_scope_ref :: "string option"
  r_supersedes :: "string option"
  r_superseded_by :: "string option"
  r_created_at :: string
  r_updated_at :: string

datatype anchor_state = ANCHOR_BOUND | ANCHOR_PENDING

record generation_row =
  g_rel :: string
  g_no :: int
  g_dispatch_request :: string
  g_anchor_state :: anchor_state
  g_dispatch_turn :: "string option"
  g_reason :: string
  g_opened_at :: string
  g_bound_at :: "string option"

datatype event_stage = STAGED | FINAL | SUPPRESSED

record event_row =
  e_id :: string
  e_rel :: string
  e_gen :: int
  e_hash :: string
  e_outcome :: string
  e_producer :: string
  e_attempt :: "int option"
  e_thread :: string
  e_turn :: string
  e_turn_status :: string
  e_receipt :: json
  e_manifest_ref :: "string option"
  e_binding_mode :: "string option"
  e_stage :: event_stage
  e_staged_at :: "string option"
  e_finalized_at :: "string option"
  e_finalizing_status :: "string option"
  e_suppressed_reason :: "string option"
  e_first_seen_at :: string
  e_last_seen_at :: string
  e_observation_count :: int

record observation_row =
  o_thread :: string
  o_turn :: string
  o_terminal_status :: string
  o_rel :: "string option"
  o_classification :: string
  o_event :: "string option"
  o_observed_at :: string

record settlement_row =
  s_rel :: string
  s_thread :: string
  s_turn :: string
  s_terminal_status :: string
  s_settled_at :: string

record refusal_row =
  rf_at :: string
  rf_rel :: json
  rf_event :: json
  rf_reason :: RefusalReason

record delivery_row =
  d_event :: string
  d_rel :: string
  d_kind :: string
  d_recipient_task :: string
  d_recipient_thread :: string
  d_state :: delivery_state
  d_attempt_count :: int
  d_next_eligible_at :: "rat option"
  d_hold_reason :: "string option"
  d_lease_owner :: "string option"
  d_lease_until :: "rat option"
  d_dispatch_evidence :: "string option"
  d_dispatch_turn :: "string option"
  d_created_at :: string
  d_updated_at :: string

datatype internal_state = IN_FLIGHT | SETTLED

record attempt_row =
  a_request :: string
  a_event :: string
  a_no :: int
  a_kind :: string
  a_internal_state :: internal_state
  a_state :: "delivery_state option"
  a_record :: "AttemptRecord option"
  a_operation_observation :: "string option"
  a_recipient_scan :: "string option"
  a_affirmative_evidence :: "evidence option"
  a_reconciled_at :: "string option"
  a_sent_at :: "string option"
  a_observed_at :: string

record message_row =
  m_request :: string
  m_event :: string
  m_attempt_no :: int
  m_kind :: string
  m_message :: string
  m_rendered_at :: string

record settings_row =
  st_task :: string
  st_settings :: json
  st_source :: string
  st_recorded_at :: string

record violation_row =
  v_request :: string
  v_event :: string
  v_findings :: json
  v_observed_at :: string

record lineage_row =
  l_rel :: string
  l_gen :: int
  l_event :: string
  l_hash :: string
  l_supersedes_hash :: "string option"
  l_declared_by :: string
  l_recorded_at :: string

record criterion_row =
  c_rel :: string
  c_id :: string
  c_title :: string
  c_required :: bool
  c_source_ref :: "string option"
  c_set_digest :: string
  c_recorded_at :: string

record mode_row =
  md_rel :: string
  md_mode :: string
  md_recorded_at :: string

record claim_context_row =
  cc_event :: string
  cc_set_digest :: "string option"
  cc_bound_at :: string

record verdict_context_row =
  vc_event :: string
  vc_set_digest :: "string option"
  vc_coverage :: string
  vc_findings :: json
  vc_reason :: "string option"
  vc_currency :: string
  vc_head_event :: "string option"
  vc_head_revision :: "string option"
  vc_ack_evidence :: string
  vc_recorded_at :: string

record work_report_row =
  w_event :: string
  w_submission_no :: int
  w_rel :: string
  w_gen :: int
  w_hash :: string
  w_repository :: string
  w_pr_number :: "int option"
  w_pr_url :: "string option"
  w_pr_state :: "string option"
  w_base_ref :: "string option"
  w_base_sha :: "string option"
  w_head_sha :: "string option"
  w_criteria_digest :: "string option"
  w_cxc_status :: string
  w_cxc_reason :: string
  w_contract_version :: string
  w_summary :: string
  w_evidence :: "json list"
  w_unresolved :: "json list"
  w_next_action :: string
  w_review :: "json option"
  w_restore :: "(string \<times> json) list"
  w_recorded_at :: string

record report_submission_row =
  rs_request :: string
  rs_event :: string
  rs_submission_no :: int
  rs_frozen_at :: string

record ack_evidence_row =
  ae_event :: string
  ae_tier :: string
  ae_attempts :: int
  ae_last_reason :: "string option"
  ae_fingerprint :: "string option"
  ae_next_check_at :: "rat option"
  ae_observed_at :: string

record ack_row =
  k_event :: string
  k_record :: json
  k_ack_turn :: string
  k_accepted :: bool
  k_verified :: string
  k_rejection_reason :: "string option"
  k_ack_at :: string

record verdict_row =
  vd_event :: string
  vd_record :: json
  vd_verdict :: string
  vd_next_generation :: "int option"
  vd_verdict_turn :: string
  vd_decided_at :: string

record claim_row =
  cl_event :: string
  cl_turn :: "string option"
  cl_claimed_at :: string

record generation_turn_row =
  gt_rel :: string
  gt_gen :: int
  gt_turn :: string
  gt_evidence :: string
  gt_actor :: string
  gt_admitted_at :: string

record rate_row =
  rt_recipient :: string
  rt_window_start :: int
  rt_sends :: int
  rt_last_send_at :: "rat option"

record lifecycle_row =
  lc_task :: string
  lc_runtime_status :: "string option"
  lc_archived :: "bool option"
  lc_goal_status :: "string option"
  lc_can_accept_input :: "bool option"
  lc_deliverable :: string
  lc_withhold_reason :: "string option"
  lc_observed_at :: string

record journal_row =
  j_at :: string
  j_kind :: string
  j_subject :: string
  j_detail :: json

record intent_row =
  i_event :: string
  i_rel :: string
  i_kind :: string
  i_recipient :: string
  i_attempts :: int
  i_next_retry_at :: "rat option"
  i_noted_at :: string

record supersession_row =
  ss_event :: string
  ss_reason :: string
  ss_noted_at :: string
  ss_applied :: bool

record failure_row =
  f_scope :: string
  f_operation :: string
  f_rel :: "string option"
  f_parent :: "string option"
  f_error_code :: json
  f_retry_safe :: "bool option"
  f_occurred_at :: string
  f_next_retry_at :: "rat option"

section \<open>The database\<close>

record db =
  relationships :: "relationship_row list"
  generations :: "generation_row list"
  events :: "event_row list"
  observations :: "observation_row list"
  settlements :: "settlement_row list"
  refusals :: "refusal_row list"
  deliveries :: "delivery_row list"
  attempts :: "attempt_row list"
  attempt_messages :: "message_row list"
  authorized_settings :: "settings_row list"
  settings_violations :: "violation_row list"
  revision_lineage :: "lineage_row list"
  canonical_criteria :: "criterion_row list"
  verification_modes :: "mode_row list"
  claim_contexts :: "claim_context_row list"
  verdict_contexts :: "verdict_context_row list"
  work_reports :: "work_report_row list"
  report_submissions :: "report_submission_row list"
  ack_evidences :: "ack_evidence_row list"
  acks :: "ack_row list"
  verdicts :: "verdict_row list"
  verification_claims :: "claim_row list"
  generation_turns :: "generation_turn_row list"
  recipient_rates :: "rate_row list"
  recipient_lifecycles :: "lifecycle_row list"
  journal :: "journal_row list"
  delivery_intents :: "intent_row list"
  supersessions :: "supersession_row list"
  failed_operations :: "failure_row list"

definition empty_db :: db where
  "empty_db = \<lparr>relationships = [], generations = [], events = [], observations = [],
     settlements = [], refusals = [], deliveries = [], attempts = [], attempt_messages = [],
     authorized_settings = [], settings_violations = [], revision_lineage = [],
     canonical_criteria = [], verification_modes = [], claim_contexts = [], verdict_contexts = [],
     work_reports = [], report_submissions = [], ack_evidences = [], acks = [], verdicts = [],
     verification_claims = [], generation_turns = [], recipient_rates = [],
     recipient_lifecycles = [], journal = [], delivery_intents = [], supersessions = [],
     failed_operations = []\<rparr>"

definition journal_entry :: "string \<Rightarrow> string \<Rightarrow> json \<Rightarrow> string \<Rightarrow> db \<Rightarrow> db" where
  "journal_entry kind subject detail stamp db = db\<lparr>journal := journal db @
     [\<lparr>j_at = stamp, j_kind = kind, j_subject = subject, j_detail = detail\<rparr>]\<rparr>"

section \<open>Lookups by key\<close>

definition find_relationship :: "relationship_row list \<Rightarrow> string \<Rightarrow> relationship_row option" where
  "find_relationship t rid = List.find (\<lambda>x. r_id x = rid) t"

definition find_event :: "event_row list \<Rightarrow> string \<Rightarrow> event_row option" where
  "find_event t ev = List.find (\<lambda>x. e_id x = ev) t"

definition find_delivery :: "delivery_row list \<Rightarrow> string \<Rightarrow> delivery_row option" where
  "find_delivery t ev = List.find (\<lambda>x. d_event x = ev) t"

definition find_attempt :: "attempt_row list \<Rightarrow> string \<Rightarrow> attempt_row option" where
  "find_attempt t rq = List.find (\<lambda>x. a_request x = rq) t"

definition find_ack :: "ack_row list \<Rightarrow> string \<Rightarrow> ack_row option" where
  "find_ack t ev = List.find (\<lambda>x. k_event x = ev) t"

definition find_verdict :: "verdict_row list \<Rightarrow> string \<Rightarrow> verdict_row option" where
  "find_verdict t ev = List.find (\<lambda>x. vd_event x = ev) t"

definition find_claim :: "claim_row list \<Rightarrow> string \<Rightarrow> claim_row option" where
  "find_claim t ev = List.find (\<lambda>x. cl_event x = ev) t"

definition find_ack_evidence :: "ack_evidence_row list \<Rightarrow> string \<Rightarrow> ack_evidence_row option" where
  "find_ack_evidence t ev = List.find (\<lambda>x. ae_event x = ev) t"

definition find_intent :: "intent_row list \<Rightarrow> string \<Rightarrow> intent_row option" where
  "find_intent t ev = List.find (\<lambda>x. i_event x = ev) t"

definition find_generation :: "generation_row list \<Rightarrow> string \<Rightarrow> int \<Rightarrow> generation_row option" where
  "find_generation t rid n = List.find (\<lambda>g. g_rel g = rid \<and> g_no g = n) t"

abbreviation relationship_of :: "db \<Rightarrow> string \<Rightarrow> relationship_row option" where
  "relationship_of db rid \<equiv> find_relationship (relationships db) rid"

abbreviation event_of :: "db \<Rightarrow> string \<Rightarrow> event_row option" where
  "event_of db ev \<equiv> find_event (events db) ev"

abbreviation delivery_of :: "db \<Rightarrow> string \<Rightarrow> delivery_row option" where
  "delivery_of db ev \<equiv> find_delivery (deliveries db) ev"

abbreviation attempt_of :: "db \<Rightarrow> string \<Rightarrow> attempt_row option" where
  "attempt_of db rq \<equiv> find_attempt (attempts db) rq"

abbreviation ack_of :: "db \<Rightarrow> string \<Rightarrow> ack_row option" where
  "ack_of db ev \<equiv> find_ack (acks db) ev"

abbreviation verdict_of :: "db \<Rightarrow> string \<Rightarrow> verdict_row option" where
  "verdict_of db ev \<equiv> find_verdict (verdicts db) ev"

abbreviation claim_of :: "db \<Rightarrow> string \<Rightarrow> claim_row option" where
  "claim_of db ev \<equiv> find_claim (verification_claims db) ev"

abbreviation ack_evidence_of :: "db \<Rightarrow> string \<Rightarrow> ack_evidence_row option" where
  "ack_evidence_of db ev \<equiv> find_ack_evidence (ack_evidences db) ev"

abbreviation intent_of :: "db \<Rightarrow> string \<Rightarrow> intent_row option" where
  "intent_of db ev \<equiv> find_intent (delivery_intents db) ev"

abbreviation generation_row_of :: "db \<Rightarrow> string \<Rightarrow> int \<Rightarrow> generation_row option" where
  "generation_row_of db rid n \<equiv> find_generation (generations db) rid n"

lemmas lookup_defs = find_relationship_def find_event_def find_delivery_def find_attempt_def
  find_ack_def find_verdict_def find_claim_def find_ack_evidence_def find_intent_def
  find_generation_def

text \<open>
  A row a lookup returns is a row of the table with that key, and an update that keeps keys is seen
  through the lookup.
\<close>

lemma lookup_mem:
  "find_relationship t0 rid = Some x0 \<Longrightarrow> x0 \<in> set t0 \<and> r_id x0 = rid"
  "find_event t1 ev = Some x1 \<Longrightarrow> x1 \<in> set t1 \<and> e_id x1 = ev"
  "find_delivery t2 ev = Some x2 \<Longrightarrow> x2 \<in> set t2 \<and> d_event x2 = ev"
  "find_attempt t3 rq = Some x3 \<Longrightarrow> x3 \<in> set t3 \<and> a_request x3 = rq"
  "find_ack t4 ev = Some x4 \<Longrightarrow> x4 \<in> set t4 \<and> k_event x4 = ev"
  "find_verdict t5 ev = Some x5 \<Longrightarrow> x5 \<in> set t5 \<and> vd_event x5 = ev"
  "find_claim t6 ev = Some x6 \<Longrightarrow> x6 \<in> set t6 \<and> cl_event x6 = ev"
  "find_ack_evidence t7 ev = Some x7 \<Longrightarrow> x7 \<in> set t7 \<and> ae_event x7 = ev"
  "find_intent t8 ev = Some x8 \<Longrightarrow> x8 \<in> set t8 \<and> i_event x8 = ev"
  "find_generation t9 rid n = Some x9 \<Longrightarrow> x9 \<in> set t9 \<and> g_rel x9 = rid \<and> g_no x9 = n"
  by (auto simp: lookup_defs dest: find_Some_iff_mem)

lemma find_update [simp]:
  "(\<And>x. r_id (f0 x) = r_id x) \<Longrightarrow>
     find_relationship (update_where P0 f0 t0) rid =
       map_option (\<lambda>x. if P0 x then f0 x else x) (find_relationship t0 rid)"
  "(\<And>x. e_id (f1 x) = e_id x) \<Longrightarrow>
     find_event (update_where P1 f1 t1) ev =
       map_option (\<lambda>x. if P1 x then f1 x else x) (find_event t1 ev)"
  "(\<And>x. d_event (f2 x) = d_event x) \<Longrightarrow>
     find_delivery (update_where P2 f2 t2) ev =
       map_option (\<lambda>x. if P2 x then f2 x else x) (find_delivery t2 ev)"
  "(\<And>x. a_request (f3 x) = a_request x) \<Longrightarrow>
     find_attempt (update_where P3 f3 t3) rq =
       map_option (\<lambda>x. if P3 x then f3 x else x) (find_attempt t3 rq)"
  "(\<And>x. k_event (f4 x) = k_event x) \<Longrightarrow>
     find_ack (update_where P4 f4 t4) ev =
       map_option (\<lambda>x. if P4 x then f4 x else x) (find_ack t4 ev)"
  "(\<And>x. vd_event (f5 x) = vd_event x) \<Longrightarrow>
     find_verdict (update_where P5 f5 t5) ev =
       map_option (\<lambda>x. if P5 x then f5 x else x) (find_verdict t5 ev)"
  "(\<And>x. cl_event (f6 x) = cl_event x) \<Longrightarrow>
     find_claim (update_where P6 f6 t6) ev =
       map_option (\<lambda>x. if P6 x then f6 x else x) (find_claim t6 ev)"
  "(\<And>x. ae_event (f7 x) = ae_event x) \<Longrightarrow>
     find_ack_evidence (update_where P7 f7 t7) ev =
       map_option (\<lambda>x. if P7 x then f7 x else x) (find_ack_evidence t7 ev)"
  "(\<And>x. i_event (f8 x) = i_event x) \<Longrightarrow>
     find_intent (update_where P8 f8 t8) ev =
       map_option (\<lambda>x. if P8 x then f8 x else x) (find_intent t8 ev)"
  by (simp_all add: lookup_defs find_update_where_hit)

lemma find_append [simp]:
  "find_relationship (t0 @ [x0]) rid =
     (case find_relationship t0 rid of None \<Rightarrow> if r_id x0 = rid then Some x0 else None | Some y \<Rightarrow> Some y)"
  "find_event (t1 @ [x1]) ev =
     (case find_event t1 ev of None \<Rightarrow> if e_id x1 = ev then Some x1 else None | Some y \<Rightarrow> Some y)"
  "find_delivery (t2 @ [x2]) ev =
     (case find_delivery t2 ev of None \<Rightarrow> if d_event x2 = ev then Some x2 else None | Some y \<Rightarrow> Some y)"
  "find_attempt (t3 @ [x3]) rq =
     (case find_attempt t3 rq of None \<Rightarrow> if a_request x3 = rq then Some x3 else None | Some y \<Rightarrow> Some y)"
  "find_ack (t4 @ [x4]) ev =
     (case find_ack t4 ev of None \<Rightarrow> if k_event x4 = ev then Some x4 else None | Some y \<Rightarrow> Some y)"
  "find_verdict (t5 @ [x5]) ev =
     (case find_verdict t5 ev of None \<Rightarrow> if vd_event x5 = ev then Some x5 else None | Some y \<Rightarrow> Some y)"
  "find_claim (t6 @ [x6]) ev =
     (case find_claim t6 ev of None \<Rightarrow> if cl_event x6 = ev then Some x6 else None | Some y \<Rightarrow> Some y)"
  "find_ack_evidence (t7 @ [x7]) ev =
     (case find_ack_evidence t7 ev of None \<Rightarrow> if ae_event x7 = ev then Some x7 else None | Some y \<Rightarrow> Some y)"
  "find_intent (t8 @ [x8]) ev =
     (case find_intent t8 ev of None \<Rightarrow> if i_event x8 = ev then Some x8 else None | Some y \<Rightarrow> Some y)"
  by (simp_all add: lookup_defs find_snoc)

lemma find_None_key:
  "find_relationship t0 rid = None \<longleftrightarrow> rid \<notin> r_id ` set t0"
  "find_event t1 ev = None \<longleftrightarrow> ev \<notin> e_id ` set t1"
  "find_delivery t2 ev = None \<longleftrightarrow> ev \<notin> d_event ` set t2"
  "find_attempt t3 rq = None \<longleftrightarrow> rq \<notin> a_request ` set t3"
  "find_ack t4 ev = None \<longleftrightarrow> ev \<notin> k_event ` set t4"
  "find_verdict t5 ev = None \<longleftrightarrow> ev \<notin> vd_event ` set t5"
  "find_claim t6 ev = None \<longleftrightarrow> ev \<notin> cl_event ` set t6"
  "find_ack_evidence t7 ev = None \<longleftrightarrow> ev \<notin> ae_event ` set t7"
  "find_intent t8 ev = None \<longleftrightarrow> ev \<notin> i_event ` set t8"
  by (auto simp: lookup_defs find_None_iff_none)

section \<open>Journalling touches nothing else\<close>

lemma journal_entry_select [simp]:
  "relationships (journal_entry k s d t db) = relationships db"
  "generations (journal_entry k s d t db) = generations db"
  "events (journal_entry k s d t db) = events db"
  "observations (journal_entry k s d t db) = observations db"
  "settlements (journal_entry k s d t db) = settlements db"
  "deliveries (journal_entry k s d t db) = deliveries db"
  "attempts (journal_entry k s d t db) = attempts db"
  "attempt_messages (journal_entry k s d t db) = attempt_messages db"
  "authorized_settings (journal_entry k s d t db) = authorized_settings db"
  "revision_lineage (journal_entry k s d t db) = revision_lineage db"
  "canonical_criteria (journal_entry k s d t db) = canonical_criteria db"
  "verification_modes (journal_entry k s d t db) = verification_modes db"
  "claim_contexts (journal_entry k s d t db) = claim_contexts db"
  "verdict_contexts (journal_entry k s d t db) = verdict_contexts db"
  "ack_evidences (journal_entry k s d t db) = ack_evidences db"
  "acks (journal_entry k s d t db) = acks db"
  "verdicts (journal_entry k s d t db) = verdicts db"
  "verification_claims (journal_entry k s d t db) = verification_claims db"
  "generation_turns (journal_entry k s d t db) = generation_turns db"
  "recipient_rates (journal_entry k s d t db) = recipient_rates db"
  "delivery_intents (journal_entry k s d t db) = delivery_intents db"
  "supersessions (journal_entry k s d t db) = supersessions db"
  "work_reports (journal_entry k s d t db) = work_reports db"
  by (simp_all add: journal_entry_def)

end
