(* ===== verification/Sha256.thy ===== *)
theory Sha256
  imports Relay_Prelude "HOL-Library.Word"
begin

text \<open>
  \<^verbatim>\<open>hashlib.sha256(text.encode("utf-8")).hexdigest()\<close>: the UTF-8 encoding of code points below
  256, the padding, message schedule and compression function of FIPS 180-4 on 32-bit words, and
  the lowercase hexadecimal rendering of the digest. The locale \<open>hex_digest\<close> is what the
  identity module relies on (64 lowercase hexadecimal characters); the function is its
  interpretation.
\<close>

unbundle bit_operations_syntax

type_synonym w32 = "32 word"

section \<open>The interface the identity module relies on\<close>

locale hex_digest =
  fixes digest :: "string \<Rightarrow> string"
  assumes digest_length: "length (digest s) = 64"
    and digest_hex: "list_all is_hex (digest s)"
begin

lemma take_digest_hex: "n \<le> 64 \<Longrightarrow> length (take n (digest s)) = n \<and> list_all is_hex (take n (digest s))"
  using digest_hex [of s] by (auto simp: digest_length list_all_iff dest: in_set_takeD)

lemma take_digest_re: "n \<le> 64 \<Longrightarrow> re_hex n (take n (digest s))"
  using take_digest_hex by (blast intro: re_hex_exact)

lemma digest_re: "re_hex 64 (digest s)"
  by (rule re_hex_exact [OF digest_length digest_hex])

end

section \<open>The compression function\<close>

definition sha_K :: "w32 list" where
  "sha_K = [
    1116352408, 1899447441, 3049323471, 3921009573, 961987163, 1508970993, 2453635748, 2870763221,
    3624381080, 310598401, 607225278, 1426881987, 1925078388, 2162078206, 2614888103, 3248222580,
    3835390401, 4022224774, 264347078, 604807628, 770255983, 1249150122, 1555081692, 1996064986,
    2554220882, 2821834349, 2952996808, 3210313671, 3336571891, 3584528711, 113926993, 338241895,
    666307205, 773529912, 1294757372, 1396182291, 1695183700, 1986661051, 2177026350, 2456956037,
    2730485921, 2820302411, 3259730800, 3345764771, 3516065817, 3600352804, 4094571909, 275423344,
    430227734, 506948616, 659060556, 883997877, 958139571, 1322822218, 1537002063, 1747873779,
    1955562222, 2024104815, 2227730452, 2361852424, 2428436474, 2756734187, 3204031479, 3329325298]"

definition sha_H0 :: "w32 list" where
  "sha_H0 = [1779033703, 3144134277, 1013904242, 2773480762, 1359893119, 2600822924, 528734635,
    1541459225]"

definition sha_rotr :: "nat \<Rightarrow> w32 \<Rightarrow> w32" where
  "sha_rotr n x = drop_bit n x OR push_bit (32 - n) x"

definition sha_ch :: "w32 \<Rightarrow> w32 \<Rightarrow> w32 \<Rightarrow> w32" where
  "sha_ch x y z = (x AND y) XOR (NOT x AND z)"

definition sha_maj :: "w32 \<Rightarrow> w32 \<Rightarrow> w32 \<Rightarrow> w32" where
  "sha_maj x y z = (x AND y) XOR (x AND z) XOR (y AND z)"

definition sha_S0 :: "w32 \<Rightarrow> w32" where
  "sha_S0 x = sha_rotr 2 x XOR sha_rotr 13 x XOR sha_rotr 22 x"

definition sha_S1 :: "w32 \<Rightarrow> w32" where
  "sha_S1 x = sha_rotr 6 x XOR sha_rotr 11 x XOR sha_rotr 25 x"

definition sha_s0 :: "w32 \<Rightarrow> w32" where
  "sha_s0 x = sha_rotr 7 x XOR sha_rotr 18 x XOR drop_bit 3 x"

definition sha_s1 :: "w32 \<Rightarrow> w32" where
  "sha_s1 x = sha_rotr 17 x XOR sha_rotr 19 x XOR drop_bit 10 x"

text \<open>The schedule is built newest word first.\<close>

primrec sha_extend :: "nat \<Rightarrow> w32 list \<Rightarrow> w32 list" where
  "sha_extend 0 ws = ws"
| "sha_extend (Suc n) ws =
     sha_extend n ((sha_s1 (ws ! 1) + ws ! 6 + sha_s0 (ws ! 14) + ws ! 15) # ws)"

definition sha_schedule :: "w32 list \<Rightarrow> w32 list" where
  "sha_schedule block = rev (sha_extend 48 (rev block))"

fun sha_round :: "w32 list \<Rightarrow> w32 \<times> w32 \<Rightarrow> w32 list" where
  "sha_round [a, b, c, d, e, f, g, h] (k, w) =
     (let t1 = h + sha_S1 e + sha_ch e f g + k + w;
          t2 = sha_S0 a + sha_maj a b c
      in [t1 + t2, a, b, c, d + t1, e, f, g])"
| "sha_round st _ = st"

definition sha_compress :: "w32 list \<Rightarrow> w32 list \<Rightarrow> w32 list" where
  "sha_compress st block =
     map2 (+) st (foldl sha_round st (zip sha_K (sha_schedule block)))"

section \<open>Encoding, padding and rendering\<close>

definition utf8 :: "string \<Rightarrow> nat list" where
  "utf8 s = concat (map (\<lambda>c. let n = of_char c in
     if n < 128 then [n] else [192 + n div 64, 128 + n mod 64]) s)"

primrec be_bytes :: "nat \<Rightarrow> nat \<Rightarrow> nat list" where
  "be_bytes 0 n = []"
| "be_bytes (Suc k) n = be_bytes k (n div 256) @ [n mod 256]"

definition sha_pad :: "nat list \<Rightarrow> nat list" where
  "sha_pad m = m @ [128] @ replicate ((119 - length m mod 64) mod 64) 0
     @ be_bytes 8 (8 * length m)"

primrec sha_group :: "nat \<Rightarrow> nat \<Rightarrow> 'a list \<Rightarrow> 'a list list" where
  "sha_group k 0 xs = []"
| "sha_group k (Suc n) xs = take k xs # sha_group k n (drop k xs)"

definition sha_block :: "nat list \<Rightarrow> w32 list" where
  "sha_block bs = map (\<lambda>g. of_nat (foldl (\<lambda>a b. 256 * a + b) 0 g)) (sha_group 4 16 bs)"

primrec hex_word :: "nat \<Rightarrow> nat \<Rightarrow> string" where
  "hex_word 0 n = []"
| "hex_word (Suc k) n = hex_word k (n div 16) @ [hex_digit (n mod 16)]"

definition sha256 :: "nat list \<Rightarrow> w32 list" where
  "sha256 m = (let p = sha_pad m
     in foldl sha_compress sha_H0 (map sha_block (sha_group 64 (length p div 64) p)))"

definition sha256_hex :: "string \<Rightarrow> string" where
  "sha256_hex s = concat (map (\<lambda>w. hex_word 8 (unat w)) (sha256 (utf8 s)))"

section \<open>Its shape\<close>

lemma length_hex_word [simp]: "length (hex_word k n) = k"
  by (induction k arbitrary: n) auto

lemma hex_word_hex: "list_all is_hex (hex_word k n)"
  by (induction k arbitrary: n) (auto intro: hex_digit_is_hex)

lemma length_sha_round: "length st = 8 \<Longrightarrow> length (sha_round st kw) = 8"
  by (cases "(st, kw)" rule: sha_round.cases) (auto simp: Let_def)

lemma length_sha_rounds: "length st = 8 \<Longrightarrow> length (foldl sha_round st kws) = 8"
  by (induction kws arbitrary: st) (auto simp: length_sha_round)

lemma length_sha_compress: "length st = 8 \<Longrightarrow> length (sha_compress st b) = 8"
  by (simp add: sha_compress_def length_sha_rounds)

lemma length_sha_blocks: "length st = 8 \<Longrightarrow> length (foldl sha_compress st bs) = 8"
  by (induction bs arbitrary: st) (auto simp: length_sha_compress)

lemma length_sha256: "length (sha256 m) = 8"
  by (simp add: sha256_def Let_def length_sha_blocks sha_H0_def)

lemma length_concat_hex: "length (concat (map (\<lambda>w. hex_word 8 (unat w)) ws)) = 8 * length ws"
  by (induction ws) auto

lemma concat_hex: "list_all is_hex (concat (map (\<lambda>w. hex_word 8 (unat w)) ws))"
  by (induction ws) (auto simp: hex_word_hex)

interpretation sha: hex_digest sha256_hex
  by unfold_locales (simp_all add: sha256_hex_def length_concat_hex length_sha256 concat_hex)

end
