(* ===== verification/Identity.thy ===== *)
theory Identity
  imports Sha256
begin

text \<open>
  \<^verbatim>\<open>identity.py\<close>: every identifier of the protocol. A derivation is a string of fields joined by
  a pipe, hashed and truncated; the model names the string (\<open>relationship_payload\<close>,
  \<open>event_payload\<close>, ...) so that the lemmas can say when two identifiers are derived from one
  string. A \<^verbatim>\<open>ValueError\<close> of the code is \<^term>\<open>Inl ValueError\<close>.
\<close>

section \<open>Constants and patterns\<close>

definition NO_DELIVERABLE :: string where
  "NO_DELIVERABLE = replicate 64 (CHR ''0'')"

definition READY_FOR_REVIEW :: string where
  "READY_FOR_REVIEW = ''ready_for_review''"

definition OUTCOMES :: "string list" where
  "OUTCOMES = [''ready_for_review'', ''failed'', ''interrupted'', ''blocked_needs_input'']"

definition EVENT_ID_RE :: "string \<Rightarrow> bool" where
  "EVENT_ID_RE s = re_hex 32 s"

definition DIGEST_RE :: "string \<Rightarrow> bool" where
  "DIGEST_RE s = re_hex 64 s"

abbreviation bar :: "string \<Rightarrow> bool" where
  "bar s \<equiv> CHR ''|'' \<in> set s"

section \<open>Derivations\<close>

definition relationship_payload :: "string \<Rightarrow> string \<Rightarrow> string \<Rightarrow> string" where
  "relationship_payload parent child issue = parent @ ''|'' @ child @ ''|'' @ issue"

definition relationship_id :: "string \<Rightarrow> string \<Rightarrow> string \<Rightarrow> err + string" where
  "relationship_id parent_task_id child_task_id issue_key =
     (if list_ex (\<lambda>value. blank value \<or> bar value) [parent_task_id, child_task_id, issue_key]
      then Inl ValueError
      else Inr (''rel-'' @ take 16 (sha256_hex
             (relationship_payload parent_task_id child_task_id issue_key))))"

definition render_attempt :: "int option \<Rightarrow> string" where
  "render_attempt attempt = (case attempt of None \<Rightarrow> ''null'' | Some n \<Rightarrow> int_str n)"

definition event_payload ::
  "string \<Rightarrow> int \<Rightarrow> string \<Rightarrow> string \<Rightarrow> string option \<Rightarrow> int option \<Rightarrow> err + string" where
  "event_payload relationship generation revision_hash outcome turn_id attempt =
     (if outcome \<notin> set OUTCOMES then Inl ValueError
      else if generation < 1 then Inl ValueError
      else if outcome = READY_FOR_REVIEW then
        (if \<not> DIGEST_RE revision_hash then Inl ValueError
         else if revision_hash = NO_DELIVERABLE then Inl ValueError
         else Inr (relationship @ ''|'' @ int_str generation @ ''|'' @ revision_hash @ ''|'' @ outcome))
      else (case turn_id of
          None \<Rightarrow> Inl ValueError
        | Some turn \<Rightarrow>
            if blank turn then Inl ValueError
            else Inr (relationship @ ''|'' @ int_str generation @ ''|'' @ outcome @ ''|'' @ turn
                   @ ''|'' @ render_attempt attempt)))"

definition event_id ::
  "string \<Rightarrow> int \<Rightarrow> string \<Rightarrow> string \<Rightarrow> string option \<Rightarrow> int option \<Rightarrow> err + string" where
  "event_id relationship generation revision_hash outcome turn_id attempt =
     bindE (event_payload relationship generation revision_hash outcome turn_id attempt)
       (\<lambda>payload. Inr (take 32 (sha256_hex payload)))"

definition request_id :: "string \<Rightarrow> int \<Rightarrow> err + string" where
  "request_id event attempt_no =
     (if \<not> EVENT_ID_RE event then Inl ValueError
      else if attempt_no < 1 then Inl ValueError
      else Inr (''del-'' @ take 12 event @ ''-a'' @ int_str attempt_no))"

text \<open>
  \<^verbatim>\<open>^del-[0-9a-f]{12}-a([0-9]+)$\<close>, its group read as an integer. The group is followed by the end
  of the string or by a final newline.
\<close>

definition parse_request_id :: "string \<Rightarrow> err + string \<times> int" where
  "parse_request_id value =
     (let event12 = take 12 (drop 4 value); digits = chomp (drop 18 value)
      in if take 4 value = ''del-'' \<and> length event12 = 12 \<and> list_all is_hex event12
            \<and> take 2 (drop 16 value) = ''-a'' \<and> digits \<noteq> [] \<and> list_all is_digit digits
         then Inr (event12, int (str_nat digits)) else Inl ValueError)"

definition ack_proof :: "string \<Rightarrow> string \<Rightarrow> err + string" where
  "ack_proof event ack_turn_id =
     (if \<not> EVENT_ID_RE event then Inl ValueError
      else if blank ack_turn_id then Inl ValueError
      else Inr (sha256_hex (event @ ''|'' @ ack_turn_id)))"

definition revision_request_payload :: "string \<Rightarrow> string \<Rightarrow> string \<Rightarrow> string" where
  "revision_request_payload relationship source_event_id verdict_turn_id =
     relationship @ ''|'' @ source_event_id @ ''|'' @ ''needs_changes_revision'' @ ''|''
       @ verdict_turn_id @ ''|'' @ ''null''"

definition revision_request_event_id :: "string \<Rightarrow> string \<Rightarrow> string \<Rightarrow> err + string" where
  "revision_request_event_id relationship source_event_id verdict_turn_id =
     (if blank verdict_turn_id then Inl ValueError
      else if blank source_event_id then Inl ValueError
      else Inr (take 32 (sha256_hex
             (revision_request_payload relationship source_event_id verdict_turn_id))))"

section \<open>Shapes\<close>

lemma hex_no_bar: "list_all is_hex s \<Longrightarrow> \<not> bar s"
  by (induction s) (auto simp: is_hex_def)

lemma relationship_id_shape:
  assumes "relationship_id p c k = Inr r"
  shows "take 4 r = ''rel-'' \<and> length r = 20 \<and> \<not> bar r"
proof -
  obtain h where h: "r = ''rel-'' @ h" "length h = 16" "list_all is_hex h"
    using assms sha.take_digest_hex [of 16] by (auto simp: relationship_id_def split: if_splits)
  with hex_no_bar [of h] show ?thesis by simp
qed

lemma event_id_re: "event_id r g h out t a = Inr e \<Longrightarrow> length e = 32 \<and> EVENT_ID_RE e"
  using sha.take_digest_hex [of 32] sha.take_digest_re [of 32]
  by (auto simp: event_id_def EVENT_ID_RE_def)

lemma revision_request_event_id_re:
  "revision_request_event_id r s t = Inr e \<Longrightarrow> length e = 32 \<and> EVENT_ID_RE e"
  using sha.take_digest_hex [of 32] sha.take_digest_re [of 32]
  by (auto simp: revision_request_event_id_def EVENT_ID_RE_def split: if_splits)

lemma ack_proof_re: "ack_proof e t = Inr p \<Longrightarrow> DIGEST_RE p"
  using sha.digest_re by (auto simp: ack_proof_def DIGEST_RE_def split: if_splits)

lemma set_chomp: "c \<in> set s \<Longrightarrow> c \<in> set (chomp s) \<or> c = CHR 0x0A"
  by (induction s rule: rev_induct) (auto simp: chomp_def)

lemma re_hex_no_bar:
  assumes "re_hex n s"
  shows "\<not> bar s"
proof -
  have "list_all is_hex (chomp s) \<or> list_all is_hex s"
    using assms by (auto simp: re_hex_def Let_def split: if_splits)
  then show ?thesis
    using hex_no_bar set_chomp [of "CHR ''|''" s] by auto
qed

lemma outcome_cases:
  "out \<in> set OUTCOMES \<Longrightarrow> out = READY_FOR_REVIEW \<or> out = ''failed'' \<or> out = ''interrupted''
     \<or> out = ''blocked_needs_input''"
  by (auto simp: OUTCOMES_def READY_FOR_REVIEW_def)

lemma outcome_plain: "out \<in> set OUTCOMES \<Longrightarrow> \<not> bar out \<and> length out < 20"
  by (auto simp: OUTCOMES_def)

lemma render_attempt_no_bar: "\<not> bar (render_attempt a)"
  by (auto simp: render_attempt_def int_str_no_bar split: option.splits)

lemma int_str_not_null: "int_str n \<noteq> ''null''"
proof
  assume "int_str n = ''null''"
  then have "CHR ''n'' \<in> set (int_str n)" by simp
  moreover have "is_digit c" if "c \<in> set (nat_str k)" for c k
    using nat_str_digits [of k] that by (simp add: list_all_iff)
  ultimately show False
    by (auto simp: int_str_def is_digit_def split: if_splits)
qed

lemma render_attempt_inject: "render_attempt a = render_attempt b \<longleftrightarrow> a = b"
  using int_str_not_null [symmetric] int_str_not_null
  by (auto simp: render_attempt_def int_str_inject split: option.splits)

section \<open>Reading the fields back\<close>

lemma relationship_payload_inject:
  assumes "relationship_payload p c k = relationship_payload p' c' k'"
    and "\<not> bar p" "\<not> bar c" "\<not> bar p'" "\<not> bar c'"
  shows "p = p' \<and> c = c' \<and> k = k'"
  using assms sep_inject [of p "CHR ''|''" "c @ CHR ''|'' # k" p' "c' @ CHR ''|'' # k'"]
    sep_inject [of c "CHR ''|''" k c' k']
  by (auto simp: relationship_payload_def)

lemma event_payload_split:
  assumes "event_payload r g h out t a = Inr p"
  shows "out \<in> set OUTCOMES \<and> 1 \<le> g
    \<and> (if out = READY_FOR_REVIEW
       then DIGEST_RE h \<and> h \<noteq> NO_DELIVERABLE
          \<and> p = r @ CHR ''|'' # int_str g @ CHR ''|'' # h @ CHR ''|'' # out
       else (\<exists>turn. t = Some turn \<and> \<not> blank turn
          \<and> p = r @ CHR ''|'' # int_str g @ CHR ''|'' # out @ CHR ''|''
                # turn @ CHR ''|'' # render_attempt a))"
  using assms by (auto simp: event_payload_def split: if_splits option.splits)

lemma event_payload_head:
  assumes "event_payload r g h out t a = Inr p"
  shows "\<exists>f rest. p = r @ CHR ''|'' # int_str g @ CHR ''|'' # f @ CHR ''|'' # rest \<and> \<not> bar f
    \<and> (if out = READY_FOR_REVIEW then f = h \<and> rest = out \<and> 64 \<le> length f
       else f = out \<and> length f < 20
          \<and> (\<exists>turn. t = Some turn \<and> rest = turn @ CHR ''|'' # render_attempt a))"
  using event_payload_split [OF assms] outcome_plain [of out] re_hex_no_bar [of 64 h]
    re_hexD [of 64 h]
  by (auto simp: DIGEST_RE_def split: if_splits)

lemma event_payload_inject:
  assumes 1: "event_payload r g h out t a = Inr p" and 2: "event_payload r' g' h' out' t' a' = Inr p"
    and bars: "\<not> bar r" "\<not> bar r'"
  shows "r = r' \<and> g = g' \<and> out = out'
    \<and> (if out = READY_FOR_REVIEW then h = h' else t = t' \<and> a = a')"
proof -
  obtain f rest where p: "p = r @ CHR ''|'' # int_str g @ CHR ''|'' # f @ CHR ''|'' # rest"
    and f: "\<not> bar f"
    and c: "if out = READY_FOR_REVIEW then f = h \<and> rest = out \<and> 64 \<le> length f
      else f = out \<and> length f < 20 \<and> (\<exists>u. t = Some u \<and> rest = u @ CHR ''|'' # render_attempt a)"
    using event_payload_head [OF 1] by blast
  obtain f' rest' where p': "p = r' @ CHR ''|'' # int_str g' @ CHR ''|'' # f' @ CHR ''|'' # rest'"
    and f': "\<not> bar f'"
    and c': "if out' = READY_FOR_REVIEW then f' = h' \<and> rest' = out' \<and> 64 \<le> length f'
      else f' = out' \<and> length f' < 20
        \<and> (\<exists>u. t' = Some u \<and> rest' = u @ CHR ''|'' # render_attempt a')"
    using event_payload_head [OF 2] by blast
  from sep_inject [OF p [unfolded p'] bars(2,1)] have r: "r = r'"
    and tl: "int_str g @ CHR ''|'' # f @ CHR ''|'' # rest
      = int_str g' @ CHR ''|'' # f' @ CHR ''|'' # rest'" by auto
  from sep_inject [OF tl int_str_no_bar int_str_no_bar] have g: "g = g'"
    and tl2: "f @ CHR ''|'' # rest = f' @ CHR ''|'' # rest'" by (auto simp: int_str_inject)
  from sep_inject [OF tl2 f f'] have ff: "f = f'" "rest = rest'" by auto
  have last: "u = u' \<and> x = x'"
    if "u @ CHR ''|'' # render_attempt x = u' @ CHR ''|'' # render_attempt x'" for u u' x x'
    using sep_inject_last [OF that render_attempt_no_bar render_attempt_no_bar]
    by (simp add: render_attempt_inject)
  show ?thesis
    using r g ff c c' by (auto split: if_splits dest: last)
qed


section \<open>Properties\<close>

text \<open>
  on the inputs \<open>relationship_id\<close> accepts, the hashed string determines the parent, the child
  and the issue, so two registrations share a relationship id only when they agree on all three
  or the truncated SHA-256 values of two different strings coincide.
\<close>

theorem relationship_id_injective:
  assumes "relationship_id p c k = Inr r" and "relationship_id p' c' k' = Inr r"
  shows "(p, c, k) = (p', c', k')
    \<or> (relationship_payload p c k \<noteq> relationship_payload p' c' k'
       \<and> take 16 (sha256_hex (relationship_payload p c k))
          = take 16 (sha256_hex (relationship_payload p' c' k')))"
  using assms relationship_payload_inject [of p c k p' c' k']
  by (auto simp: relationship_id_def split: if_splits)

theorem relationship_id_injective_witness:
  "(''p'', ''c'', ''JUN-1'') = (''p'', ''c'', ''JUN-1'')
    \<or> (relationship_payload ''p'' ''c'' ''JUN-1'' \<noteq> relationship_payload ''p'' ''c'' ''JUN-1''
       \<and> take 16 (sha256_hex (relationship_payload ''p'' ''c'' ''JUN-1''))
          = take 16 (sha256_hex (relationship_payload ''p'' ''c'' ''JUN-1'')))"
proof -
  have h: "relationship_id ''p'' ''c'' ''JUN-1'' = Inr (''rel-'' @ take 16 (sha256_hex
      (relationship_payload ''p'' ''c'' ''JUN-1'')))"
    by (simp add: relationship_id_def blank_def is_space_def)
  show ?thesis by (rule relationship_id_injective [OF h h])
qed

text \<open>
  the string an event id is derived from determines the relationship, the generation and
  the outcome; for a reviewable outcome it also determines the revision (and nothing of the turn,
  so re-observing one revision gives one event), for an execution-only outcome it also
  determines the turn and the attempt (so two turns are two events).
\<close>

theorem event_id_payload_injective:
  assumes "event_payload r g h out t a = Inr p" and "event_payload r' g' h' out' t' a' = Inr p"
    and "\<not> bar r" and "\<not> bar r'"
  shows "event_id r g h out t a = Inr (take 32 (sha256_hex p))
    \<and> r = r' \<and> g = g' \<and> out = out'
    \<and> (if out = READY_FOR_REVIEW then h = h' else t = t' \<and> a = a')"
  using assms event_payload_inject [of r g h out t a p r' g' h' out' t' a']
  by (simp add: event_id_def)

theorem event_id_payload_injective_witness:
  "event_id ''rel-1'' 2 NO_DELIVERABLE ''failed'' (Some ''turn-9'') None
     = Inr (take 32 (sha256_hex ''rel-1|2|failed|turn-9|null''))"
proof -
  have h: "event_payload ''rel-1'' 2 NO_DELIVERABLE ''failed'' (Some ''turn-9'') None
      = Inr ''rel-1|2|failed|turn-9|null''"
    by (simp add: event_payload_def OUTCOMES_def READY_FOR_REVIEW_def blank_def is_space_def
        int_str_def nat_str.simps digit_char_def render_attempt_def)
  show ?thesis using event_id_payload_injective [OF h h] by simp
qed

text \<open>
  a revision request never shares its hashed string with a completion event: the outcome
  slot holds a word that is not an outcome. The relationship and the corrected event are
  identifiers, which hold no separator.
\<close>

theorem revision_request_not_completion:
  assumes "\<not> bar rel" and "\<not> bar src" and "\<not> bar r'"
    and "event_payload r' g h out t a = Inr p"
  shows "revision_request_payload rel src turn \<noteq> p"
proof
  assume eq: "revision_request_payload rel src turn = p"
  obtain f rest where p: "p = r' @ CHR ''|'' # int_str g @ CHR ''|'' # f @ CHR ''|'' # rest"
    and f: "\<not> bar f" and len: "64 \<le> length f \<or> length f < 20"
    using event_payload_head [OF assms(4)] by (auto split: if_splits)
  let ?w = "''needs_changes_revision''"
  have "rel @ CHR ''|'' # src @ CHR ''|'' # ?w @ CHR ''|'' # turn @ CHR ''|'' # ''null''
      = r' @ CHR ''|'' # int_str g @ CHR ''|'' # f @ CHR ''|'' # rest"
    using eq p by (simp add: revision_request_payload_def)
  from sep_inject [OF this assms(1,3)]
  have tl: "src @ CHR ''|'' # ?w @ CHR ''|'' # turn @ CHR ''|'' # ''null''
      = int_str g @ CHR ''|'' # f @ CHR ''|'' # rest" by simp
  from sep_inject [OF tl assms(2) int_str_no_bar]
  have tl2: "?w @ CHR ''|'' # turn @ CHR ''|'' # ''null'' = f @ CHR ''|'' # rest" by simp
  have "?w = f"
    using sep_inject [OF tl2 _ f] by simp
  with len show False by auto
qed

theorem revision_request_not_completion_witness:
  "revision_request_payload ''rel-1'' ''ev'' ''t'' \<noteq> ''rel-1|2|failed|turn-9|null''"
proof -
  have h: "event_payload ''rel-1'' 2 NO_DELIVERABLE ''failed'' (Some ''turn-9'') None
      = Inr ''rel-1|2|failed|turn-9|null''"
    by (simp add: event_payload_def OUTCOMES_def READY_FOR_REVIEW_def blank_def is_space_def
        int_str_def nat_str.simps digit_char_def render_attempt_def)
  show ?thesis
    by (rule revision_request_not_completion [where r' = "''rel-1''", OF _ _ _ h]) simp_all
qed

text \<open>
  parsing a request id gives back the event prefix and the attempt number it was made from.
\<close>

theorem request_id_roundtrip:
  assumes "request_id event n = Inr r"
  shows "parse_request_id r = Inr (take 12 event, n)"
proof -
  from assms have ev: "EVENT_ID_RE event" and n: "1 \<le> n"
    and r: "r = ''del-'' @ take 12 event @ ''-a'' @ int_str n"
    by (auto simp: request_id_def split: if_splits)
  from ev have len: "32 \<le> length event" and hex: "list_all is_hex (take 32 event)"
    using re_hexD [of 32 event] by (auto simp: EVENT_ID_RE_def)
  have hex12: "list_all is_hex (take 12 event)"
  proof -
    have "take 12 event = take 12 (take 32 event)" by simp
    with hex show ?thesis by (metis in_set_takeD list_all_iff)
  qed
  have istr: "int_str n = nat_str (nat n)" using n by (simp add: int_str_def)
  have "last (nat_str (nat n)) \<in> set (nat_str (nat n))" by simp
  then have ch: "chomp (nat_str (nat n)) = nat_str (nat n)"
    using nat_str_clean [of "last (nat_str (nat n))" "nat n"] by (simp add: chomp_def)
  show ?thesis
    using len hex12 n
    by (simp add: r parse_request_id_def istr ch nat_str_digits)
qed

theorem request_id_roundtrip_witness:
  "parse_request_id (''del-'' @ replicate 12 (CHR ''a'') @ ''-a7'')
     = Inr (replicate 12 (CHR ''a''), 7)"
proof -
  have "re_hex 32 (replicate 32 (CHR ''a''))"
    by (rule re_hex_exact) (simp_all add: is_hex_def list_all_iff)
  then have h: "request_id (replicate 32 (CHR ''a'')) 7
      = Inr (''del-'' @ replicate 12 (CHR ''a'') @ ''-a7'')"
    by (simp add: request_id_def EVENT_ID_RE_def int_str_def nat_str.simps digit_char_def)
  show ?thesis using request_id_roundtrip [OF h] by simp
qed

text \<open>
  the patterns end in a dollar sign, which Python also matches before a final newline: a
  revision hash of 64 hexadecimal characters followed by a newline passes the check that asks for
  64 lowercase hexadecimal characters, and gets an event id of its own.
\<close>

theorem digest_check_accepts_newline:
  assumes "length h = 64" and "list_all is_hex h" and "1 \<le> g"
  shows "event_id r g (h @ [CHR 0x0A]) READY_FOR_REVIEW t a
    = Inr (take 32 (sha256_hex (r @ ''|'' @ int_str g @ ''|'' @ (h @ [CHR 0x0A]) @ ''|''
        @ READY_FOR_REVIEW)))"
proof -
  have "DIGEST_RE (h @ [CHR 0x0A])"
    unfolding DIGEST_RE_def by (rule re_hex_newline [OF assms(1,2)])
  moreover have "h @ [CHR 0x0A] \<noteq> NO_DELIVERABLE"
  proof
    assume "h @ [CHR 0x0A] = NO_DELIVERABLE"
    then have "length (h @ [CHR 0x0A]) = 64" by (simp add: NO_DELIVERABLE_def)
    with assms(1) show False by simp
  qed
  ultimately show ?thesis
    using assms(3) by (simp add: event_id_def event_payload_def OUTCOMES_def READY_FOR_REVIEW_def)
qed

theorem digest_check_accepts_newline_witness:
  "event_id ''rel-1'' 1 (replicate 64 (CHR ''b'') @ [CHR 0x0A]) READY_FOR_REVIEW None None
    = Inr (take 32 (sha256_hex (''rel-1'' @ ''|'' @ int_str 1 @ ''|''
        @ (replicate 64 (CHR ''b'') @ [CHR 0x0A]) @ ''|'' @ READY_FOR_REVIEW)))"
  by (rule digest_check_accepts_newline) (simp_all add: is_hex_def list_all_iff)

end
