(* ===== verification/Currency.thy ===== *)
theory Currency
  imports Store Identity "HOL-Library.Multiset"
begin

text \<open>
  \<^verbatim>\<open>currency.py\<close>: which revision of a generation is current, read from the predecessors the owner
  declared. The head is defined only where the declared graph has one tip that reaches every
  revision of the generation; everything else is an ambiguity with a name.
\<close>

section \<open>The names of the answers\<close>

datatype head_evidence =
    SOLE | CHAIN | NO_REVISION | FORK | CYCLE | UNKNOWN_PREDECESSOR | DISCONNECTED

definition AMBIGUOUS :: "head_evidence list" where
  "AMBIGUOUS = [FORK, CYCLE, UNKNOWN_PREDECESSOR, DISCONNECTED]"

datatype currency_reason =
    NOT_ACTIVE | STALE_GENERATION_REASON | SUPERSEDED_REASON | AMBIGUOUS_REASON

record head =
  h_event :: "string option"
  h_hash :: "string option"
  h_evidence :: head_evidence
  h_competitors :: "string list"

record currency =
  cu_current :: bool
  cu_reason :: "currency_reason option"
  cu_evidence :: "head_evidence option"
  cu_head_event :: "string option"
  cu_head_hash :: "string option"

section \<open>Declaring a predecessor\<close>

definition lineage_key :: "lineage_row \<Rightarrow> string \<times> int \<times> string" where
  "lineage_key l = (l_rel l, l_gen l, l_event l)"

definition record_lineage ::
  "clock \<Rightarrow> string \<Rightarrow> int \<Rightarrow> string \<Rightarrow> string \<Rightarrow> string option \<Rightarrow> db \<Rightarrow> err + db" where
  "record_lineage clk rid generation event revision_hash supersedes_hash db =
     (let declared = (case supersedes_hash of None \<Rightarrow> None
            | Some s \<Rightarrow> if s = [] then None else Some (strip s))
      in if truthy_text declared \<and> declared = Some revision_hash
         then Inl (RelayError ReceiptRefused REVISION_LINEAGE_INVALID)
         else Inr (db\<lparr>revision_lineage := insert_or_ignore lineage_key
                \<lparr>l_rel = rid, l_gen = generation, l_event = event, l_hash = revision_hash,
                  l_supersedes_hash = declared,
                  l_declared_by = (if truthy_text declared then ''child_declared''
                                   else ''undeclared''),
                  l_recorded_at = clk_iso clk\<rparr> (revision_lineage db)\<rparr>))"

section \<open>The predecessor a correction asked for\<close>

type_synonym request_row = "generation_row \<times> verdict_row \<times> event_row \<times> event_row"

definition requested_rows :: "db \<Rightarrow> string \<Rightarrow> int \<Rightarrow> request_row list" where
  "requested_rows db rid generation =
     [(g, v, p, r). g \<leftarrow> filter (\<lambda>g. g_rel g = rid \<and> g_no g = generation
                       \<and> g_reason g = ''needs_changes_revision'') (generations db),
        v \<leftarrow> filter (\<lambda>v. vd_next_generation v = Some generation
                       \<and> vd_verdict v = ''needs_changes'') (verdicts db),
        p \<leftarrow> filter (\<lambda>p. e_id p = vd_event v \<and> e_rel p = rid \<and> e_gen p = generation - 1
                       \<and> e_outcome p = READY_FOR_REVIEW \<and> e_stage p = FINAL
                       \<and> e_suppressed_reason p = None) (events db),
        r \<leftarrow> filter (\<lambda>r. e_rel r = rid \<and> e_gen r = generation
                       \<and> e_outcome r = ''revision_request'' \<and> e_producer r = ''relay''
                       \<and> e_stage r = FINAL \<and> e_suppressed_reason r = None) (events db)]"

fun anchor_rows :: "string \<Rightarrow> request_row list \<Rightarrow> err + (string \<times> string) list" where
  "anchor_rows rid [] = Inr []"
| "anchor_rows rid ((g, v, p, r) # rows) =
     bindE (revision_request_event_id rid (e_id p) (vd_verdict_turn v)) (\<lambda>request.
     bindE (anchor_rows rid rows) (\<lambda>anchors.
       Inr (if e_id r = request \<and> g_dispatch_request g = ''revision-'' @ request
            then (e_hash p, e_id p) # anchors else anchors)))"

definition requested_predecessors :: "db \<Rightarrow> string \<Rightarrow> int \<Rightarrow> err + (string \<times> string) list" where
  "requested_predecessors db rid generation = anchor_rows rid (requested_rows db rid generation)"

section \<open>The declared graph\<close>

text \<open>The reviewable events of the generation in event order, each with its declaration.\<close>

type_synonym node = "string \<times> string \<times> string option"

definition reviewable :: "db \<Rightarrow> string \<Rightarrow> int \<Rightarrow> event_row list" where
  "reviewable db rid generation =
     sort_key e_id (filter (\<lambda>e. e_rel e = rid \<and> e_gen e = generation
        \<and> e_outcome e = READY_FOR_REVIEW \<and> e_suppressed_reason e = None) (events db))"

definition declared_of :: "db \<Rightarrow> string \<Rightarrow> string option" where
  "declared_of db ev =
     (case filter (\<lambda>l. l_event l = ev) (revision_lineage db) of
        [] \<Rightarrow> None
      | ls \<Rightarrow> l_supersedes_hash (last ls))"

definition nodes_of :: "db \<Rightarrow> string \<Rightarrow> int \<Rightarrow> node list" where
  "nodes_of db rid generation =
     map (\<lambda>e. (e_id e, e_hash e, declared_of db (e_id e))) (reviewable db rid generation)"

definition targets :: "node list \<Rightarrow> (string \<times> string) list \<Rightarrow> string \<Rightarrow> string list" where
  "targets nodes anchors declared =
     map fst (filter (\<lambda>n. fst (snd n) = declared) nodes)
     @ map snd (filter (\<lambda>a. fst a = declared) anchors)"

text \<open>The declarations that name exactly one revision, and whether any names none or several.\<close>

definition declaring :: "node list \<Rightarrow> (string \<times> string) list" where
  "declaring nodes = [(ev, the d). (ev, h, d) \<leftarrow> nodes, truthy_text d]"

definition unresolved :: "node list \<Rightarrow> (string \<times> string) list \<Rightarrow> bool" where
  "unresolved nodes anchors =
     list_ex (\<lambda>(ev, d). length (targets nodes anchors d) \<noteq> 1) (declaring nodes)"

definition edges_of :: "node list \<Rightarrow> (string \<times> string) list \<Rightarrow> (string \<times> string) list" where
  "edges_of nodes anchors = [(ev, hd (targets nodes anchors d)). (ev, d) \<leftarrow> declaring nodes,
      length (targets nodes anchors d) = 1]"

text \<open>The walk from one node along the edges, stopping at the first node seen before.\<close>

function returns_to_seen :: "(string \<times> string) list \<Rightarrow> string list \<Rightarrow> string \<Rightarrow> bool" where
  "returns_to_seen edges seen current =
     (case map_of edges current of
        None \<Rightarrow> False
      | Some t \<Rightarrow> if t \<in> set seen then True else returns_to_seen edges (t # seen) t)"
  by pat_completeness auto

termination returns_to_seen
proof (relation "measure (\<lambda>(edges, seen, current). card (snd ` set edges - set seen))")
  fix edges :: "(string \<times> string) list" and seen current t
  assume edge: "map_of edges current = Some t" and new: "t \<notin> set seen"
  have "t \<in> snd ` set edges" using map_of_SomeD [OF edge] by force
  then have "snd ` set edges - set (t # seen) \<subset> snd ` set edges - set seen" using new by auto
  then show "((edges, t # seen, t), (edges, seen, current))
      \<in> measure (\<lambda>(edges, seen, current). card (snd ` set edges - set seen))"
    by (simp add: psubset_card_mono)
qed simp

declare returns_to_seen.simps [simp del]

text \<open>
  The chain from the tip. The loop of the code stops because the cycle check ran first; here it
  is bounded by the number of edges, which \<open>chain_enough\<close> shows to be enough.
\<close>

fun chain :: "nat \<Rightarrow> (string \<times> string) list \<Rightarrow> string \<Rightarrow> string list" where
  "chain 0 edges current = [current]"
| "chain (Suc n) edges current =
     current # (case map_of edges current of None \<Rightarrow> [] | Some t \<Rightarrow> chain n edges t)"

definition ambiguous :: "head_evidence \<Rightarrow> node list \<Rightarrow> head" where
  "ambiguous evidence nodes = \<lparr>h_event = None, h_hash = None, h_evidence = evidence,
     h_competitors = map fst nodes\<rparr>"

definition forked :: "(string \<times> string) list \<Rightarrow> bool" where
  "forked edges = (\<not> distinct (map snd edges))"

definition tips :: "node list \<Rightarrow> (string \<times> string) list \<Rightarrow> string list" where
  "tips nodes edges = filter (\<lambda>ev. ev \<notin> snd ` set edges) (map fst nodes)"

definition head_of :: "node list \<Rightarrow> (string \<times> string) list \<Rightarrow> head" where
  "head_of nodes anchors =
     (if nodes = [] then
        \<lparr>h_event = None, h_hash = None, h_evidence = NO_REVISION, h_competitors = []\<rparr>
      else if unresolved nodes anchors then ambiguous UNKNOWN_PREDECESSOR nodes
      else let edges = edges_of nodes anchors
      in if list_ex (\<lambda>start. returns_to_seen edges [start] start) (map fst nodes)
         then ambiguous CYCLE nodes
         else if forked edges then ambiguous FORK nodes
         else case tips nodes edges of
             [tip] \<Rightarrow>
               (if set (map fst nodes) \<subseteq> set (chain (length edges) edges tip)
                then \<lparr>h_event = Some tip, h_hash = map_of (map (\<lambda>(ev, h, d). (ev, h)) nodes) tip,
                       h_evidence = (if length nodes = 1 \<and> edges = [] then SOLE else CHAIN),
                       h_competitors = []\<rparr>
                else ambiguous DISCONNECTED nodes)
           | _ \<Rightarrow> ambiguous FORK nodes)"

definition head_revision :: "db \<Rightarrow> string \<Rightarrow> int \<Rightarrow> err + head" where
  "head_revision db rid generation =
     (let nodes = nodes_of db rid generation
      in if nodes = [] then Inr (head_of [] [])
         else bindE (requested_predecessors db rid generation)
                (\<lambda>anchors. Inr (head_of nodes anchors)))"

section \<open>Currency of one event\<close>

definition not_current :: "currency_reason \<Rightarrow> currency" where
  "not_current reason = \<lparr>cu_current = False, cu_reason = Some reason, cu_evidence = None,
     cu_head_event = None, cu_head_hash = None\<rparr>"

definition currency_of :: "db \<Rightarrow> relationship_row \<Rightarrow> event_row \<Rightarrow> err + currency" where
  "currency_of db relationship event =
     (if r_status relationship \<noteq> ''active'' \<or> truthy_text (r_superseded_by relationship)
      then Inr (not_current NOT_ACTIVE)
      else if e_gen event \<noteq> r_generation relationship
      then Inr (not_current STALE_GENERATION_REASON)
      else bindE (head_revision db (e_rel event) (r_generation relationship)) (\<lambda>head.
        Inr (if h_evidence head \<in> set AMBIGUOUS
             then (not_current AMBIGUOUS_REASON)\<lparr>cu_evidence := Some (h_evidence head)\<rparr>
             else \<lparr>cu_current = (h_event head = Some (e_id event)),
                    cu_reason = (if h_event head = Some (e_id event) then None
                                 else Some SUPERSEDED_REASON),
                    cu_evidence = Some (h_evidence head), cu_head_event = h_event head,
                    cu_head_hash = h_hash head\<rparr>)))"

section \<open>The graph\<close>

definition edge_rel :: "(string \<times> string) list \<Rightarrow> (string \<times> string) set" where
  "edge_rel edges = {(s, t). map_of edges s = Some t}"

lemma edge_rel_iff [simp]: "(s, t) \<in> edge_rel edges \<longleftrightarrow> map_of edges s = Some t"
  by (simp add: edge_rel_def)

lemma edge_rel_subset: "edge_rel edges \<subseteq> set edges"
  by (auto dest: map_of_SomeD)

lemma finite_edge_rel: "finite (edge_rel edges)"
  by (rule finite_subset [OF edge_rel_subset]) simp

lemma walk_avoids_seen:
  "\<not> returns_to_seen edges seen current \<Longrightarrow> (current, x) \<in> (edge_rel edges)\<^sup>+ \<Longrightarrow> x \<notin> set seen"
proof (induction edges seen current rule: returns_to_seen.induct)
  case (1 edges seen current)
  from 1(3) obtain t where t: "map_of edges current = Some t"
    by (auto elim: converse_tranclE)
  with 1(2) have new: "t \<notin> set seen" and rest: "\<not> returns_to_seen edges (t # seen) t"
    by (simp_all add: returns_to_seen.simps [of edges seen current] split: if_splits)
  from 1(3) have "x = t \<or> (t, x) \<in> (edge_rel edges)\<^sup>+"
    using t by (auto elim: converse_tranclE)
  then show ?case
    using new 1(1) [OF t new rest] by auto
qed

lemma no_return_acyclic:
  assumes "\<And>s. s \<in> fst ` set edges \<Longrightarrow> \<not> returns_to_seen edges [s] s"
  shows "acyclic (edge_rel edges)"
proof (rule acyclicI, intro allI notI)
  fix x assume loop: "(x, x) \<in> (edge_rel edges)\<^sup>+"
  then obtain t where "map_of edges x = Some t" by (auto elim: converse_tranclE)
  then have "x \<in> fst ` set edges" by (force dest: map_of_SomeD)
  from walk_avoids_seen [OF assms [OF this] loop] show False by simp
qed

lemma chain_reaches: "x \<in> set (chain n edges c) \<Longrightarrow> (c, x) \<in> (edge_rel edges)\<^sup>*"
proof (induction n edges c rule: chain.induct)
  case (2 n edges c)
  show ?case
  proof (cases "map_of edges c")
    case (Some t)
    with 2 have "x = c \<or> (t, x) \<in> (edge_rel edges)\<^sup>*" by auto
    with Some show ?thesis by (auto intro: converse_rtrancl_into_rtrancl)
  qed (use 2(2) in simp)
qed simp

lemma chain_distinct: "acyclic (edge_rel edges) \<Longrightarrow> distinct (chain n edges c)"
proof (induction n edges c rule: chain.induct)
  case (2 n edges c)
  show ?case
  proof (cases "map_of edges c")
    case (Some t)
    have "c \<notin> set (chain n edges t)"
    proof
      assume "c \<in> set (chain n edges t)"
      from chain_reaches [OF this] Some have "(c, c) \<in> (edge_rel edges)\<^sup>+"
        by (meson edge_rel_iff rtrancl_into_trancl2)
      with 2(2) show False by (simp add: acyclic_def)
    qed
    with Some 2 show ?thesis by simp
  qed simp
qed simp

lemma chain_nonempty [simp]: "chain n edges c \<noteq> []"
  by (cases n) simp_all

lemma chain_cut:
  "map_of edges (last (chain n edges c)) \<noteq> None \<Longrightarrow>
     length (chain n edges c) = Suc n \<and> set (chain n edges c) \<subseteq> fst ` set edges"
proof (induction n edges c rule: chain.induct)
  case (1 edges c)
  then show ?case by (force dest: map_of_SomeD)
next
  case (2 n edges c)
  then show ?case by (cases "map_of edges c") (force dest: map_of_SomeD)+
qed

text \<open>The bound of the walk is enough: the chain ends at a node that declares no predecessor.\<close>

lemma chain_enough:
  assumes "acyclic (edge_rel edges)"
  shows "map_of edges (last (chain (length edges) edges c)) = None"
proof (rule ccontr)
  let ?c = "chain (length edges) edges c"
  assume "map_of edges (last ?c) \<noteq> None"
  from chain_cut [OF this] have len: "length ?c = Suc (length edges)" and sub: "set ?c \<subseteq> fst ` set edges"
    by auto
  have "length ?c = card (set ?c)" using chain_distinct [OF assms] by (simp add: distinct_card)
  also have "\<dots> \<le> card (fst ` set edges)" by (rule card_mono) (use sub in auto)
  also have "\<dots> \<le> length edges" by (metis card_length length_map set_map)
  finally show False using len by simp
qed

lemma chain_closed:
  "map_of edges (last (chain n edges c)) = None \<Longrightarrow> x \<in> set (chain n edges c)
     \<Longrightarrow> map_of edges x = Some y \<Longrightarrow> y \<in> set (chain n edges c)"
proof (induction n edges c rule: chain.induct)
  case (2 n edges c)
  show ?case
  proof (cases "map_of edges c")
    case None
    with 2(3,4) show ?thesis by simp
  next
    case (Some t)
    have "t \<in> set (chain n edges t)" by (cases n) simp_all
    with Some 2 show ?thesis by auto
  qed
qed simp

lemma chain_complete:
  assumes "acyclic (edge_rel edges)" "(c, x) \<in> (edge_rel edges)\<^sup>*"
  shows "x \<in> set (chain (length edges) edges c)"
  using assms(2)
proof (induction rule: rtrancl_induct)
  case base
  show ?case by (cases edges) simp_all
next
  case (step y z)
  with chain_closed [OF chain_enough [OF assms(1)]] show ?case by simp
qed

lemma tip_reaches_all:
  assumes acyc: "acyclic (edge_rel edges)" and d: "distinct (map fst edges)"
    and sub: "fst ` set edges \<subseteq> V" and tip: "\<And>v. v \<in> V \<Longrightarrow> v \<notin> snd ` set edges \<Longrightarrow> v = tip"
    and x: "x \<in> V"
  shows "(tip, x) \<in> (edge_rel edges)\<^sup>*"
proof -
  have "wf (edge_rel edges)" by (rule finite_acyclic_wf [OF finite_edge_rel acyc])
  then have "x \<in> V \<longrightarrow> (tip, x) \<in> (edge_rel edges)\<^sup>*"
  proof (induction x rule: wf_induct_rule)
    case (less x)
    show ?case
    proof (intro impI)
      assume x: "x \<in> V"
      show "(tip, x) \<in> (edge_rel edges)\<^sup>*"
      proof (cases "x \<in> snd ` set edges")
        case False
        with tip [OF x] show ?thesis by simp
      next
        case True
        then obtain s where s: "(s, x) \<in> set edges" by force
        with d have e: "(s, x) \<in> edge_rel edges" by simp
        moreover have "s \<in> V" using s sub by force
        ultimately show ?thesis using less [OF e] by (meson rtrancl.rtrancl_into_rtrancl)
      qed
    qed
  qed
  with x show ?thesis by simp
qed

section \<open>What a head is\<close>

lemma declaring_sub: "fst ` set (declaring nodes) \<subseteq> fst ` set nodes"
  by (force simp: declaring_def)

lemma edges_sub: "fst ` set (edges_of nodes anchors) \<subseteq> fst ` set nodes"
  using declaring_sub [of nodes] by (force simp: edges_of_def)

lemma distinct_concat_keys:
  "distinct (map fst xs) \<Longrightarrow> (\<And>x. x \<in> set xs \<Longrightarrow> f x = [] \<or> (\<exists>y. f x = [(fst x, y)]))
     \<Longrightarrow> distinct (map fst (concat (map f xs))) \<and> set (map fst (concat (map f xs))) \<subseteq> set (map fst xs)"
proof (induction xs)
  case (Cons x xs)
  define c where "c = map fst (concat (map f xs))"
  have c: "distinct c" "set c \<subseteq> set (map fst xs)"
    using Cons.IH Cons.prems unfolding c_def by simp_all
  have "fst x \<notin> set c" using c(2) Cons.prems(1) by auto
  moreover have "map fst (concat (map f (x # xs))) = map fst (f x) @ c" by (simp add: c_def)
  moreover have "f x = [] \<or> (\<exists>y. f x = [(fst x, y)])" using Cons.prems by simp
  ultimately show ?case using c by auto
qed simp

lemma distinct_edges:
  assumes "distinct (map fst nodes)"
  shows "distinct (map fst (edges_of nodes anchors))"
proof -
  have "distinct (map fst (declaring nodes))"
    unfolding declaring_def by (rule distinct_concat_keys [OF assms, THEN conjunct1]) auto
  then show ?thesis
    unfolding edges_of_def by (rule distinct_concat_keys [THEN conjunct1]) auto
qed

lemma head_of_some:
  assumes "h_event (head_of nodes anchors) = Some tip"
  shows "tips nodes (edges_of nodes anchors) = [tip] \<and> acyclic (edge_rel (edges_of nodes anchors))
    \<and> \<not> unresolved nodes anchors \<and> \<not> forked (edges_of nodes anchors)
    \<and> h_evidence (head_of nodes anchors) \<in> {SOLE, CHAIN}
    \<and> set (map fst nodes) \<subseteq> set (chain (length (edges_of nodes anchors)) (edges_of nodes anchors) tip)"
proof -
  let ?E = "edges_of nodes anchors"
  have loopfree: "list_ex (\<lambda>s. returns_to_seen ?E [s] s) (map fst nodes) = False"
    and rest: "\<not> unresolved nodes anchors" "\<not> forked ?E" "tips nodes ?E = [tip]"
      "set (map fst nodes) \<subseteq> set (chain (length ?E) ?E tip)"
      "h_evidence (head_of nodes anchors) \<in> {SOLE, CHAIN}"
    using assms unfolding head_of_def
    by (auto simp: Let_def ambiguous_def split: if_splits list.splits)
  have "acyclic (edge_rel ?E)"
  proof (rule no_return_acyclic)
    fix s assume "s \<in> fst ` set ?E"
    with edges_sub [of nodes anchors] have "s \<in> set (map fst nodes)" by auto
    with loopfree show "\<not> returns_to_seen ?E [s] s" by (auto simp: list_ex_iff)
  qed
  with rest show ?thesis by blast
qed

lemma head_of_not_disconnected:
  assumes "distinct (map fst nodes)"
  shows "h_evidence (head_of nodes anchors) \<noteq> DISCONNECTED"
proof
  let ?E = "edges_of nodes anchors"
  assume a: "h_evidence (head_of nodes anchors) = DISCONNECTED"
  then obtain tip where free: "\<not> list_ex (\<lambda>s. returns_to_seen ?E [s] s) (map fst nodes)"
    and tip: "tips nodes ?E = [tip]" and miss: "\<not> set (map fst nodes) \<subseteq> set (chain (length ?E) ?E tip)"
    unfolding head_of_def
    by (auto simp: Let_def ambiguous_def split: if_splits list.splits)
  have acyc: "acyclic (edge_rel ?E)"
  proof (rule no_return_acyclic)
    fix s assume "s \<in> fst ` set ?E"
    with edges_sub [of nodes anchors] have "s \<in> set (map fst nodes)" by auto
    with free show "\<not> returns_to_seen ?E [s] s" by (auto simp: list_ex_iff)
  qed
  have "v = tip" if "v \<in> set (map fst nodes)" "v \<notin> snd ` set ?E" for v
  proof -
    have "v \<in> set (tips nodes ?E)" using that by (simp add: tips_def)
    with tip show ?thesis by simp
  qed
  then have "(tip, x) \<in> (edge_rel ?E)\<^sup>*" if "x \<in> set (map fst nodes)" for x
    using tip_reaches_all [OF acyc distinct_edges [OF assms], of "set (map fst nodes)" tip x]
      edges_sub [of nodes anchors] that by simp
  with miss chain_complete [OF acyc] show False by blast
qed

section \<open>Arrival order\<close>

lemma mset_concat_map_cong:
  assumes "mset xs = mset ys" "\<And>x. mset (f x) = mset (g x)"
  shows "mset (concat (map f xs)) = mset (concat (map g ys))"
proof -
  have sum: "mset (concat (map h zs)) = \<Sum>\<^sub># (image_mset (\<lambda>x. mset (h x)) (mset zs))" for h zs
    by (induction zs) simp_all
  show ?thesis using assms by (simp add: sum)
qed

lemma mset_filter_cong: "mset xs = mset ys \<Longrightarrow> mset (filter P xs) = mset (filter P ys)"
  by (metis mset_filter)

lemma mset_map_cong: "mset xs = mset ys \<Longrightarrow> mset (map f xs) = mset (map f ys)"
  by (metis mset_map)

lemma mset_le_one: "mset xs = mset ys \<Longrightarrow> length xs \<le> 1 \<Longrightarrow> xs = ys"
proof (cases xs)
  case (Cons a as)
  assume "mset xs = mset ys" "length xs \<le> 1"
  with Cons show ?thesis by (cases ys) auto
qed simp

lemma filter_key_le_one: "distinct (map k t) \<Longrightarrow> length (filter (\<lambda>x. k x = v) t) \<le> 1"
  by (induction t) (auto simp: filter_empty_conv image_iff)

lemma declared_of_perm:
  assumes "mset (revision_lineage db) = mset (revision_lineage db')"
    and "distinct (map l_event (revision_lineage db))"
  shows "declared_of db ev = declared_of db' ev"
proof -
  have same: "filter (\<lambda>l. l_event l = ev) (revision_lineage db)
      = filter (\<lambda>l. l_event l = ev) (revision_lineage db')"
    by (rule mset_le_one [OF mset_filter_cong [OF assms(1)] filter_key_le_one [OF assms(2)]])
  show ?thesis unfolding declared_of_def same ..
qed

lemma reviewable_perm:
  assumes "mset (events db) = mset (events db')" "distinct (map e_id (events db))"
  shows "reviewable db rid gen = reviewable db' rid gen"
proof -
  let ?P = "\<lambda>e. e_rel e = rid \<and> e_gen e = gen \<and> e_outcome e = READY_FOR_REVIEW
     \<and> e_suppressed_reason e = None"
  have d': "distinct (map e_id (events db'))"
    using assms(2) mset_eq_imp_distinct_iff [OF mset_map_cong [OF assms(1)], of e_id] by simp
  have sets: "set (filter ?P (events db)) = set (filter ?P (events db'))"
    using mset_eq_setD [OF assms(1)] by simp
  have "distinct (map e_id (filter ?P (events db)))" "distinct (map e_id (filter ?P (events db')))"
    using assms(2) d' by (simp_all add: distinct_map_filter)
  then have "distinct (map e_id (reviewable db rid gen))" "distinct (map e_id (reviewable db' rid gen))"
    by (simp_all add: reviewable_def distinct_map)
  moreover have "set (reviewable db rid gen) = set (reviewable db' rid gen)"
    using sets by (simp add: reviewable_def)
  moreover have "inj_on e_id (set (reviewable db rid gen) \<union> set (reviewable db' rid gen))"
    using calculation by (simp add: distinct_map)
  ultimately show ?thesis
    by (intro map_sorted_distinct_set_unique) (simp_all add: reviewable_def)
qed

lemma nodes_of_perm:
  assumes "mset (events db) = mset (events db')" "distinct (map e_id (events db))"
    and "mset (revision_lineage db) = mset (revision_lineage db')"
    and "distinct (map l_event (revision_lineage db))"
  shows "nodes_of db rid gen = nodes_of db' rid gen"
  by (simp add: nodes_of_def reviewable_perm [OF assms(1,2)] declared_of_perm [OF assms(3,4)])

definition anchor_request :: "string \<Rightarrow> request_row \<Rightarrow> err + string" where
  "anchor_request rid row = (case row of (g, v, p, r) \<Rightarrow>
     revision_request_event_id rid (e_id p) (vd_verdict_turn v))"

definition is_anchor :: "string \<Rightarrow> request_row \<Rightarrow> bool" where
  "is_anchor rid row = (case row of (g, v, p, r) \<Rightarrow>
     (\<exists>request\<in>set (case anchor_request rid row of Inr q \<Rightarrow> [q] | Inl _ \<Rightarrow> []).
        e_id r = request \<and> g_dispatch_request g = ''revision-'' @ request))"

lemma is_anchor_row:
  "anchor_request rid (g, v, p, r) = Inr q \<Longrightarrow>
     is_anchor rid (g, v, p, r) \<longleftrightarrow> e_id r = q \<and> g_dispatch_request g = ''revision-'' @ q"
  by (auto simp: is_anchor_def)

lemma anchor_request_Inl: "anchor_request rid row = Inl e \<Longrightarrow> e = ValueError"
  by (auto simp: anchor_request_def revision_request_event_id_def split: prod.splits if_splits)

lemma anchor_rows_Cons:
  "anchor_rows rid ((g, v, p, r) # rows) = bindE (anchor_request rid (g, v, p, r)) (\<lambda>q.
     bindE (anchor_rows rid rows) (\<lambda>anchors.
       Inr (if is_anchor rid (g, v, p, r) then (e_hash p, e_id p) # anchors else anchors)))"
  by (cases "anchor_request rid (g, v, p, r)")
     (simp_all add: is_anchor_row, simp_all add: anchor_request_def)

lemma anchor_rows_eq:
  "anchor_rows rid rows =
     (if list_all (\<lambda>row. is_ok (anchor_request rid row)) rows
      then Inr (map (\<lambda>(g, v, p, r). (e_hash p, e_id p)) (filter (is_anchor rid) rows))
      else Inl ValueError)"
proof (induction rows)
  case (Cons row rows)
  obtain g v p r where row: "row = (g, v, p, r)" by (cases row) auto
  show ?case
    unfolding row anchor_rows_Cons
    by (cases "anchor_request rid (g, v, p, r)") (auto simp: Cons dest: anchor_request_Inl)
qed simp

lemma requested_rows_perm:
  assumes "mset (events db) = mset (events db')" "mset (verdicts db) = mset (verdicts db')"
    and "mset (generations db) = mset (generations db')"
  shows "mset (requested_rows db rid gen) = mset (requested_rows db' rid gen)"
  unfolding requested_rows_def
  by (intro mset_concat_map_cong mset_map_cong mset_filter_cong assms refl)

definition perm_result :: "err + (string \<times> string) list \<Rightarrow> err + (string \<times> string) list \<Rightarrow> bool" where
  "perm_result a b = (case (a, b) of (Inr xs, Inr ys) \<Rightarrow> mset xs = mset ys
     | (Inl e, Inl e') \<Rightarrow> e = e' | _ \<Rightarrow> False)"

lemma requested_predecessors_perm:
  assumes "mset (events db) = mset (events db')" "mset (verdicts db) = mset (verdicts db')"
    and "mset (generations db) = mset (generations db')"
  shows "perm_result (requested_predecessors db rid gen) (requested_predecessors db' rid gen)"
proof -
  have m: "mset (requested_rows db rid gen) = mset (requested_rows db' rid gen)"
    by (rule requested_rows_perm [OF assms])
  then have "set (requested_rows db rid gen) = set (requested_rows db' rid gen)"
    by (rule mset_eq_setD)
  moreover have "mset (map f (filter Q (requested_rows db rid gen)))
      = mset (map f (filter Q (requested_rows db' rid gen)))" for f :: "request_row \<Rightarrow> string \<times> string" and Q
    using m by (simp add: mset_filter)
  ultimately show ?thesis
    unfolding requested_predecessors_def anchor_rows_eq perm_result_def by (auto simp: list_all_iff)
qed

lemma targets_perm:
  assumes "mset anchors = mset anchors'"
  shows "mset (targets nodes anchors d) = mset (targets nodes anchors' d)"
  using assms by (simp add: targets_def mset_filter)

lemma head_of_perm:
  assumes "mset anchors = mset anchors'"
  shows "head_of nodes anchors = head_of nodes anchors'"
proof -
  have t: "mset (targets nodes anchors d) = mset (targets nodes anchors' d)" for d
    by (rule targets_perm [OF assms])
  then have len: "length (targets nodes anchors d) = length (targets nodes anchors' d)" for d
    by (metis size_mset)
  have "length (targets nodes anchors d) = 1 \<Longrightarrow> targets nodes anchors d = targets nodes anchors' d" for d
    by (rule mset_le_one [OF t]) simp
  then have "edges_of nodes anchors = edges_of nodes anchors'"
    unfolding edges_of_def using len by (intro arg_cong [where f = concat] map_cong) auto
  moreover have "unresolved nodes anchors = unresolved nodes anchors'"
    by (simp add: unresolved_def len)
  ultimately show ?thesis by (simp add: head_of_def)
qed

section \<open>Currency\<close>

lemma currency_current:
  assumes "currency_of db r e = Inr c" "cu_current c"
  shows "r_status r = ''active'' \<and> \<not> truthy_text (r_superseded_by r) \<and> e_gen e = r_generation r
    \<and> (\<exists>h. head_revision db (e_rel e) (r_generation r) = Inr h \<and> h_event h = Some (e_id e))
    \<and> cu_reason c = None \<and> cu_head_event c = Some (e_id e)"
  using assms by (auto simp: currency_of_def not_current_def split: if_splits)

section \<open>Properties\<close>

text \<open>
  a generation has a head only when one revision is superseded by nobody and reaches every
  other reviewable revision of the generation through declared predecessors, each declaration
  naming exactly one revision.
\<close>

theorem head_reaches_every_revision:
  assumes "head_revision db rid gen = Inr h" and "h_event h = Some tip"
  shows "\<exists>anchors. requested_predecessors db rid gen = Inr anchors
    \<and> tip \<in> e_id ` set (reviewable db rid gen)
    \<and> (\<forall>e\<in>set (reviewable db rid gen).
         (tip, e_id e) \<in> (set (edges_of (nodes_of db rid gen) anchors))\<^sup>*)
    \<and> tip \<notin> snd ` set (edges_of (nodes_of db rid gen) anchors)
    \<and> \<not> unresolved (nodes_of db rid gen) anchors"
proof -
  let ?N = "nodes_of db rid gen"
  have "?N \<noteq> []" using assms by (auto simp: head_revision_def head_of_def split: if_splits)
  then obtain anchors where anchors: "requested_predecessors db rid gen = Inr anchors"
    and h: "h_event (head_of ?N anchors) = Some tip"
    using assms by (auto simp: head_revision_def Let_def)
  from head_of_some [OF h] have tips: "tips ?N (edges_of ?N anchors) = [tip]"
    and sub: "set (map fst ?N) \<subseteq> set (chain (length (edges_of ?N anchors)) (edges_of ?N anchors) tip)"
    and unr: "\<not> unresolved ?N anchors" by auto
  from tips have "tip \<in> set (tips ?N (edges_of ?N anchors))" by simp
  then have tip: "tip \<in> fst ` set ?N" "tip \<notin> snd ` set (edges_of ?N anchors)"
    by (auto simp: tips_def)
  have "(tip, e_id e) \<in> (set (edges_of ?N anchors))\<^sup>*" if "e \<in> set (reviewable db rid gen)" for e
  proof -
    have "e_id e \<in> set (map fst ?N)" using that by (simp add: nodes_of_def)
    with sub chain_reaches show ?thesis
      by (meson edge_rel_subset rtrancl_mono subsetD)
  qed
  with anchors tip unr show ?thesis by (force simp: nodes_of_def)
qed

definition demo_event :: "string \<Rightarrow> string \<Rightarrow> int \<Rightarrow> event_row" where
  "demo_event ev digest gen = \<lparr>e_id = ev, e_rel = ''rel'', e_gen = gen, e_hash = digest,
     e_outcome = ''ready_for_review'', e_producer = ''child'', e_attempt = Some 1,
     e_thread = ''child'', e_turn = ''turn-1'', e_turn_status = ''completed'', e_receipt = JObj [],
     e_manifest_ref = None, e_binding_mode = None, e_stage = FINAL, e_staged_at = None,
     e_finalized_at = None, e_finalizing_status = None, e_suppressed_reason = None,
     e_first_seen_at = ''t0'', e_last_seen_at = ''t0'', e_observation_count = 1\<rparr>"

definition demo_lineage :: "string \<Rightarrow> string \<Rightarrow> string option \<Rightarrow> lineage_row" where
  "demo_lineage ev digest declared = \<lparr>l_rel = ''rel'', l_gen = 1, l_event = ev, l_hash = digest,
     l_supersedes_hash = declared, l_declared_by = ''child_declared'', l_recorded_at = ''t0''\<rparr>"

definition two_revisions :: db where
  "two_revisions = empty_db\<lparr>events := [demo_event ''b'' ''h2'' 1, demo_event ''a'' ''h1'' 1],
     revision_lineage := [demo_lineage ''b'' ''h2'' (Some ''h1''), demo_lineage ''a'' ''h1'' None]\<rparr>"

lemma two_revisions_head: "\<exists>h. head_revision two_revisions ''rel'' 1 = Inr h \<and> h_event h = Some ''b''"
proof -
  have "(case head_revision two_revisions ''rel'' 1 of Inl _ \<Rightarrow> None | Inr h \<Rightarrow> h_event h) = Some ''b''"
    by code_simp
  then show ?thesis by (simp split: sum.splits)
qed

theorem head_reaches_every_revision_witness:
  "\<exists>anchors. (''b'', ''a'') \<in> (set (edges_of (nodes_of two_revisions ''rel'' 1) anchors))\<^sup>*"
proof -
  obtain h where h: "head_revision two_revisions ''rel'' 1 = Inr h" "h_event h = Some ''b''"
    using two_revisions_head by blast
  have "demo_event ''a'' ''h1'' 1 \<in> set (reviewable two_revisions ''rel'' 1)"
    by (simp add: reviewable_def two_revisions_def empty_db_def demo_event_def READY_FOR_REVIEW_def)
  moreover have "e_id (demo_event ''a'' ''h1'' 1) = ''a''" by (simp add: demo_event_def)
  ultimately show ?thesis using head_reaches_every_revision [OF h] by metis
qed

text \<open>
  the answer \<open>disconnected\<close> is never given: once there is no unresolved declaration, no cycle
  and one tip, the chain from the tip always reaches every revision, so the last check of
  \<^verbatim>\<open>head_revision\<close> cannot fail.
\<close>

theorem head_never_disconnected:
  assumes "distinct (map e_id (events db))" and "head_revision db rid gen = Inr h"
  shows "h_evidence h \<noteq> DISCONNECTED"
proof -
  have "distinct (map e_id (reviewable db rid gen))"
    using assms(1) by (simp add: reviewable_def distinct_map inj_on_def)
  then have "distinct (map fst (nodes_of db rid gen))" by (simp add: nodes_of_def comp_def)
  then show ?thesis
    using assms(2) head_of_not_disconnected
    by (auto simp: head_revision_def Let_def head_of_def [of "[]"] split: if_splits)
qed

theorem head_never_disconnected_witness:
  "\<exists>h. head_revision two_revisions ''rel'' 1 = Inr h \<and> h_evidence h \<noteq> DISCONNECTED"
proof -
  obtain h where h: "head_revision two_revisions ''rel'' 1 = Inr h" using two_revisions_head by blast
  have "distinct (map e_id (events two_revisions))"
    by (simp add: two_revisions_def demo_event_def)
  from head_never_disconnected [OF this h] h show ?thesis by blast
qed




definition demo_relationship :: relationship_row where
  "demo_relationship = \<lparr>r_id = ''rel'', r_issue_key = ''ISSUE-1'', r_status = ''active'',
     r_parent_task = ''parent'', r_parent_host = ''h'', r_parent_cwd = None, r_parent_cxc = None,
     r_child_task = ''child'', r_child_host = ''h'', r_child_cwd = None, r_child_cxc = None,
     r_generation = 1, r_artifact_roots = [''/work''], r_allowed_recipients = [''parent'', ''child''],
     r_scope_ref = None, r_supersedes = None, r_superseded_by = None, r_created_at = ''t0'',
     r_updated_at = ''t0''\<rparr>"


end
