(* ===== verification/Registry.thy ===== *)
theory Registry
  imports Currency
begin

text \<open>
  \<^verbatim>\<open>registry.py\<close>: relationships, their execution generations and the anchors that bind a generation
  to the turn its dispatch reported. \<open>register\<close>, \<open>open_generation\<close>, \<open>bind_anchor\<close>, \<open>set_status\<close>,
  \<open>resume\<close> and \<open>supersede\<close> are the class's public operations, the \<open>..._in\<close> definitions the ones a
  caller's transaction uses.
\<close>

section \<open>Constants and values\<close>

definition ACTIVE :: string where "ACTIVE = ''active''"
definition STATUSES :: "string list" where
  "STATUSES = [''active'', ''paused'', ''cancelled'', ''archived'']"
definition DEACTIVATIONS :: "string list" where
  "DEACTIVATIONS = [''paused'', ''cancelled'', ''archived'']"
definition REASONS :: "string list" where
  "REASONS = [''initial_assignment'', ''needs_changes_revision'']"

text \<open>\<^verbatim>\<open>models.Endpoint\<close>.\<close>

record Endpoint =
  ep_task_id :: string
  ep_host_id :: string
  ep_cwd :: "string option"
  ep_cxc_session :: "string option"

text \<open>The relationship as the registry reports it: its row with the generations it retains.\<close>

record relationship_record =
  rr_row :: relationship_row
  rr_generations :: "generation_row list"

definition validated_turn_id :: "string option \<Rightarrow> err + string option" where
  "validated_turn_id value = (case value of
       None \<Rightarrow> Inr None
     | Some v \<Rightarrow> if blank v then Inl (RelayError RegistrationError UNBOUND_GENERATION)
               else Inr (Some v))"

section \<open>Reading\<close>

definition generations_of :: "db \<Rightarrow> string \<Rightarrow> generation_row list" where
  "generations_of db rid = sort_key g_no (filter (\<lambda>g. g_rel g = rid) (generations db))"

definition row_to_record :: "db \<Rightarrow> relationship_row \<Rightarrow> err + relationship_record" where
  "row_to_record db row =
     (let gens = generations_of db (r_id row)
      in if r_generation row \<in> set (map g_no gens)
         then Inr \<lparr>rr_row = row, rr_generations = gens\<rparr>
         else Inl (RelayError RegistrationError UNKNOWN_GENERATION))"

definition get :: "db \<Rightarrow> string \<Rightarrow> err + relationship_record" where
  "get db rid = (case relationship_of db rid of
       None \<Rightarrow> Inl (RelayError RegistrationError UNREGISTERED_RELATIONSHIP)
     | Some row \<Rightarrow> row_to_record db row)"

definition require_active :: "db \<Rightarrow> string \<Rightarrow> err + relationship_record" where
  "require_active db rid = bindE (get db rid) (\<lambda>record.
     if r_status (rr_row record) \<noteq> ACTIVE
     then Inl (RelayError RegistrationError RELATIONSHIP_NOT_ACTIVE) else Inr record)"

definition generation :: "db \<Rightarrow> string \<Rightarrow> int \<Rightarrow> err + generation_row option" where
  "generation db rid number = bindE (get db rid) (\<lambda>_. Inr (generation_row_of db rid number))"

section \<open>Generations\<close>

text \<open>The table's primary key and its second unique key.\<close>

definition insert_generation ::
  "generation_row \<Rightarrow> generation_row list \<Rightarrow> err + generation_row list" where
  "insert_generation g t =
     (if list_ex (\<lambda>x. g_rel x = g_rel g
            \<and> (g_no x = g_no g \<or> g_dispatch_request x = g_dispatch_request g)) t
      then Inl IntegrityError else Inr (t @ [g]))"

definition new_generation ::
  "string \<Rightarrow> string \<Rightarrow> int \<Rightarrow> string \<Rightarrow> string \<Rightarrow> string option \<Rightarrow> generation_row" where
  "new_generation now rid number dispatch_request reason turn =
     \<lparr>g_rel = rid, g_no = number, g_dispatch_request = dispatch_request,
      g_anchor_state = (if truthy_text turn then ANCHOR_BOUND else ANCHOR_PENDING),
      g_dispatch_turn = turn, g_reason = reason, g_opened_at = now,
      g_bound_at = (if truthy_text turn then Some now else None)\<rparr>"

definition outstanding :: "delivery_state list" where
  "outstanding = [QUEUED, SENDING, HELD_UNCERTAIN, DISPATCHED, DEFERRED_BUSY, WITHHELD_PRE_SEND,
     INBOX_ONLY]"

text \<open>
  The statement that annotates what the advance made stale: the deliveries of the relationship,
  still outstanding, whose event belongs to an earlier generation.
\<close>

definition stale_deliveries :: "db \<Rightarrow> string \<Rightarrow> int \<Rightarrow> delivery_row list" where
  "stale_deliveries db rid number =
     filter (\<lambda>d. d_rel d = rid \<and> d_state d \<in> set outstanding
        \<and> list_ex (\<lambda>e. e_id e = d_event d \<and> e_gen e < number) (events db)) (deliveries db)"

definition annotate_row :: "string \<Rightarrow> string \<Rightarrow> string \<Rightarrow> supersession_row list
    \<Rightarrow> supersession_row list" where
  "annotate_row event reason now t = insert_or_ignore ss_event
     \<lparr>ss_event = event, ss_reason = reason, ss_noted_at = now, ss_applied = False\<rparr> t"

definition annotate_stale :: "string \<Rightarrow> string \<Rightarrow> int \<Rightarrow> db \<Rightarrow> db" where
  "annotate_stale now rid number db = db\<lparr>supersessions :=
     fold (\<lambda>d. annotate_row (d_event d) ''stale_generation'' now)
       (stale_deliveries db rid number) (supersessions db)\<rparr>"

definition open_generation_in ::
  "clock \<Rightarrow> string \<Rightarrow> string \<Rightarrow> string \<Rightarrow> string option \<Rightarrow> db \<Rightarrow> err + db \<times> int" where
  "open_generation_in clk rid dispatch_request reason dispatch_turn db =
     (if reason \<notin> set REASONS then Inl (RelayError RegistrationError UNKNOWN_GENERATION)
      else bindE (validated_turn_id dispatch_turn) (\<lambda>turn.
        case List.find (\<lambda>g. g_rel g = rid \<and> g_dispatch_request g = dispatch_request)
               (generations db) of
          Some replay \<Rightarrow> Inr (db, g_no replay)
        | None \<Rightarrow>
            (case relationship_of db rid of
               None \<Rightarrow> Inl (RelayError RegistrationError UNREGISTERED_RELATIONSHIP)
             | Some current \<Rightarrow>
                 if r_status current \<noteq> ACTIVE \<or> truthy_text (r_superseded_by current)
                 then Inl (RelayError RegistrationError RELATIONSHIP_NOT_ACTIVE)
                 else let number = r_generation current + 1; now = clk_iso clk
                 in bindE (insert_generation
                        (new_generation now rid number dispatch_request reason turn)
                        (generations db)) (\<lambda>gens.
                      Inr (annotate_stale now rid number
                        (journal_entry ''generation_opened'' rid
                           (JObj [(''generation'', JInt number), (''reason'', JStr reason)]) now
                         (db\<lparr>generations := gens,
                            relationships := update_where (\<lambda>r. r_id r = rid)
                              (\<lambda>r. r\<lparr>r_generation := number, r_updated_at := now\<rparr>)
                              (relationships db)\<rparr>)), number)))))"

text \<open>A read after the commit: what it raises no longer rolls anything back.\<close>

definition after_commit :: "db \<Rightarrow> (db \<Rightarrow> err + 'a) \<Rightarrow> err + db \<Rightarrow> db \<times> (err + 'a)" where
  "after_commit db reading outcome = (case outcome of
       Inl e \<Rightarrow> (db, Inl e)
     | Inr db' \<Rightarrow> (db', reading db'))"

definition open_generation ::
  "clock \<Rightarrow> string \<Rightarrow> string \<Rightarrow> string \<Rightarrow> string option \<Rightarrow> db
     \<Rightarrow> db \<times> (err + generation_row option)" where
  "open_generation clk rid dispatch_request reason dispatch_turn db =
     (if reason \<notin> set REASONS then (db, Inl (RelayError RegistrationError UNKNOWN_GENERATION))
      else case bindE (validated_turn_id dispatch_turn) (\<lambda>turn.
             bindE (require_active db rid) (\<lambda>_. Inr turn)) of
          Inl e \<Rightarrow> (db, Inl e)
        | Inr turn \<Rightarrow>
            (case List.find (\<lambda>g. g_rel g = rid \<and> g_dispatch_request g = dispatch_request)
                    (generations db) of
               Some replay \<Rightarrow> (db, Inr (Some replay))
             | None \<Rightarrow>
                 (case open_generation_in clk rid dispatch_request reason turn db of
                    Inl e \<Rightarrow> (db, Inl e)
                  | Inr (db', number) \<Rightarrow> (db', generation db' rid number))))"

section \<open>Anchors\<close>

definition bind_row :: "string \<Rightarrow> int \<Rightarrow> string \<Rightarrow> string \<Rightarrow> db \<Rightarrow> db" where
  "bind_row rid number turn now db =
     journal_entry ''anchor_bound'' rid (JObj [(''generation'', JInt number)]) now
      (db\<lparr>generations := update_where (\<lambda>g. g_rel g = rid \<and> g_no g = number)
         (\<lambda>g. g\<lparr>g_anchor_state := ANCHOR_BOUND, g_dispatch_turn := Some turn,
              g_bound_at := Some now\<rparr>) (generations db)\<rparr>)"

definition bind_anchor ::
  "clock \<Rightarrow> string \<Rightarrow> int \<Rightarrow> string option \<Rightarrow> string \<Rightarrow> db \<Rightarrow> db \<times> (err + generation_row option)" where
  "bind_anchor clk rid number dispatch_turn source db =
     (if source \<noteq> ''dispatch_receipt''
      then (db, Inl (RelayError RegistrationError UNBOUND_GENERATION))
      else case validated_turn_id dispatch_turn of
          Inl e \<Rightarrow> (db, Inl e)
        | Inr None \<Rightarrow> (db, Inl (RelayError RegistrationError UNBOUND_GENERATION))
        | Inr (Some turn) \<Rightarrow>
            (case generation db rid number of
               Inl e \<Rightarrow> (db, Inl e)
             | Inr None \<Rightarrow> (db, Inl (RelayError RegistrationError UNKNOWN_GENERATION))
             | Inr (Some current) \<Rightarrow>
                 if g_anchor_state current = ANCHOR_BOUND then
                   (if g_dispatch_turn current = Some turn then (db, Inr (Some current))
                    else (db, Inl (RelayError RegistrationError ANCHOR_ALREADY_BOUND)))
                 else let db' = bind_row rid number turn (clk_iso clk) db
                   in (db', generation db' rid number)))"

datatype bind_outcome = Bound | Unchanged | Conflict | Ineligible

definition bind_anchor_in ::
  "clock \<Rightarrow> string \<Rightarrow> int \<Rightarrow> string option \<Rightarrow> string \<Rightarrow> db \<Rightarrow> err + db \<times> bind_outcome" where
  "bind_anchor_in clk rid number dispatch_turn source db =
     (if source \<noteq> ''dispatch_receipt'' then Inr (db, Ineligible)
      else bindE (validated_turn_id dispatch_turn) (\<lambda>value.
        case value of
          None \<Rightarrow> Inr (db, Ineligible)
        | Some turn \<Rightarrow>
            (case generation_row_of db rid number of
               None \<Rightarrow> Inr (db, Ineligible)
             | Some current \<Rightarrow>
                 if g_anchor_state current = ANCHOR_BOUND then
                   (if g_dispatch_turn current = Some turn then Inr (db, Unchanged)
                    else Inr (journal_entry ''anchor_conflict'' rid
                           (JObj [(''generation'', JInt number),
                              (''boundTo'', jopt (g_dispatch_turn current)),
                              (''offered'', JStr turn)]) (clk_iso clk) db, Conflict))
                 else Inr (bind_row rid number turn (clk_iso clk) db, Bound))))"

section \<open>Registration\<close>

definition same_scope ::
  "relationship_row \<Rightarrow> Endpoint \<Rightarrow> Endpoint \<Rightarrow> string list \<Rightarrow> string list \<Rightarrow> bool" where
  "same_scope row parent child roots recipients =
     (r_artifact_roots row = roots \<and> r_allowed_recipients row = recipients
      \<and> r_parent_host row = ep_host_id parent \<and> r_child_host row = ep_host_id child)"

text \<open>A live assignment holds its issue: active or paused and not superseded.\<close>

definition live :: "relationship_row \<Rightarrow> bool" where
  "live r = (r_status r \<in> {''active'', ''paused''} \<and> r_superseded_by r = None)"

definition new_relationship ::
  "string \<Rightarrow> string \<Rightarrow> Endpoint \<Rightarrow> Endpoint \<Rightarrow> string \<Rightarrow> string list \<Rightarrow> string list
     \<Rightarrow> string option \<Rightarrow> string option \<Rightarrow> relationship_row" where
  "new_relationship now rid parent child issue_key roots recipients scope_ref supersedes =
     \<lparr>r_id = rid, r_issue_key = issue_key, r_status = ACTIVE,
      r_parent_task = ep_task_id parent, r_parent_host = ep_host_id parent,
      r_parent_cwd = ep_cwd parent, r_parent_cxc = ep_cxc_session parent,
      r_child_task = ep_task_id child, r_child_host = ep_host_id child,
      r_child_cwd = ep_cwd child, r_child_cxc = ep_cxc_session child,
      r_generation = 1, r_artifact_roots = roots, r_allowed_recipients = recipients,
      r_scope_ref = scope_ref, r_supersedes = supersedes, r_superseded_by = None,
      r_created_at = now, r_updated_at = now\<rparr>"

definition supersede_row :: "string \<Rightarrow> string \<Rightarrow> relationship_row \<Rightarrow> relationship_row" where
  "supersede_row now rid r =
     r\<lparr>r_superseded_by := Some rid, r_status := ''archived'', r_updated_at := now\<rparr>"

text \<open>
  The write transaction of \<^verbatim>\<open>register\<close>. The rival query has no order; where several rows match, the
  model takes the first inserted.
\<close>

definition register_in ::
  "clock \<Rightarrow> string \<Rightarrow> Endpoint \<Rightarrow> Endpoint \<Rightarrow> string \<Rightarrow> string list \<Rightarrow> string list \<Rightarrow> string
     \<Rightarrow> string option \<Rightarrow> string option \<Rightarrow> string option \<Rightarrow> db \<Rightarrow> err + db" where
  "register_in clk rid parent child issue_key roots recipients dispatch_request scope_ref
       dispatch_turn supersedes db =
     (let now = clk_iso clk;
          rival = List.find (\<lambda>r. r_issue_key r = issue_key \<and> live r
             \<and> r_child_task r \<noteq> ep_task_id child) (relationships db)
      in if (case rival of None \<Rightarrow> False | Some r \<Rightarrow> Some (r_id r) \<noteq> supersedes)
         then Inl (RelayError RegistrationError DUPLICATE_ASSIGNMENT)
         else bindE (insert_row r_id (new_relationship now rid parent child issue_key roots
                  recipients scope_ref supersedes) (relationships db)) (\<lambda>rels.
              bindE (insert_generation (new_generation now rid 1 dispatch_request
                  ''initial_assignment'' dispatch_turn) (generations db)) (\<lambda>gens.
                Inr (journal_entry ''relationship_registered'' rid
                    (JObj [(''issueKey'', JStr issue_key)]) now
                  (db\<lparr>relationships := (if truthy_text supersedes
                        then update_where (\<lambda>r. Some (r_id r) = supersedes)
                               (supersede_row now rid) rels
                        else rels),
                      generations := gens\<rparr>)))))"

definition register ::
  "clock \<Rightarrow> Endpoint \<Rightarrow> Endpoint \<Rightarrow> string \<Rightarrow> string list \<Rightarrow> string list \<Rightarrow> string
     \<Rightarrow> string option \<Rightarrow> string option \<Rightarrow> string option \<Rightarrow> db \<Rightarrow> db \<times> (err + relationship_record)" where
  "register clk parent child issue_key roots recipients dispatch_request scope_ref dispatch_turn
       supersedes db =
     (if roots = [] \<or> recipients = [] then (db, Inl (RelayError RegistrationError SCOPE_ESCAPE))
      else case bindE (relationship_id (ep_task_id parent) (ep_task_id child) issue_key) (\<lambda>rid.
             bindE (validated_turn_id dispatch_turn) (\<lambda>turn. Inr (rid, turn))) of
          Inl e \<Rightarrow> (db, Inl e)
        | Inr (rid, turn) \<Rightarrow>
            (case relationship_of db rid of
               Some existing \<Rightarrow>
                 (db, bindE (row_to_record db existing) (\<lambda>record.
                    if same_scope existing parent child roots recipients then Inr record
                    else Inl (RelayError RegistrationError RELATIONSHIP_CONFLICT)))
             | None \<Rightarrow> after_commit db (\<lambda>db'. get db' rid)
                 (register_in clk rid parent child issue_key roots recipients dispatch_request
                    scope_ref turn supersedes db)))"

section \<open>Status\<close>

definition write_status :: "clock \<Rightarrow> string \<Rightarrow> string \<Rightarrow> string \<Rightarrow> db \<Rightarrow> db" where
  "write_status clk rid status actor db =
     journal_entry ''status_changed'' rid
       (JObj [(''status'', JStr status), (''actor'', JStr actor)]) (clk_iso clk)
      (db\<lparr>relationships := update_where (\<lambda>r. r_id r = rid)
         (\<lambda>r. r\<lparr>r_status := status, r_updated_at := clk_iso clk\<rparr>) (relationships db)\<rparr>)"

definition set_status ::
  "clock \<Rightarrow> string \<Rightarrow> string \<Rightarrow> string \<Rightarrow> db \<Rightarrow> db \<times> (err + relationship_record)" where
  "set_status clk rid status actor db =
     (if status \<notin> set DEACTIVATIONS
      then (db, Inl (RelayError RegistrationError RELATIONSHIP_NOT_ACTIVE))
      else case get db rid of
          Inl e \<Rightarrow> (db, Inl e)
        | Inr _ \<Rightarrow> let db' = write_status clk rid status actor db in (db', get db' rid))"

definition resume_in ::
  "clock \<Rightarrow> string \<Rightarrow> int \<Rightarrow> string list \<Rightarrow> string list \<Rightarrow> string \<Rightarrow> db \<Rightarrow> err + db" where
  "resume_in clk rid expect_generation roots recipients actor db =
     (case relationship_of db rid of
        None \<Rightarrow> Inl (RelayError RegistrationError UNREGISTERED_RELATIONSHIP)
      | Some row \<Rightarrow>
          if r_generation row \<noteq> expect_generation \<or> r_artifact_roots row \<noteq> roots
             \<or> r_allowed_recipients row \<noteq> recipients \<or> truthy_text (r_superseded_by row)
          then Inl (RelayError RegistrationError RELATIONSHIP_NOT_ACTIVE)
          else if list_ex (\<lambda>o'. r_issue_key o' = r_issue_key row \<and> r_id o' \<noteq> rid \<and> live o')
                 (relationships db)
          then Inl (RelayError RegistrationError DUPLICATE_ASSIGNMENT)
          else Inr (write_status clk rid ACTIVE actor db))"

definition resume ::
  "clock \<Rightarrow> string \<Rightarrow> int \<Rightarrow> string list \<Rightarrow> string list \<Rightarrow> string \<Rightarrow> db
     \<Rightarrow> db \<times> (err + relationship_record)" where
  "resume clk rid expect_generation roots recipients actor db =
     after_commit db (\<lambda>db'. get db' rid)
       (resume_in clk rid expect_generation roots recipients actor db)"

definition supersede ::
  "clock \<Rightarrow> string \<Rightarrow> string \<Rightarrow> db \<Rightarrow> db \<times> (err + unit)" where
  "supersede clk old_rid new_rid db =
     (case get db old_rid of
        Inl e \<Rightarrow> (db, Inl e)
      | Inr _ \<Rightarrow>
          (journal_entry ''superseded'' old_rid (JObj [(''by'', JStr new_rid)]) (clk_iso clk)
            (db\<lparr>relationships := update_where (\<lambda>r. r_id r = old_rid)
               (supersede_row (clk_iso clk) new_rid) (relationships db)\<rparr>), Inr ()))"

section \<open>The invariant of the registry\<close>

text \<open>
  Keys are unique, every relationship retains exactly the generations from one to its current
  one, no two generations of a relationship came from one dispatch, and a generation names a
  turn exactly when it is bound.
\<close>

definition gen_key :: "generation_row \<Rightarrow> string \<times> int" where
  "gen_key g = (g_rel g, g_no g)"

definition dispatch_key :: "generation_row \<Rightarrow> string \<times> string" where
  "dispatch_key g = (g_rel g, g_dispatch_request g)"

definition anchored :: "generation_row \<Rightarrow> bool" where
  "anchored g = ((g_anchor_state g = ANCHOR_BOUND) = truthy_text (g_dispatch_turn g))"

definition numbers :: "generation_row list \<Rightarrow> string \<Rightarrow> int set" where
  "numbers gens rid = g_no ` {g \<in> set gens. g_rel g = rid}"

definition gens_ok :: "relationship_row list \<Rightarrow> generation_row list \<Rightarrow> bool" where
  "gens_ok rels gens = (distinct (map r_id rels) \<and> distinct (map gen_key gens)
     \<and> distinct (map dispatch_key gens) \<and> (\<forall>g\<in>set gens. anchored g)
     \<and> (\<forall>r\<in>set rels. 1 \<le> r_generation r \<and> numbers gens (r_id r) = {1 .. r_generation r})
     \<and> (\<forall>g\<in>set gens. g_rel g \<in> r_id ` set rels))"

definition registry_inv :: "db \<Rightarrow> bool" where
  "registry_inv db = gens_ok (relationships db) (generations db)"

lemma set_generations_of: "set (generations_of db rid) = {g \<in> set (generations db). g_rel g = rid}"
  by (simp add: generations_of_def)

lemma numbers_of: "set (map g_no (generations_of db rid)) = numbers (generations db) rid"
  by (simp add: generations_of_def numbers_def)

lemma get_total:
  assumes "registry_inv db" "relationship_of db rid = Some row"
  shows "get db rid = Inr \<lparr>rr_row = row, rr_generations = generations_of db rid\<rparr>"
proof -
  from assms have "row \<in> set (relationships db)" "r_id row = rid" by (auto dest: lookup_mem)
  with assms(1) have "r_generation row \<in> numbers (generations db) rid"
    unfolding registry_inv_def gens_ok_def by fastforce
  then show ?thesis
    using assms(2) \<open>r_id row = rid\<close> unfolding get_def row_to_record_def numbers_of [symmetric]
    by (simp add: Let_def)
qed

lemma get_Inr: "get db rid = Inr rec \<Longrightarrow> relationship_of db rid = Some (rr_row rec)
    \<and> rr_generations rec = generations_of db rid \<and> r_id (rr_row rec) = rid"
  by (auto simp: get_def row_to_record_def Let_def dest: lookup_mem split: option.splits if_splits)

lemma require_active_Inr: "require_active db rid = Inr rec \<Longrightarrow>
    get db rid = Inr rec \<and> r_status (rr_row rec) = ACTIVE"
  by (auto simp: require_active_def split: if_splits)

subsection \<open>Its preservation\<close>

lemma numbers_keys: "numbers gens rid = {n. (rid, n) \<in> gen_key ` set gens}"
  by (force simp: numbers_def gen_key_def)

lemma numbers_append: "numbers (gens @ [g]) rid =
    (if g_rel g = rid then insert (g_no g) (numbers gens rid) else numbers gens rid)"
  by (auto simp: numbers_def)

lemma insert_generation_Inr:
  assumes "insert_generation g t = Inr t'"
  shows "t' = t @ [g] \<and> gen_key g \<notin> gen_key ` set t \<and> dispatch_key g \<notin> dispatch_key ` set t"
  using assms by (auto simp: insert_generation_def gen_key_def dispatch_key_def list_ex_iff split: if_splits)

lemma validated_turn_truthy: "validated_turn_id v = Inr t \<Longrightarrow> truthy_text t = (t \<noteq> None)"
  by (auto simp: validated_turn_id_def split: option.splits if_splits)

lemma new_generation_simps [simp]:
  "g_rel (new_generation now rid n d rs t) = rid" "g_no (new_generation now rid n d rs t) = n"
  "anchored (new_generation now rid n d rs t)"
  "g_dispatch_turn (new_generation now rid n d rs t) = t"
  by (simp_all add: new_generation_def anchored_def)

lemma new_relationship_simps [simp]:
  "r_id (new_relationship now rid p c k ro re sc su) = rid"
  "r_generation (new_relationship now rid p c k ro re sc su) = 1"
  "r_issue_key (new_relationship now rid p c k ro re sc su) = k"
  "r_child_task (new_relationship now rid p c k ro re sc su) = ep_task_id c"
  "live (new_relationship now rid p c k ro re sc su)"
  by (simp_all add: new_relationship_def live_def ACTIVE_def)

lemma gens_ok_same_keys:
  assumes "gens_ok rels gens" "map r_id rels' = map r_id rels" "map r_generation rels' = map r_generation rels"
  shows "gens_ok rels' gens"
proof -
  have len: "length rels' = length rels" using assms(2) map_eq_imp_length_eq by blast
  have pair: "\<exists>r\<in>set rels. r_id r = r_id r' \<and> r_generation r = r_generation r'" if r': "r' \<in> set rels'" for r'
  proof -
    from r' obtain i where i: "i < length rels'" "r' = rels' ! i" by (auto simp: in_set_conv_nth)
    moreover have "r_id (rels ! i) = r_id (rels' ! i)" "r_generation (rels ! i) = r_generation (rels' ! i)"
      using i(1) len assms(2,3) by (metis nth_map)+
    ultimately show ?thesis using len by (metis nth_mem)
  qed
  have "r_id ` set rels' = r_id ` set rels" using assms(2) by (metis set_map)
  with assms(1,2) pair show ?thesis unfolding gens_ok_def by metis
qed

lemma gens_ok_new:
  assumes ok: "gens_ok rels gens" and rid: "rid \<notin> r_id ` set rels" and r: "r_id r = rid" "r_generation r = 1"
    and g: "insert_generation g gens = Inr gens'" "g_rel g = rid" "g_no g = 1" "anchored g"
  shows "gens_ok (rels @ [r]) gens'"
proof -
  from insert_generation_Inr [OF g(1)] have gens': "gens' = gens @ [g]"
    "gen_key g \<notin> gen_key ` set gens" "dispatch_key g \<notin> dispatch_key ` set gens" by auto
  have "numbers gens rid = {}" using ok rid unfolding gens_ok_def numbers_def by auto
  then have "numbers gens' rid = {1 .. 1}" by (simp add: gens' numbers_append g)
  moreover have "numbers gens' (r_id x) = numbers gens (r_id x)" if "x \<in> set rels" for x
    using that rid by (auto simp: gens' numbers_append g(2))
  ultimately show ?thesis
    using ok rid r g gens' unfolding gens_ok_def by auto
qed

lemma gens_ok_advance:
  assumes ok: "gens_ok rels gens" and r: "r \<in> set rels" "r_id r = rid"
    and g: "insert_generation g gens = Inr gens'" "g_rel g = rid" "g_no g = r_generation r + 1" "anchored g"
    and f: "\<And>x. r_id (f x) = r_id x \<and> r_generation (f x) = r_generation r + 1"
  shows "gens_ok (update_where (\<lambda>x. r_id x = rid) f rels) gens'"
proof -
  let ?rels = "update_where (\<lambda>x. r_id x = rid) f rels"
  from insert_generation_Inr [OF g(1)] have gens': "gens' = gens @ [g]"
    "gen_key g \<notin> gen_key ` set gens" "dispatch_key g \<notin> dispatch_key ` set gens" by auto
  have ids: "map r_id ?rels = map r_id rels" by (rule map_update_where) (simp add: f)
  have "numbers gens rid = {1 .. r_generation r}" "1 \<le> r_generation r"
    using ok r unfolding gens_ok_def by auto
  moreover have "{1 .. r_generation r + 1} = insert (r_generation r + 1) {1 .. r_generation r}"
    if "1 \<le> r_generation r" using that by auto
  ultimately have new: "numbers gens' rid = {1 .. r_generation r + 1}"
    by (simp add: gens' numbers_append g(2,3))
  have rows: "1 \<le> r_generation x \<and> numbers gens' (r_id x) = {1 .. r_generation x}"
    if x: "x \<in> set ?rels" for x
  proof -
    from x obtain y where y: "y \<in> set rels" "x = (if r_id y = rid then f y else y)"
      by (auto simp: set_update_where)
    show ?thesis
    proof (cases "r_id y = rid")
      case True
      with y f new \<open>1 \<le> r_generation r\<close> show ?thesis by simp
    next
      case False
      with y ok show ?thesis by (simp add: gens_ok_def gens' numbers_append g(2))
    qed
  qed
  have "r_id ` set ?rels = r_id ` set rels" using ids by (metis set_map)
  with ids rows ok r g gens' show ?thesis unfolding gens_ok_def by auto
qed

lemma gens_ok_bind:
  assumes ok: "gens_ok rels gens" and turn: "turn \<noteq> []"
  shows "gens_ok rels (update_where P (\<lambda>g. g\<lparr>g_anchor_state := ANCHOR_BOUND,
    g_dispatch_turn := Some turn, g_bound_at := Some now\<rparr>) gens)" (is "gens_ok rels ?gens")
proof -
  have keys: "map gen_key ?gens = map gen_key gens" "map dispatch_key ?gens = map dispatch_key gens"
    "map g_rel ?gens = map g_rel gens"
    by (rule map_update_where, simp add: gen_key_def dispatch_key_def)+
  have sets: "gen_key ` set ?gens = gen_key ` set gens" "g_rel ` set ?gens = g_rel ` set gens"
    using keys(1,3) by (metis set_map)+
  have num: "numbers ?gens = numbers gens" unfolding numbers_keys fun_eq_iff sets by simp
  have anch: "\<forall>g\<in>set ?gens. anchored g"
    using ok turn by (auto simp: set_update_where gens_ok_def anchored_def)
  have "g_rel ` set gens \<subseteq> r_id ` set rels" using ok by (auto simp: gens_ok_def)
  then have owner: "\<forall>g\<in>set ?gens. g_rel g \<in> r_id ` set rels" unfolding sets(2) [symmetric] by blast
  show ?thesis
    unfolding gens_ok_def keys num using ok anch owner by (simp only: gens_ok_def) simp
qed

lemma annotate_stale_frame [simp]:
  "relationships (annotate_stale now rid n db) = relationships db"
  "generations (annotate_stale now rid n db) = generations db"
  "events (annotate_stale now rid n db) = events db"
  "deliveries (annotate_stale now rid n db) = deliveries db"
  "attempts (annotate_stale now rid n db) = attempts db"
  "verdicts (annotate_stale now rid n db) = verdicts db"
  "acks (annotate_stale now rid n db) = acks db"
  by (simp_all add: annotate_stale_def)

text \<open>What an opening that succeeds did, as one equation.\<close>

lemma open_generation_in_cases:
  assumes "open_generation_in clk rid dr reason dt db = Inr (db', n)"
  obtains (replay) g where "db' = db" "g \<in> set (generations db)" "g_rel g = rid"
      "g_dispatch_request g = dr" "n = g_no g"
    | (opened) cur t gens where "relationship_of db rid = Some cur" "r_status cur = ACTIVE"
      "\<not> truthy_text (r_superseded_by cur)" "n = r_generation cur + 1"
      "insert_generation (new_generation (clk_iso clk) rid n dr reason t) (generations db) = Inr gens"
      "\<not> (\<exists>g\<in>set (generations db). g_rel g = rid \<and> g_dispatch_request g = dr)"
      "relationships db' = update_where (\<lambda>r. r_id r = rid)
         (\<lambda>r. r\<lparr>r_generation := n, r_updated_at := clk_iso clk\<rparr>) (relationships db)"
      "generations db' = gens" "deliveries db' = deliveries db" "events db' = events db"
      "supersessions db' = fold (\<lambda>d. annotate_row (d_event d) ''stale_generation'' (clk_iso clk))
         (stale_deliveries db rid n) (supersessions db)"
      "attempts db' = attempts db" "verdicts db' = verdicts db" "acks db' = acks db"
proof -
  have reason: "reason \<in> set REASONS" using assms by (auto simp: open_generation_in_def split: if_splits)
  obtain t where t: "validated_turn_id dt = Inr t"
    using assms reason by (auto simp: open_generation_in_def)
  show thesis
  proof (cases "List.find (\<lambda>g. g_rel g = rid \<and> g_dispatch_request g = dr) (generations db)")
    case (Some g)
    with assms reason t have "db' = db" "n = g_no g" by (simp_all add: open_generation_in_def)
    with find_Some_iff_mem [OF Some] show thesis by (intro replay) auto
  next
    case None
    with assms reason t obtain cur where cur: "relationship_of db rid = Some cur"
        "r_status cur = ACTIVE" "\<not> truthy_text (r_superseded_by cur)"
      by (auto simp: open_generation_in_def split: option.splits if_splits)
    with assms reason t None obtain gens where
      n: "n = r_generation cur + 1"
      "insert_generation (new_generation (clk_iso clk) rid n dr reason t) (generations db) = Inr gens"
      and db': "db' = annotate_stale (clk_iso clk) rid n (journal_entry ''generation_opened'' rid
           (JObj [(''generation'', JInt n), (''reason'', JStr reason)]) (clk_iso clk)
           (db\<lparr>generations := gens, relationships := update_where (\<lambda>r. r_id r = rid)
              (\<lambda>r. r\<lparr>r_generation := n, r_updated_at := clk_iso clk\<rparr>) (relationships db)\<rparr>))"
      by (auto simp: open_generation_in_def Let_def)
    from None show thesis
      by (intro opened [OF cur n])
         (auto simp: db' find_None_iff_none annotate_stale_def stale_deliveries_def)
  qed
qed

lemma open_generation_in_inv:
  assumes "registry_inv db" "open_generation_in clk rid dr reason dt db = Inr (db', n)"
  shows "registry_inv db'"
  using assms(2)
proof (cases rule: open_generation_in_cases)
  case replay
  with assms(1) show ?thesis by simp
next
  case (opened cur t gens)
  have cur: "cur \<in> set (relationships db)" "r_id cur = rid" using opened(1) by (auto dest: lookup_mem)
  show ?thesis
    unfolding registry_inv_def opened(7,8)
    by (rule gens_ok_advance [OF _ cur opened(5)])
       (use assms(1) opened(4) in \<open>simp_all add: registry_inv_def\<close>)
qed

lemma open_generation_inv:
  "registry_inv db \<Longrightarrow> registry_inv (fst (open_generation clk rid dr reason dt db))"
  by (auto simp: open_generation_def split: sum.splits option.splits intro: open_generation_in_inv)

lemma register_in_inv:
  assumes "registry_inv db"
    and "register_in clk rid p c k roots recs dr sc dt sp db = Inr db'"
  shows "registry_inv db'"
proof -
  let ?r = "new_relationship (clk_iso clk) rid p c k roots recs sc sp"
  let ?g = "new_generation (clk_iso clk) rid 1 dr ''initial_assignment'' dt"
  from assms(2) obtain gens where
    new: "rid \<notin> r_id ` set (relationships db)" and gens: "insert_generation ?g (generations db) = Inr gens"
    and db': "generations db' = gens" "relationships db' = (if truthy_text sp
        then update_where (\<lambda>r. Some (r_id r) = sp) (supersede_row (clk_iso clk) rid)
               (relationships db @ [?r]) else relationships db @ [?r])"
    by (auto simp: register_in_def Let_def insert_row_Inr split: if_splits)
  have "gens_ok (relationships db @ [?r]) gens"
    by (rule gens_ok_new [OF _ new _ _ gens]) (use assms(1) in \<open>simp_all add: registry_inv_def\<close>)
  then show ?thesis
    unfolding registry_inv_def db'
    by (auto intro!: gens_ok_same_keys [of "relationships db @ [?r]"] map_update_where
        simp: supersede_row_def simp del: update_where_append)
qed

lemma register_inv:
  "registry_inv db \<Longrightarrow> registry_inv (fst (register clk p c k roots recs dr sc dt sp db))"
  by (auto simp: register_def after_commit_def split: sum.splits option.splits intro: register_in_inv)

lemma write_status_inv: "registry_inv db \<Longrightarrow> registry_inv (write_status clk rid st actor db)"
  unfolding registry_inv_def write_status_def
  by (auto intro!: gens_ok_same_keys [of "relationships db"] map_update_where)

lemma set_status_inv: "registry_inv db \<Longrightarrow> registry_inv (fst (set_status clk rid st actor db))"
  by (auto simp: set_status_def Let_def write_status_inv split: sum.splits)

lemma resume_in_inv: "registry_inv db \<Longrightarrow> resume_in clk rid n ro re actor db = Inr db' \<Longrightarrow> registry_inv db'"
  by (auto simp: resume_in_def write_status_inv split: option.splits if_splits)

lemma resume_inv: "registry_inv db \<Longrightarrow> registry_inv (fst (resume clk rid n ro re actor db))"
  by (auto simp: resume_def after_commit_def split: sum.splits intro: resume_in_inv)

lemma supersede_inv: "registry_inv db \<Longrightarrow> registry_inv (fst (supersede clk rid new db))"
  unfolding registry_inv_def supersede_def
  by (auto intro!: gens_ok_same_keys [of "relationships db"] map_update_where
      simp: supersede_row_def split: sum.splits)

lemma bind_row_inv: "registry_inv db \<Longrightarrow> turn \<noteq> [] \<Longrightarrow> registry_inv (bind_row rid n turn now db)"
  unfolding registry_inv_def bind_row_def by (simp add: gens_ok_bind)

lemma validated_turn_nonempty: "validated_turn_id v = Inr (Some t) \<Longrightarrow> v = Some t \<and> t \<noteq> []"
  by (auto simp: validated_turn_id_def split: option.splits if_splits)

lemma bind_anchor_inv: "registry_inv db \<Longrightarrow> registry_inv (fst (bind_anchor clk rid n dt src db))"
  by (auto simp: bind_anchor_def Let_def bind_row_inv dest: validated_turn_nonempty
      split: sum.splits option.splits)

lemma bind_anchor_in_cases:
  assumes "bind_anchor_in clk rid n dt src db = Inr (db', out)"
  obtains (kept) "db' = db" "out \<in> {Unchanged, Ineligible}"
    | (conflict) det g where "db' = journal_entry ''anchor_conflict'' rid det (clk_iso clk) db"
        "out = Conflict" "generation_row_of db rid n = Some g" "g_anchor_state g = ANCHOR_BOUND"
    | (bound) t g where "dt = Some t" "t \<noteq> []" "generation_row_of db rid n = Some g"
        "g_anchor_state g \<noteq> ANCHOR_BOUND" "db' = bind_row rid n t (clk_iso clk) db" "out = Bound"
proof (cases "src = ''dispatch_receipt''")
  case False
  with assms kept show thesis by (simp add: bind_anchor_in_def)
next
  case src: True
  then obtain v where v: "validated_turn_id dt = Inr v" using assms by (auto simp: bind_anchor_in_def)
  show thesis
  proof (cases v)
    case None
    with assms src v kept show thesis by (simp add: bind_anchor_in_def)
  next
    case (Some t)
    with v have t: "dt = Some t" "t \<noteq> []" by (auto dest: validated_turn_nonempty)
    show thesis
      using assms src v Some kept conflict bound t
      by (cases "generation_row_of db rid n") (auto simp: bind_anchor_in_def split: if_splits)
  qed
qed

lemma bind_anchor_in_inv:
  assumes "registry_inv db" "bind_anchor_in clk rid n dt src db = Inr (db', out)"
  shows "registry_inv db'"
  using assms(2) by (cases rule: bind_anchor_in_cases)
    (use assms(1) in \<open>auto simp: bind_row_inv\<close>, simp_all add: registry_inv_def)

section \<open>The registry as a state machine\<close>

text \<open>Every operation of the class, with any arguments and any clock reading.\<close>

inductive registry_step :: "db \<Rightarrow> db \<Rightarrow> bool" where
  step_register: "registry_step db (fst (register clk p c k roots recs dr sc dt sp db))"
| step_open: "registry_step db (fst (open_generation clk rid dr reason dt db))"
| step_open_in: "open_generation_in clk rid dr reason dt db = Inr (db', n) \<Longrightarrow> registry_step db db'"
| step_bind: "registry_step db (fst (bind_anchor clk rid n dt src db))"
| step_bind_in: "bind_anchor_in clk rid n dt src db = Inr (db', out) \<Longrightarrow> registry_step db db'"
| step_status: "registry_step db (fst (set_status clk rid st actor db))"
| step_resume: "registry_step db (fst (resume clk rid n ro re actor db))"
| step_supersede: "registry_step db (fst (supersede clk rid new db))"

interpretation registry_machine: invariant_machine registry_step registry_inv
proof
  fix s t assume step: "registry_step s t" and inv: "registry_inv s"
  note kept = register_inv [OF inv] open_generation_inv [OF inv] open_generation_in_inv [OF inv]
    bind_anchor_inv [OF inv] bind_anchor_in_inv [OF inv] set_status_inv [OF inv] resume_inv [OF inv]
    supersede_inv [OF inv]
  from step show "registry_inv t"
  proof cases
    case step_register show ?thesis unfolding step_register by (rule kept)
  next
    case step_open show ?thesis unfolding step_open by (rule kept)
  next
    case step_open_in then show ?thesis by (rule kept)
  next
    case step_bind show ?thesis unfolding step_bind by (rule kept)
  next
    case step_bind_in then show ?thesis by (rule kept)
  next
    case step_status show ?thesis unfolding step_status by (rule kept)
  next
    case step_resume show ?thesis unfolding step_resume by (rule kept)
  next
    case step_supersede show ?thesis unfolding step_supersede by (rule kept)
  qed
qed

lemma empty_registry_inv: "registry_inv empty_db"
  by (simp add: registry_inv_def gens_ok_def empty_db_def)

section \<open>Bound anchors\<close>

definition bound_to :: "db \<Rightarrow> string \<Rightarrow> int \<Rightarrow> string option \<Rightarrow> bool" where
  "bound_to db rid n t = (\<exists>g. generation_row_of db rid n = Some g
     \<and> g_anchor_state g = ANCHOR_BOUND \<and> g_dispatch_turn g = t)"

lemma find_generation_append:
  "find_generation (t @ [g]) rid n = (case find_generation t rid n of
      None \<Rightarrow> if g_rel g = rid \<and> g_no g = n then Some g else None | Some y \<Rightarrow> Some y)"
  by (simp add: find_generation_def find_snoc)

lemma find_generation_update:
  "(\<And>g. gen_key (f g) = gen_key g) \<Longrightarrow>
     find_generation (update_where P f t) rid n
       = map_option (\<lambda>g. if P g then f g else g) (find_generation t rid n)"
  unfolding find_generation_def by (rule find_update_where_hit) (simp add: gen_key_def)

lemma bound_to_insert:
  assumes "bound_to db rid n t" "insert_generation g (generations db) = Inr gens" "generations db' = gens"
  shows "bound_to db' rid n t"
  using assms insert_generation_Inr [OF assms(2)]
  by (auto simp: bound_to_def find_generation_append)

lemma bound_to_same: "bound_to db rid n t \<Longrightarrow> generations db' = generations db \<Longrightarrow> bound_to db' rid n t"
  by (simp add: bound_to_def)

lemma bound_to_bind_row:
  assumes "bound_to db rid n t" "generation_row_of db rid' n' = Some g" "g_anchor_state g \<noteq> ANCHOR_BOUND"
  shows "bound_to (bind_row rid' n' turn now db) rid n t"
proof -
  have "(rid, n) \<noteq> (rid', n')" using assms by (auto simp: bound_to_def)
  moreover obtain h where h: "generation_row_of db rid n = Some h" "g_anchor_state h = ANCHOR_BOUND"
      "g_dispatch_turn h = t" using assms(1) by (auto simp: bound_to_def)
  moreover have "g_rel h = rid \<and> g_no h = n" using h(1) by (auto dest: lookup_mem)
  ultimately show ?thesis
    unfolding bound_to_def bind_row_def by (auto simp: find_generation_update gen_key_def)
qed

lemma register_generations:
  assumes "register clk p c k roots recs dr sc dt sp db = (db', res)"
  shows "db' = db \<or> (\<exists>rid t gens. relationship_id (ep_task_id p) (ep_task_id c) k = Inr rid
    \<and> relationship_of db rid = None
    \<and> register_in clk rid p c k roots recs dr sc t sp db = Inr db' \<and> res = get db' rid
    \<and> insert_generation (new_generation (clk_iso clk) rid 1 dr ''initial_assignment'' t)
        (generations db) = Inr gens \<and> generations db' = gens)"
proof (cases "db' = db")
  case False
  with assms obtain rid t where r: "relationship_id (ep_task_id p) (ep_task_id c) k = Inr rid"
    "relationship_of db rid = None" "register_in clk rid p c k roots recs dr sc t sp db = Inr db'"
    "res = get db' rid"
    by (auto simp: register_def after_commit_def split: if_splits sum.splits option.splits)
  then obtain gens where "insert_generation (new_generation (clk_iso clk) rid 1 dr ''initial_assignment'' t)
        (generations db) = Inr gens" "generations db' = gens"
    by (auto simp: register_in_def Let_def split: if_splits)
  with r show ?thesis by blast
qed simp

lemma anchor_step:
  assumes "registry_step db db'" "bound_to db rid n t"
  shows "bound_to db' rid n t"
  using assms(1)
proof cases
  case (step_register clk p c k roots recs dr sc dt sp)
  have "register clk p c k roots recs dr sc dt sp db
      = (db', snd (register clk p c k roots recs dr sc dt sp db))" by (simp add: step_register)
  from register_generations [OF this] show ?thesis
    using assms(2) bound_to_insert [OF assms(2)] by (elim disjE exE conjE) simp_all
next
  case (step_open clk rid' dr reason dt)
  have open_in: "bound_to d rid n t" if "open_generation_in clk rid' dr reason v db = Inr (d, m)" for v d m
    using that by (cases rule: open_generation_in_cases) (use assms(2) bound_to_insert in auto)
  show ?thesis
    unfolding step_open open_generation_def
    using assms(2) open_in by (auto split: sum.splits option.splits)
next
  case (step_open_in clk rid' dr reason dt n)
  then show ?thesis
    by (cases rule: open_generation_in_cases) (use assms(2) bound_to_insert in auto)
next
  case (step_bind clk rid' m dt src)
  show ?thesis
    unfolding step_bind bind_anchor_def generation_def
    using assms(2) by (auto simp: Let_def intro: bound_to_bind_row split: sum.splits option.splits)
next
  case (step_bind_in clk rid' m dt src out)
  then show ?thesis
    by (cases rule: bind_anchor_in_cases) (use assms(2) in \<open>auto intro: bound_to_same bound_to_bind_row\<close>)
next
  case (step_status clk rid' st actor)
  with assms(2) show ?thesis
    by (auto simp: set_status_def Let_def write_status_def bound_to_def split: sum.splits)
next
  case (step_resume clk rid' m ro re actor)
  with assms(2) show ?thesis
    by (auto simp: resume_def after_commit_def resume_in_def write_status_def bound_to_def
        split: sum.splits option.splits if_splits)
next
  case (step_supersede clk rid' new)
  with assms(2) show ?thesis by (auto simp: supersede_def bound_to_def split: sum.splits)
qed

interpretation anchor_machine: invariant_machine registry_step "\<lambda>db. bound_to db rid n t"
  by unfold_locales (rule anchor_step)

section \<open>One responsible child\<close>

definition sole_owner :: "db \<Rightarrow> bool" where
  "sole_owner db = (\<forall>r\<in>set (relationships db). \<forall>r'\<in>set (relationships db).
     live r \<longrightarrow> live r' \<longrightarrow> r_issue_key r = r_issue_key r' \<longrightarrow> r_child_task r = r_child_task r')"

lemma sole_ownerD:
  "sole_owner db \<Longrightarrow> r \<in> set (relationships db) \<Longrightarrow> r' \<in> set (relationships db) \<Longrightarrow> live r \<Longrightarrow> live r'
     \<Longrightarrow> r_issue_key r = r_issue_key r' \<Longrightarrow> r_child_task r = r_child_task r'"
  unfolding sole_owner_def by blast

lemma sole_ownerI:
  "(\<And>r r'. r \<in> set (relationships db) \<Longrightarrow> r' \<in> set (relationships db) \<Longrightarrow> live r \<Longrightarrow> live r'
     \<Longrightarrow> r_issue_key r = r_issue_key r' \<Longrightarrow> r_child_task r = r_child_task r') \<Longrightarrow> sole_owner db"
  unfolding sole_owner_def by blast

lemma sole_owner_same: "sole_owner db \<Longrightarrow> relationships db' = relationships db \<Longrightarrow> sole_owner db'"
  unfolding sole_owner_def by (erule ssubst)

text \<open>Rows may only leave the live ones.\<close>

lemma sole_owner_shrink:
  assumes "sole_owner db" "\<And>r. r \<in> set (relationships db') \<Longrightarrow> live r \<Longrightarrow>
      \<exists>r0\<in>set (relationships db). live r0 \<and> r_issue_key r0 = r_issue_key r \<and> r_child_task r0 = r_child_task r"
  shows "sole_owner db'"
proof (rule sole_ownerI)
  fix r r' assume "r \<in> set (relationships db')" "r' \<in> set (relationships db')" "live r" "live r'"
    and issue: "r_issue_key r = r_issue_key r'"
  with assms(2) [of r] assms(2) [of r'] obtain r0 r0' where
    "r0 \<in> set (relationships db)" "live r0" "r_issue_key r0 = r_issue_key r" "r_child_task r0 = r_child_task r"
    "r0' \<in> set (relationships db)" "live r0'" "r_issue_key r0' = r_issue_key r'"
    "r_child_task r0' = r_child_task r'" by blast
  with sole_ownerD [OF assms(1), of r0 r0'] issue show "r_child_task r = r_child_task r'" by simp
qed

lemma sole_owner_update:
  assumes "sole_owner db" "relationships db' = update_where P f (relationships db)"
    "\<And>r. live (f r) \<Longrightarrow> live r \<and> r_issue_key (f r) = r_issue_key r \<and> r_child_task (f r) = r_child_task r"
  shows "sole_owner db'"
proof (rule sole_owner_shrink [OF assms(1)])
  fix r assume "r \<in> set (relationships db')" "live r"
  then obtain r0 where r0: "r0 \<in> set (relationships db)" and eq: "r = (if P r0 then f r0 else r0)"
    unfolding assms(2) set_update_where by blast
  have "live r0 \<and> r_issue_key r0 = r_issue_key r \<and> r_child_task r0 = r_child_task r"
  proof (cases "P r0")
    case True
    with eq \<open>live r\<close> assms(3) [of r0] show ?thesis by simp
  next
    case False
    with eq \<open>live r\<close> show ?thesis by simp
  qed
  with r0 show "\<exists>r0\<in>set (relationships db). live r0 \<and> r_issue_key r0 = r_issue_key r
      \<and> r_child_task r0 = r_child_task r" by (rule bexI [rotated])
qed

lemma sole_owner_register:
  assumes "sole_owner db" "register_in clk rid p c k roots recs dr sc dt None db = Inr db'"
  shows "sole_owner db'"
proof -
  let ?r = "new_relationship (clk_iso clk) rid p c k roots recs sc None"
  have rels: "relationships db' = relationships db @ [?r]"
    and none: "List.find (\<lambda>r. r_issue_key r = k \<and> live r \<and> r_child_task r \<noteq> ep_task_id c) (relationships db) = None"
    using assms(2) unfolding register_in_def Let_def
    by (auto simp: insert_row_Inr split: if_splits option.splits)
  have old: "r_issue_key r = k \<Longrightarrow> live r \<Longrightarrow> r_child_task r = ep_task_id c"
    if "r \<in> set (relationships db)" for r
    using none that unfolding find_None_iff_none by blast
  have same: "r_child_task r = r_child_task r'"
    if "r \<in> insert ?r (set (relationships db))" "r' \<in> insert ?r (set (relationships db))"
      "live r" "live r'" "r_issue_key r = r_issue_key r'" for r r'
    using that(1)
  proof
    assume r: "r = ?r"
    from that(2) show ?thesis
    proof
      assume "r' \<in> set (relationships db)"
      with old [of r'] that r show ?thesis by simp
    qed (simp add: r)
  next
    assume r: "r \<in> set (relationships db)"
    from that(2) show ?thesis
    proof
      assume "r' = ?r"
      with old [of r] that r show ?thesis by simp
    next
      assume "r' \<in> set (relationships db)"
      with r that show ?thesis by (intro sole_ownerD [OF assms(1)])
    qed
  qed
  have all: "set (relationships db') = insert ?r (set (relationships db))" by (simp add: rels)
  show ?thesis by (rule sole_ownerI) (rule same, unfold all, assumption+)
qed

lemma sole_owner_resume:
  assumes "sole_owner db" "resume_in clk rid n ro re actor db = Inr db'" "registry_inv db"
  shows "sole_owner db'"
proof -
  from assms(2) obtain row where row: "relationship_of db rid = Some row"
    and free: "\<And>o'. o' \<in> set (relationships db) \<Longrightarrow> r_issue_key o' = r_issue_key row \<Longrightarrow> r_id o' \<noteq> rid \<Longrightarrow> \<not> live o'"
    and db': "db' = write_status clk rid ACTIVE actor db"
    by (auto simp: resume_in_def list_ex_iff split: option.splits if_splits)
  let ?f = "\<lambda>r. r\<lparr>r_status := ACTIVE, r_updated_at := clk_iso clk\<rparr>"
  have only: "r0 = row" if "r0 \<in> set (relationships db)" "r_id r0 = rid" for r0
  proof -
    have "distinct (map r_id (relationships db))" using assms(3) by (simp add: registry_inv_def gens_ok_def)
    from key_unique [OF this] that row show ?thesis by (auto dest: lookup_mem)
  qed
  have rels: "set (relationships db') = (\<lambda>r. if r_id r = rid then ?f r else r) ` set (relationships db)"
    by (simp add: db' write_status_def set_update_where)
  have pick: "\<exists>r0\<in>set (relationships db). r_issue_key r0 = r_issue_key r \<and> r_child_task r0 = r_child_task r
      \<and> (r0 = row \<or> r_id r0 \<noteq> rid \<and> live r0)"
    if "r \<in> set (relationships db')" "live r" for r
  proof -
    from that(1) obtain r0 where r0: "r0 \<in> set (relationships db)" "r = (if r_id r0 = rid then ?f r0 else r0)"
      unfolding rels by blast
    have "r_issue_key r0 = r_issue_key r \<and> r_child_task r0 = r_child_task r
      \<and> (r0 = row \<or> r_id r0 \<noteq> rid \<and> live r0)"
    proof (cases "r_id r0 = rid")
      case True
      with only [OF r0(1)] r0(2) show ?thesis by simp
    next
      case False
      with r0(2) that(2) show ?thesis by simp
    qed
    with r0(1) show ?thesis by (rule bexI [rotated])
  qed
  show ?thesis
  proof (rule sole_ownerI)
    fix r r' assume "r \<in> set (relationships db')" "r' \<in> set (relationships db')" "live r" "live r'"
      and issue: "r_issue_key r = r_issue_key r'"
    with pick [of r] pick [of r'] obtain r0 r0' where
      r0: "r0 \<in> set (relationships db)" "r_issue_key r0 = r_issue_key r" "r_child_task r0 = r_child_task r"
        "r0 = row \<or> r_id r0 \<noteq> rid \<and> live r0" and
      r0': "r0' \<in> set (relationships db)" "r_issue_key r0' = r_issue_key r'" "r_child_task r0' = r_child_task r'"
        "r0' = row \<or> r_id r0' \<noteq> rid \<and> live r0'" by blast
    have "r_child_task r0 = r_child_task r0'"
    proof (cases "r0 = row \<or> r0' = row")
      case True
      have "r0 = row \<Longrightarrow> r0' = row" using free [OF r0'(1)] r0(2) r0'(2,4) issue by metis
      moreover have "r0' = row \<Longrightarrow> r0 = row" using free [OF r0(1)] r0(2,4) r0'(2) issue by metis
      ultimately show ?thesis using True by blast
    next
      case False
      then have "live r0" "live r0'" using r0(4) r0'(4) by blast+
      then show ?thesis
        by (intro sole_ownerD [OF assms(1) r0(1) r0'(1)]) (simp_all only: r0(2) r0'(2) issue)
    qed
    with r0 r0' show "r_child_task r = r_child_task r'" by simp
  qed
qed

text \<open>
  The steps that keep it: every operation but a registration that replaces another assignment and
  a pause of an assignment that is not live.
\<close>

inductive owner_step :: "db \<Rightarrow> db \<Rightarrow> bool" where
  owner_register: "owner_step db (fst (register clk p c k roots recs dr sc dt None db))"
| owner_open: "open_generation_in clk rid dr reason dt db = Inr (db', n) \<Longrightarrow> owner_step db db'"
| owner_bind: "bind_anchor_in clk rid n dt src db = Inr (db', out) \<Longrightarrow> owner_step db db'"
| owner_release: "st \<in> {''cancelled'', ''archived''} \<Longrightarrow> owner_step db (fst (set_status clk rid st actor db))"
| owner_pause: "relationship_of db rid = Some r \<Longrightarrow> live r \<Longrightarrow>
    owner_step db (fst (set_status clk rid ''paused'' actor db))"
| owner_resume: "owner_step db (fst (resume clk rid n ro re actor db))"
| owner_supersede: "owner_step db (fst (supersede clk rid new db))"

lemma owner_step_registry: "owner_step db db' \<Longrightarrow> registry_step db db'"
  by (induction rule: owner_step.induct) (auto intro: registry_step.intros)

lemma sole_owner_status:
  assumes "sole_owner db" "registry_inv db"
    and "st \<in> {''cancelled'', ''archived''} \<or> (\<exists>r. relationship_of db rid = Some r \<and> live r)"
  shows "sole_owner (write_status clk rid st actor db)"
proof (rule sole_owner_shrink [OF assms(1)])
  fix r assume r: "r \<in> set (relationships (write_status clk rid st actor db))" "live r"
  have "set (relationships (write_status clk rid st actor db))
      = (\<lambda>r. if r_id r = rid then r\<lparr>r_status := st, r_updated_at := clk_iso clk\<rparr> else r)
          ` set (relationships db)"
    by (simp add: write_status_def set_update_where)
  with r(1) obtain r0 where r0: "r0 \<in> set (relationships db)"
    "r = (if r_id r0 = rid then r0\<lparr>r_status := st, r_updated_at := clk_iso clk\<rparr> else r0)"
    by blast
  have "live r0"
  proof (cases "r_id r0 = rid")
    case True
    with r0(2) r(2) have "st \<notin> {''cancelled'', ''archived''}" by (auto simp: live_def)
    then obtain r1 where r1: "relationship_of db rid = Some r1" "live r1" using assms(3) by blast
    have "distinct (map r_id (relationships db))" using assms(2) by (simp add: registry_inv_def gens_ok_def)
    moreover have "r1 \<in> set (relationships db)" "r_id r1 = rid" using r1(1) by (auto dest: lookup_mem)
    ultimately have "r0 = r1" using r0(1) True by (intro key_unique [of r_id]) simp_all
    with r1(2) show ?thesis by simp
  next
    case False
    with r0(2) r(2) show ?thesis by simp
  qed
  then have "live r0 \<and> r_issue_key r0 = r_issue_key r \<and> r_child_task r0 = r_child_task r"
    using r0(2) by simp
  with r0(1) show "\<exists>r0\<in>set (relationships db). live r0 \<and> r_issue_key r0 = r_issue_key r
      \<and> r_child_task r0 = r_child_task r" by (rule bexI [rotated])
qed

lemma sole_owner_step:
  assumes "owner_step db db'" "registry_inv db" "sole_owner db"
  shows "sole_owner db'"
  using assms(1)
proof cases
  case (owner_register clk p c k roots recs dr sc dt)
  have "register clk p c k roots recs dr sc dt None db
      = (db', snd (register clk p c k roots recs dr sc dt None db))" by (simp add: owner_register)
  from register_generations [OF this] show ?thesis
    using assms(3) sole_owner_register [OF assms(3)] by (elim disjE exE conjE) simp_all
next
  case (owner_open clk rid dr reason dt n)
  then show ?thesis
  proof (cases rule: open_generation_in_cases)
    case (opened cur t gens)
    show ?thesis by (rule sole_owner_update [OF assms(3) opened(7)]) (simp add: live_def)
  qed (use assms(3) in simp)
next
  case (owner_bind clk rid n dt src out)
  then show ?thesis
    by (cases rule: bind_anchor_in_cases)
       (auto intro: sole_owner_same [OF assms(3)] simp: assms(3) bind_row_def)
next
  case (owner_release st clk rid actor)
  with assms(2,3) show ?thesis
    by (auto simp: set_status_def Let_def intro: sole_owner_status split: sum.splits)
next
  case (owner_pause rid r clk actor)
  with assms(2,3) show ?thesis
    by (auto simp: set_status_def Let_def intro!: sole_owner_status split: sum.splits)
next
  case (owner_resume clk rid n ro re actor)
  with assms(2,3) show ?thesis
    by (auto simp: resume_def after_commit_def intro: sole_owner_resume split: sum.splits)
next
  case (owner_supersede clk rid new)
  show ?thesis
  proof (cases "get db rid")
    case (Inr rec)
    with owner_supersede show ?thesis
      by (intro sole_owner_update [OF assms(3), of db' "\<lambda>r. r_id r = rid"
            "supersede_row (clk_iso clk) new"]) (simp_all add: supersede_def supersede_row_def live_def)
  qed (use owner_supersede assms(3) in \<open>simp add: supersede_def\<close>)
qed

interpretation owner_machine: invariant_machine owner_step "\<lambda>db. registry_inv db \<and> sole_owner db"
  by unfold_locales (blast intro: registry_machine.step_inv owner_step_registry sole_owner_step)

section \<open>Repetition\<close>

lemma find_update_supersede:
  "find_relationship (update_where P (supersede_row now by') t) rid
     = map_option (\<lambda>r. if P r then supersede_row now by' r else r) (find_relationship t rid)"
  by (rule find_update) (simp add: supersede_row_def)

lemma same_scope_supersede [simp]:
  "same_scope (supersede_row now by' r) p c ro re = same_scope r p c ro re"
  by (simp add: same_scope_def supersede_row_def)

lemma register_again:
  assumes "registry_inv db" "register clk p c k roots recs dr sc dt sp db = (db', Inr rec)"
    and turn: "validated_turn_id dt' = Inr t'"
  shows "register clk' p c k roots recs dr' sc' dt' sp' db' = (db', Inr rec)"
proof -
  have ne: "\<not> (roots = [] \<or> recs = [])" using assms(2) by (auto simp: register_def split: if_splits)
  have inv': "registry_inv db'" using register_inv [OF assms(1)] assms(2) by (metis fst_conv)
  obtain rid t where rid: "relationship_id (ep_task_id p) (ep_task_id c) k = Inr rid"
    and t: "validated_turn_id dt = Inr t"
    using assms(2) ne by (auto simp: register_def split: sum.splits if_splits)
  have found: "\<exists>row. relationship_of db' rid = Some row \<and> same_scope row p c roots recs
      \<and> row_to_record db' row = Inr rec"
  proof (cases "relationship_of db rid")
    case (Some row)
    with assms(2) ne rid t show ?thesis by (auto simp: register_def split: if_splits)
  next
    case None
    with assms(2) ne rid t have reg: "register_in clk rid p c k roots recs dr sc t sp db = Inr db'"
      and got: "get db' rid = Inr rec"
      by (auto simp: register_def after_commit_def split: sum.splits)
    let ?r = "new_relationship (clk_iso clk) rid p c k roots recs sc sp"
    have "relationships db' = (if truthy_text sp
        then update_where (\<lambda>r. Some (r_id r) = sp) (supersede_row (clk_iso clk) rid)
               (relationships db @ [?r]) else relationships db @ [?r])"
      using reg by (auto simp: register_in_def Let_def insert_row_Inr split: if_splits)
    moreover have "find_relationship (relationships db @ [?r]) rid = Some ?r"
      using None by simp
    moreover have "same_scope ?r p c roots recs" by (simp add: same_scope_def new_relationship_def)
    ultimately have "\<exists>row. relationship_of db' rid = Some row \<and> same_scope row p c roots recs"
      by (simp add: find_update_supersede del: update_where_append)
    with got show ?thesis by (auto simp: get_def split: option.splits)
  qed
  then show ?thesis using ne rid turn by (auto simp: register_def)
qed

lemma open_generation_again:
  assumes inv: "registry_inv db" and first: "open_generation clk rid dr reason dt db = (db', Inr (Some g))"
    and reason': "reason' \<in> set REASONS" and turn': "validated_turn_id dt' = Inr t'"
  shows "open_generation clk' rid dr reason' dt' db' = (db', Inr (Some g))"
proof -
  let ?q = "\<lambda>g. g_rel g = rid \<and> g_dispatch_request g = dr"
  from first obtain t rec where active: "require_active db rid = Inr rec" and t: "validated_turn_id dt = Inr t"
    and reason: "reason \<in> set REASONS"
    by (auto simp: open_generation_def split: sum.splits if_splits)
  have again: "open_generation clk' rid dr reason' dt' d = (d, Inr (Some g))"
    if "\<exists>rec'. require_active d rid = Inr rec'" "List.find ?q (generations d) = Some g" for d
    using that reason' turn' by (auto simp: open_generation_def)
  show ?thesis
  proof (cases "List.find ?q (generations db)")
    case (Some g0)
    with first active t reason have "db' = db" "g0 = g" by (auto simp: open_generation_def)
    with again active Some show ?thesis by blast
  next
    case None
    with first active t reason obtain n where op: "open_generation_in clk rid dr reason t db = Inr (db', n)"
      and got: "generation db' rid n = Inr (Some g)"
      by (auto simp: open_generation_def split: sum.splits)
    from op show ?thesis
    proof (cases rule: open_generation_in_cases)
      case (replay g0)
      with None show ?thesis by (auto simp: find_None_iff_none)
    next
      case (opened cur t1 gens)
      let ?n = "new_generation (clk_iso clk) rid n dr reason t1"
      note gens = insert_generation_Inr [OF opened(5)]
      have key: "find_generation (generations db) rid n = None"
        using gens by (auto simp: find_generation_def find_None_iff_none gen_key_def image_iff)
      have "generation_row_of db' rid n = Some g" using got by (simp add: generation_def)
      then have "g = ?n" using gens key by (simp add: opened(8) find_generation_append)
      moreover have "g_dispatch_request ?n = dr" by (simp add: new_generation_def)
      ultimately have "List.find ?q (generations db') = Some g"
        using None gens by (simp add: opened(8) find_snoc)
      moreover have "relationship_of db' rid
          = Some (cur\<lparr>r_generation := n, r_updated_at := clk_iso clk\<rparr>)"
        using opened(1) by (auto simp: opened(7) dest: lookup_mem)
      then have "\<exists>rec'. require_active db' rid = Inr rec'"
        using get_total [OF open_generation_in_inv [OF inv op]] opened(2)
        by (auto simp: require_active_def ACTIVE_def)
      ultimately show ?thesis by (intro again)
    qed
  qed
qed

section \<open>What a new generation makes stale\<close>

lemma annotate_row_keys: "ss_event ` set (annotate_row ev rs now t) = insert ev (ss_event ` set t)"
  using keys_insert_or_ignore [of ss_event "\<lparr>ss_event = ev, ss_reason = rs, ss_noted_at = now, ss_applied = False\<rparr>" t]
  by (simp add: annotate_row_def)

lemma annotate_row_keeps: "set t \<subseteq> set (annotate_row ev rs now t)"
  by (auto simp: annotate_row_def insert_or_ignore_def)

lemma fold_annotate:
  "ss_event ` set (fold (\<lambda>d. annotate_row (d_event d) rs now) ds t) = d_event ` set ds \<union> ss_event ` set t
   \<and> set t \<subseteq> set (fold (\<lambda>d. annotate_row (d_event d) rs now) ds t)"
proof (induction ds arbitrary: t)
  case (Cons d ds)
  show ?case using Cons [of "annotate_row (d_event d) rs now t"] annotate_row_keeps [of t "d_event d" rs now]
    by (auto simp: annotate_row_keys)
qed simp

section \<open>Properties\<close>

definition demo_clock :: clock where
  "demo_clock = \<lparr>clk_now = 1000, clk_iso = ''t1''\<rparr>"

definition demo_parent :: Endpoint where
  "demo_parent = \<lparr>ep_task_id = ''parent'', ep_host_id = ''h'', ep_cwd = None, ep_cxc_session = None\<rparr>"

definition demo_child :: Endpoint where
  "demo_child = \<lparr>ep_task_id = ''child'', ep_host_id = ''h'', ep_cwd = None, ep_cxc_session = None\<rparr>"

definition demo_generation :: "int \<Rightarrow> string \<Rightarrow> string option \<Rightarrow> generation_row" where
  "demo_generation n request turn = new_generation ''t0'' ''rel'' n request ''initial_assignment'' turn"

definition demo_registry :: db where
  "demo_registry = empty_db\<lparr>relationships := [demo_relationship],
     generations := [demo_generation 1 ''d1'' (Some ''turn-1'')]\<rparr>"

lemma demo_registry_inv: "registry_inv demo_registry"
  by (auto simp: registry_inv_def gens_ok_def demo_registry_def demo_relationship_def demo_generation_def
      numbers_def)

abbreviation demo_register :: "db \<Rightarrow> db \<times> (err + relationship_record)" where
  "demo_register \<equiv> register demo_clock demo_parent demo_child ''ISSUE-1'' [''/work''] [''parent'']
     ''d1'' None (Some ''turn-1'') None"

lemma demo_relationship_id: "\<exists>rid. relationship_id ''parent'' ''child'' ''ISSUE-1'' = Inr rid"
  by (simp add: relationship_id_def blank_def is_space_def)

lemma demo_register_ok:
  "\<exists>rid rec row. demo_register empty_db = (fst (demo_register empty_db), Inr rec)
     \<and> relationship_of (fst (demo_register empty_db)) rid = Some row"
proof -
  obtain rid where rid: "relationship_id ''parent'' ''child'' ''ISSUE-1'' = Inr rid"
    using demo_relationship_id by blast
  then show ?thesis
    by (simp add: register_def demo_parent_def demo_child_def demo_clock_def validated_turn_id_def
        blank_def is_space_def after_commit_def register_in_def insert_row_def insert_generation_def
        empty_db_def find_relationship_def Let_def get_def row_to_record_def generations_of_def)
qed

text \<open>
  C24: in every state the registry's operations can reach, every relationship can be read, and it
  retains exactly the generations numbered from one to its current one, each once.
\<close>

theorem registry_retains_generations:
  assumes "reachable registry_step empty_db db" and "relationship_of db rid = Some row"
  shows "get db rid = Inr \<lparr>rr_row = row, rr_generations = generations_of db rid\<rparr>
    \<and> set (map g_no (generations_of db rid)) = {1 .. r_generation row}
    \<and> distinct (map g_no (generations_of db rid))"
proof -
  have inv: "registry_inv db"
    by (rule registry_machine.reachable_inv [OF assms(1) empty_registry_inv])
  have row: "row \<in> set (relationships db)" "r_id row = rid" using assms(2) by (auto dest: lookup_mem)
  have keys: "distinct (map gen_key (generations db))" using inv by (simp add: registry_inv_def gens_ok_def)
  have "inj_on g_no {g \<in> set (generations db). g_rel g = rid}"
    by (rule inj_onI) (use keys in \<open>auto simp: gen_key_def intro: key_unique [of gen_key]\<close>)
  moreover have "distinct (generations_of db rid)"
    using keys by (simp add: generations_of_def distinct_map)
  ultimately have "distinct (map g_no (generations_of db rid))"
    by (simp add: distinct_map set_generations_of)
  moreover have "set (map g_no (generations_of db rid)) = {1 .. r_generation row}"
    using inv row unfolding numbers_of registry_inv_def gens_ok_def by fastforce
  ultimately show ?thesis using get_total [OF inv assms(2)] by blast
qed

theorem registry_retains_generations_witness:
  "\<exists>db rid row. reachable registry_step empty_db db \<and> relationship_of db rid = Some row
     \<and> is_ok (get db rid)"
proof -
  obtain rid rec row where row: "relationship_of (fst (demo_register empty_db)) rid = Some row"
    using demo_register_ok by blast
  have "reachable registry_step empty_db (fst (demo_register empty_db))"
    by (rule reach_one, rule step_register)
  from registry_retains_generations [OF this row] this row show ?thesis
    by (metis is_ok_simps(2))
qed

text \<open>
  registering is idempotent. A registration that succeeded, repeated with the same endpoints,
  issue and scope at any later reading of the clock, returns the same record and writes nothing.
\<close>

theorem register_idempotent:
  assumes "registry_inv db"
    and "register clk parent child issue roots recipients request scope turn sp db = (db', Inr record)"
    and "validated_turn_id turn' = Inr checked"
  shows "register clk' parent child issue roots recipients request' scope' turn' sp' db' = (db', Inr record)"
  by (rule register_again [OF assms])

theorem register_idempotent_witness:
  "\<exists>rec. demo_register (fst (demo_register empty_db)) = (fst (demo_register empty_db), Inr rec)"
proof -
  obtain rec where "demo_register empty_db = (fst (demo_register empty_db), Inr rec)"
    using demo_register_ok by blast
  moreover have "validated_turn_id (Some ''turn-1'') = Inr (Some ''turn-1'')"
    by (simp add: validated_turn_id_def blank_def is_space_def)
  ultimately show ?thesis using register_idempotent [OF empty_registry_inv] by blast
qed

text \<open>
  opening a generation is replayable. Repeating an opening with the same dispatch request
  returns the generation it opened and writes nothing, whatever reason and turn the repeat names.
\<close>

theorem open_generation_replays:
  assumes "registry_inv db" and "open_generation clk rid request reason turn db = (db', Inr (Some g))"
    and "reason' \<in> set REASONS" and "validated_turn_id turn' = Inr checked"
  shows "open_generation clk' rid request reason' turn' db' = (db', Inr (Some g))"
  by (rule open_generation_again [OF assms])

lemma demo_open: "\<exists>g. open_generation demo_clock ''rel'' ''d2'' ''needs_changes_revision'' None demo_registry
    = (fst (open_generation demo_clock ''rel'' ''d2'' ''needs_changes_revision'' None demo_registry), Inr (Some g))"
  by (simp add: open_generation_def REASONS_def validated_turn_id_def require_active_def get_def
      row_to_record_def generations_of_def demo_registry_def demo_relationship_def demo_generation_def
      new_generation_def find_relationship_def open_generation_in_def Let_def insert_generation_def
      annotate_stale_def stale_deliveries_def generation_def find_generation_def empty_db_def
      ACTIVE_def journal_entry_def)

theorem open_generation_replays_witness:
  "\<exists>g db'. open_generation demo_clock ''rel'' ''d2'' ''needs_changes_revision'' None db' = (db', Inr (Some g))"
proof -
  obtain g where g: "open_generation demo_clock ''rel'' ''d2'' ''needs_changes_revision'' None demo_registry
    = (fst (open_generation demo_clock ''rel'' ''d2'' ''needs_changes_revision'' None demo_registry), Inr (Some g))"
    using demo_open by blast
  have "open_generation demo_clock ''rel'' ''d2'' ''needs_changes_revision'' None
      (fst (open_generation demo_clock ''rel'' ''d2'' ''needs_changes_revision'' None demo_registry))
    = (fst (open_generation demo_clock ''rel'' ''d2'' ''needs_changes_revision'' None demo_registry), Inr (Some g))"
    by (rule open_generation_replays [OF demo_registry_inv g])
       (simp_all add: REASONS_def validated_turn_id_def)
  then show ?thesis by blast
qed

text \<open>
  an anchor never moves. Once a generation is bound to a turn, it is bound to that turn in
  every state any sequence of registry operations reaches, including further binding attempts.
\<close>

theorem anchor_immutable:
  assumes "reachable registry_step db db'"
    and "generation_row_of db rid n = Some g" "g_anchor_state g = ANCHOR_BOUND"
  shows "\<exists>g'. generation_row_of db' rid n = Some g' \<and> g_anchor_state g' = ANCHOR_BOUND
    \<and> g_dispatch_turn g' = g_dispatch_turn g"
proof -
  have "bound_to db rid n (g_dispatch_turn g)" using assms(2,3) by (simp add: bound_to_def)
  from anchor_machine.reachable_inv [OF assms(1) this] show ?thesis by (simp add: bound_to_def)
qed

theorem anchor_immutable_witness:
  "\<exists>g'. generation_row_of (fst (bind_anchor demo_clock ''rel'' 1 (Some ''turn-2'') ''dispatch_receipt''
       demo_registry)) ''rel'' 1 = Some g' \<and> g_dispatch_turn g' = Some ''turn-1''"
proof -
  have g: "generation_row_of demo_registry ''rel'' 1 = Some (demo_generation 1 ''d1'' (Some ''turn-1''))"
    by (simp add: demo_registry_def find_generation_def demo_generation_def)
  have "g_anchor_state (demo_generation 1 ''d1'' (Some ''turn-1'')) = ANCHOR_BOUND"
    by (simp add: demo_generation_def new_generation_def)
  moreover have "reachable registry_step demo_registry (fst (bind_anchor demo_clock ''rel'' 1
      (Some ''turn-2'') ''dispatch_receipt'' demo_registry))"
    by (rule reach_one, rule step_bind)
  ultimately show ?thesis using anchor_immutable [OF _ g]
    by (metis demo_generation_def new_generation_simps(4))
qed

definition other_relationship :: "string \<Rightarrow> string \<Rightarrow> string \<Rightarrow> string \<Rightarrow> relationship_row" where
  "other_relationship rid parent child status = demo_relationship\<lparr>r_id := rid, r_parent_task := parent,
     r_child_task := child, r_status := status\<rparr>"

definition reassigned :: db where
  "reassigned = empty_db\<lparr>relationships := [other_relationship ''A'' ''p'' ''x'' ''cancelled'',
       other_relationship ''B'' ''p'' ''y'' ''active''],
     generations := [new_generation ''t0'' ''A'' 1 ''d'' ''initial_assignment'' None,
       new_generation ''t0'' ''B'' 1 ''d'' ''initial_assignment'' None]\<rparr>"

definition shared_child :: db where
  "shared_child = empty_db\<lparr>relationships := [other_relationship ''A'' ''p'' ''x'' ''active'',
       other_relationship ''B'' ''q'' ''x'' ''active''],
     generations := [new_generation ''t0'' ''A'' 1 ''d'' ''initial_assignment'' None,
       new_generation ''t0'' ''B'' 1 ''d'' ''initial_assignment'' None]\<rparr>"

lemma shared_child_owner: "registry_inv shared_child \<and> sole_owner shared_child"
proof
  show "registry_inv shared_child"
    by (auto simp: registry_inv_def gens_ok_def shared_child_def other_relationship_def
        demo_relationship_def numbers_keys gen_key_def dispatch_key_def new_generation_def anchored_def)
  show "sole_owner shared_child" by code_simp
qed



text \<open>
  the two operations the previous property leaves out do break it. Pausing a cancelled
  assignment makes it live again beside the child the issue was meanwhile given to, and a
  registration that replaces one of two assignments of a child leaves the other live beside the
  new child.
\<close>

theorem ownership_gaps:
  "registry_inv reassigned \<and> sole_owner reassigned
     \<and> \<not> sole_owner (fst (set_status demo_clock ''A'' ''paused'' ''operator'' reassigned))
   \<and> registry_inv shared_child \<and> sole_owner shared_child
     \<and> (\<exists>db'. register_in demo_clock ''C'' demo_parent demo_child ''ISSUE-1'' [''/work''] [''parent''] ''d''
             None None (Some ''A'') shared_child = Inr db' \<and> \<not> sole_owner db')"
proof (intro conjI)
  show "registry_inv shared_child" "sole_owner shared_child" using shared_child_owner by blast+
  show "registry_inv reassigned"
    by (auto simp: registry_inv_def gens_ok_def reassigned_def shared_child_def other_relationship_def
        demo_relationship_def numbers_keys gen_key_def dispatch_key_def new_generation_def anchored_def)
  show "sole_owner reassigned" by code_simp
  show "\<not> sole_owner (fst (set_status demo_clock ''A'' ''paused'' ''operator'' reassigned))" by code_simp
  have "case register_in demo_clock ''C'' demo_parent demo_child ''ISSUE-1'' [''/work''] [''parent''] ''d''
      None None (Some ''A'') shared_child of Inl _ \<Rightarrow> False | Inr db' \<Rightarrow> \<not> sole_owner db'" by code_simp
  then show "\<exists>db'. register_in demo_clock ''C'' demo_parent demo_child ''ISSUE-1'' [''/work''] [''parent'']
      ''d'' None None (Some ''A'') shared_child = Inr db' \<and> \<not> sole_owner db'"
    by (auto split: sum.splits)
qed

text \<open>
  opening a generation leaves no outstanding delivery of an earlier one unmarked, and marks it
  without rewriting it: the delivery rows, events and attempts are untouched, and annotations made
  before stay.
\<close>

theorem open_annotates_outstanding:
  assumes "open_generation_in clk rid request reason turn db = Inr (db', n)"
    and "\<not> (\<exists>g\<in>set (generations db). g_rel g = rid \<and> g_dispatch_request g = request)"
    and "d \<in> set (deliveries db)" "d_rel d = rid" "d_state d \<in> set outstanding"
    and "e \<in> set (events db)" "e_id e = d_event d" "e_gen e < n"
  shows "d_event d \<in> ss_event ` set (supersessions db') \<and> deliveries db' = deliveries db
    \<and> events db' = events db \<and> attempts db' = attempts db
    \<and> set (supersessions db) \<subseteq> set (supersessions db')"
  using assms(1)
proof (cases rule: open_generation_in_cases)
  case (replay g)
  with assms(2) show ?thesis by blast
next
  case (opened cur t gens)
  have "d \<in> set (stale_deliveries db rid n)"
    using assms(3-8) by (auto simp: stale_deliveries_def list_ex_iff)
  with fold_annotate [of "''stale_generation''" "clk_iso clk" "stale_deliveries db rid n" "supersessions db"]
  show ?thesis by (auto simp: opened)
qed

definition demo_delivery :: "string \<Rightarrow> delivery_state \<Rightarrow> delivery_row" where
  "demo_delivery ev state = \<lparr>d_event = ev, d_rel = ''rel'', d_kind = ''completion_event'',
     d_recipient_task = ''parent'', d_recipient_thread = ''parent'', d_state = state,
     d_attempt_count = 0, d_next_eligible_at = None, d_hold_reason = None, d_lease_owner = None,
     d_lease_until = None, d_dispatch_evidence = None, d_dispatch_turn = None,
     d_created_at = ''t0'', d_updated_at = ''t0''\<rparr>"

definition demo_outstanding :: db where
  "demo_outstanding = demo_registry\<lparr>events := [demo_event ''ev'' ''h1'' 1],
     deliveries := [demo_delivery ''ev'' HELD_UNCERTAIN]\<rparr>"

theorem open_annotates_outstanding_witness:
  "\<exists>db' n. open_generation_in demo_clock ''rel'' ''d2'' ''needs_changes_revision'' None demo_outstanding
       = Inr (db', n) \<and> ''ev'' \<in> ss_event ` set (supersessions db')"
proof -
  have "\<exists>db' n. open_generation_in demo_clock ''rel'' ''d2'' ''needs_changes_revision'' None demo_outstanding
       = Inr (db', n) \<and> n = 2"
    by (simp add: open_generation_in_def REASONS_def validated_turn_id_def demo_outstanding_def
        demo_registry_def demo_relationship_def demo_generation_def new_generation_def
        find_relationship_def Let_def insert_generation_def empty_db_def ACTIVE_def)
  then obtain db' where op: "open_generation_in demo_clock ''rel'' ''d2'' ''needs_changes_revision'' None
      demo_outstanding = Inr (db', 2)" by blast
  have "d_event (demo_delivery ''ev'' HELD_UNCERTAIN) \<in> ss_event ` set (supersessions db')
    \<and> deliveries db' = deliveries demo_outstanding \<and> events db' = events demo_outstanding
    \<and> attempts db' = attempts demo_outstanding
    \<and> set (supersessions demo_outstanding) \<subseteq> set (supersessions db')"
    by (rule open_annotates_outstanding [OF op, of _ "demo_event ''ev'' ''h1'' 1"])
       (simp_all add: demo_outstanding_def demo_registry_def demo_delivery_def demo_event_def
          demo_generation_def new_generation_def outstanding_def)
  with op show ?thesis by (auto simp: demo_delivery_def)
qed

end
