(* ===== verification/Scope.thy ===== *)
theory Scope
  imports Registry "HOL-Library.Sublist"
begin

text \<open>
  \<^verbatim>\<open>scope.py\<close> up to the file-descriptor work: containment of a path in the authorized roots, the
  authorization of a recipient, and the rule that ties a delivery to its own assignment. The
  standard library's \<^verbatim>\<open>posixpath.normpath\<close> is written out. Opening paths component by component,
  leases and hashing are operating-system calls and are not modelled. \<open>project_key\<close> of registry.py
  is here because it needs \<open>normpath\<close>.
\<close>

section \<open>Splitting and joining paths\<close>

fun split_slash :: "string \<Rightarrow> string list" where
  "split_slash [] = [[]]"
| "split_slash (c # s) = (if c = CHR ''/'' then [] # split_slash s
     else case split_slash s of [] \<Rightarrow> [[c]] | w # ws \<Rightarrow> (c # w) # ws)"

fun join_slash :: "string list \<Rightarrow> string" where
  "join_slash [] = []"
| "join_slash [w] = w"
| "join_slash (w # v # ws) = w @ ''/'' @ join_slash (v # ws)"

definition initial_slashes :: "string \<Rightarrow> nat" where
  "initial_slashes path =
     (if starts_with ''/'' path
      then (if starts_with ''//'' path \<and> \<not> starts_with ''///'' path then 2 else 1) else 0)"

text \<open>The loop of \<^verbatim>\<open>normpath\<close> over the components, \<open>acc\<close> being \<^verbatim>\<open>new_comps\<close>.\<close>

fun norm_comps :: "bool \<Rightarrow> string list \<Rightarrow> string list \<Rightarrow> string list" where
  "norm_comps rooted acc [] = acc"
| "norm_comps rooted acc (name # names) =
     (if name = [] \<or> name = ''.'' then norm_comps rooted acc names
      else if name \<noteq> ''..'' \<or> (\<not> rooted \<and> acc = []) \<or> (acc \<noteq> [] \<and> last acc = ''..'')
      then norm_comps rooted (acc @ [name]) names
      else if acc \<noteq> [] then norm_comps rooted (butlast acc) names
      else norm_comps rooted acc names)"

definition components :: "string \<Rightarrow> string list" where
  "components path = norm_comps (initial_slashes path \<noteq> 0) [] (split_slash path)"

definition normpath :: "string \<Rightarrow> string" where
  "normpath path =
     (if path = [] then ''.''
      else let normal = replicate (initial_slashes path) (CHR ''/'') @ join_slash (components path)
      in if normal = [] then ''.'' else normal)"

section \<open>Containment\<close>

definition normalize_declared_path :: "string \<Rightarrow> err + string" where
  "normalize_declared_path path =
     (if path = [] \<or> CHR 0x00 \<in> set path \<or> \<not> starts_with ''/'' path \<or> CHR ''~'' \<in> set path
         \<or> path \<noteq> normpath path \<or> (path \<noteq> ''/'' \<and> last path = CHR ''/'')
      then Inl (RelayError ScopeError SCOPE_ESCAPE) else Inr path)"

definition is_within :: "string \<Rightarrow> string \<Rightarrow> bool" where
  "is_within base path =
     (let base = normpath base; path = normpath path
      in if base = ''/'' then starts_with ''/'' path
         else path = base \<or> starts_with (base @ ''/'') path)"

definition containing_root :: "string \<Rightarrow> string list \<Rightarrow> string option" where
  "containing_root path roots = List.find (\<lambda>base. is_within base path) roots"

definition assert_within :: "string \<Rightarrow> string list \<Rightarrow> err + string" where
  "assert_within path roots = (case containing_root path roots of
       None \<Rightarrow> Inl (RelayError ScopeError SCOPE_ESCAPE)
     | Some base \<Rightarrow> Inr base)"

section \<open>Recipients\<close>

definition COMPLETION :: string where "COMPLETION = ''completion_event''"
definition REVISION :: string where "REVISION = ''revision_request''"

definition check_recipient :: "string \<Rightarrow> string list \<Rightarrow> err + unit" where
  "check_recipient task_id allowed =
     (if task_id \<notin> set allowed then Inl (RelayError ScopeError RECIPIENT_NOT_AUTHORIZED)
      else Inr ())"

fun assert_all_within :: "string list \<Rightarrow> string list \<Rightarrow> err + unit" where
  "assert_all_within [] roots = Inr ()"
| "assert_all_within (p # ps) roots = bindE (assert_within p roots) (\<lambda>_. assert_all_within ps roots)"

definition assert_assignment_delivery ::
  "relationship_record \<Rightarrow> string \<Rightarrow> string \<Rightarrow> string option \<Rightarrow> string option \<Rightarrow> string list \<Rightarrow> err + unit"
where
  "assert_assignment_delivery relationship kind recipient recipient_thread event_relationship
       manifest_paths =
     (let row = rr_row relationship;
          refused = Inl (RelayError ScopeError RECIPIENT_NOT_AUTHORIZED)
      in if event_relationship \<noteq> None \<and> event_relationship \<noteq> Some (r_id row) then refused
         else if kind \<noteq> REVISION \<and> kind \<noteq> COMPLETION then refused
         else if recipient \<noteq> (if kind = REVISION then r_child_task row else r_parent_task row)
         then refused
         else if recipient_thread \<noteq> None \<and> recipient_thread \<noteq> Some recipient then refused
         else bindE (check_recipient recipient (r_allowed_recipients row))
                (\<lambda>_. assert_all_within manifest_paths (r_artifact_roots row)))"

text \<open>\<^verbatim>\<open>registry.project_key\<close>.\<close>

definition project_key :: "relationship_row \<Rightarrow> string" where
  "project_key row = (if truthy_text (r_parent_cwd row) then normpath (the (r_parent_cwd row))
     else ''host:'' @ r_parent_host row)"

section \<open>Paths as components\<close>

definition plain :: "string \<Rightarrow> bool" where
  "plain w = (w \<noteq> [] \<and> CHR ''/'' \<notin> set w)"

lemma split_slash_nonempty [simp]: "split_slash s \<noteq> []"
  by (induction s) (auto split: list.splits)

lemma split_slash_no_slash: "w \<in> set (split_slash s) \<Longrightarrow> CHR ''/'' \<notin> set w"
  by (induction s arbitrary: w) (auto split: list.splits if_splits)

lemma split_slash_word: "CHR ''/'' \<notin> set w \<Longrightarrow> split_slash w = [w]"
  by (induction w) auto

lemma split_slash_append: "CHR ''/'' \<notin> set w \<Longrightarrow> split_slash (w @ CHR ''/'' # s) = w # split_slash s"
  by (induction w) auto

lemma split_join: "ws \<noteq> [] \<Longrightarrow> list_all plain ws \<Longrightarrow> split_slash (join_slash ws) = ws"
  by (induction ws rule: join_slash.induct) (auto simp: plain_def split_slash_word split_slash_append)

lemma join_nonempty: "list_all plain ws \<Longrightarrow> join_slash ws = [] \<longleftrightarrow> ws = []"
  by (induction ws rule: join_slash.induct) (auto simp: plain_def)

lemma join_head: "list_all plain ws \<Longrightarrow> \<not> starts_with ''/'' (join_slash ws)"
  by (induction ws rule: join_slash.induct) (auto simp: plain_def starts_with_iff append_eq_Cons_conv)

lemma join_inject: "list_all plain us \<Longrightarrow> list_all plain vs \<Longrightarrow> join_slash us = join_slash vs \<longleftrightarrow> us = vs"
  by (metis join_nonempty split_join)

lemma join_append: "us \<noteq> [] \<Longrightarrow> vs \<noteq> [] \<Longrightarrow> join_slash (us @ vs) = join_slash us @ ''/'' @ join_slash vs"
proof (induction us rule: join_slash.induct)
  case (2 w)
  then show ?case by (cases vs) auto
qed auto

text \<open>What the loop leaves: plain components other than dots, and no \<open>..\<close> in a rooted path.\<close>

lemma norm_comps_plain:
  assumes "list_all plain acc" "\<And>w. w \<in> set names \<Longrightarrow> CHR ''/'' \<notin> set w"
  shows "list_all plain (norm_comps rooted acc names)"
  using assms
proof (induction rooted acc names rule: norm_comps.induct)
  case (2 rooted acc name names)
  have rest: "\<And>w. w \<in> set names \<Longrightarrow> CHR ''/'' \<notin> set w" and new: "name \<noteq> [] \<Longrightarrow> plain name"
    using 2(6) by (simp_all add: plain_def)
  have "list_all plain (butlast acc)"
    using 2(5) by (metis in_set_butlastD list_all_iff)
  with 2 rest new show ?case by simp
qed simp

lemma components_plain: "list_all plain (components path)"
  unfolding components_def by (rule norm_comps_plain) (auto dest: split_slash_no_slash)

lemma norm_comps_dots:
  assumes "''..'' \<notin> set acc" "''.'' \<notin> set acc"
  shows "''..'' \<notin> set (norm_comps True acc names) \<and> ''.'' \<notin> set (norm_comps True acc names)"
  using assms
proof (induction True acc names rule: norm_comps.induct)
  case (2 acc name names)
  have "last acc \<noteq> ''..''" if "acc \<noteq> []" using 2(5) that by (metis last_in_set)
  with 2 show ?case by (auto dest: in_set_butlastD)
qed simp

lemma components_no_dots:
  "starts_with ''/'' path \<Longrightarrow> ''..'' \<notin> set (components path) \<and> ''.'' \<notin> set (components path)"
  using norm_comps_dots [of "[]" "split_slash path"] by (simp add: components_def initial_slashes_def)

lemma norm_comps_fixed:
  assumes "list_all plain names" "''..'' \<notin> set names" "''.'' \<notin> set names"
  shows "norm_comps rooted acc names = acc @ names"
  using assms by (induction names arbitrary: acc) (auto simp: plain_def)

lemma normpath_rooted:
  assumes "initial_slashes path = Suc n"
  shows "normpath path = replicate (Suc n) (CHR ''/'') @ join_slash (components path)"
  using assms by (auto simp: normpath_def initial_slashes_def starts_with_def split: if_splits)

lemma initial_slashes_normal:
  assumes "n = 1 \<or> n = 2" "\<not> starts_with ''/'' s"
  shows "initial_slashes (replicate n (CHR ''/'') @ s) = n"
  using assms by (cases s) (auto simp: initial_slashes_def starts_with_def eval_nat_numeral)

lemma initial_slashes_le: "initial_slashes path = Suc n \<Longrightarrow> Suc n = 1 \<or> Suc n = 2"
  by (auto simp: initial_slashes_def split: if_splits)

lemma components_join:
  assumes "list_all plain ws" "''..'' \<notin> set ws" "''.'' \<notin> set ws" "n = 1 \<or> n = 2"
  shows "components (replicate n (CHR ''/'') @ join_slash ws) = ws"
proof -
  have slashes: "initial_slashes (replicate n (CHR ''/'') @ join_slash ws) \<noteq> 0"
    using initial_slashes_normal [OF assms(4) join_head [OF assms(1)]] assms(4) by auto
  have "norm_comps True [] (split_slash (join_slash ws)) = ws"
  proof (cases "ws = []")
    case False
    with split_join [OF False assms(1)] norm_comps_fixed [OF assms(1-3)] show ?thesis by simp
  qed simp
  with slashes assms(4) show ?thesis by (auto simp: components_def eval_nat_numeral)
qed

text \<open>Normalizing twice changes nothing.\<close>

lemma normpath_components:
  assumes "initial_slashes path = Suc n"
  shows "initial_slashes (normpath path) = Suc n \<and> components (normpath path) = components path"
proof -
  have s: "starts_with ''/'' path" using assms by (auto simp: initial_slashes_def split: if_splits)
  note dots = components_no_dots [OF s]
  show ?thesis
    unfolding normpath_rooted [OF assms]
    using components_join [OF components_plain, of path "Suc n"] dots initial_slashes_le [OF assms]
      initial_slashes_normal [OF initial_slashes_le [OF assms] join_head [OF components_plain]]
    by simp
qed

lemma normpath_idem_rooted: "initial_slashes path = Suc n \<Longrightarrow> normpath (normpath path) = normpath path"
  using normpath_components [of path n] normpath_rooted [of path n] normpath_rooted [of "normpath path" n]
  by simp

lemma prefix_join:
  assumes "list_all plain us" "list_all plain vs" "us \<noteq> []"
  shows "(join_slash vs = join_slash us \<or> starts_with (join_slash us @ ''/'') (join_slash vs))
    \<longleftrightarrow> prefix us vs"
proof
  assume "join_slash vs = join_slash us \<or> starts_with (join_slash us @ ''/'') (join_slash vs)"
  then show "prefix us vs"
  proof
    assume "join_slash vs = join_slash us"
    with join_inject [OF assms(2,1)] show ?thesis by simp
  next
    assume "starts_with (join_slash us @ ''/'') (join_slash vs)"
    then obtain t where t: "join_slash vs = join_slash us @ CHR ''/'' # t"
      by (auto simp: starts_with_iff)
    have split: "split_slash (join_slash ws @ CHR ''/'' # t) = ws @ split_slash t"
      if "list_all plain ws" "ws \<noteq> []" for ws
      using that by (induction ws rule: join_slash.induct) (auto simp: plain_def split_slash_append)
    have "vs \<noteq> []" using t join_nonempty [OF assms(2)] by auto
    then have "vs = us @ split_slash t"
      using split_join [OF _ assms(2)] split [OF assms(1,3)] t by simp
    then show ?thesis by simp
  qed
next
  assume "prefix us vs"
  then obtain ws where "vs = us @ ws" by (auto simp: prefix_def)
  then show "join_slash vs = join_slash us \<or> starts_with (join_slash us @ ''/'') (join_slash vs)"
    using join_append [OF assms(3), of ws] by (cases "ws = []") (auto simp: starts_with_iff)
qed

lemma is_within_prefix:
  assumes "initial_slashes base = 1" "initial_slashes path = 1"
  shows "is_within base path \<longleftrightarrow> prefix (components base) (components path)"
proof -
  have n: "normpath base = CHR ''/'' # join_slash (components base)"
    "normpath path = CHR ''/'' # join_slash (components path)"
    using normpath_rooted [of base 0] normpath_rooted [of path 0] assms by simp_all
  show ?thesis
  proof (cases "components base = []")
    case True
    then show ?thesis unfolding is_within_def Let_def n by (simp add: starts_with_def)
  next
    case False
    then have "join_slash (components base) \<noteq> []" using join_nonempty [OF components_plain] by blast
    moreover have "starts_with (CHR ''/'' # join_slash (components base) @ ''/'')
        (CHR ''/'' # join_slash (components path))
      \<longleftrightarrow> starts_with (join_slash (components base) @ ''/'') (join_slash (components path))"
      by (simp add: starts_with_def)
    ultimately show ?thesis
      unfolding is_within_def Let_def n
      using prefix_join [OF components_plain components_plain False, of path] by simp
  qed
qed

lemma assert_within_Inr:
  "assert_within path roots = Inr base \<Longrightarrow> base \<in> set roots \<and> is_within base path"
  by (auto simp: assert_within_def containing_root_def dest: find_Some_iff_mem split: option.splits)

lemma assert_all_within_Inr:
  "assert_all_within ps roots = Inr u \<Longrightarrow> p \<in> set ps \<Longrightarrow> \<exists>base\<in>set roots. is_within base p"
  by (induction ps) (auto dest: assert_within_Inr)

section \<open>Properties\<close>

text \<open>
  a declared path that is accepted and found inside the authorized roots names, component by
  component, a place below one of them: no component is a dot or a double dot, and the components
  of the root are a prefix of its own, so \<open>/a/bc\<close> is never inside \<open>/a/b\<close>.
\<close>

theorem containment_by_component:
  assumes "normalize_declared_path path = Inr declared" and "assert_within declared roots = Inr base"
    and "initial_slashes base = 1" and "initial_slashes declared = 1"
  shows "base \<in> set roots \<and> prefix (components base) (components declared)
    \<and> declared = ''/'' @ join_slash (components declared)
    \<and> ''..'' \<notin> set (components declared) \<and> ''.'' \<notin> set (components declared)"
proof -
  have d: "declared = normpath declared" "starts_with ''/'' declared"
    using assms(1) by (auto simp: normalize_declared_path_def split: if_splits)
  have "normpath declared = ''/'' @ join_slash (components declared)"
    using normpath_rooted [of declared 0] assms(4) by simp
  with d assert_within_Inr [OF assms(2)] is_within_prefix [OF assms(3,4)] components_no_dots [OF d(2)]
  show ?thesis by metis
qed

theorem containment_by_component_witness:
  "assert_within ''/a/b/c'' [''/x'', ''/a/b''] = Inr ''/a/b''
   \<and> prefix (components ''/a/b'') (components ''/a/b/c'')
   \<and> assert_within ''/a/bc'' [''/a/b''] = Inl (RelayError ScopeError SCOPE_ESCAPE)"
proof -
  have ok: "normalize_declared_path ''/a/b/c'' = Inr ''/a/b/c''"
    and inside: "assert_within ''/a/b/c'' [''/x'', ''/a/b''] = Inr ''/a/b''"
    and one: "initial_slashes ''/a/b'' = 1" "initial_slashes ''/a/b/c'' = 1"
    by code_simp+
  from containment_by_component [OF ok inside one] inside
  show ?thesis by (intro conjI) (simp, simp, code_simp)
qed

text \<open>
  no cross delivery. A delivery the scope check lets through goes to its own assignment's
  endpoint, the child for a revision request and the parent for a completion, on that endpoint's
  own thread; the recipient is on the allowed list, the event belongs to the relationship, and
  every artifact path lies inside an authorized root.
\<close>

theorem no_cross_delivery:
  assumes "assert_assignment_delivery relationship kind recipient thread event_rel paths = Inr u"
  shows "(kind = REVISION \<and> recipient = r_child_task (rr_row relationship)
       \<or> kind = COMPLETION \<and> recipient = r_parent_task (rr_row relationship))
    \<and> (thread = None \<or> thread = Some recipient)
    \<and> (event_rel = None \<or> event_rel = Some (r_id (rr_row relationship)))
    \<and> recipient \<in> set (r_allowed_recipients (rr_row relationship))
    \<and> (\<forall>p\<in>set paths. \<exists>base\<in>set (r_artifact_roots (rr_row relationship)). is_within base p)"
  using assms assert_all_within_Inr
  by (auto simp: assert_assignment_delivery_def check_recipient_def Let_def COMPLETION_def REVISION_def
      split: if_splits)

theorem no_cross_delivery_witness:
  "''parent'' \<in> set (r_allowed_recipients demo_relationship)
   \<and> (\<exists>base\<in>set (r_artifact_roots demo_relationship). is_within base ''/work/out'')"
proof -
  let ?r = "\<lparr>rr_row = demo_relationship, rr_generations = []\<rparr>"
  have "assert_assignment_delivery ?r COMPLETION ''parent'' (Some ''parent'') (Some ''rel'')
      [''/work/out''] = Inr ()" by code_simp
  from no_cross_delivery [OF this] show ?thesis by simp
qed

end
