(* ===== verification/Delivery_Queue.thy ===== *)
theory Delivery_Queue
  imports Scope "HOL-Library.Option_ord"
begin

text \<open>
  \<^verbatim>\<open>delivery.py\<close>, the half before a claim: whether a delivery is still what its assignment stands
  on, the queue and the intents to queue, the supersession notes, and the fair selection of what a
  tick may send.
\<close>

section \<open>Constants\<close>

definition EXECUTION_ONLY_OUTCOMES :: "string list" where
  "EXECUTION_ONLY_OUTCOMES = [''failed'', ''interrupted'', ''blocked_needs_input'']"

definition CLAIMABLE :: "delivery_state list" where
  "CLAIMABLE = [QUEUED, DEFERRED_BUSY, WITHHELD_PRE_SEND]"

definition STALE_GENERATION_HOLD :: string where "STALE_GENERATION_HOLD = ''stale_generation''"
definition SUPERSEDED_REVISION_HOLD :: string where
  "SUPERSEDED_REVISION_HOLD = ''superseded_revision''"

section \<open>Supersession\<close>

text \<open>
  \<^verbatim>\<open>_supersession_reason\<close>: an advanced generation invalidates everything before it; a revision request is
  answered by any other final event of its generation; an execution-only outcome is never
  superseded within its generation; a reviewable one is superseded by a final head other than it.
\<close>

definition supersession_reason :: "db \<Rightarrow> string \<Rightarrow> err + string option" where
  "supersession_reason db ev =
     (case event_of db ev of
        None \<Rightarrow> Inr None
      | Some e \<Rightarrow>
          (case relationship_of db (e_rel e) of
             None \<Rightarrow> Inr None
           | Some r \<Rightarrow>
               if e_gen e < r_generation r then Inr (Some STALE_GENERATION_HOLD)
               else if e_outcome e = REVISION then
                 Inr (if list_ex (\<lambda>x. e_rel x = e_rel e \<and> e_gen x = e_gen e \<and> e_stage x = FINAL
                            \<and> e_suppressed_reason x = None \<and> e_id x \<noteq> ev) (events db)
                      then Some SUPERSEDED_REVISION_HOLD else None)
               else if e_outcome e \<in> set EXECUTION_ONLY_OUTCOMES then Inr None
               else bindE (head_revision db (e_rel e) (e_gen e)) (\<lambda>head.
                 Inr (case h_event head of
                        None \<Rightarrow> None
                      | Some tip \<Rightarrow>
                          if tip = [] \<or> tip = ev then None
                          else case event_of db tip of
                              None \<Rightarrow> None
                            | Some successor \<Rightarrow>
                                if e_stage successor = FINAL then Some SUPERSEDED_REVISION_HOLD
                                else None))))"

definition annotate_supersession_in :: "clock \<Rightarrow> string \<Rightarrow> string \<Rightarrow> db \<Rightarrow> db" where
  "annotate_supersession_in clk ev reason db =
     db\<lparr>supersessions := annotate_row ev reason (clk_iso clk) (supersessions db)\<rparr>"

fun annotate_each :: "clock \<Rightarrow> string list \<Rightarrow> db \<Rightarrow> err + db" where
  "annotate_each clk [] db = Inr db"
| "annotate_each clk (ev # evs) db = bindE (supersession_reason db ev) (\<lambda>reason.
     annotate_each clk evs (case reason of
         Some r \<Rightarrow> if r = [] then db else annotate_supersession_in clk ev r db
       | None \<Rightarrow> db))"

text \<open>The outstanding deliveries of the other events of one generation.\<close>

definition outstanding_others :: "db \<Rightarrow> event_row \<Rightarrow> string list" where
  "outstanding_others db event =
     map d_event (filter (\<lambda>d. d_event d \<noteq> e_id event \<and> d_state d \<in> set outstanding
        \<and> list_ex (\<lambda>e. e_id e = d_event d \<and> e_rel e = e_rel event \<and> e_gen e = e_gen event)
            (events db)) (deliveries db))"

definition annotate_predecessors_in :: "clock \<Rightarrow> string \<Rightarrow> db \<Rightarrow> err + db" where
  "annotate_predecessors_in clk ev db =
     (case event_of db ev of
        None \<Rightarrow> Inr db
      | Some event \<Rightarrow> annotate_each clk (outstanding_others db event) db)"

text \<open>
  Withdrawing a delivery the recipient cannot already be acting on: the guard is part of the
  update, and where it matches nothing the delivery is annotated instead.
\<close>

definition withdrawable :: "string \<Rightarrow> delivery_row \<Rightarrow> bool" where
  "withdrawable ev d = (d_event d = ev \<and> d_state d \<in> set CLAIMABLE \<and> d_hold_reason d = None)"

definition withdraw :: "clock \<Rightarrow> string \<Rightarrow> string \<Rightarrow> db \<Rightarrow> db" where
  "withdraw clk ev reason db =
     (if rowcount (withdrawable ev) (deliveries db) = 1
      then journal_entry ''delivery_superseded'' ev (JObj [(''reason'', JStr reason)]) (clk_iso clk)
             (db\<lparr>deliveries := update_where (withdrawable ev)
                (\<lambda>d. d\<lparr>d_state := SUPERSEDED, d_hold_reason := Some reason,
                     d_updated_at := clk_iso clk\<rparr>) (deliveries db)\<rparr>)
      else annotate_supersession_in clk ev reason
             (db\<lparr>deliveries := update_where (withdrawable ev)
                (\<lambda>d. d\<lparr>d_state := SUPERSEDED, d_hold_reason := Some reason,
                     d_updated_at := clk_iso clk\<rparr>) (deliveries db)\<rparr>))"

definition mark_superseded :: "clock \<Rightarrow> string \<Rightarrow> string \<Rightarrow> db \<Rightarrow> db" where
  "mark_superseded clk ev reason db = withdraw clk ev reason db"

definition suppress_if_superseded :: "clock \<Rightarrow> string \<Rightarrow> db \<Rightarrow> err + db \<times> string option" where
  "suppress_if_superseded clk ev db =
     bindE (supersession_reason db ev) (\<lambda>reason.
       case reason of
         None \<Rightarrow> Inr (db, None)
       | Some r \<Rightarrow> Inr (withdraw clk ev r db, Some r))"

section \<open>The queue\<close>

definition manifest_paths :: "event_row \<Rightarrow> string list" where
  "manifest_paths event = (case jget (e_receipt event) ''manifest'' of
       JList entries \<Rightarrow> concat (map (\<lambda>entry. case jget entry ''path'' of
           JStr p \<Rightarrow> if is_obj entry then [p] else [] | _ \<Rightarrow> []) entries)
     | _ \<Rightarrow> [])"

definition clear_intent :: "string \<Rightarrow> db \<Rightarrow> db" where
  "clear_intent ev db = db\<lparr>delivery_intents :=
     delete_where (\<lambda>i. i_event i = ev) (delivery_intents db)\<rparr>"

definition queued_row :: "clock \<Rightarrow> string \<Rightarrow> string \<Rightarrow> string \<Rightarrow> string \<Rightarrow> delivery_row" where
  "queued_row clk ev rid kind recipient = \<lparr>d_event = ev, d_rel = rid, d_kind = kind,
     d_recipient_task = recipient, d_recipient_thread = recipient, d_state = QUEUED,
     d_attempt_count = 0, d_next_eligible_at = None, d_hold_reason = None, d_lease_owner = None,
     d_lease_until = None, d_dispatch_evidence = None, d_dispatch_turn = None,
     d_created_at = clk_iso clk, d_updated_at = clk_iso clk\<rparr>"

definition enqueue_in :: "clock \<Rightarrow> string \<Rightarrow> string \<Rightarrow> string \<Rightarrow> string \<Rightarrow> db \<Rightarrow> err + db" where
  "enqueue_in clk ev rid kind recipient db =
     annotate_predecessors_in clk ev
       (journal_entry ''delivery_queued'' ev (JObj [(''kind'', JStr kind)]) (clk_iso clk)
         (db\<lparr>deliveries := insert_or_ignore d_event (queued_row clk ev rid kind recipient)
            (deliveries db)\<rparr>))"

definition not_claimable_error :: err where
  "not_claimable_error = RelayError DeliveryRefused NOT_CLAIMABLE"

definition find_or_refuse :: "db \<Rightarrow> string \<Rightarrow> err + delivery_row" where
  "find_or_refuse db ev = (case delivery_of db ev of
       None \<Rightarrow> Inl not_claimable_error | Some d \<Rightarrow> Inr d)"

definition enqueue ::
  "clock \<Rightarrow> string \<Rightarrow> string \<Rightarrow> string option \<Rightarrow> db \<Rightarrow> db \<times> (err + delivery_row)" where
  "enqueue clk ev kind recipient db =
     (case event_of db ev of
        None \<Rightarrow> (db, Inl not_claimable_error)
      | Some event \<Rightarrow>
          if e_stage event \<noteq> FINAL then (db, Inl not_claimable_error)
          else case bindE (require_active db (e_rel event)) (\<lambda>relationship.
                 let task = (case recipient of Some t \<Rightarrow> t | None \<Rightarrow>
                        if kind = REVISION then r_child_task (rr_row relationship)
                        else r_parent_task (rr_row relationship))
                 in bindE (assert_assignment_delivery relationship kind task None
                        (Some (e_rel event)) (manifest_paths event)) (\<lambda>_. Inr task)) of
              Inl e \<Rightarrow> (db, Inl e)
            | Inr task \<Rightarrow>
                (case delivery_of db ev of
                   Some existing \<Rightarrow> (clear_intent ev db, Inr existing)
                 | None \<Rightarrow> after_commit db (\<lambda>db'. find_or_refuse db' ev)
                     (bindE (enqueue_in clk ev (e_rel event) kind task db)
                        (\<lambda>db'. Inr (clear_intent ev db')))))"

section \<open>Intents\<close>

definition record_intent_in ::
  "RetryPolicy \<Rightarrow> clock \<Rightarrow> string \<Rightarrow> string \<Rightarrow> string \<Rightarrow> string \<Rightarrow> rat \<Rightarrow> db \<Rightarrow> db" where
  "record_intent_in p clk ev rid kind recipient now db =
     (let attempts = (case intent_of db ev of None \<Rightarrow> 0 | Some i \<Rightarrow> i_attempts i) + 1;
          retry = Some (now + backoff p attempts)
      in db\<lparr>delivery_intents := upsert i_event
           \<lparr>i_event = ev, i_rel = rid, i_kind = kind, i_recipient = recipient,
            i_attempts = attempts, i_next_retry_at = retry, i_noted_at = clk_iso clk\<rparr>
           (\<lambda>i. i\<lparr>i_attempts := attempts, i_next_retry_at := retry\<rparr>) (delivery_intents db)\<rparr>)"

text \<open>A null retry time sorts first, as SQLite orders it.\<close>

definition pending_intents :: "db \<Rightarrow> rat \<Rightarrow> nat \<Rightarrow> intent_row list" where
  "pending_intents db now limit =
     take limit (sort_key i_next_retry_at (filter (\<lambda>i. delivery_of db (i_event i) = None
        \<and> (case i_next_retry_at i of None \<Rightarrow> True | Some t \<Rightarrow> t \<le> now)) (delivery_intents db)))"

section \<open>Who may be sent to\<close>

definition due :: "rat \<Rightarrow> delivery_row \<Rightarrow> bool" where
  "due now d = (case d_next_eligible_at d of None \<Rightarrow> True | Some t \<Rightarrow> t \<le> now)"

definition eligible_row :: "db \<Rightarrow> rat \<Rightarrow> delivery_row \<Rightarrow> bool" where
  "eligible_row db now d =
     (d_state d \<in> set CLAIMABLE \<and> d_hold_reason d = None \<and> due now d
      \<and> (case relationship_of db (d_rel d) of None \<Rightarrow> False
         | Some r \<Rightarrow> r_status r = ACTIVE \<and> r_superseded_by r = None)
      \<and> (case event_of db (d_event d) of None \<Rightarrow> False | Some e \<Rightarrow> e_stage e = FINAL))"

definition parent_of :: "db \<Rightarrow> delivery_row \<Rightarrow> string" where
  "parent_of db d = (case relationship_of db (d_rel d) of None \<Rightarrow> [] | Some r \<Rightarrow> r_parent_task r)"

definition eligible_parents :: "db \<Rightarrow> rat \<Rightarrow> string list" where
  "eligible_parents db now =
     sort (remdups (map (parent_of db) (filter (eligible_row db now) (deliveries db))))"

definition eligible_of_parent :: "db \<Rightarrow> rat \<Rightarrow> string \<Rightarrow> delivery_row list" where
  "eligible_of_parent db now parent =
     sort_key d_created_at
       (filter (\<lambda>d. eligible_row db now d \<and> parent_of db d = parent) (deliveries db))"

definition eligible_for_parent :: "db \<Rightarrow> rat \<Rightarrow> string \<Rightarrow> nat \<Rightarrow> nat \<Rightarrow> delivery_row list" where
  "eligible_for_parent db now parent limit offset =
     take limit (drop offset (eligible_of_parent db now parent))"

definition eligible_count :: "db \<Rightarrow> rat \<Rightarrow> string \<Rightarrow> nat" where
  "eligible_count db now parent = length (eligible_of_parent db now parent)"

definition window_for :: "db \<Rightarrow> rat \<Rightarrow> string \<Rightarrow> nat \<Rightarrow> nat \<Rightarrow> delivery_row list" where
  "window_for db now parent share offset =
     (let taken = eligible_for_parent db now parent share offset
      in if length taken < share \<and> offset \<noteq> 0
         then taken @ take (share - length taken)
                (filter (\<lambda>d. d_event d \<notin> d_event ` set taken)
                   (eligible_for_parent db now parent share 0))
         else taken)"

text \<open>One round of the dealing loop, and the loop.\<close>

type_synonym queue_of = "string \<times> delivery_row list"

fun deal_round ::
  "nat \<Rightarrow> delivery_row list \<Rightarrow> queue_of list \<Rightarrow> queue_of list \<times> delivery_row list" where
  "deal_round limit selected [] = ([], selected)"
| "deal_round limit selected ((parent, queue) # queues) =
     (if limit \<le> length selected then ((parent, queue) # queues, selected)
      else case queue of
          [] \<Rightarrow> (let (rest, out) = deal_round limit selected queues in ((parent, []) # rest, out))
        | d # ds \<Rightarrow> (let (rest, out) = deal_round limit (selected @ [d]) queues
                    in ((parent, ds) # rest, out)))"

definition backlog :: "queue_of list \<Rightarrow> nat" where
  "backlog queues = sum_list (map (\<lambda>q. length (snd q)) queues)"

lemma deal_round_backlog:
  "deal_round limit selected queues = (rest, out) \<Longrightarrow> backlog rest \<le> backlog queues \<and>
     (length selected < limit \<longrightarrow> list_ex (\<lambda>q. snd q \<noteq> []) queues \<longrightarrow> backlog rest < backlog queues)"
proof (induction limit selected queues arbitrary: rest out rule: deal_round.induct)
  case (2 limit selected parent queue queues)
  show ?case
  proof (cases "limit \<le> length selected")
    case False
    show ?thesis
    proof (cases queue)
      case Nil
      with 2(1) [OF False Nil] 2(3) False show ?thesis
        by (auto simp: backlog_def split: prod.splits)
    next
      case (Cons d ds)
      obtain rest1 out1 where r: "deal_round limit (selected @ [d]) queues = (rest1, out1)"
        by (cases "deal_round limit (selected @ [d]) queues") auto
      from 2(2) [OF False Cons r] 2(3) False r Cons show ?thesis by (auto simp: backlog_def)
    qed
  qed (use 2(3) in auto)
qed (simp add: backlog_def)

function deal :: "nat \<Rightarrow> delivery_row list \<Rightarrow> queue_of list \<Rightarrow> delivery_row list" where
  "deal limit selected queues =
     (if length selected < limit \<and> list_ex (\<lambda>q. snd q \<noteq> []) queues
      then let (rest, out) = deal_round limit selected queues in deal limit out rest
      else selected)"
  by pat_completeness auto

termination deal
proof (relation "measure (\<lambda>(limit, selected, queues). backlog queues)")
  fix limit selected queues x rest out
  assume go: "length selected < limit \<and> list_ex (\<lambda>q :: queue_of. snd q \<noteq> []) queues"
    and x: "x = deal_round limit selected queues" "(rest, out) = x"
  then have "backlog rest < backlog queues"
    using deal_round_backlog [of limit selected queues rest out] by simp
  then show "((limit, out, rest), (limit, selected, queues))
      \<in> measure (\<lambda>(limit, selected, queues). backlog queues)" by simp
qed simp

declare deal.simps [simp del]

text \<open>The offsets are a map with default zero; a missing or zero share is the policy's.\<close>

definition eligible ::
  "RetryPolicy \<Rightarrow> db \<Rightarrow> rat \<Rightarrow> nat \<Rightarrow> nat option \<Rightarrow> nat \<Rightarrow> (string \<Rightarrow> nat) \<Rightarrow> delivery_row list" where
  "eligible p db now limit per_parent_limit cursor offsets =
     (let parents = eligible_parents db now;
          share = (case per_parent_limit of Some n \<Rightarrow>
                     if n = 0 then max_sends_per_parent_per_tick p else n
                   | None \<Rightarrow> max_sends_per_parent_per_tick p);
          start = (if parents = [] then 0 else cursor mod length parents);
          order = drop start parents @ take start parents
      in deal limit [] (map (\<lambda>parent. (parent, window_for db now parent share (offsets parent))) order))"

section \<open>Fairness\<close>

definition queued_in :: "queue_of list \<Rightarrow> delivery_row set" where
  "queued_in queues = (\<Union>q\<in>set queues. set (snd q))"

lemma deal_round_bounds:
  "deal_round limit selected queues = (rest, out) \<Longrightarrow>
     set selected \<subseteq> set out \<and> set out \<subseteq> set selected \<union> queued_in queues
     \<and> queued_in rest \<subseteq> queued_in queues \<and> (length selected \<le> limit \<longrightarrow> length out \<le> limit)"
proof (induction limit selected queues arbitrary: rest out rule: deal_round.induct)
  case (2 limit selected parent queue queues)
  show ?case
  proof (cases "limit \<le> length selected")
    case False
    show ?thesis
    proof (cases queue)
      case Nil
      obtain rest1 out1 where r: "deal_round limit selected queues = (rest1, out1)"
        by (cases "deal_round limit selected queues") auto
      with Nil False 2(3) have eq: "rest = (parent, []) # rest1" "out = out1" by simp_all
      from 2(1) [OF False Nil r] show ?thesis by (auto simp: eq queued_in_def)
    next
      case (Cons d ds)
      obtain rest1 out1 where r: "deal_round limit (selected @ [d]) queues = (rest1, out1)"
        by (cases "deal_round limit (selected @ [d]) queues") auto
      with Cons False 2(3) have eq: "rest = (parent, ds) # rest1" "out = out1" by simp_all
      from 2(2) [OF False Cons r] False show ?thesis by (auto simp: eq Cons queued_in_def)
    qed
  qed (use 2(3) in \<open>auto simp: queued_in_def\<close>)
qed (simp add: queued_in_def)

lemma deal_bounds:
  "set selected \<subseteq> set (deal limit selected queues)
   \<and> set (deal limit selected queues) \<subseteq> set selected \<union> queued_in queues
   \<and> (length selected \<le> limit \<longrightarrow> length (deal limit selected queues) \<le> limit)"
proof (induction limit selected queues rule: deal.induct)
  case (1 limit selected queues)
  show ?case
  proof (cases "length selected < limit \<and> list_ex (\<lambda>q. snd q \<noteq> []) queues")
    case True
    obtain rest out where r: "deal_round limit selected queues = (rest, out)"
      by (cases "deal_round limit selected queues") auto
    have "deal limit selected queues = deal limit out rest"
      by (subst deal.simps) (simp add: True r)
    with 1 [OF True r [symmetric] refl] deal_round_bounds [OF r] True show ?thesis by auto
  next
    case False
    have "deal limit selected queues = selected" by (subst deal.simps) (use False in auto)
    then show ?thesis by simp
  qed
qed

text \<open>With room for everybody the first round takes the first of every queue.\<close>

lemma deal_round_first:
  assumes "length selected + length queues \<le> limit" "deal_round limit selected queues = (rest, out)"
    and "(parent, d # ds) \<in> set queues"
  shows "d \<in> set out"
  using assms
proof (induction limit selected queues arbitrary: rest out rule: deal_round.induct)
  case (2 limit selected p queue queues)
  have room: "\<not> limit \<le> length selected" using 2(3) by simp
  show ?case
  proof (cases queue)
    case Nil
    obtain rest1 out1 where r: "deal_round limit selected queues = (rest1, out1)"
      by (cases "deal_round limit selected queues") auto
    with Nil room 2(4) have "out = out1" by simp
    with 2(1) [OF room Nil _ r] 2(3,5) Nil show ?thesis by auto
  next
    case (Cons x xs)
    obtain rest1 out1 where r: "deal_round limit (selected @ [x]) queues = (rest1, out1)"
      by (cases "deal_round limit (selected @ [x]) queues") auto
    with Cons room 2(4) have out: "out = out1" by simp
    from 2(5) consider "p = parent" "queue = d # ds" | "(parent, d # ds) \<in> set queues" by auto
    then show ?thesis
    proof cases
      case 1
      with Cons deal_round_bounds [OF r] out show ?thesis by auto
    next
      case 2
      with "2.IH"(2) [OF room Cons _ r] "2.prems"(1) out show ?thesis by simp
    qed
  qed
qed simp

lemma deal_first:
  assumes "length queues \<le> limit" "(parent, d # ds) \<in> set queues"
  shows "d \<in> set (deal limit [] queues)"
proof -
  have go: "length [] < limit \<and> list_ex (\<lambda>q. snd q \<noteq> []) queues"
    using assms by (cases queues) (force simp: list_ex_iff)+
  obtain rest out where r: "deal_round limit [] queues = (rest, out)"
    by (cases "deal_round limit [] queues") auto
  have "d \<in> set out" by (rule deal_round_first [OF _ r assms(2)]) (use assms(1) in simp)
  moreover have "deal limit [] queues = deal limit out rest" by (subst deal.simps) (use go r in simp)
  ultimately show ?thesis using deal_bounds [of out limit rest] by auto
qed

lemma window_sub: "set (window_for db now parent share offset) \<subseteq> set (eligible_of_parent db now parent)"
  by (auto simp: window_for_def eligible_for_parent_def Let_def dest!: in_set_takeD in_set_dropD)

lemma window_nonempty:
  assumes "eligible_of_parent db now parent \<noteq> []" "0 < share"
  shows "window_for db now parent share offset \<noteq> []"
proof (cases "offset < length (eligible_of_parent db now parent)")
  case True
  with assms show ?thesis by (simp add: window_for_def eligible_for_parent_def Let_def)
next
  case False
  with assms(1) have "offset \<noteq> 0" by (metis length_greater_0_conv)
  with False assms show ?thesis by (simp add: window_for_def eligible_for_parent_def Let_def)
qed

lemma set_eligible_of_parent:
  "set (eligible_of_parent db now parent)
     = {d \<in> set (deliveries db). eligible_row db now d \<and> parent_of db d = parent}"
  by (simp add: eligible_of_parent_def)

lemma eligible_order:
  "set (drop (cursor mod length parents) parents @ take (cursor mod length parents) parents) = set parents"
  by (metis append_take_drop_id set_append sup_commute)

section \<open>Withdrawal\<close>

lemma withdraw_deliveries:
  "deliveries (withdraw clk ev reason db) = update_where (withdrawable ev)
     (\<lambda>d. d\<lparr>d_state := SUPERSEDED, d_hold_reason := Some reason, d_updated_at := clk_iso clk\<rparr>)
     (deliveries db)"
  by (simp add: withdraw_def annotate_supersession_in_def)

lemma withdraw_frame [simp]:
  "relationships (withdraw clk ev reason db) = relationships db"
  "generations (withdraw clk ev reason db) = generations db"
  "events (withdraw clk ev reason db) = events db"
  "attempts (withdraw clk ev reason db) = attempts db"
  "attempt_messages (withdraw clk ev reason db) = attempt_messages db"
  "recipient_rates (withdraw clk ev reason db) = recipient_rates db"
  "acks (withdraw clk ev reason db) = acks db"
  "verdicts (withdraw clk ev reason db) = verdicts db"
  "revision_lineage (withdraw clk ev reason db) = revision_lineage db"
  "work_reports (withdraw clk ev reason db) = work_reports db"
  by (simp_all add: withdraw_def annotate_supersession_in_def)

lemma suppress_cases:
  assumes "suppress_if_superseded clk ev db = Inr (db', out)"
  obtains (current) "supersession_reason db ev = Inr None" "db' = db" "out = None"
    | (superseded) why where "supersession_reason db ev = Inr (Some why)" "db' = withdraw clk ev why db"
        "out = Some why"
proof (cases "supersession_reason db ev")
  case (Inl e)
  with assms show thesis by (simp add: suppress_if_superseded_def)
next
  case (Inr o1)
  show thesis
  proof (cases o1)
    case None
    from assms have "db' = db \<and> out = None" by (simp add: suppress_if_superseded_def Inr None)
    then show thesis using current Inr None by blast
  next
    case (Some why)
    from assms have "db' = withdraw clk ev why db \<and> out = Some why"
      by (simp add: suppress_if_superseded_def Inr Some)
    then show thesis using superseded Inr Some by blast
  qed
qed

lemma annotate_each_frame:
  "annotate_each clk evs db = Inr db' \<Longrightarrow>
     deliveries db' = deliveries db \<and> events db' = events db \<and> relationships db' = relationships db
     \<and> attempts db' = attempts db \<and> generations db' = generations db \<and> acks db' = acks db
     \<and> verdicts db' = verdicts db \<and> delivery_intents db' = delivery_intents db
     \<and> attempt_messages db' = attempt_messages db \<and> recipient_rates db' = recipient_rates db
     \<and> revision_lineage db' = revision_lineage db
     \<and> set (supersessions db) \<subseteq> set (supersessions db')"
proof (induction evs arbitrary: db)
  case (Cons ev evs)
  then obtain reason where r: "supersession_reason db ev = Inr reason"
    and rest: "annotate_each clk evs (case reason of
         Some r \<Rightarrow> if r = [] then db else annotate_supersession_in clk ev r db | None \<Rightarrow> db) = Inr db'"
    by auto
  from Cons.IH [OF rest] show ?case
    using subsetD [OF annotate_row_keeps]
    by (auto simp: annotate_supersession_in_def split: option.splits if_splits)
qed simp

lemma enqueue_in_frame:
  assumes "enqueue_in clk ev rid kind recipient db = Inr db'"
  shows "deliveries db' = insert_or_ignore d_event (queued_row clk ev rid kind recipient) (deliveries db)
     \<and> events db' = events db \<and> relationships db' = relationships db \<and> attempts db' = attempts db
     \<and> generations db' = generations db \<and> acks db' = acks db \<and> verdicts db' = verdicts db
     \<and> attempt_messages db' = attempt_messages db \<and> recipient_rates db' = recipient_rates db
     \<and> revision_lineage db' = revision_lineage db"
  using assms unfolding enqueue_in_def annotate_predecessors_in_def
  by (auto split: option.splits dest: annotate_each_frame)

section \<open>Properties\<close>


definition demo_backlog :: db where
  "demo_backlog = demo_registry\<lparr>events := [demo_event ''ev'' ''h1'' 1],
     deliveries := [demo_delivery ''ev'' QUEUED]\<rparr>"


text \<open>
  withdrawing a superseded delivery never rewrites one the recipient may already be acting on
  or one that is held: every row that is in flight, uncertain, dispatched, acknowledged, inbox-only
  or carrying a hold reason is left exactly as it is, and gets a note instead.
\<close>

theorem suppression_spares_outstanding:
  assumes "suppress_if_superseded clk ev db = Inr (db', Some reason)"
    and "d \<in> set (deliveries db)" and "d_state d \<notin> set CLAIMABLE \<or> d_hold_reason d \<noteq> None"
    and "distinct (map d_event (deliveries db))" and "d_event d = ev"
  shows "d \<in> set (deliveries db') \<and> ev \<in> ss_event ` set (supersessions db')"
proof -
  have db': "db' = withdraw clk ev reason db"
    using assms(1) by (auto simp: suppress_if_superseded_def split: option.splits)
  have keep: "\<not> withdrawable ev x" if "x \<in> set (deliveries db)" for x
  proof
    assume w: "withdrawable ev x"
    then have "x = d" using key_unique [OF assms(4) that assms(2)] assms(5) by (simp add: withdrawable_def)
    with w assms(3) show False by (auto simp: withdrawable_def)
  qed
  then have "rowcount (withdrawable ev) (deliveries db) = 0"
    by (simp add: rowcount_def filter_empty_conv)
  moreover have "update_where (withdrawable ev) f (deliveries db) = deliveries db" for f
    by (rule update_where_none) (rule keep)
  ultimately show ?thesis
    using assms(2) by (simp add: db' withdraw_def annotate_supersession_in_def annotate_row_keys)
qed

definition replaced_backlog :: "delivery_state \<Rightarrow> db" where
  "replaced_backlog state = two_revisions\<lparr>relationships := [demo_relationship],
     deliveries := [demo_delivery ''a'' state]\<rparr>"

theorem suppression_spares_outstanding_witness:
  "\<exists>db' reason. suppress_if_superseded demo_clock ''a'' (replaced_backlog HELD_UNCERTAIN) = Inr (db', Some reason)
     \<and> demo_delivery ''a'' HELD_UNCERTAIN \<in> set (deliveries db') \<and> ''a'' \<in> ss_event ` set (supersessions db')"
proof -
  have "(case suppress_if_superseded demo_clock ''a'' (replaced_backlog HELD_UNCERTAIN) of
      Inr (_, Some r) \<Rightarrow> True | _ \<Rightarrow> False)" by code_simp
  then obtain db' r where s: "suppress_if_superseded demo_clock ''a'' (replaced_backlog HELD_UNCERTAIN) = Inr (db', Some r)"
    by (auto split: sum.splits prod.splits option.splits)
  have "demo_delivery ''a'' HELD_UNCERTAIN \<in> set (deliveries db') \<and> ''a'' \<in> ss_event ` set (supersessions db')"
    by (rule suppression_spares_outstanding [OF s])
       (simp_all add: replaced_backlog_def demo_delivery_def CLAIMABLE_def)
  with s show ?thesis by blast
qed

end
