(* ===== verification/Settings.thy ===== *)
theory Settings
  imports Registry
begin

text \<open>
  The part of \<^verbatim>\<open>settings.py\<close> that decides whether recorded execution settings are usable at all, and
  the two functions of registry.py that record and load them. The parameters of a resume and the
  comparison with the host's answer belong to the bridge adapter and are not modelled here.
\<close>

definition REQUIRED :: "string list" where
  "REQUIRED = [''sandbox'', ''approvalPolicy'', ''cwd'', ''runtimeWorkspaceRoots'', ''model'',
     ''reasoningEffort'', ''environments'']"

definition RESUME_SANDBOX_MODE :: "string \<Rightarrow> string option" where
  "RESUME_SANDBOX_MODE kind =
     (if kind = ''workspaceWrite'' then Some ''workspace-write''
      else if kind = ''readOnly'' then Some ''read-only''
      else if kind = ''dangerFullAccess'' then Some ''danger-full-access'' else None)"

definition POLICY_DEFAULTS :: "string \<Rightarrow> (string \<times> json) list" where
  "POLICY_DEFAULTS kind =
     (if kind = ''workspaceWrite'' then [(''writableRoots'', JList []), (''networkAccess'', JBool False),
         (''excludeTmpdirEnvVar'', JBool False), (''excludeSlashTmp'', JBool False)]
      else if kind = ''readOnly'' then [(''networkAccess'', JBool False)]
      else if kind = ''externalSandbox'' then [(''networkAccess'', JStr ''restricted'')]
      else [])"

text \<open>
  The policy with its defaults filled in, the policy's own entries before the defaults so that a
  lookup finds them first; nothing when it cannot be read.
\<close>

definition normalise_policy :: "json \<Rightarrow> json option" where
  "normalise_policy policy = (case policy of
       JObj kvs \<Rightarrow>
         (case jget policy ''type'' of
            JStr kind \<Rightarrow>
              (let merged = (''type'', JStr kind) # filter (\<lambda>(k, v). k \<noteq> ''type'') kvs
                     @ filter (\<lambda>(k, v). k \<notin> fst ` set kvs) (POLICY_DEFAULTS kind)
               in case map_of merged ''writableRoots'' of
                    None \<Rightarrow> Some (JObj merged)
                  | Some (JList roots) \<Rightarrow> Some (JObj merged)
                  | Some _ \<Rightarrow> None)
          | _ \<Rightarrow> None)
     | _ \<Rightarrow> None)"

definition missing :: "json \<Rightarrow> string list" where
  "missing data = filter (\<lambda>field. jget data field = JNull) REQUIRED"

text \<open>
  \<^verbatim>\<open>.get\<close> on a value that is not a dictionary, and a dictionary lookup by an unhashable key, raise.
\<close>

definition sandbox_mode :: "json \<Rightarrow> err + string option" where
  "sandbox_mode data =
     (let policy = (if jtruthy (jget data ''sandbox'') then jget data ''sandbox'' else JObj [])
      in if \<not> is_obj policy then Inl AttributeError
         else case jget policy ''type'' of
             JStr kind \<Rightarrow> Inr (RESUME_SANDBOX_MODE kind)
           | JList _ \<Rightarrow> Inl TypeError
           | JObj _ \<Rightarrow> Inl TypeError
           | _ \<Rightarrow> Inr None)"

definition require_usable :: "json \<Rightarrow> err + unit" where
  "require_usable data =
     (if missing data \<noteq> [] then Inl (RelayError DeliveryRefused SETTINGS_INCOMPLETE)
      else bindE (sandbox_mode data) (\<lambda>mode.
        if mode = None then Inl (RelayError DeliveryRefused UNSUPPORTED_SANDBOX_TYPE)
        else if normalise_policy (jget data ''sandbox'') = None
        then Inl (RelayError DeliveryRefused UNSUPPORTED_SANDBOX_TYPE)
        else Inr ()))"

definition record_settings ::
  "clock \<Rightarrow> string \<Rightarrow> json \<Rightarrow> string \<Rightarrow> db \<Rightarrow> err + db" where
  "record_settings clk task_id data source db =
     bindE (require_usable data) (\<lambda>_.
       let row = \<lparr>st_task = task_id, st_settings = data, st_source = source,
                  st_recorded_at = clk_iso clk\<rparr>
       in Inr (journal_entry ''settings_recorded'' task_id (JObj [(''source'', JStr source)])
            (clk_iso clk) (db\<lparr>authorized_settings :=
              upsert st_task row (\<lambda>_. row) (authorized_settings db)\<rparr>)))"

definition load_settings :: "db \<Rightarrow> string \<Rightarrow> json option" where
  "load_settings db task_id =
     map_option st_settings (List.find (\<lambda>s. st_task s = task_id) (authorized_settings db))"

section \<open>Usable settings\<close>

lemma require_usable_complete:
  assumes "require_usable data = Inr u" "field \<in> set REQUIRED"
  shows "jget data field \<noteq> JNull"
proof
  assume "jget data field = JNull"
  with assms(2) have "field \<in> set (missing data)" by (simp add: missing_def)
  with assms(1) show False by (auto simp: require_usable_def split: if_splits)
qed

lemma find_upsert:
  assumes "\<And>x. k (m x) = k r"
  shows "List.find (\<lambda>x. k x = k r) (upsert k r m t) =
    (case List.find (\<lambda>x. k x = k r) t of None \<Rightarrow> Some r | Some x \<Rightarrow> Some (m x))"
proof (cases "List.find (\<lambda>x. k x = k r) t")
  case None
  then have "k r \<notin> set (map k t)" by (auto simp: find_None_iff_none)
  with None show ?thesis by (simp add: upsert_def find_snoc)
next
  case (Some x)
  then have "k r \<in> set (map k t)" using find_Some_iff_mem [OF Some] by (metis image_eqI list.set_map)
  moreover have "List.find (\<lambda>x. k x = k r) (update_where (\<lambda>x. k x = k r) m t)
      = map_option (\<lambda>x. if k x = k r then m x else x) (List.find (\<lambda>x. k x = k r) t)"
    by (rule find_update_where_hit) (simp add: assms)
  ultimately show ?thesis using Some by (auto simp: upsert_def dest: find_Some_iff_mem)
qed

text \<open>What was recorded is what is loaded, and only usable settings are ever recorded.\<close>

lemma load_recorded:
  assumes "record_settings clk task data source db = Inr db'"
  shows "load_settings db' task = Some data \<and> require_usable data = Inr ()"
proof -
  let ?row = "\<lparr>st_task = task, st_settings = data, st_source = source, st_recorded_at = clk_iso clk\<rparr>"
  have "authorized_settings db' = upsert st_task ?row (\<lambda>_. ?row) (authorized_settings db)"
    and "require_usable data = Inr ()"
    using assms by (auto simp: record_settings_def Let_def)
  moreover have "List.find (\<lambda>s. st_task s = task) (upsert st_task ?row (\<lambda>_. ?row) (authorized_settings db))
      = Some ?row"
    using find_upsert [of st_task "\<lambda>_. ?row" ?row "authorized_settings db"] by (simp split: option.splits)
  ultimately show ?thesis by (simp add: load_settings_def)
qed

end
