(* ===== verification/Restoration.thy ===== *)
theory Restoration
  imports Relay_Prelude
begin

text \<open>
  \<^verbatim>\<open>restoration.py\<close>: whether the restoration block a correction declares survives the rendering of
  the message that carries it. Findings are the JSON objects of the verdict; the prose of a result
  is not modelled.
\<close>

definition FIELD :: string where "FIELD = ''restoration''"

datatype restoration_outcome = CARRIED | TRUNCATED | BUDGET_DROPPED | NOT_CARRIED | UNMEASURED

definition UNDELIVERABLE :: "restoration_outcome list" where
  "UNDELIVERABLE = [TRUNCATED, BUDGET_DROPPED]"

definition LEGACY_BASIS :: string where "LEGACY_BASIS = ''relay-message/legacy''"
definition COMPOSED_BASIS :: string where "COMPOSED_BASIS = ''relay-report/1''"

record restoration_result =
  ro_outcome :: restoration_outcome
  ro_basis :: "string option"
  ro_criterion :: json

definition declares :: "json \<Rightarrow> bool" where
  "declares finding = jtruthy (jget finding FIELD)"

fun declared_from :: "nat \<Rightarrow> json list \<Rightarrow> (nat \<times> json) option" where
  "declared_from i [] = None"
| "declared_from i (finding # findings) =
     (if declares finding then Some (i, finding) else declared_from (Suc i) findings)"

definition declared_index :: "json list \<Rightarrow> (nat \<times> json) option" where
  "declared_index findings = declared_from 0 findings"

definition declared :: "json list \<Rightarrow> json option" where
  "declared findings = map_option snd (declared_index findings)"

definition not_carried :: "string option \<Rightarrow> restoration_result" where
  "not_carried basis = \<lparr>ro_outcome = NOT_CARRIED, ro_basis = basis, ro_criterion = JNull\<rparr>"

definition unmeasured :: restoration_result where
  "unmeasured = \<lparr>ro_outcome = UNMEASURED, ro_basis = None, ro_criterion = JNull\<rparr>"

definition project_cap :: "json list \<Rightarrow> nat \<Rightarrow> string option \<Rightarrow> restoration_result" where
  "project_cap findings cap basis = (case declared_index findings of
       None \<Rightarrow> not_carried basis
     | Some (index, block) \<Rightarrow>
         \<lparr>ro_outcome = (if index < cap then CARRIED else TRUNCATED), ro_basis = basis,
          ro_criterion = jget block ''id''\<rparr>)"

definition project_survivors ::
  "json list \<Rightarrow> json list \<Rightarrow> string option \<Rightarrow> restoration_outcome \<Rightarrow> restoration_result" where
  "project_survivors findings survivors basis cause = (case declared_index findings of
       None \<Rightarrow> not_carried basis
     | Some (index, block) \<Rightarrow>
         \<lparr>ro_outcome = (if jget block ''id'' \<in> set survivors then CARRIED else cause),
          ro_basis = basis, ro_criterion = jget block ''id''\<rparr>)"

section \<open>Where the block sits\<close>

lemma declared_from_Some:
  "declared_from i fs = Some (j, f) \<longleftrightarrow>
     i \<le> j \<and> j - i < length fs \<and> fs ! (j - i) = f \<and> declares f \<and> (\<forall>k<j - i. \<not> declares (fs ! k))"
proof (induction fs arbitrary: i)
  case (Cons x fs)
  show ?case
  proof (cases "declares x")
    case True
    then show ?thesis by (auto simp: nth_Cons' dest: spec [of _ 0])
  next
    case False
    have "(i \<le> j \<and> j - i < length (x # fs) \<and> (x # fs) ! (j - i) = f \<and> declares f
        \<and> (\<forall>k<j - i. \<not> declares ((x # fs) ! k)))
      \<longleftrightarrow> (Suc i \<le> j \<and> j - Suc i < length fs \<and> fs ! (j - Suc i) = f \<and> declares f
        \<and> (\<forall>k<j - Suc i. \<not> declares (fs ! k)))"
    proof (cases "Suc i \<le> j")
      case True
      then obtain m where "j = Suc i + m" by (metis le_Suc_ex)
      with False show ?thesis by (auto simp: All_less_Suc2 Suc_diff_le)
    next
      case False': False
      with False show ?thesis by (cases "j = i") auto
    qed
    with False Cons.IH show ?thesis by simp
  qed
qed simp

lemma declared_index_None: "declared_index fs = None \<longleftrightarrow> (\<forall>f\<in>set fs. \<not> declares f)"
proof -
  have "declared_from i fs = None \<longleftrightarrow> (\<forall>f\<in>set fs. \<not> declares f)" for i
    by (induction fs arbitrary: i) auto
  then show ?thesis by (simp add: declared_index_def)
qed

text \<open>
  What the projection says agrees with what a renderer of the first \<open>cap\<close> findings shows: the block
  is carried exactly when a declaring finding is among those shown.
\<close>

lemma project_cap_shown:
  "ro_outcome (project_cap fs cap basis) = CARRIED \<longleftrightarrow> (\<exists>f\<in>set (take cap fs). declares f)"
proof (cases "declared_index fs")
  case None
  then have "\<forall>f\<in>set fs. \<not> declares f" by (simp add: declared_index_None)
  with None show ?thesis
    by (auto simp: project_cap_def not_carried_def dest: in_set_takeD)
next
  case (Some p)
  obtain j f where p: "p = (j, f)" by (cases p)
  with Some have f: "j < length fs" "fs ! j = f" "declares f" "\<forall>k<j. \<not> declares (fs ! k)"
    using declared_from_Some [of 0 fs j f] by (simp_all add: declared_index_def)
  have "(\<exists>f\<in>set (take cap fs). declares f) \<longleftrightarrow> j < cap"
  proof
    assume "\<exists>f\<in>set (take cap fs). declares f"
    then obtain i where "i < min cap (length fs)" "declares (fs ! i)"
      by (auto simp: in_set_conv_nth)
    with f(4) show "j < cap" by (metis linorder_neqE_nat min_less_iff_conj order.strict_trans)
  next
    assume "j < cap"
    with f have "fs ! j \<in> set (take cap fs)" by (metis in_set_conv_nth length_take min_less_iff_conj nth_take)
    with f show "\<exists>f\<in>set (take cap fs). declares f" by metis
  qed
  with Some p show ?thesis by (simp add: project_cap_def)
qed

lemma project_cap_undeliverable:
  "ro_outcome (project_cap fs cap basis) \<in> set UNDELIVERABLE \<longleftrightarrow>
     (\<exists>f\<in>set fs. declares f) \<and> \<not> (\<exists>f\<in>set (take cap fs). declares f)"
proof -
  have "ro_outcome (project_cap fs cap basis) \<in> {CARRIED, TRUNCATED, NOT_CARRIED}"
    by (auto simp: project_cap_def not_carried_def split: option.splits)
  moreover have "ro_outcome (project_cap fs cap basis) = NOT_CARRIED \<longleftrightarrow> \<not> (\<exists>f\<in>set fs. declares f)"
    by (auto simp: project_cap_def not_carried_def declared_index_None [symmetric] split: option.splits)
  moreover have "(\<exists>f\<in>set (take cap fs). declares f) \<Longrightarrow> (\<exists>f\<in>set fs. declares f)"
    by (blast dest: in_set_takeD)
  ultimately show ?thesis
    unfolding project_cap_shown [of fs cap basis, symmetric] UNDELIVERABLE_def by auto
qed

end
