(* ===== verification/Lifecycle.thy ===== *)
theory Lifecycle
  imports Store
begin

text \<open>
  \<^verbatim>\<open>hostadapter.py\<close> and \<^verbatim>\<open>lifecycle.py\<close>. The host is the App Server, which is not part of the
  program: it is the parameter \<open>host\<close>, a record of the reads and the one send the adapter
  protocol names, each answering or raising. A read that raises carries the text the code puts in
  its records, \<^verbatim>\<open>f"{type(error).__name__}: {error}"\<close>. \<open>observe\<close> decides from the three lifecycle
  reads whether a task can receive a message now.
\<close>

section \<open>The host adapter\<close>

record ThreadFacts =
  runtime_status :: "string option"
  can_accept_input :: "bool option"

record TurnInfo =
  ti_turn_id :: string
  ti_status :: string
  ti_started_at :: "rat option"

record TokenScan =
  ts_found :: bool
  ts_turn_id :: "string option"
  ts_exhausted :: bool
  ts_scanned :: nat

record host =
  read_thread :: "string \<Rightarrow> string + ThreadFacts"
  is_archived :: "string \<Rightarrow> string option \<Rightarrow> string + bool option"
  read_goal_status :: "string \<Rightarrow> string + string option"
  list_turn_ids :: "string \<Rightarrow> nat \<Rightarrow> string + string list"
  read_turn :: "string \<Rightarrow> string \<Rightarrow> string + TurnInfo option"
  send_message :: "string \<Rightarrow> string \<Rightarrow> string \<Rightarrow> json \<Rightarrow> string + json"
  get_operation :: "string \<Rightarrow> string + json option"
  find_token :: "string \<Rightarrow> string \<Rightarrow> nat \<Rightarrow> string + TokenScan"

section \<open>Lifecycle\<close>

definition BLOCKING_GOAL_STATUS :: "string \<Rightarrow> string option" where
  "BLOCKING_GOAL_STATUS goal =
     (if goal = ''paused'' then Some ''recipient_paused''
      else if goal = ''usageLimited'' then Some ''recipient_usage_limited''
      else if goal = ''budgetLimited'' then Some ''recipient_budget_limited''
      else None)"

record Lifecycle =
  lf_task_id :: string
  lf_runtime_status :: "string option"
  lf_archived :: "bool option"
  lf_goal_status :: "string option"
  lf_can_accept_input :: "bool option"
  lf_deliverable :: string
  lf_withhold_reason :: "string option"

definition may_send :: "Lifecycle \<Rightarrow> bool" where
  "may_send l = (lf_deliverable l = ''yes'')"

definition is_busy :: "Lifecycle \<Rightarrow> bool" where
  "is_busy l = (lf_deliverable l = ''busy'')"

text \<open>
  Each read that raises leaves its fields null and adds a problem. The prose of the problems is
  not kept, only that there was one.
\<close>

definition observe :: "host \<Rightarrow> string \<Rightarrow> string option \<Rightarrow> bool \<Rightarrow> Lifecycle" where
  "observe adapter task_id cwd require_evidence =
     (let facts = read_thread adapter task_id;
          archive = is_archived adapter task_id cwd;
          goals = read_goal_status adapter task_id;
          runtime = (case facts of Inl _ \<Rightarrow> None | Inr f \<Rightarrow> runtime_status f);
          accepts = (case facts of Inl _ \<Rightarrow> None | Inr f \<Rightarrow> can_accept_input f);
          archived = (case archive of Inl _ \<Rightarrow> None | Inr b \<Rightarrow> b);
          goal = (case goals of Inl _ \<Rightarrow> None | Inr g \<Rightarrow> g);
          problems = (\<not> is_ok facts \<or> \<not> is_ok archive \<or> \<not> is_ok goals);
          blocking = (case goal of None \<Rightarrow> None | Some g \<Rightarrow> BLOCKING_GOAL_STATUS g);
          decide = (\<lambda>state reason. \<lparr>lf_task_id = task_id, lf_runtime_status = runtime,
            lf_archived = archived, lf_goal_status = goal, lf_can_accept_input = accepts,
            lf_deliverable = state, lf_withhold_reason = reason\<rparr>)
      in if archived = Some True then decide ''no'' (Some ''recipient_archived'')
         else if blocking \<noteq> None then decide ''no'' blocking
         else if accepts = Some False then decide ''no'' (Some ''recipient_cannot_accept_input'')
         else if runtime = Some ''systemError'' then decide ''no'' (Some ''recipient_system_error'')
         else if runtime = Some ''active'' then decide ''busy'' (Some ''recipient_busy'')
         else if problems \<and> require_evidence then decide ''unknown'' (Some ''lifecycle_unknown'')
         else if archived = None \<and> require_evidence
           then decide ''unknown'' (Some ''lifecycle_unknown'')
         else if runtime \<in> {Some ''idle'', Some ''notLoaded''} then decide ''yes'' None
         else if runtime = None \<and> \<not> require_evidence then decide ''yes'' None
         else decide ''unknown'' (Some ''lifecycle_unknown''))"

text \<open>\<^verbatim>\<open>lifecycle.record\<close>: the last observation of a task replaces the one before.\<close>

definition lifecycle_row :: "string \<Rightarrow> Lifecycle \<Rightarrow> lifecycle_row" where
  "lifecycle_row stamp observation = \<lparr>lc_task = lf_task_id observation,
     lc_runtime_status = lf_runtime_status observation, lc_archived = lf_archived observation,
     lc_goal_status = lf_goal_status observation,
     lc_can_accept_input = lf_can_accept_input observation,
     lc_deliverable = lf_deliverable observation,
     lc_withhold_reason = lf_withhold_reason observation, lc_observed_at = stamp\<rparr>"

definition record_lifecycle :: "clock \<Rightarrow> Lifecycle \<Rightarrow> db \<Rightarrow> db" where
  "record_lifecycle clk observation db =
     (let row = lifecycle_row (clk_iso clk) observation
      in db\<lparr>recipient_lifecycles :=
           upsert lc_task row (\<lambda>_. row) (recipient_lifecycles db)\<rparr>)"

definition hold_reason_for :: "Lifecycle \<Rightarrow> string option" where
  "hold_reason_for observation =
     (if lf_deliverable observation = ''no'' then Some RECIPIENT_UNDELIVERABLE else None)"

section \<open>What an observation establishes\<close>

lemma observe_deliverable:
  "lf_deliverable (observe h t c ev) \<in> {''yes'', ''no'', ''busy'', ''unknown''}"
  unfolding observe_def Let_def by simp

lemma observe_reason:
  "lf_withhold_reason (observe h t c ev) = None \<longleftrightarrow> may_send (observe h t c ev)"
  unfolding observe_def Let_def may_send_def by simp

text \<open>A task the observation lets through was seen unarchived, idle and able to take input.\<close>

lemma observe_may_send:
  assumes "may_send (observe h t c True)"
  shows "\<exists>f. read_thread h t = Inr f \<and> runtime_status f \<in> {Some ''idle'', Some ''notLoaded''}
      \<and> can_accept_input f \<noteq> Some False"
    and "is_archived h t c = Inr (Some False)"
    and "\<exists>g. read_goal_status h t = Inr g
      \<and> g \<notin> {Some ''paused'', Some ''usageLimited'', Some ''budgetLimited''}"
proof -
  have "is_ok (read_thread h t) \<and> is_ok (is_archived h t c) \<and> is_ok (read_goal_status h t)"
    using assms unfolding observe_def Let_def may_send_def by (simp split: if_splits)
  then obtain f b g where r: "read_thread h t = Inr f" "is_archived h t c = Inr b"
    "read_goal_status h t = Inr g"
    by (auto simp: is_ok_def split: sum.splits)
  then show "\<exists>f. read_thread h t = Inr f \<and> runtime_status f \<in> {Some ''idle'', Some ''notLoaded''}
      \<and> can_accept_input f \<noteq> Some False"
    and "is_archived h t c = Inr (Some False)"
    and "\<exists>g. read_goal_status h t = Inr g
      \<and> g \<notin> {Some ''paused'', Some ''usageLimited'', Some ''budgetLimited''}"
    using assms unfolding observe_def Let_def may_send_def
    by (cases b; force simp: BLOCKING_GOAL_STATUS_def split: if_splits)+
qed

lemma record_lifecycle_frame [simp]:
  "deliveries (record_lifecycle clk ob db) = deliveries db"
  "attempts (record_lifecycle clk ob db) = attempts db"
  "events (record_lifecycle clk ob db) = events db"
  "relationships (record_lifecycle clk ob db) = relationships db"
  "generations (record_lifecycle clk ob db) = generations db"
  "attempt_messages (record_lifecycle clk ob db) = attempt_messages db"
  "recipient_rates (record_lifecycle clk ob db) = recipient_rates db"
  "acks (record_lifecycle clk ob db) = acks db"
  "verdicts (record_lifecycle clk ob db) = verdicts db"
  "authorized_settings (record_lifecycle clk ob db) = authorized_settings db"
  "supersessions (record_lifecycle clk ob db) = supersessions db"
  "revision_lineage (record_lifecycle clk ob db) = revision_lineage db"
  "work_reports (record_lifecycle clk ob db) = work_reports db"
  by (simp_all add: record_lifecycle_def Let_def)

section \<open>Properties\<close>

text \<open>
  with evidence required, a task is reported deliverable only when all three host reads
  answered and said it is idle, able to take input, not archived, and not paused or limited; an
  unreadable host, an unknown archive state or a running turn never counts as deliverable.
\<close>

theorem deliverable_needs_positive_evidence:
  assumes "may_send (observe h t cwd True)"
  shows "\<exists>f g. read_thread h t = Inr f \<and> runtime_status f \<in> {Some ''idle'', Some ''notLoaded''}
      \<and> can_accept_input f \<noteq> Some False \<and> is_archived h t cwd = Inr (Some False)
      \<and> read_goal_status h t = Inr g
      \<and> g \<notin> {Some ''paused'', Some ''usageLimited'', Some ''budgetLimited''}"
  using observe_may_send [OF assms] by blast

definition idle_host :: host where
  "idle_host = \<lparr>read_thread = \<lambda>_. Inr \<lparr>runtime_status = Some ''idle'', can_accept_input = Some True\<rparr>,
     is_archived = \<lambda>_ _. Inr (Some False), read_goal_status = \<lambda>_. Inr None,
     list_turn_ids = \<lambda>_ _. Inr [], read_turn = \<lambda>_ _. Inr None,
     send_message = \<lambda>_ _ _ _. Inr (JObj [(''status'', JStr ''accepted''), (''turnId'', JStr ''turn-9'')]),
     get_operation = \<lambda>_. Inr None,
     find_token = \<lambda>_ _ _. Inr \<lparr>ts_found = False, ts_turn_id = None, ts_exhausted = True, ts_scanned = 0\<rparr>\<rparr>"

theorem deliverable_needs_positive_evidence_witness:
  "may_send (observe idle_host ''task'' None True)
   \<and> is_archived idle_host ''task'' None = Inr (Some False)"
proof -
  have sendable: "may_send (observe idle_host ''task'' None True)"
    by (simp add: observe_def idle_host_def may_send_def)
  from deliverable_needs_positive_evidence [OF this] sendable show ?thesis by blast
qed

end
