(* ===== verification/Delivery_Attempt.thy ===== *)
theory Delivery_Attempt
  imports Delivery_Queue Settings Restoration Lifecycle
begin

text \<open>
  \<^verbatim>\<open>delivery.py\<close>, the claim and everything after it: \<open>claim\<close> allocates an attempt and freezes its
  bytes in one transaction, \<open>attempt\<close> is the one path to a transport call, \<open>settle\<close> records what came
  of it. The text of a message is composed by report.py and by the templates of delivery.py; here a
  \<open>renderer\<close> is a parameter that may fail, which rolls the claim back, and only what the relay itself
  decides from the message (the restoration accounting) is modelled. A JSON error code the driver could not bind as a column is
  stored as it is.
\<close>

section \<open>Parameters and small functions\<close>

record renderer =
  render_completion :: "delivery_row \<Rightarrow> json \<Rightarrow> string \<Rightarrow> work_report_row option \<Rightarrow> err + string"
  render_revision :: "delivery_row \<Rightarrow> json \<Rightarrow> string \<Rightarrow> err + string"
  compose_revision :: "delivery_row \<Rightarrow> json \<Rightarrow> string \<Rightarrow> work_report_row \<Rightarrow> err + string \<times> json list"

record config =
  cf_policy :: RetryPolicy
  cf_require_evidence :: bool
  cf_renderer :: renderer

definition MANIFEST_LINES :: nat where "MANIFEST_LINES = 10"

definition operation_str :: "operation \<Rightarrow> string" where
  "operation_str op = (case op of Op_initialize \<Rightarrow> ''initialize'' | Op_thread_read \<Rightarrow> ''thread/read''
     | Op_thread_resume \<Rightarrow> ''thread/resume'' | Op_turn_start \<Rightarrow> ''turn/start''
     | Op_transport \<Rightarrow> ''transport'' | Op_unclassified \<Rightarrow> ''unclassified'')"

definition read_work_report :: "db \<Rightarrow> string \<Rightarrow> work_report_row option" where
  "read_work_report db ev =
     (case sort_key w_submission_no (filter (\<lambda>w. w_event w = ev) (work_reports db)) of
        [] \<Rightarrow> None | ws \<Rightarrow> Some (last ws))"

definition findings_of :: "json \<Rightarrow> json list" where
  "findings_of receipt = (case jget receipt ''criteria'' of JList fs \<Rightarrow> fs | _ \<Rightarrow> [])"

definition render_and_account ::
  "renderer \<Rightarrow> delivery_row \<Rightarrow> json \<Rightarrow> string \<Rightarrow> work_report_row option
     \<Rightarrow> err + string \<times> restoration_result option" where
  "render_and_account rn row receipt request report =
     (if d_kind row \<noteq> REVISION
      then bindE (render_completion rn row receipt request report) (\<lambda>text. Inr (text, None))
      else let findings = findings_of receipt; block = declared findings
      in case report of
           Some rep \<Rightarrow> bindE (compose_revision rn row receipt request rep) (\<lambda>(text, survivors).
             Inr (text, if block \<noteq> None
                       then Some (project_survivors findings survivors (Some COMPOSED_BASIS) BUDGET_DROPPED)
                       else None))
         | None \<Rightarrow> bindE (render_revision rn row receipt request) (\<lambda>text.
             Inr (text, if block \<noteq> None
                       then Some (project_cap findings MANIFEST_LINES (Some LEGACY_BASIS))
                       else None)))"

section \<open>The send rate\<close>

definition window_of :: "rat \<Rightarrow> int" where
  "window_of now = \<lfloor>now / 3600\<rfloor> * 3600"

definition rate_key :: "rate_row \<Rightarrow> string \<times> int" where
  "rate_key rt = (rt_recipient rt, rt_window_start rt)"

definition rate_of :: "db \<Rightarrow> string \<Rightarrow> rat \<Rightarrow> rate_row option" where
  "rate_of db recipient now =
     List.find (\<lambda>rt. rate_key rt = (recipient, window_of now)) (recipient_rates db)"

definition rate_limited :: "RetryPolicy \<Rightarrow> db \<Rightarrow> string \<Rightarrow> rat \<Rightarrow> bool" where
  "rate_limited p db recipient now =
     (case rate_of db recipient now of
        None \<Rightarrow> False
      | Some rt \<Rightarrow> max_sends_per_recipient_per_hour p \<le> rt_sends rt
          \<or> (case rt_last_send_at rt of None \<Rightarrow> False
             | Some last_send \<Rightarrow> now - last_send < min_send_interval_seconds p))"

definition count_send :: "string \<Rightarrow> rat \<Rightarrow> db \<Rightarrow> db" where
  "count_send recipient now db = db\<lparr>recipient_rates := upsert rate_key
     \<lparr>rt_recipient = recipient, rt_window_start = window_of now, rt_sends = 1,
      rt_last_send_at = Some now\<rparr>
     (\<lambda>rt. rt\<lparr>rt_sends := rt_sends rt + 1, rt_last_send_at := Some now\<rparr>) (recipient_rates db)\<rparr>"

section \<open>The claim\<close>

datatype claim_stop = NotClaimable | LateSupersession string | SupersededNow string | ClaimFailed err

text \<open>The predicate of the claiming statement.\<close>

definition claim_guard :: "db \<Rightarrow> rat \<Rightarrow> string \<Rightarrow> delivery_row \<Rightarrow> bool" where
  "claim_guard db now ev d =
     (d_event d = ev \<and> d_state d \<in> set CLAIMABLE \<and> d_hold_reason d = None \<and> due now d
      \<and> list_ex (\<lambda>r. r_id r = d_rel d \<and> r_status r = ACTIVE \<and> r_superseded_by r = None)
          (relationships db)
      \<and> list_ex (\<lambda>e. e_id e = d_event d \<and> e_stage e = FINAL) (events db)
      \<and> \<not> list_ex (\<lambda>e. e_id e = d_event d \<and> list_ex (\<lambda>r. r_id r = e_rel e \<and> e_gen e < r_generation r)
             (relationships db)) (events db))"

definition insert_attempt :: "attempt_row \<Rightarrow> attempt_row list \<Rightarrow> err + attempt_row list" where
  "insert_attempt a t =
     (if list_ex (\<lambda>x. a_request x = a_request a \<or> (a_event x = a_event a \<and> a_no x = a_no a)) t
      then Inl IntegrityError else Inr (t @ [a]))"

definition insert_message :: "message_row \<Rightarrow> message_row list \<Rightarrow> err + message_row list" where
  "insert_message m t =
     (if list_ex (\<lambda>x. m_request x = m_request m
            \<or> (m_event x = m_event m \<and> m_attempt_no x = m_attempt_no m)) t
      then Inl IntegrityError else Inr (t @ [m]))"

definition restoration_json :: "restoration_result \<Rightarrow> int \<Rightarrow> json" where
  "restoration_json r attempt = JObj [(''outcome'', JStr (case ro_outcome r of CARRIED \<Rightarrow> ''carried''
       | TRUNCATED \<Rightarrow> ''truncated'' | BUDGET_DROPPED \<Rightarrow> ''budget_dropped''
       | NOT_CARRIED \<Rightarrow> ''not_carried'' | UNMEASURED \<Rightarrow> ''unmeasured'')),
     (''basis'', jopt (ro_basis r)), (''criterion'', ro_criterion r), (''attempt'', JInt attempt)]"

text \<open>What the claiming statement writes in the one row it matches.\<close>

definition claimed_row :: "config \<Rightarrow> clock \<Rightarrow> rat \<Rightarrow> string \<Rightarrow> delivery_row \<Rightarrow> delivery_row" where
  "claimed_row cf clk now owner d = d\<lparr>d_state := SENDING, d_lease_owner := Some owner,
     d_lease_until := Some (now + lease_seconds (cf_policy cf)),
     d_attempt_count := d_attempt_count d + 1, d_updated_at := clk_iso clk\<rparr>"

definition claimed_db :: "config \<Rightarrow> clock \<Rightarrow> string \<Rightarrow> rat \<Rightarrow> string \<Rightarrow> db \<Rightarrow> db" where
  "claimed_db cf clk ev now owner db = db\<lparr>deliveries :=
     update_where (claim_guard db now ev) (claimed_row cf clk now owner) (deliveries db)\<rparr>"

definition frozen_attempt :: "clock \<Rightarrow> delivery_row \<Rightarrow> string \<Rightarrow> attempt_row" where
  "frozen_attempt clk row request =
     \<lparr>a_request = request, a_event = d_event row, a_no = d_attempt_count row, a_kind = d_kind row,
      a_internal_state = IN_FLIGHT, a_state = Some HELD_UNCERTAIN, a_record = None,
      a_operation_observation = None, a_recipient_scan = None, a_affirmative_evidence = None,
      a_reconciled_at = None, a_sent_at = Some (clk_iso clk), a_observed_at = clk_iso clk\<rparr>"

definition frozen_message :: "clock \<Rightarrow> delivery_row \<Rightarrow> string \<Rightarrow> string \<Rightarrow> message_row" where
  "frozen_message clk row request message =
     \<lparr>m_request = request, m_event = d_event row, m_attempt_no = d_attempt_count row,
      m_kind = d_kind row, m_message = message, m_rendered_at = clk_iso clk\<rparr>"

definition account ::
  "clock \<Rightarrow> delivery_row \<Rightarrow> string \<Rightarrow> restoration_result option \<Rightarrow> work_report_row option \<Rightarrow> db \<Rightarrow> db"
where
  "account clk row request carried report db =
     (let db1 = (case carried of None \<Rightarrow> db
            | Some r \<Rightarrow> journal_entry ''restoration_attempted'' (d_event row)
                (restoration_json r (d_attempt_count row)) (clk_iso clk) db)
      in case report of None \<Rightarrow> db1
         | Some rep \<Rightarrow> db1\<lparr>report_submissions :=
             delete_where (\<lambda>x. rs_request x = request) (report_submissions db1)
             @ [\<lparr>rs_request = request, rs_event = d_event row,
                 rs_submission_no = w_submission_no rep, rs_frozen_at = clk_iso clk\<rparr>]\<rparr>)"

definition freeze_attempt ::
  "config \<Rightarrow> clock \<Rightarrow> delivery_row \<Rightarrow> string \<Rightarrow> db \<Rightarrow> err + db \<times> string" where
  "freeze_attempt cf clk row request db =
     (let receipt = (case event_of db (d_event row) of None \<Rightarrow> JObj [] | Some e \<Rightarrow> e_receipt e);
          report = read_work_report db (d_event row)
      in bindE (render_and_account (cf_renderer cf) row receipt request report) (\<lambda>(message, carried).
         bindE (insert_attempt (frozen_attempt clk row request) (attempts db)) (\<lambda>ats.
         bindE (insert_message (frozen_message clk row request message) (attempt_messages db)) (\<lambda>msgs.
           Inr (account clk row request carried report
                  (db\<lparr>attempts := ats, attempt_messages := msgs\<rparr>), message)))))"

definition claim_in ::
  "config \<Rightarrow> clock \<Rightarrow> string \<Rightarrow> rat \<Rightarrow> string \<Rightarrow> string \<Rightarrow> db
     \<Rightarrow> claim_stop + db \<times> (int \<times> string \<times> string)" where
  "claim_in cf clk ev now owner recipient db =
     (case supersession_reason db ev of
        Inl e \<Rightarrow> Inl (ClaimFailed e)
      | Inr (Some late) \<Rightarrow> Inl (LateSupersession late)
      | Inr None \<Rightarrow>
          if rowcount (claim_guard db now ev) (deliveries db) \<noteq> 1 then Inl NotClaimable
          else let db1 = claimed_db cf clk ev now owner db
          in case delivery_of db1 ev of
               None \<Rightarrow> Inl (ClaimFailed TypeError)
             | Some row \<Rightarrow>
                 (case request_id ev (d_attempt_count row) of
                    Inl e \<Rightarrow> Inl (ClaimFailed e)
                  | Inr request \<Rightarrow>
                      if (case attempt_of db1 request of None \<Rightarrow> False
                          | Some clash \<Rightarrow> a_event clash \<noteq> ev)
                      then Inl (ClaimFailed not_claimable_error)
                      else case freeze_attempt cf clk row request db1 of
                          Inl e \<Rightarrow> Inl (ClaimFailed e)
                        | Inr (db2, message) \<Rightarrow>
                            let db3 = count_send recipient now db2
                            in if (case rate_of db3 recipient now of None \<Rightarrow> False
                                   | Some used \<Rightarrow> max_sends_per_recipient_per_hour (cf_policy cf)
                                        < rt_sends used)
                               then Inl NotClaimable
                               else Inr (db3, d_attempt_count row, request, message)))"

definition claim ::
  "config \<Rightarrow> clock \<Rightarrow> string \<Rightarrow> rat \<Rightarrow> string \<Rightarrow> string \<Rightarrow> db
     \<Rightarrow> db \<times> (claim_stop + int \<times> string \<times> string)" where
  "claim cf clk ev now owner recipient db =
     (case suppress_if_superseded clk ev db of
        Inl e \<Rightarrow> (db, Inl (ClaimFailed e))
      | Inr (db1, Some reason) \<Rightarrow> (db1, Inl (SupersededNow reason))
      | Inr (db1, None) \<Rightarrow>
          (case claim_in cf clk ev now owner recipient db1 of
             Inl stop \<Rightarrow> (db1, Inl stop)
           | Inr (db2, claimed) \<Rightarrow> (db2, Inr claimed)))"

section \<open>Recording what happened instead of a send\<close>

definition failure_key :: "failure_row \<Rightarrow> string \<times> string" where
  "failure_key f = (f_scope f, f_operation f)"

definition record_failure ::
  "clock \<Rightarrow> string \<Rightarrow> string \<Rightarrow> string option \<Rightarrow> string option \<Rightarrow> json \<Rightarrow> bool option
     \<Rightarrow> rat option \<Rightarrow> db \<Rightarrow> db" where
  "record_failure clk scope op rid parent code safe next_retry db =
     db\<lparr>failed_operations := upsert failure_key
       \<lparr>f_scope = scope, f_operation = op, f_rel = rid, f_parent = parent, f_error_code = code,
        f_retry_safe = safe, f_occurred_at = clk_iso clk, f_next_retry_at = next_retry\<rparr>
       (\<lambda>f. f\<lparr>f_error_code := code, f_retry_safe := safe, f_occurred_at := clk_iso clk,
            f_next_retry_at := next_retry\<rparr>) (failed_operations db)\<rparr>"

text \<open>The guard shared by every write made from a reading taken outside the transaction.\<close>

definition unmoved :: "string \<Rightarrow> int \<Rightarrow> delivery_row \<Rightarrow> bool" where
  "unmoved ev tries d = (d_event d = ev \<and> d_state d \<in> set CLAIMABLE \<and> d_attempt_count d = tries)"

definition postpone ::
  "clock \<Rightarrow> string \<Rightarrow> delivery_state \<Rightarrow> rat \<Rightarrow> int \<Rightarrow> db \<Rightarrow> db" where
  "postpone clk ev state when tries db = db\<lparr>deliveries := update_where (unmoved ev tries)
     (\<lambda>d. d\<lparr>d_state := state, d_next_eligible_at := Some when, d_updated_at := clk_iso clk\<rparr>)
     (deliveries db)\<rparr>"

definition reschedule :: "clock \<Rightarrow> string \<Rightarrow> delivery_state \<Rightarrow> rat \<Rightarrow> int \<Rightarrow> db \<Rightarrow> db" where
  "reschedule clk ev state when tries db = postpone clk ev state when tries db"

definition defer_busy :: "RetryPolicy \<Rightarrow> clock \<Rightarrow> string \<Rightarrow> delivery_row \<Rightarrow> rat \<Rightarrow> db \<Rightarrow> db" where
  "defer_busy p clk ev row now db =
     (let tries = d_attempt_count row;
          hold = (if busy_max_attempts p \<le> tries then Some (cap_reason ''busy'') else None);
          when = now + delay_for p (tries + 1) ''busy'';
          db1 = record_failure clk ev ''parent_busy'' (Some (d_rel row)) None JNull None (Some when) db;
          db2 = db1\<lparr>deliveries := update_where (unmoved ev tries)
            (\<lambda>d. d\<lparr>d_state := DEFERRED_BUSY, d_next_eligible_at := Some when, d_hold_reason := hold,
                 d_updated_at := clk_iso clk\<rparr>) (deliveries db1)\<rparr>
      in if d_state row \<noteq> DEFERRED_BUSY
         then journal_entry ''delivery_deferred_busy'' ev JNull (clk_iso clk) db2 else db2)"

definition withhold :: "RetryPolicy \<Rightarrow> clock \<Rightarrow> string \<Rightarrow> Lifecycle \<Rightarrow> rat \<Rightarrow> int \<Rightarrow> db \<Rightarrow> db" where
  "withhold p clk ev observation now tries db =
     (let when = now + lifecycle_recheck_seconds p;
          db1 = record_failure clk ev ''lifecycle_read'' None None
                  (jopt (lf_withhold_reason observation)) None (Some when) db
      in journal_entry ''delivery_withheld'' ev
           (JObj [(''reason'', jopt (lf_withhold_reason observation))]) (clk_iso clk)
           (postpone clk ev WITHHELD_PRE_SEND when tries db1))"

definition withhold_settings ::
  "RetryPolicy \<Rightarrow> clock \<Rightarrow> string \<Rightarrow> rat \<Rightarrow> string \<Rightarrow> delivery_row \<Rightarrow> db \<Rightarrow> db" where
  "withhold_settings p clk ev now reason row db =
     (let when = now + lifecycle_recheck_seconds p
      in record_failure clk ev ''settings_check'' (Some (d_rel row)) None (JStr reason) (Some True)
           (Some when)
           (journal_entry ''delivery_withheld'' ev (JObj [(''reason'', JStr reason)]) (clk_iso clk)
             (postpone clk ev WITHHELD_PRE_SEND when (d_attempt_count row) db)))"

definition settings_for :: "db \<Rightarrow> string \<Rightarrow> err + json" where
  "settings_for db task_id = (case load_settings db task_id of
       None \<Rightarrow> Inl (RelayError DeliveryRefused SETTINGS_UNAVAILABLE)
     | Some settings \<Rightarrow> bindE (require_usable settings) (\<lambda>_. Inr settings))"

definition settings_reason :: "RefusalReason \<Rightarrow> string" where
  "settings_reason r = (case r of SETTINGS_UNAVAILABLE \<Rightarrow> ''settings_unavailable''
     | SETTINGS_INCOMPLETE \<Rightarrow> ''settings_incomplete''
     | UNSUPPORTED_SANDBOX_TYPE \<Rightarrow> ''unsupported_sandbox_type'' | _ \<Rightarrow> ''settings_unavailable'')"

section \<open>Settling\<close>

definition settle_hold :: "RetryPolicy \<Rightarrow> AttemptRecord \<Rightarrow> delivery_state \<Rightarrow> string option" where
  "settle_hold p record state =
     (if state = DEFERRED_BUSY then
        (if busy_max_attempts p \<le> attemptNo record then Some (cap_reason ''busy'') else None)
      else if state = WITHHELD_PRE_SEND then
        (if max_attempts p \<le> attemptNo record then Some (cap_reason ''presend'') else None)
      else if state = INBOX_ONLY then Some PUSH_CHANNEL_CLOSED else None)"

definition settle_when :: "RetryPolicy \<Rightarrow> AttemptRecord \<Rightarrow> delivery_state \<Rightarrow> rat \<Rightarrow> rat option" where
  "settle_when p record state now =
     (if state = DEFERRED_BUSY then Some (now + delay_for p (attemptNo record + 1) ''busy'')
      else if state = WITHHELD_PRE_SEND
      then Some (now + delay_for p (attemptNo record + 1) ''presend'') else None)"

definition settle ::
  "RetryPolicy \<Rightarrow> clock \<Rightarrow> string \<Rightarrow> string \<Rightarrow> AttemptRecord \<Rightarrow> TransportFacts \<Rightarrow> bool \<Rightarrow> rat \<Rightarrow> db
     \<Rightarrow> err + db" where
  "settle p clk ev request record facts previously_observed now db =
     (if \<not> assert_attempt_invariants record then Inl AssertionError
      else let state = delivery_state facts
      in Inr (journal_entry ''delivery_attempted'' ev
           (JObj [(''requestId'', JStr request), (''state'', JStr (delivery_state_str state)),
              (''retrySafe'', JBool (retrySafe record)),
              (''turnPreviouslyObserved'', JBool previously_observed),
              (''hold'', jopt (settle_hold p record state))]) (clk_iso clk)
           (db\<lparr>attempts := update_where (\<lambda>a. a_request a = request)
                 (\<lambda>a. a\<lparr>a_internal_state := SETTLED, a_state := Some state,
                      a_record := Some record, a_observed_at := observedAt record\<rparr>) (attempts db),
               deliveries := update_where (\<lambda>d. d_event d = ev)
                 (\<lambda>d. d\<lparr>d_state := state, d_next_eligible_at := settle_when p record state now,
                      d_hold_reason := settle_hold p record state,
                      d_dispatch_evidence := (if state = DISPATCHED
                        then Some ''transport_accepted'' else None),
                      d_dispatch_turn := turn_id facts, d_lease_owner := None,
                      d_lease_until := None, d_updated_at := clk_iso clk\<rparr>) (deliveries db)\<rparr>)))"

section \<open>The attempt\<close>

datatype attempt_outcome = No_attempt | Was_superseded string | Attempted AttemptRecord bool

text \<open>The calls of the transport an attempt made: request id, thread and message.\<close>

type_synonym sent = "string \<times> string \<times> string"

definition status_for_record :: "Lifecycle \<Rightarrow> string" where
  "status_for_record observation =
     (if lf_deliverable observation = ''busy'' then ''active''
      else case lf_runtime_status observation of
          Some s \<Rightarrow> if s \<in> {''idle'', ''active'', ''notLoaded'', ''systemError''} then s else ''unknown''
        | None \<Rightarrow> ''unknown'')"

definition worth_recording :: "TransportFacts \<Rightarrow> bool" where
  "worth_recording facts = (failed_operation facts \<noteq> None
     \<or> delivery_state facts \<in> {WITHHELD_PRE_SEND, INBOX_ONLY, HELD_UNCERTAIN})"

text \<open>After the claim: send, classify, record the failure if there is one, settle.\<close>

definition send_and_settle ::
  "config \<Rightarrow> host \<Rightarrow> clock \<Rightarrow> rat \<Rightarrow> delivery_row \<Rightarrow> relationship_record \<Rightarrow> Lifecycle \<Rightarrow> json
     \<Rightarrow> string list \<Rightarrow> int \<times> string \<times> string \<Rightarrow> db \<Rightarrow> db \<times> sent list \<times> (err + attempt_outcome)"
where
  "send_and_settle cf adapter clk now row relationship observation settings known_turns claimed db =
     (case claimed of (attempt_no, request, message) \<Rightarrow>
       let thread = d_recipient_thread row; ev = d_event row; sent = [(request, thread, message)];
           receipt = (case send_message adapter request thread message settings of
               Inr r \<Rightarrow> r
             | Inl error \<Rightarrow> JObj [(''requestId'', JStr request), (''status'', JStr ''outcome_unknown''),
                 (''error'', JStr error)])
       in case classify_operation_receipt receipt of
            Inl e \<Rightarrow> (db, sent, Inl e)
          | Inr facts \<Rightarrow>
              (let findings = jget receipt ''settingsFindings'';
                   db1 = (if worth_recording facts
                     then record_failure clk ev
                        (if jtruthy findings then ''settings_check''
                         else case failed_operation facts of Some op \<Rightarrow> operation_str op
                              | None \<Rightarrow> ''transport'')
                        (Some (d_rel row)) (Some (r_parent_task (rr_row relationship)))
                        (rpc_error_code facts) (Some (retry_safe facts)) None db
                     else db);
                   previously = (case turn_id facts of None \<Rightarrow> False
                     | Some t \<Rightarrow> t \<noteq> [] \<and> t \<in> set known_turns)
               in case bindE (attempt_record facts request ev attempt_no (d_recipient_task row)
                         (status_for_record observation) (clk_iso clk) None) (\<lambda>record.
                      bindE (settle (cf_policy cf) clk ev request record facts previously now db1)
                        (\<lambda>db2. Inr (db2, record))) of
                    Inl e \<Rightarrow> (db1, sent, Inl e)
                  | Inr (db2, record) \<Rightarrow> (db2, sent, Inr (Attempted record previously))))"

text \<open>The checks before anything is claimed: what the attempt acts on, or the refusal.\<close>

definition attempt_checks :: "db \<Rightarrow> string \<Rightarrow> rat
    \<Rightarrow> err + (delivery_row \<times> relationship_record) option" where
  "attempt_checks db ev now =
     bindE (find_or_refuse db ev) (\<lambda>row.
     bindE (get db (d_rel row)) (\<lambda>relationship.
       if truthy_text (d_hold_reason row) \<or> d_state row \<notin> set CLAIMABLE \<or> \<not> due now row
       then Inr None
       else case event_of db ev of
           None \<Rightarrow> Inl KeyError
         | Some event \<Rightarrow>
             bindE (assert_assignment_delivery relationship (d_kind row) (d_recipient_task row)
                 (Some (d_recipient_thread row)) (Some (e_rel event)) (manifest_paths event))
               (\<lambda>_. Inr (Some (row, relationship)))))"

definition attempt ::
  "config \<Rightarrow> host \<Rightarrow> clock \<Rightarrow> rat \<Rightarrow> string \<Rightarrow> string \<Rightarrow> db
     \<Rightarrow> db \<times> sent list \<times> (err + attempt_outcome)" where
  "attempt cf adapter clk now owner ev db =
     (case attempt_checks db ev now of
        Inl e \<Rightarrow> (db, [], Inl e)
      | Inr None \<Rightarrow> (db, [], Inr No_attempt)
      | Inr (Some (row, relationship)) \<Rightarrow>
          let p = cf_policy cf; recipient = d_recipient_task row
          in if rate_limited p db recipient now
             then (reschedule clk ev (d_state row) (now + min_send_interval_seconds p)
                     (d_attempt_count row) db, [], Inr No_attempt)
             else let observation = observe adapter (d_recipient_thread row)
                        (if d_kind row = COMPLETION then r_parent_cwd (rr_row relationship) else None)
                        (cf_require_evidence cf);
                      db1 = record_lifecycle clk observation db
             in if is_busy observation then (defer_busy p clk ev row now db1, [], Inr No_attempt)
                else if \<not> may_send observation
                then (withhold p clk ev observation now (d_attempt_count row) db1, [], Inr No_attempt)
                else case settings_for db1 recipient of
                    Inl (RelayError DeliveryRefused reason) \<Rightarrow>
                      (withhold_settings p clk ev now (settings_reason reason) row db1, [],
                       Inr No_attempt)
                  | Inl e \<Rightarrow> (db1, [], Inl e)
                  | Inr settings \<Rightarrow>
                      (case list_turn_ids adapter (d_recipient_thread row) 25 of
                         Inl _ \<Rightarrow> (db1, [], Inl HostError)
                       | Inr known_turns \<Rightarrow>
                           (case claim cf clk ev now owner recipient db1 of
                              (db2, Inl NotClaimable) \<Rightarrow> (db2, [], Inr No_attempt)
                            | (db2, Inl (ClaimFailed e)) \<Rightarrow> (db2, [], Inl e)
                            | (db2, Inl (SupersededNow r)) \<Rightarrow> (db2, [], Inr (Was_superseded r))
                            | (db2, Inl (LateSupersession r)) \<Rightarrow>
                                (case suppress_if_superseded clk ev db2 of
                                   Inl e \<Rightarrow> (db2, [], Inl e)
                                 | Inr (db3, _) \<Rightarrow> (db3, [], Inr (Was_superseded r)))
                            | (db2, Inr claimed) \<Rightarrow>
                                send_and_settle cf adapter clk now row relationship observation
                                  settings known_turns claimed db2)))"

section \<open>What a claim did\<close>

lemma account_frame [simp]:
  "relationships (account clk row request carried report db) = relationships db"
  "generations (account clk row request carried report db) = generations db"
  "events (account clk row request carried report db) = events db"
  "deliveries (account clk row request carried report db) = deliveries db"
  "attempts (account clk row request carried report db) = attempts db"
  "attempt_messages (account clk row request carried report db) = attempt_messages db"
  "recipient_rates (account clk row request carried report db) = recipient_rates db"
  "acks (account clk row request carried report db) = acks db"
  "verdicts (account clk row request carried report db) = verdicts db"
  "supersessions (account clk row request carried report db) = supersessions db"
  "revision_lineage (account clk row request carried report db) = revision_lineage db"
  by (simp_all add: account_def Let_def split: option.splits)

lemma count_send_frame [simp]:
  "relationships (count_send r now db) = relationships db"
  "generations (count_send r now db) = generations db"
  "events (count_send r now db) = events db"
  "deliveries (count_send r now db) = deliveries db"
  "attempts (count_send r now db) = attempts db"
  "attempt_messages (count_send r now db) = attempt_messages db"
  "acks (count_send r now db) = acks db"
  "verdicts (count_send r now db) = verdicts db"
  "supersessions (count_send r now db) = supersessions db"
  "revision_lineage (count_send r now db) = revision_lineage db"
  by (simp_all add: count_send_def)

lemma freeze_attempt_Inr:
  assumes "freeze_attempt cf clk row request db = Inr (db', message)"
  shows "insert_attempt (frozen_attempt clk row request) (attempts db) = Inr (attempts db')
    \<and> insert_message (frozen_message clk row request message) (attempt_messages db)
        = Inr (attempt_messages db')
    \<and> relationships db' = relationships db \<and> generations db' = generations db
    \<and> events db' = events db \<and> deliveries db' = deliveries db
    \<and> recipient_rates db' = recipient_rates db \<and> acks db' = acks db \<and> verdicts db' = verdicts db
    \<and> supersessions db' = supersessions db \<and> revision_lineage db' = revision_lineage db"
  using assms by (auto simp: freeze_attempt_def Let_def split: prod.splits)

lemma claimed_row_simps [simp]:
  "d_event (claimed_row cf clk now owner d) = d_event d"
  "d_attempt_count (claimed_row cf clk now owner d) = d_attempt_count d + 1"
  "d_state (claimed_row cf clk now owner d) = SENDING"
  "d_hold_reason (claimed_row cf clk now owner d) = d_hold_reason d"
  "d_rel (claimed_row cf clk now owner d) = d_rel d"
  "d_kind (claimed_row cf clk now owner d) = d_kind d"
  by (simp_all add: claimed_row_def)

lemma claimed_db_deliveries:
  "deliveries (claimed_db cf clk ev now owner db)
     = update_where (claim_guard db now ev) (claimed_row cf clk now owner) (deliveries db)"
  by (simp add: claimed_db_def)

lemma claimed_db_frame [simp]:
  "relationships (claimed_db cf clk ev now owner db) = relationships db"
  "generations (claimed_db cf clk ev now owner db) = generations db"
  "events (claimed_db cf clk ev now owner db) = events db"
  "attempts (claimed_db cf clk ev now owner db) = attempts db"
  "attempt_messages (claimed_db cf clk ev now owner db) = attempt_messages db"
  "recipient_rates (claimed_db cf clk ev now owner db) = recipient_rates db"
  "acks (claimed_db cf clk ev now owner db) = acks db"
  "verdicts (claimed_db cf clk ev now owner db) = verdicts db"
  "supersessions (claimed_db cf clk ev now owner db) = supersessions db"
  "revision_lineage (claimed_db cf clk ev now owner db) = revision_lineage db"
  by (simp_all add: claimed_db_def)

lemma claim_in_success:
  assumes "claim_in cf clk ev now owner recipient db = Inr (db', n, request, message)"
    and "distinct (map d_event (deliveries db))"
  obtains d where "d \<in> set (deliveries db)" "claim_guard db now ev d"
    "supersession_reason db ev = Inr None" "n = d_attempt_count d + 1" "request_id ev n = Inr request"
    "insert_attempt (frozen_attempt clk (claimed_row cf clk now owner d) request) (attempts db)
       = Inr (attempts db')"
    "insert_message (frozen_message clk (claimed_row cf clk now owner d) request message)
       (attempt_messages db) = Inr (attempt_messages db')"
    "deliveries db' = update_where (claim_guard db now ev) (claimed_row cf clk now owner) (deliveries db)"
    "recipient_rates db' = recipient_rates (count_send recipient now db)"
    "\<And>rt. rate_of db' recipient now = Some rt \<Longrightarrow> rt_sends rt \<le> max_sends_per_recipient_per_hour (cf_policy cf)"
    "relationships db' = relationships db" "generations db' = generations db" "events db' = events db"
    "acks db' = acks db" "verdicts db' = verdicts db" "supersessions db' = supersessions db"
    "revision_lineage db' = revision_lineage db"
proof -
  have sup: "supersession_reason db ev = Inr None"
    using assms(1) by (auto simp: claim_in_def split: sum.splits option.splits)
  with assms(1) have one: "rowcount (claim_guard db now ev) (deliveries db) = 1"
    by (auto simp: claim_in_def split: if_splits)
  then obtain d where d: "d \<in> set (deliveries db)" "claim_guard db now ev d"
    unfolding rowcount_def by (metis filter_empty_conv length_0_conv zero_neq_one)
  let ?db1 = "claimed_db cf clk ev now owner db"
  have "delivery_of db ev = Some d"
    using find_key [OF assms(2) d(1)] d(2) by (simp add: find_delivery_def claim_guard_def)
  then have row: "delivery_of ?db1 ev = Some (claimed_row cf clk now owner d)"
    using d(2) by (simp add: claimed_db_deliveries)
  from assms(1) sup one row obtain db2 where req: "request_id ev (d_attempt_count d + 1) = Inr request"
    and fr: "freeze_attempt cf clk (claimed_row cf clk now owner d) request ?db1 = Inr (db2, message)"
    and n: "n = d_attempt_count d + 1" and db': "db' = count_send recipient now db2"
    and cap: "\<And>rt. rate_of db' recipient now = Some rt \<Longrightarrow>
        rt_sends rt \<le> max_sends_per_recipient_per_hour (cf_policy cf)"
    by (auto simp: claim_in_def Let_def split: sum.splits if_splits option.splits)
  note f = freeze_attempt_Inr [OF fr]
  show thesis
    by (rule that [OF d sup n]) (use f req cap in \<open>simp_all add: db' n claimed_db_deliveries, simp_all add: count_send_def\<close>)
qed

lemma claim_success:
  assumes "claim cf clk ev now owner recipient db = (db', Inr (n, request, message))"
  shows "claim_in cf clk ev now owner recipient db = Inr (db', n, request, message)"
proof -
  from assms obtain db1 where s: "suppress_if_superseded clk ev db = Inr (db1, None)"
    and c: "claim_in cf clk ev now owner recipient db1 = Inr (db', n, request, message)"
    by (auto simp: claim_def split: sum.splits option.splits)
  from s have "db1 = db" by (auto simp: suppress_if_superseded_def split: option.splits)
  with c show ?thesis by simp
qed

end
