(* ===== verification/Delivery_Safety.thy ===== *)
theory Delivery_Safety
  imports Delivery_Attempt
begin

text \<open>
  What the deliveries, attempts and frozen messages of the store keep to under every operation of
  the queue and of the attempt: attempts are numbered without gaps, each with its frozen message;
  a delivery in flight has its current attempt in flight; and every attempt but the current one,
  and the current one too once the delivery may be claimed again, carries a record that proves
  nothing was sent.
\<close>

section \<open>The invariant\<close>

definition attempt_key :: "attempt_row \<Rightarrow> string \<times> string \<times> int \<times> string" where
  "attempt_key a = (a_request a, a_event a, a_no a, a_kind a)"

definition message_key :: "message_row \<Rightarrow> string \<times> string \<times> int \<times> string" where
  "message_key m = (m_request m, m_event m, m_attempt_no m, m_kind m)"

text \<open>The attempt is settled and its record proves the transport was never reached.\<close>

definition unsent :: "attempt_row \<Rightarrow> bool" where
  "unsent a = (a_internal_state a = SETTLED \<and> a_state a \<in> {Some DEFERRED_BUSY, Some WITHHELD_PRE_SEND}
     \<and> (case a_record a of None \<Rightarrow> False | Some r \<Rightarrow> retrySafe r \<and> sendAttempted r = Send_no))"

definition keys_ok :: "db \<Rightarrow> bool" where
  "keys_ok db = (distinct (map d_event (deliveries db)) \<and> distinct (map a_request (attempts db))
     \<and> map message_key (attempt_messages db) = map attempt_key (attempts db)
     \<and> (\<forall>a\<in>set (attempts db). request_id (a_event a) (a_no a) = Inr (a_request a)))"

definition numbers_ok :: "db \<Rightarrow> bool" where
  "numbers_ok db =
     ((\<forall>d\<in>set (deliveries db). 0 \<le> d_attempt_count d \<and> (\<forall>n\<in>{1..d_attempt_count d}.
         \<exists>a\<in>set (attempts db). a_event a = d_event d \<and> a_no a = n))
      \<and> (\<forall>a\<in>set (attempts db). \<exists>d\<in>set (deliveries db). d_event d = a_event a
           \<and> 1 \<le> a_no a \<and> a_no a \<le> d_attempt_count d))"

definition evidence_ok :: "db \<Rightarrow> bool" where
  "evidence_ok db = (\<forall>d\<in>set (deliveries db). \<forall>a\<in>set (attempts db). a_event a = d_event d \<longrightarrow>
      (a_no a < d_attempt_count d \<or> d_state d \<in> set CLAIMABLE \<longrightarrow> unsent a)
      \<and> (a_no a = d_attempt_count d \<longrightarrow> d_state d = SENDING \<longrightarrow> a_internal_state a = IN_FLIGHT))"

definition delivery_inv :: "db \<Rightarrow> bool" where
  "delivery_inv db = (keys_ok db \<and> numbers_ok db \<and> evidence_ok db)"

lemma CLAIMABLE_states: "s \<in> set CLAIMABLE \<longleftrightarrow> s = QUEUED \<or> s = DEFERRED_BUSY \<or> s = WITHHELD_PRE_SEND"
  by (auto simp: CLAIMABLE_def)

lemma delivery_inv_frame:
  assumes "deliveries db' = deliveries db" "attempts db' = attempts db"
    "attempt_messages db' = attempt_messages db"
  shows "delivery_inv db' = delivery_inv db"
  by (simp add: delivery_inv_def keys_ok_def numbers_ok_def evidence_ok_def assms)

lemma delivery_inv_empty: "attempts db = [] \<Longrightarrow> attempt_messages db = [] \<Longrightarrow> deliveries db = []
    \<Longrightarrow> delivery_inv db"
  by (simp add: delivery_inv_def keys_ok_def numbers_ok_def evidence_ok_def)

lemma inv_distinct: "delivery_inv db \<Longrightarrow> distinct (map d_event (deliveries db))"
  by (simp add: delivery_inv_def keys_ok_def)

lemma inv_owner:
  assumes "delivery_inv db" "a \<in> set (attempts db)"
  obtains d where "d \<in> set (deliveries db)" "d_event d = a_event a" "1 \<le> a_no a" "a_no a \<le> d_attempt_count d"
  using assms by (auto simp: delivery_inv_def numbers_ok_def)

lemma inv_evidence:
  assumes "delivery_inv db" "d \<in> set (deliveries db)" "a \<in> set (attempts db)" "a_event a = d_event d"
  shows "a_no a < d_attempt_count d \<or> d_state d \<in> set CLAIMABLE \<Longrightarrow> unsent a"
    and "a_no a = d_attempt_count d \<Longrightarrow> d_state d = SENDING \<Longrightarrow> a_internal_state a = IN_FLIGHT"
  using assms by (auto simp: delivery_inv_def evidence_ok_def)

lemma inv_request:
  assumes "delivery_inv db" "a \<in> set (attempts db)" "b \<in> set (attempts db)"
    "a_event a = a_event b" "a_no a = a_no b"
  shows "a = b"
proof -
  have "request_id (a_event a) (a_no a) = Inr (a_request a)"
    "request_id (a_event b) (a_no b) = Inr (a_request b)"
    using assms(1-3) by (auto simp: delivery_inv_def keys_ok_def)
  then have "a_request a = a_request b" using assms(4,5) by simp
  moreover have "distinct (map a_request (attempts db))"
    using assms(1) by (simp add: delivery_inv_def keys_ok_def)
  ultimately show ?thesis using key_unique assms(2,3) by metis
qed

section \<open>Writes to deliveries alone\<close>

text \<open>
  An update of delivery rows keeps the invariant when it keeps the event and the number of
  attempts, makes nothing claimable that was not, and puts nothing in flight.
\<close>

lemma delivery_write_inv:
  assumes inv: "delivery_inv db"
    and del: "deliveries db' = update_where P f (deliveries db)"
    and att: "attempts db' = attempts db" "attempt_messages db' = attempt_messages db"
    and keep: "\<And>d. d_event (f d) = d_event d" "\<And>d. d_attempt_count (f d) = d_attempt_count d"
    and ok: "\<And>d. d \<in> set (deliveries db) \<Longrightarrow> P d \<Longrightarrow>
       (d_state (f d) \<in> set CLAIMABLE \<longrightarrow> d_state d \<in> set CLAIMABLE)
       \<and> (d_state (f d) = SENDING \<longrightarrow> d_state d = SENDING)"
  shows "delivery_inv db'"
proof -
  define u where "u d = (if P d then f d else d)" for d
  have u: "d_event (u d) = d_event d" "d_attempt_count (u d) = d_attempt_count d" for d
    by (simp_all add: keep u_def)
  have set': "set (deliveries db') = u ` set (deliveries db)"
    unfolding del set_update_where u_def ..
  have "map d_event (deliveries db') = map d_event (deliveries db)"
    by (simp add: del map_update_where keep)
  then have k: "keys_ok db'" using inv by (simp add: delivery_inv_def keys_ok_def att)
  have n: "numbers_ok db'"
    using inv unfolding delivery_inv_def numbers_ok_def att set' by (simp add: u)
  have "evidence_ok db'"
    unfolding evidence_ok_def att set' ball_simps
  proof (intro ballI impI)
    fix d a assume d: "d \<in> set (deliveries db)" and a: "a \<in> set (attempts db)" and e: "a_event a = d_event (u d)"
    have e': "a_event a = d_event d" using e u(1) by simp
    note ev = inv_evidence [OF inv d a e']
    show "(a_no a < d_attempt_count (u d) \<or> d_state (u d) \<in> set CLAIMABLE \<longrightarrow> unsent a)
      \<and> (a_no a = d_attempt_count (u d) \<longrightarrow> d_state (u d) = SENDING \<longrightarrow> a_internal_state a = IN_FLIGHT)"
      using ev ok [OF d] u(2) [of d] by (cases "P d") (auto simp: u_def)
  qed
  with k n show ?thesis by (simp add: delivery_inv_def)
qed

lemma withdraw_inv: "delivery_inv db \<Longrightarrow> delivery_inv (withdraw clk ev reason db)"
  by (rule delivery_write_inv [OF _ withdraw_deliveries]) (simp_all add: CLAIMABLE_states)

lemma suppress_inv:
  "delivery_inv db \<Longrightarrow> suppress_if_superseded clk ev db = Inr (db', r) \<Longrightarrow> delivery_inv db'"
  by (erule suppress_cases) (simp_all add: withdraw_inv)

lemma record_failure_frame [simp]:
  "relationships (record_failure clk s op rid par code safe nxt db) = relationships db"
  "generations (record_failure clk s op rid par code safe nxt db) = generations db"
  "events (record_failure clk s op rid par code safe nxt db) = events db"
  "deliveries (record_failure clk s op rid par code safe nxt db) = deliveries db"
  "attempts (record_failure clk s op rid par code safe nxt db) = attempts db"
  "attempt_messages (record_failure clk s op rid par code safe nxt db) = attempt_messages db"
  "recipient_rates (record_failure clk s op rid par code safe nxt db) = recipient_rates db"
  "acks (record_failure clk s op rid par code safe nxt db) = acks db"
  "verdicts (record_failure clk s op rid par code safe nxt db) = verdicts db"
  "supersessions (record_failure clk s op rid par code safe nxt db) = supersessions db"
  "revision_lineage (record_failure clk s op rid par code safe nxt db) = revision_lineage db"
  by (simp_all add: record_failure_def)

lemma postpone_inv:
  "delivery_inv db \<Longrightarrow> state \<noteq> SENDING \<Longrightarrow> delivery_inv (postpone clk ev state when tries db)"
  by (rule delivery_write_inv [of db _ "unmoved ev tries"
        "\<lambda>d. d\<lparr>d_state := state, d_next_eligible_at := Some when, d_updated_at := clk_iso clk\<rparr>"])
     (auto simp: postpone_def unmoved_def)

lemma withhold_inv:
  "delivery_inv db \<Longrightarrow> delivery_inv (withhold p clk ev obs now tries db)"
  unfolding withhold_def Let_def
  by (subst delivery_inv_frame [OF journal_entry_select(6,7,8)], rule postpone_inv)
     (simp_all add: delivery_inv_frame [of "record_failure _ _ _ _ _ _ _ _ db" db])

lemma withhold_settings_inv:
  "delivery_inv db \<Longrightarrow> delivery_inv (withhold_settings p clk ev now reason row db)"
  unfolding withhold_settings_def Let_def
  by (subst delivery_inv_frame [OF record_failure_frame(4,5,6)],
      subst delivery_inv_frame [OF journal_entry_select(6,7,8)], rule postpone_inv) simp_all

lemma defer_busy_inv:
  assumes "delivery_inv db" shows "delivery_inv (defer_busy p clk ev row now db)"
  by (rule delivery_write_inv [OF assms, of _ "unmoved ev (d_attempt_count row)"
        "\<lambda>d. d\<lparr>d_state := DEFERRED_BUSY,
            d_next_eligible_at := Some (now + delay_for p (d_attempt_count row + 1) ''busy''),
            d_hold_reason := (if busy_max_attempts p \<le> d_attempt_count row
               then Some (cap_reason ''busy'') else None), d_updated_at := clk_iso clk\<rparr>"])
     (simp_all add: defer_busy_def Let_def unmoved_def)

lemma enqueue_in_inv:
  assumes inv: "delivery_inv db" and enq: "enqueue_in clk ev rid kind recipient db = Inr db'"
  shows "delivery_inv db'"
proof -
  note f = enqueue_in_frame [OF enq]
  show ?thesis
  proof (cases "ev \<in> set (map d_event (deliveries db))")
    case True
    then have "deliveries db' = deliveries db" using f by (simp add: insert_or_ignore_def queued_row_def)
    with f inv show ?thesis using delivery_inv_frame [of db' db] by simp
  next
    case False
    let ?q = "queued_row clk ev rid kind recipient"
    have q: "d_event ?q = ev" "d_attempt_count ?q = 0" "d_state ?q = QUEUED" by (simp_all add: queued_row_def)
    have del: "deliveries db' = deliveries db @ [?q]"
      using f False by (simp add: insert_or_ignore_def q)
    have none: "a_event a \<noteq> ev" if "a \<in> set (attempts db)" for a
      using inv_owner [OF inv that] False by (metis image_eqI list.set_map)
    have att: "attempts db' = attempts db" "attempt_messages db' = attempt_messages db" using f by auto
    have "keys_ok db'" using inv False by (simp add: delivery_inv_def keys_ok_def q del att)
    moreover have "numbers_ok db'"
      using inv unfolding delivery_inv_def numbers_ok_def by (auto simp: del q att)
    moreover have "evidence_ok db'"
      using inv none unfolding delivery_inv_def evidence_ok_def by (simp add: del q att)
    ultimately show ?thesis by (simp add: delivery_inv_def)
  qed
qed

lemma clear_intent_inv: "delivery_inv (clear_intent ev db) = delivery_inv db"
  by (rule delivery_inv_frame) (simp_all add: clear_intent_def)

lemma enqueue_inv:
  assumes "delivery_inv db" shows "delivery_inv (fst (enqueue clk ev kind recipient db))"
proof -
  have "delivery_inv (fst (after_commit db r (bindE (enqueue_in clk ev rid kind task db)
      (\<lambda>db'. Inr (clear_intent ev db')))))" for r :: "db \<Rightarrow> err + delivery_row" and rid task
    using assms enqueue_in_inv [OF assms, of clk ev rid kind task]
    by (cases "enqueue_in clk ev rid kind task db") (simp_all add: after_commit_def clear_intent_inv)
  then show ?thesis
    using assms unfolding enqueue_def Let_def
    by (simp add: clear_intent_inv split: option.splits sum.splits)
qed

section \<open>The claim\<close>

lemma insert_attempt_Inr:
  "insert_attempt a t = Inr t' \<Longrightarrow> t' = t @ [a] \<and> a_request a \<notin> a_request ` set t"
  by (auto simp: insert_attempt_def list_ex_iff split: if_splits)

lemma insert_message_Inr: "insert_message m t = Inr t' \<Longrightarrow> t' = t @ [m]"
  by (auto simp: insert_message_def split: if_splits)

lemma claim_guard_only:
  assumes "distinct (map d_event (deliveries db))" "d \<in> set (deliveries db)" "claim_guard db now ev d"
    "x \<in> set (deliveries db)" "claim_guard db now ev x"
  shows "x = d"
  using key_unique [OF assms(1) assms(4) assms(2)] assms(3,5) by (simp add: claim_guard_def)

lemma claim_in_inv:
  assumes inv: "delivery_inv db"
    and claim: "claim_in cf clk ev now owner recipient db = Inr (db', n, request, message)"
  shows "delivery_inv db'"
proof -
  obtain d where d: "d \<in> set (deliveries db)" "claim_guard db now ev d" and n: "n = d_attempt_count d + 1"
    and rq: "request_id ev n = Inr request"
    and ia: "insert_attempt (frozen_attempt clk (claimed_row cf clk now owner d) request) (attempts db)
       = Inr (attempts db')"
    and im: "insert_message (frozen_message clk (claimed_row cf clk now owner d) request message)
       (attempt_messages db) = Inr (attempt_messages db')"
    and del: "deliveries db' = update_where (claim_guard db now ev) (claimed_row cf clk now owner) (deliveries db)"
    by (rule claim_in_success [OF claim inv_distinct [OF inv]])
  let ?a = "frozen_attempt clk (claimed_row cf clk now owner d) request"
  have ev: "d_event d = ev" and cl: "d_state d \<in> set CLAIMABLE" using d(2) by (auto simp: claim_guard_def)
  have a: "a_request ?a = request" "a_event ?a = ev" "a_no ?a = n" "a_internal_state ?a = IN_FLIGHT"
    by (simp_all add: frozen_attempt_def ev n)
  note att = insert_attempt_Inr [OF ia] and msg = insert_message_Inr [OF im]
  define u where "u x = (if claim_guard db now ev x then claimed_row cf clk now owner x else x)" for x
  have ud: "u d = claimed_row cf clk now owner d" and ev_u: "d_event (u x) = d_event x" for x
    using d(2) by (simp_all add: u_def)
  have uo: "x \<in> set (deliveries db) \<Longrightarrow> x \<noteq> d \<Longrightarrow> u x = x" for x
    using claim_guard_only [OF inv_distinct [OF inv] d] by (auto simp: u_def)
  have set': "set (deliveries db') = u ` set (deliveries db)" unfolding del set_update_where u_def ..
  have other: "x \<in> set (deliveries db) \<Longrightarrow> x \<noteq> d \<Longrightarrow> d_event x \<noteq> ev" for x
    using key_unique [OF inv_distinct [OF inv] _ d(1)] ev by metis
  have "map d_event (deliveries db') = map d_event (deliveries db)" by (simp add: del map_update_where)
  then have "keys_ok db'"
    using inv att msg rq a
    by (simp add: delivery_inv_def keys_ok_def attempt_key_def message_key_def frozen_message_def frozen_attempt_def ev n)
  moreover have "numbers_ok db'"
    unfolding numbers_ok_def set' ball_simps bex_simps
  proof (intro conjI ballI)
    fix x assume x: "x \<in> set (deliveries db)"
    have c: "0 \<le> d_attempt_count x" using inv x by (simp add: delivery_inv_def numbers_ok_def)
    then show "0 \<le> d_attempt_count (u x)" by (cases "x = d") (simp_all add: ud uo x)
    fix k assume k: "k \<in> {1..d_attempt_count (u x)}"
    show "\<exists>a\<in>set (attempts db'). a_event a = d_event (u x) \<and> a_no a = k"
    proof (cases "x = d \<and> k = n")
      case True
      then show ?thesis using att a ev ev_u by auto
    next
      case False
      then have "k \<in> {1..d_attempt_count x}" using k n uo [OF x] by (cases "x = d") (auto simp: ud)
      then have "\<exists>a\<in>set (attempts db). a_event a = d_event x \<and> a_no a = k"
        using inv x by (simp add: delivery_inv_def numbers_ok_def)
      then show ?thesis using att ev_u by auto
    qed
  next
    fix b assume "b \<in> set (attempts db')"
    then consider "b = ?a" | "b \<in> set (attempts db)" using att by auto
    then show "\<exists>x\<in>set (deliveries db). d_event (u x) = a_event b \<and> 1 \<le> a_no b \<and> a_no b \<le> d_attempt_count (u x)"
    proof cases
      case 1
      have "0 \<le> d_attempt_count d" using inv d by (simp add: delivery_inv_def numbers_ok_def)
      then show ?thesis using d(1) a ev n 1 by (intro bexI [of _ d]) (simp_all add: ud)
    next
      case 2
      obtain x where x: "x \<in> set (deliveries db)" "d_event x = a_event b" "1 \<le> a_no b" "a_no b \<le> d_attempt_count x"
        by (rule inv_owner [OF inv 2])
      then show ?thesis using ud uo [OF x(1)] ev_u by (intro bexI [of _ x]) (cases "x = d"; simp)+
    qed
  qed
  moreover have "evidence_ok db'"
    unfolding evidence_ok_def set' ball_simps
  proof (intro ballI impI)
    fix x b assume x: "x \<in> set (deliveries db)" and b: "b \<in> set (attempts db')" and e: "a_event b = d_event (u x)"
    have e': "a_event b = d_event x" using e ev_u by simp
    have old: "b \<in> set (attempts db)" if "b \<noteq> ?a" using that b att by auto
    show "(a_no b < d_attempt_count (u x) \<or> d_state (u x) \<in> set CLAIMABLE \<longrightarrow> unsent b)
      \<and> (a_no b = d_attempt_count (u x) \<longrightarrow> d_state (u x) = SENDING \<longrightarrow> a_internal_state b = IN_FLIGHT)"
    proof (cases "x = d")
      case False
      have bo: "b \<in> set (attempts db)" using other [OF x False] e' a(2) old by metis
      have ux: "u x = x" by (rule uo [OF x False])
      show ?thesis unfolding ux using inv_evidence [OF inv x bo e'] by blast
    next
      case True
      show ?thesis
      proof (cases "b = ?a")
        case True
        then show ?thesis using \<open>x = d\<close> a n by (simp add: ud CLAIMABLE_states)
      next
        case False
        obtain y where y: "y \<in> set (deliveries db)" "d_event y = a_event b" "a_no b \<le> d_attempt_count y"
          by (rule inv_owner [OF inv old [OF False]])
        have "y = d" using key_unique [OF inv_distinct [OF inv] y(1) d(1)] y(2) e' \<open>x = d\<close> by simp
        moreover have "unsent b" using inv_evidence(1) [OF inv d(1) old [OF False]] e' cl \<open>x = d\<close> by simp
        ultimately show ?thesis using y(3) \<open>x = d\<close> by (simp add: ud)
      qed
    qed
  qed
  ultimately show ?thesis by (simp add: delivery_inv_def)
qed

lemma claim_inv:
  assumes "delivery_inv db" shows "delivery_inv (fst (claim cf clk ev now owner recipient db))"
proof (cases "suppress_if_superseded clk ev db")
  case (Inl e)
  then show ?thesis using assms by (simp add: claim_def)
next
  case (Inr r)
  obtain db1 o1 where r: "r = (db1, o1)" by (cases r)
  have inv1: "delivery_inv db1" using suppress_inv [OF assms] Inr r by simp
  show ?thesis
  proof (cases "claim_in cf clk ev now owner recipient db1")
    case (Inl stop)
    then show ?thesis using inv1 Inr r by (simp add: claim_def split: option.splits)
  next
    case (Inr res)
    obtain db2 n request message where "res = (db2, n, request, message)" by (cases res)
    then show ?thesis using inv1 claim_in_inv [OF inv1] Inr \<open>suppress_if_superseded clk ev db = Inr r\<close> r
      by (simp add: claim_def split: option.splits)
  qed
qed

section \<open>Settling the current attempt\<close>

text \<open>
  A write to one attempt and to its delivery keeps the invariant when the attempt is the current
  one and leaves the delivery claimable only with a record that proves nothing was sent.
\<close>

lemma attempt_write_inv:
  assumes inv: "delivery_inv db" and a: "a \<in> set (attempts db)"
    and d: "d \<in> set (deliveries db)" "d_event d = a_event a" "a_no a = d_attempt_count d"
    and att: "attempts db' = update_where (\<lambda>x. a_request x = a_request a) g (attempts db)"
    and msg: "attempt_messages db' = attempt_messages db"
    and del: "deliveries db' = update_where Q f (deliveries db)"
    and keepa: "\<And>x. attempt_key (g x) = attempt_key x"
    and keepd: "\<And>x. d_event (f x) = d_event x" "\<And>x. d_attempt_count (f x) = d_attempt_count x"
    and only: "\<And>x. Q x \<Longrightarrow> d_event x = a_event a"
    and claimable: "d_state (if Q d then f d else d) \<in> set CLAIMABLE \<Longrightarrow> unsent (g a)"
    and moved: "d_state (if Q d then f d else d) \<noteq> SENDING"
  shows "delivery_inv db'"
proof -
  define u where "u x = (if Q x then f x else x)" for x
  define v where "v x = (if a_request x = a_request a then g x else x)" for x
  have u: "d_event (u x) = d_event x" "d_attempt_count (u x) = d_attempt_count x" for x
    by (simp_all add: u_def keepd)
  have v: "a_event (v x) = a_event x" "a_no (v x) = a_no x" "a_request (v x) = a_request x" for x
    using keepa [of x] by (auto simp: v_def attempt_key_def)
  have sets: "set (deliveries db') = u ` set (deliveries db)" "set (attempts db') = v ` set (attempts db)"
    unfolding del att set_update_where u_def v_def by (rule refl)+
  have va: "v a = g a" by (simp add: v_def)
  have vo: "v x = x" if "x \<in> set (attempts db)" "x \<noteq> a" for x
    using that a key_unique [of a_request "attempts db" x a] inv
    by (auto simp: v_def delivery_inv_def keys_ok_def)
  have uo: "u x = x" if "x \<in> set (deliveries db)" "x \<noteq> d" for x
    using that key_unique [OF inv_distinct [OF inv] that(1) d(1)] only d(2) by (auto simp: u_def)
  have "map d_event (deliveries db') = map d_event (deliveries db)"
    "map a_request (attempts db') = map a_request (attempts db)"
    "map attempt_key (attempts db') = map attempt_key (attempts db)"
    using keepa by (simp_all add: del att map_update_where keepd attempt_key_def)
  then have k: "keys_ok db'"
    using inv unfolding delivery_inv_def keys_ok_def msg sets(2) by (simp add: v)
  have n: "numbers_ok db'"
    using inv unfolding delivery_inv_def numbers_ok_def sets by (simp add: u v)
  have "evidence_ok db'"
    unfolding evidence_ok_def sets ball_simps
  proof (intro ballI impI)
    fix x b assume x: "x \<in> set (deliveries db)" and b: "b \<in> set (attempts db)" and e: "a_event (v b) = d_event (u x)"
    have e': "a_event b = d_event x" using e u v by simp
    note old = inv_evidence [OF inv x b e']
    show "(a_no (v b) < d_attempt_count (u x) \<or> d_state (u x) \<in> set CLAIMABLE \<longrightarrow> unsent (v b))
      \<and> (a_no (v b) = d_attempt_count (u x) \<longrightarrow> d_state (u x) = SENDING \<longrightarrow> a_internal_state (v b) = IN_FLIGHT)"
    proof (cases "b = a")
      case True
      then have "x = d" using key_unique [OF inv_distinct [OF inv] x d(1)] e' d(2) by simp
      then show ?thesis using True claimable moved d(3) v(2) [of a] by (auto simp: va u(2), auto simp: u_def)
    next
      case False
      have vb: "v b = b" by (rule vo [OF b False])
      show ?thesis
      proof (cases "x = d")
        case True
        obtain y where "y \<in> set (deliveries db)" "d_event y = a_event b" "a_no b \<le> d_attempt_count y"
          by (rule inv_owner [OF inv b])
        then have "a_no b \<le> d_attempt_count d"
          using key_unique [OF inv_distinct [OF inv] _ d(1)] e' True by metis
        moreover have "a_no b \<noteq> d_attempt_count d"
          using inv_request [OF inv b a] False e' True d(2,3) by auto
        ultimately show ?thesis using old True by (simp add: u vb)
      next
        case False
        show ?thesis unfolding uo [OF x False] vb using old by blast
      qed
    qed
  qed
  with k n show ?thesis by (simp add: delivery_inv_def)
qed

lemma unsent_iff_record:
  assumes "classify_operation_receipt receipt = Inr facts"
    and "attempt_record facts q ev n task w stamp rc = Inr record"
    and "a_record a = Some record" "a_state a = Some (delivery_state facts)" "a_internal_state a = SETTLED"
    and "delivery_state facts \<in> set CLAIMABLE"
  shows "unsent a"
proof -
  have s: "delivery_state facts = DEFERRED_BUSY \<or> delivery_state facts = WITHHELD_PRE_SEND"
    using classify_state [OF assms(1)] assms(6) by (auto simp: CLAIMABLE_states)
  then have "retry_safe facts" using classify_retry_safe [OF assms(1)] by simp
  then have "retrySafe record" using attempt_record_fields [OF assms(2)] by simp
  then show ?thesis
    using attempt_record_fields [OF assms(2)] assms(3-5) s
    by (auto simp: unsent_def assert_attempt_invariants_def)
qed

lemma settle_frame:
  assumes "settle p clk ev request record facts prev now db = Inr db'"
  shows "attempt_messages db' = attempt_messages db"
    "attempts db' = update_where (\<lambda>a. a_request a = request)
       (\<lambda>a. a\<lparr>a_internal_state := SETTLED, a_state := Some (delivery_state facts),
          a_record := Some record, a_observed_at := observedAt record\<rparr>) (attempts db)"
    "deliveries db' = update_where (\<lambda>d. d_event d = ev)
       (\<lambda>d. d\<lparr>d_state := delivery_state facts, d_next_eligible_at := settle_when p record (delivery_state facts) now,
          d_hold_reason := settle_hold p record (delivery_state facts),
          d_dispatch_evidence := (if delivery_state facts = DISPATCHED
             then Some ''transport_accepted'' else None),
          d_dispatch_turn := turn_id facts, d_lease_owner := None,
          d_lease_until := None, d_updated_at := clk_iso clk\<rparr>) (deliveries db)"
    "relationships db' = relationships db" "generations db' = generations db" "events db' = events db"
    "acks db' = acks db" "verdicts db' = verdicts db" "recipient_rates db' = recipient_rates db"
  using assms by (auto simp: settle_def Let_def split: if_splits)

lemma settle_inv:
  assumes inv: "delivery_inv db" and a: "a \<in> set (attempts db)" "a_request a = request" "a_event a = ev"
    and d: "d \<in> set (deliveries db)" "d_event d = ev" "a_no a = d_attempt_count d"
    and facts: "classify_operation_receipt receipt = Inr facts"
    and rec: "attempt_record facts q ev0 n task w stamp rc = Inr record"
    and settle: "settle p clk ev request record facts prev now db = Inr db'"
  shows "delivery_inv db'"
proof (rule attempt_write_inv [OF inv a(1) d(1)])
  note f = settle_frame [OF settle]
  show "attempts db' = update_where (\<lambda>x. a_request x = a_request a)
       (\<lambda>a. a\<lparr>a_internal_state := SETTLED, a_state := Some (delivery_state facts),
          a_record := Some record, a_observed_at := observedAt record\<rparr>) (attempts db)"
    using f(2) a(2) by simp
  show "unsent (a\<lparr>a_internal_state := SETTLED, a_state := Some (delivery_state facts),
          a_record := Some record, a_observed_at := observedAt record\<rparr>)"
    if "d_state (if d_event d = ev then d\<lparr>d_state := delivery_state facts,
          d_next_eligible_at := settle_when p record (delivery_state facts) now,
          d_hold_reason := settle_hold p record (delivery_state facts),
          d_dispatch_evidence := (if delivery_state facts = DISPATCHED
             then Some ''transport_accepted'' else None),
          d_dispatch_turn := turn_id facts, d_lease_owner := None,
          d_lease_until := None, d_updated_at := clk_iso clk\<rparr> else d) \<in> set CLAIMABLE"
    by (rule unsent_iff_record [OF facts rec]) (use that d(2) in simp_all)
qed (use a d settle_frame [OF settle] classify_state [OF facts] in \<open>auto simp: attempt_key_def\<close>)

lemma claim_result:
  assumes inv: "delivery_inv db"
    and claim: "claim cf clk ev now owner recipient db = (db', Inr (n, request, message))"
  obtains a d where "a \<in> set (attempts db')" "a_request a = request" "a_event a = ev" "a_no a = n"
    "a_internal_state a = IN_FLIGHT" "d \<in> set (deliveries db')" "d_event d = ev" "d_attempt_count d = n"
    "d_state d = SENDING"
proof -
  have ci: "claim_in cf clk ev now owner recipient db = Inr (db', n, request, message)"
    by (rule claim_success [OF claim])
  show thesis
  proof (rule claim_in_success [OF ci inv_distinct [OF inv]])
    fix d assume d: "d \<in> set (deliveries db)" "claim_guard db now ev d" and n: "n = d_attempt_count d + 1"
      and ia: "insert_attempt (frozen_attempt clk (claimed_row cf clk now owner d) request) (attempts db)
         = Inr (attempts db')"
      and del: "deliveries db' = update_where (claim_guard db now ev) (claimed_row cf clk now owner) (deliveries db)"
    have ev: "d_event d = ev" using d(2) by (simp add: claim_guard_def)
    show thesis
    proof (rule that [of "frozen_attempt clk (claimed_row cf clk now owner d) request"
          "claimed_row cf clk now owner d"])
      show "claimed_row cf clk now owner d \<in> set (deliveries db')"
        unfolding del set_update_where using d by auto
    qed (use insert_attempt_Inr [OF ia] ev n in \<open>simp_all add: frozen_attempt_def\<close>)
  qed
qed

text \<open>What sending and settling preserve, whatever the host answers.\<close>

lemma send_and_settle_preserves:
  assumes "P db"
    and "\<And>op rid par code safe nxt. P db \<Longrightarrow> P (record_failure clk (d_event row) op rid par code safe nxt db)"
    and "\<And>receipt facts task w stamp record prev db1 db2.
      classify_operation_receipt receipt = Inr facts \<Longrightarrow>
      attempt_record facts request (d_event row) n task w stamp None = Inr record \<Longrightarrow>
      settle (cf_policy cf) clk (d_event row) request record facts prev now db1 = Inr db2 \<Longrightarrow>
      attempts db1 = attempts db \<Longrightarrow> deliveries db1 = deliveries db \<Longrightarrow> P db1 \<Longrightarrow> P db2"
  shows "P (fst (send_and_settle cf adapter clk now row rel obs settings known (n, request, message) db))"
  unfolding send_and_settle_def prod.case Let_def
  using assms(1,2) by (auto split: sum.splits if_splits intro: assms(3))

lemma send_and_settle_inv:
  assumes inv: "delivery_inv db0"
    and claim: "claim cf clk ev now owner recipient db0 = (db, Inr claimed)" and ev: "d_event row = ev"
  shows "delivery_inv (fst (send_and_settle cf adapter clk now row rel obs settings known claimed db))"
proof -
  obtain n request message where c: "claimed = (n, request, message)" by (cases claimed)
  have invd: "delivery_inv db" using claim_inv [OF inv, of cf clk ev now owner recipient] claim by simp
  obtain a d where a: "a \<in> set (attempts db)" "a_request a = request" "a_event a = ev" "a_no a = n"
    and d: "d \<in> set (deliveries db)" "d_event d = ev" "d_attempt_count d = n"
    by (rule claim_result [OF inv claim [unfolded c]])
  show ?thesis
    unfolding c
  proof (rule send_and_settle_preserves)
    show "delivery_inv (record_failure clk (d_event row) op rid par code safe nxt db)" for op rid par code safe nxt
      using invd by (subst delivery_inv_frame [of _ db]) simp_all
    show "delivery_inv db2"
      if "classify_operation_receipt receipt = Inr facts"
        "attempt_record facts request (d_event row) n task w stamp None = Inr rcd"
        "settle (cf_policy cf) clk (d_event row) request rcd facts prev now db1 = Inr db2"
        "attempts db1 = attempts db" "deliveries db1 = deliveries db" "delivery_inv db1"
      for receipt facts task w stamp rcd prev db1 db2
      by (rule settle_inv [OF that(6) _ a(2,3) _ d(2) _ that(1,2) that(3) [unfolded ev]])
         (use a d that(4,5) in simp_all)
  qed (rule invd)
qed

section \<open>How an attempt ends\<close>

text \<open>
  The ways an attempt leaves the store without calling the transport, and the one way it does.
\<close>

inductive quiet :: "config \<Rightarrow> clock \<Rightarrow> rat \<Rightarrow> string \<Rightarrow> string \<Rightarrow> db \<Rightarrow> db \<Rightarrow> bool"
  for cf :: config and clk :: clock and now :: rat and owner :: string and ev :: string and db :: db
where
  quiet_none: "quiet cf clk now owner ev db db"
| quiet_seen: "quiet cf clk now owner ev db (record_lifecycle clk obs db)"
| quiet_rate: "state \<in> set CLAIMABLE \<Longrightarrow> quiet cf clk now owner ev db (reschedule clk ev state when tries db)"
| quiet_busy: "quiet cf clk now owner ev db
    (defer_busy (cf_policy cf) clk ev row now (record_lifecycle clk obs db))"
| quiet_withheld: "quiet cf clk now owner ev db
    (withhold (cf_policy cf) clk ev obs now tries (record_lifecycle clk obs db))"
| quiet_settings: "quiet cf clk now owner ev db
    (withhold_settings (cf_policy cf) clk ev now reason row (record_lifecycle clk obs db))"
| quiet_claim: "claim cf clk ev now owner recipient (record_lifecycle clk obs db) = (db1, Inl stop) \<Longrightarrow>
    quiet cf clk now owner ev db db1"
| quiet_late: "claim cf clk ev now owner recipient (record_lifecycle clk obs db) = (db1, Inl stop) \<Longrightarrow>
    suppress_if_superseded clk ev db1 = Inr (db2, r) \<Longrightarrow> quiet cf clk now owner ev db db2"

lemma attempt_checks_row:
  assumes "attempt_checks db ev now = Inr (Some (row, relationship))"
  shows "delivery_of db ev = Some row \<and> d_event row = ev \<and> row \<in> set (deliveries db)
     \<and> d_state row \<in> set CLAIMABLE \<and> due now row \<and> get db (d_rel row) = Inr relationship"
  using assms lookup_mem(3) [of "deliveries db" ev row]
  by (auto simp: attempt_checks_def find_or_refuse_def split: if_splits option.splits)

lemma attempt_cases:
  assumes "attempt cf adapter clk now owner ev db = (db', sent, res)"
  obtains (quiet) "sent = []" "quiet cf clk now owner ev db db'"
    | (sent) row rel settings known db2 claimed obs where
        "attempt_checks db ev now = Inr (Some (row, rel))"
        "\<not> rate_limited (cf_policy cf) db (d_recipient_task row) now"
        "obs = observe adapter (d_recipient_thread row)
           (if d_kind row = COMPLETION then r_parent_cwd (rr_row rel) else None) (cf_require_evidence cf)"
        "may_send obs" "settings_for db (d_recipient_task row) = Inr settings"
        "claim cf clk ev now owner (d_recipient_task row) (record_lifecycle clk obs db) = (db2, Inr claimed)"
        "(db', sent, res) = send_and_settle cf adapter clk now row rel obs settings known claimed db2"
proof (cases "attempt_checks db ev now")
  case (Inl e)
  with assms show thesis by (intro quiet) (auto simp: attempt_def intro: quiet_none)
next
  case (Inr checked)
  show thesis
  proof (cases checked)
    case None
    with Inr assms show thesis by (intro quiet) (auto simp: attempt_def intro: quiet_none)
  next
    case (Some pair)
    obtain row rel where p: "pair = (row, rel)" by (cases pair)
    have ck: "attempt_checks db ev now = Inr (Some (row, rel))" using Inr Some p by simp
    define obs where "obs = observe adapter (d_recipient_thread row)
       (if d_kind row = COMPLETION then r_parent_cwd (rr_row rel) else None) (cf_require_evidence cf)"
    let ?db1 = "record_lifecycle clk obs db"
    note a = assms [unfolded attempt_def ck Let_def sum.case option.case prod.case, folded obs_def]
    show thesis
    proof (cases "rate_limited (cf_policy cf) db (d_recipient_task row) now")
      case True
      with a attempt_checks_row [OF ck] show thesis by (intro quiet) (auto intro: quiet_rate)
    next
      case nolimit: False
      show thesis
      proof (cases "is_busy obs \<or> \<not> may_send obs")
        case True
        with a nolimit show thesis
          by (intro quiet) (auto split: if_splits intro: quiet_busy quiet_withheld)
      next
        case False
        have st: "settings_for ?db1 t = settings_for db t" for t
          by (simp add: settings_for_def load_settings_def)
        show thesis
        proof (cases "settings_for db (d_recipient_task row)")
          case (Inl e)
          with a nolimit False st show thesis
            by (intro quiet) (auto split: err.splits exc_class.splits intro: quiet_settings quiet_seen)
        next
          case (Inr settings)
          note a2 = a [simplified nolimit False st Inr if_False sum.case]
          show thesis
          proof (cases "list_turn_ids adapter (d_recipient_thread row) 25")
            case (Inl e)
            with a2 False show thesis by (intro quiet) (auto intro: quiet_seen)
          next
            case (Inr known)
            obtain db2 c where cl: "claim cf clk ev now owner (d_recipient_task row) ?db1 = (db2, c)"
              by (cases "claim cf clk ev now owner (d_recipient_task row) ?db1")
            show thesis
            proof (cases c)
              case (Inl stop)
              with a2 Inr False cl show thesis
                by (intro quiet)
                   (auto split: claim_stop.splits sum.splits prod.splits intro: quiet_claim quiet_late)
            next
              case (Inr claimed)
              show thesis
                by (rule sent [OF ck nolimit obs_def _ \<open>settings_for db (d_recipient_task row) = Inr settings\<close>
                      cl [unfolded Inr], of known])
                   (use a2 False cl Inr \<open>list_turn_ids _ _ _ = Inr known\<close> in \<open>auto intro: sym\<close>)
            qed
          qed
        qed
      qed
    qed
  qed
qed

lemma quiet_inv:
  assumes "quiet cf clk now owner ev db db'" "delivery_inv db" shows "delivery_inv db'"
  using assms(1)
proof cases
  case quiet_rate
  then show ?thesis using postpone_inv [OF assms(2)] by (auto simp: reschedule_def CLAIMABLE_states)
next
  case (quiet_claim recipient obs stop)
  then show ?thesis
    using claim_inv [of "record_lifecycle clk obs db" cf clk ev now owner recipient] assms(2)
      delivery_inv_frame [of "record_lifecycle clk obs db" db] by simp
next
  case (quiet_late recipient obs db1 stop r)
  have "delivery_inv db1"
    using claim_inv [of "record_lifecycle clk obs db" cf clk ev now owner recipient] assms(2)
      delivery_inv_frame [of "record_lifecycle clk obs db" db] quiet_late by simp
  then show ?thesis using suppress_inv quiet_late by blast
qed (use assms(2) in \<open>simp_all add: defer_busy_inv withhold_inv withhold_settings_inv delivery_inv_frame [of "record_lifecycle clk _ db" db]\<close>)

lemma send_and_settle_sent:
  "fst (snd (send_and_settle cf adapter clk now row rel obs settings known (n, request, message) db))
     = [(request, d_recipient_thread row, message)]"
  unfolding send_and_settle_def prod.case Let_def
  by (simp split: sum.splits)

lemma attempt_inv:
  assumes "delivery_inv db" shows "delivery_inv (fst (attempt cf adapter clk now owner ev db))"
proof -
  obtain db' sent res where a: "attempt cf adapter clk now owner ev db = (db', sent, res)"
    by (cases "attempt cf adapter clk now owner ev db")
  then show ?thesis
  proof (cases rule: attempt_cases)
    case quiet
    then show ?thesis using quiet_inv assms a by simp
  next
    case (sent row rel settings known db2 claimed obs)
    have "delivery_inv (record_lifecycle clk obs db)"
      using assms delivery_inv_frame [of "record_lifecycle clk obs db" db] by simp
    from send_and_settle_inv [OF this sent(6), of row adapter rel obs settings known]
      attempt_checks_row [OF sent(1)] sent(7) a show ?thesis by (metis fst_conv)
  qed
qed

section \<open>What a quiet attempt leaves alone\<close>

lemma claim_stop_frame:
  assumes "claim cf clk ev now owner recipient db = (db', Inl stop)"
  shows "attempts db' = attempts db \<and> attempt_messages db' = attempt_messages db
    \<and> recipient_rates db' = recipient_rates db"
proof -
  have s: "attempts db1 = attempts db \<and> attempt_messages db1 = attempt_messages db
      \<and> recipient_rates db1 = recipient_rates db"
    if "suppress_if_superseded clk ev db = Inr (db1, r)" for db1 r
    using that by (rule suppress_cases) simp_all
  show ?thesis
  proof (cases "suppress_if_superseded clk ev db")
    case (Inl e)
    then show ?thesis using assms by (simp add: claim_def)
  next
    case (Inr p)
    obtain db1 r where p: "p = (db1, r)" by (cases p)
    have "db' = db1"
      using assms unfolding claim_def Inr p
      by (cases r; cases "claim_in cf clk ev now owner recipient db1"; auto)
    with s Inr p show ?thesis by simp
  qed
qed

lemma quiet_frame:
  assumes "quiet cf clk now owner ev db db'"
  shows "attempts db' = attempts db \<and> attempt_messages db' = attempt_messages db
    \<and> recipient_rates db' = recipient_rates db"
  using assms
proof cases
  case (quiet_claim recipient obs stop)
  then show ?thesis using claim_stop_frame [OF quiet_claim] by simp
next
  case (quiet_late recipient obs db1 stop r)
  from quiet_late(2) show ?thesis
    by (rule suppress_cases) (use claim_stop_frame [OF quiet_late(1)] in simp_all)
qed (simp_all add: reschedule_def postpone_def defer_busy_def withhold_def withhold_settings_def Let_def)

lemma send_and_settle_frame:
  "attempt_messages (fst (send_and_settle cf adapter clk now row rel obs settings known (n, request, message) db))
     = attempt_messages db" (is ?msg)
  "recipient_rates (fst (send_and_settle cf adapter clk now row rel obs settings known (n, request, message) db))
     = recipient_rates db" (is ?rate)
proof -
  have s: "(attempt_messages db2, recipient_rates db2) = (attempt_messages db1, recipient_rates db1)"
    if "settle p clk ev rq rcd facts prev now db1 = Inr db2" for p ev rq rcd facts prev db1 db2
    using settle_frame [OF that] by simp
  show ?msg ?rate
    by (rule send_and_settle_preserves [of "\<lambda>x. attempt_messages x = attempt_messages db"]
          send_and_settle_preserves [of "\<lambda>x. recipient_rates x = recipient_rates db"]; use s in simp)+
qed

section \<open>Properties\<close>


text \<open>A store with one deliverable event, and a host and a configuration to run it with.\<close>

definition demo_id :: string where
  "demo_id = replicate 32 (CHR ''a'')"

definition demo_settings :: json where
  "demo_settings = JObj [(''sandbox'', JObj [(''type'', JStr ''readOnly'')]),
     (''approvalPolicy'', JStr ''never''), (''cwd'', JStr ''/work''),
     (''runtimeWorkspaceRoots'', JList []), (''model'', JStr ''m''), (''reasoningEffort'', JStr ''high''),
     (''environments'', JList [])]"

definition demo_ready :: db where
  "demo_ready = demo_registry\<lparr>events := [demo_event demo_id ''h1'' 1],
     deliveries := [demo_delivery demo_id QUEUED],
     authorized_settings := [\<lparr>st_task = ''parent'', st_settings = demo_settings,
       st_source = ''operator'', st_recorded_at = ''t0''\<rparr>]\<rparr>"

definition demo_config :: config where
  "demo_config = \<lparr>cf_policy = default_policy, cf_require_evidence = True,
     cf_renderer = \<lparr>render_completion = \<lambda>_ _ request _. Inr (''event '' @ request),
       render_revision = \<lambda>_ _ request. Inr (''revise '' @ request),
       compose_revision = \<lambda>_ _ request _. Inr (''revise '' @ request, [])\<rparr>\<rparr>"

lemma demo_ready_inv: "delivery_inv demo_ready"
  by (simp add: delivery_inv_def keys_ok_def numbers_ok_def evidence_ok_def demo_ready_def
      demo_registry_def empty_db_def demo_delivery_def)


text \<open>
  C5: one attempt calls the transport at most once, and then only after its message was frozen in the
  store under a request id never used before: the bytes sent are the frozen ones, to the thread of
  the delivery, which was claimable and due; the recipient was observed deliverable, its settings
  are usable and it is below its rate. An attempt that does not call the transport leaves attempts
  and messages as they were.
\<close>

theorem attempt_sends_frozen:
  assumes "attempt cf adapter clk now owner ev db = (db', sent, res)" and "delivery_inv db"
  shows "(sent = [] \<and> attempts db' = attempts db \<and> attempt_messages db' = attempt_messages db)
    \<or> (\<exists>d r request m settings. sent = [(request, d_recipient_thread d, m_message m)]
        \<and> delivery_of db ev = Some d \<and> d_state d \<in> set CLAIMABLE \<and> due now d
        \<and> {a \<in> set (attempts db). a_event a = ev} \<subseteq> {a. unsent a}
        \<and> request \<notin> a_request ` set (attempts db)
        \<and> m \<in> set (attempt_messages db') \<and> m_request m = request \<and> m_event m = ev
        \<and> get db (d_rel d) = Inr r
        \<and> may_send (observe adapter (d_recipient_thread d)
            (if d_kind d = COMPLETION then r_parent_cwd (rr_row r) else None) (cf_require_evidence cf))
        \<and> settings_for db (d_recipient_task d) = Inr settings
        \<and> \<not> rate_limited (cf_policy cf) db (d_recipient_task d) now)"
  using assms(1)
proof (cases rule: attempt_cases)
  case quiet
  then show ?thesis using quiet_frame by blast
next
  case (sent row rel settings known db2 claimed obs)
  obtain n request message where c: "claimed = (n, request, message)" by (cases claimed)
  let ?db1 = "record_lifecycle clk obs db"
  have inv1: "delivery_inv ?db1" using assms(2) delivery_inv_frame [of ?db1 db] by simp
  note row = attempt_checks_row [OF sent(1)]
  show ?thesis
  proof (rule claim_in_success [OF claim_success [OF sent(6) [unfolded c]] inv_distinct [OF inv1]])
    fix d assume d: "d \<in> set (deliveries ?db1)" "claim_guard ?db1 now ev d"
      and ia: "insert_attempt (frozen_attempt clk (claimed_row cf clk now owner d) request) (attempts ?db1)
         = Inr (attempts db2)"
      and im: "insert_message (frozen_message clk (claimed_row cf clk now owner d) request message)
         (attempt_messages ?db1) = Inr (attempt_messages db2)"
    define m where "m = frozen_message clk (claimed_row cf clk now owner d) request message"
    have ev: "d_event d = ev" using d(2) by (simp add: claim_guard_def)
    have m: "m_request m = request" "m_message m = message" "m_event m = ev"
      by (simp_all add: m_def frozen_message_def ev)
    have new: "request \<notin> a_request ` set (attempts db)"
      using insert_attempt_Inr [OF ia] by (simp add: frozen_attempt_def)
    have "attempt_messages db' = attempt_messages db2"
      using send_and_settle_frame(1) sent(7) c by (metis fst_conv)
    then have min: "m \<in> set (attempt_messages db')" using insert_message_Inr [OF im] by (simp add: m_def)
    have "sent = [(request, d_recipient_thread row, m_message m)]"
      using send_and_settle_sent sent(7) c m(2) by (metis fst_conv snd_conv)
    moreover have "{a \<in> set (attempts db). a_event a = ev} \<subseteq> {a. unsent a}"
      using inv_evidence(1) [OF assms(2), of row] row by auto
    ultimately show ?thesis
      using row min m new sent(2-5) by blast
  qed
qed

theorem attempt_sends_frozen_witness:
  "\<exists>db' request message res.
     attempt demo_config idle_host demo_clock 1000 ''w'' demo_id demo_ready
       = (db', [(request, ''parent'', message)], res)
     \<and> message \<in> m_message ` set (attempt_messages db')"
proof -
  have "(case attempt demo_config idle_host demo_clock 1000 ''w'' demo_id demo_ready of
      (_, [(_, t, _)], _) \<Rightarrow> t = ''parent'' | _ \<Rightarrow> False)" by code_simp
  moreover obtain db' sent res where
    s: "attempt demo_config idle_host demo_clock 1000 ''w'' demo_id demo_ready = (db', sent, res)"
    by (rule prod_cases3)
  ultimately obtain request message where "sent = [(request, ''parent'', message)]"
    by (cases sent; cases "tl sent"; auto)
  with s have a: "attempt demo_config idle_host demo_clock 1000 ''w'' demo_id demo_ready
       = (db', [(request, ''parent'', message)], res)" by simp
  from attempt_sends_frozen [OF a demo_ready_inv] a show ?thesis by force
qed

section \<open>The send rate of a recipient\<close>

definition total_sends :: "db \<Rightarrow> int" where
  "total_sends db = sum_list (map rt_sends (recipient_rates db))"

definition rates_ok :: "RetryPolicy \<Rightarrow> db \<Rightarrow> bool" where
  "rates_ok p db = (distinct (map rate_key (recipient_rates db))
     \<and> list_all (\<lambda>rt. rt_sends rt \<le> max_sends_per_recipient_per_hour p) (recipient_rates db))"

lemma sum_update_one:
  fixes f :: "'r \<Rightarrow> int"
  assumes "distinct (map k t)" "v \<in> set (map k t)" "\<And>x. f (m x) = f x + 1"
  shows "sum_list (map f (update_where (\<lambda>x. k x = v) m t)) = sum_list (map f t) + 1"
  using assms(1,2)
proof (induction t)
  case (Cons x t)
  show ?case
  proof (cases "k x = v")
    case True
    then have "v \<notin> set (map k t)" using Cons.prems(1) by auto
    then have "update_where (\<lambda>x. k x = v) m t = t" by (intro update_where_none) auto
    then show ?thesis using True assms(3) by simp
  qed (use Cons in auto)
qed simp

lemma count_send_total:
  assumes "distinct (map rate_key (recipient_rates db))"
  shows "total_sends (count_send recipient now db) = total_sends db + 1"
  using assms sum_update_one [OF assms, of "(recipient, window_of now)" rt_sends
      "\<lambda>rt. rt\<lparr>rt_sends := rt_sends rt + 1, rt_last_send_at := Some now\<rparr>"]
  by (simp add: total_sends_def count_send_def upsert_def rate_key_def)

lemma count_send_distinct:
  "distinct (map rate_key (recipient_rates db)) \<Longrightarrow>
     distinct (map rate_key (recipient_rates (count_send recipient now db)))"
  by (simp add: count_send_def, rule distinct_upsert) (simp_all add: rate_key_def)

lemma count_send_other:
  assumes "rt \<in> set (recipient_rates (count_send recipient now db))" "rate_key rt \<noteq> (recipient, window_of now)"
  shows "rt \<in> set (recipient_rates db)"
  using assms by (auto simp: count_send_def upsert_def set_update_where rate_key_def split: if_splits)

lemma claim_rates:
  assumes "claim cf clk ev now owner recipient db = (db', Inr (n, request, message))"
    and "distinct (map d_event (deliveries db))" "rates_ok (cf_policy cf) db"
  shows "rates_ok (cf_policy cf) db' \<and> total_sends db' = total_sends db + 1"
proof -
  show ?thesis
  proof (rule claim_in_success [OF claim_success [OF assms(1)] assms(2)])
    assume r: "recipient_rates db' = recipient_rates (count_send recipient now db)"
      and below: "\<And>rt. rate_of db' recipient now = Some rt \<Longrightarrow>
         rt_sends rt \<le> max_sends_per_recipient_per_hour (cf_policy cf)"
    have dist: "distinct (map rate_key (recipient_rates db'))"
      using count_send_distinct assms(3) by (simp add: r rates_ok_def)
    have "rt_sends rt \<le> max_sends_per_recipient_per_hour (cf_policy cf)" if "rt \<in> set (recipient_rates db')" for rt
    proof (cases "rate_key rt = (recipient, window_of now)")
      case True
      with find_key [OF dist that] have "rate_of db' recipient now = Some rt" by (simp add: rate_of_def)
      then show ?thesis by (rule below)
    next
      case False
      then have "rt \<in> set (recipient_rates db)" using that count_send_other by (simp add: r)
      then show ?thesis using assms(3) by (simp add: rates_ok_def list_all_iff)
    qed
    moreover have "total_sends db' = total_sends db + 1"
      using count_send_total [of db recipient now] assms(3) by (simp add: total_sends_def r rates_ok_def)
    ultimately show ?thesis using dist by (simp add: rates_ok_def list_all_iff)
  qed
qed

text \<open>
  every call of the transport is counted, once, against its recipient and hour, and no
  recipient is ever counted above the hourly bound of the policy.
\<close>

theorem sends_are_counted:
  assumes "attempt cf adapter clk now owner ev db = (db', sent, res)"
    and "delivery_inv db" and "rates_ok (cf_policy cf) db"
  shows "rates_ok (cf_policy cf) db' \<and> total_sends db' = total_sends db + int (length sent)"
  using assms(1)
proof (cases rule: attempt_cases)
  case quiet
  then show ?thesis using quiet_frame [OF quiet(2)] assms(3) by (simp add: rates_ok_def total_sends_def)
next
  case (sent row rel settings known db2 claimed obs)
  obtain n request message where c: "claimed = (n, request, message)" by (cases claimed)
  have same: "rates_ok p x = rates_ok p y \<and> total_sends x = total_sends y"
    if "recipient_rates x = recipient_rates y" for p x y
    using that by (simp add: rates_ok_def total_sends_def)
  have "recipient_rates db' = recipient_rates db2"
    using send_and_settle_frame(2) sent(7) c by (metis fst_conv)
  moreover have "rates_ok (cf_policy cf) db2 \<and> total_sends db2 = total_sends (record_lifecycle clk obs db) + 1"
    by (rule claim_rates [OF sent(6) [unfolded c]])
       (use assms(2,3) inv_distinct [OF assms(2)] same [of "record_lifecycle clk obs db" db] in simp_all)
  moreover have "length sent = 1"
    using send_and_settle_sent sent(7) c by (metis One_nat_def fst_conv length_Cons list.size(3) snd_conv)
  ultimately show ?thesis using same [of db' db2] same [of "record_lifecycle clk obs db" db] by simp
qed

theorem sends_are_counted_witness:
  "\<exists>db' sent res. attempt demo_config idle_host demo_clock 1000 ''w'' demo_id demo_ready = (db', sent, res)
     \<and> total_sends db' = int (length sent)"
proof -
  obtain db' sent res where
    s: "attempt demo_config idle_host demo_clock 1000 ''w'' demo_id demo_ready = (db', sent, res)"
    by (rule prod_cases3)
  from sends_are_counted [OF s demo_ready_inv] s show ?thesis
    by (simp add: rates_ok_def total_sends_def demo_ready_def demo_registry_def empty_db_def)
qed

end
