(* ===== verification/Reconcile.thy ===== *)
theory Reconcile
  imports Delivery_Safety
begin

text \<open>
  \<^verbatim>\<open>reconcile.py\<close>: finding out what happened to a send whose outcome is not known. Each attempt is
  looked at in a fixed order, the receipt of its request first and the recipient's items second,
  and its outcome is written to the attempt and, when the attempt is the delivery's current one, to
  the delivery. The prose of an error the relay itself raised while settling from a scan is not kept
  in the scan column, only its class.
\<close>

section \<open>Texts\<close>

definition evidence_str :: "evidence \<Rightarrow> string" where
  "evidence_str e = (case e of TURN_FOUND \<Rightarrow> ''turn_found'' | RECEIPT_TURN_ID \<Rightarrow> ''receipt_turn_id''
     | CONFIRMED_PRE_SEND_REJECTION \<Rightarrow> ''confirmed_pre_send_rejection'' | NONE \<Rightarrow> ''none'')"

definition bool_str :: "bool \<Rightarrow> string" where
  "bool_str b = (if b then ''True'' else ''False'')"

text \<open>\<^verbatim>\<open>p in s\<close> on strings.\<close>

fun contains_text :: "string \<Rightarrow> string \<Rightarrow> bool" where
  "contains_text p [] = (p = [])"
| "contains_text p (c # s) = (starts_with p (c # s) \<or> contains_text p s)"

section \<open>What is unresolved\<close>

text \<open>\<^verbatim>\<open>Reconciler.UNRESOLVED\<close>, joined to the delivery and its relationship.\<close>

definition unresolved :: "db \<Rightarrow> attempt_row \<Rightarrow> bool" where
  "unresolved db a = (case delivery_of db (a_event a) of
       None \<Rightarrow> False
     | Some d \<Rightarrow> relationship_of db (d_rel d) \<noteq> None
         \<and> (a_internal_state a = IN_FLIGHT
            \<or> (a_state a = Some HELD_UNCERTAIN \<and> d_state d \<in> {HELD_UNCERTAIN, SENDING})))"

definition attempt_parent :: "db \<Rightarrow> attempt_row \<Rightarrow> string" where
  "attempt_parent db a = (case delivery_of db (a_event a) of None \<Rightarrow> [] | Some d \<Rightarrow> parent_of db d)"

definition open_attempts ::
  "db \<Rightarrow> nat option \<Rightarrow> string list \<Rightarrow> nat \<Rightarrow> attempt_row list" where
  "open_attempts db limit parents offset =
     (let rows = sort_key a_observed_at (filter (\<lambda>a. unresolved db a
            \<and> (parents = [] \<or> attempt_parent db a \<in> set parents)) (attempts db))
      in case limit of None \<Rightarrow> rows | Some n \<Rightarrow> take n (drop offset rows))"

definition open_attempt_count :: "db \<Rightarrow> string \<Rightarrow> nat" where
  "open_attempt_count db parent =
     length (filter (\<lambda>a. unresolved db a \<and> attempt_parent db a = parent) (attempts db))"

definition open_parents :: "db \<Rightarrow> string list" where
  "open_parents db = sort (remdups (map (attempt_parent db) (filter (unresolved db) (attempts db))))"

section \<open>Writing an outcome\<close>

text \<open>Only the delivery's current attempt may move the delivery.\<close>

definition is_current :: "attempt_row \<Rightarrow> delivery_row \<Rightarrow> bool" where
  "is_current a d = (a_no a = d_attempt_count d \<and> d_state d \<notin> {DISPATCHED, ACKNOWLEDGED, SUPERSEDED})"

definition unfinished_record :: "attempt_row \<Rightarrow> delivery_row \<Rightarrow> string \<Rightarrow> AttemptRecord" where
  "unfinished_record a d observed = \<lparr>requestId = a_request a, eventId = a_event a,
     attemptNo = a_no a, recipientTaskId = d_recipient_task d, deliveryState = HELD_UNCERTAIN,
     sendAttempted = Send_unknown, retrySafe = False, observedAt = observed,
     recipientStatusBefore = ''unknown'', recipientApprovalPolicy = JNull,
     transportReceiptStatus = UNFINISHED, failedOperation = None, turnId = None,
     record_reconciliation = None\<rparr>"

text \<open>The arguments of \<^verbatim>\<open>_write\<close>.\<close>

record outcome_write =
  ow_record :: AttemptRecord
  ow_state :: delivery_state
  ow_evidence :: evidence
  ow_observation :: string
  ow_scan :: string
  ow_next :: "rat option"
  ow_hold :: "string option"
  ow_aggregate :: delivery_state
  ow_dispatch_evidence :: "string option"
  ow_dispatch_turn :: "string option"

definition bind_promoted_anchor ::
  "clock \<Rightarrow> attempt_row \<Rightarrow> delivery_row \<Rightarrow> string option \<Rightarrow> db \<Rightarrow> err + db \<times> bind_outcome option" where
  "bind_promoted_anchor clk a d dispatch_turn db =
     (let turn = (if truthy_text dispatch_turn then dispatch_turn else d_dispatch_turn d)
      in if d_kind d \<noteq> REVISION \<or> \<not> truthy_text turn then Inr (db, None)
         else case event_of db (a_event a) of
             None \<Rightarrow> Inr (db, None)
           | Some e \<Rightarrow> bindE (bind_anchor_in clk (e_rel e) (e_gen e) turn ''dispatch_receipt'' db)
               (\<lambda>(db', out). Inr (db', Some out)))"

text \<open>
  The guard of the promoting update; it is evaluated against the store inside the transaction,
  while \<open>is_current\<close> was evaluated against the rows read before it.
\<close>

definition promotable :: "attempt_row \<Rightarrow> delivery_row \<Rightarrow> bool" where
  "promotable a d = (d_event d = a_event a \<and> d_attempt_count d = a_no a
     \<and> d_state d \<notin> {DISPATCHED, ACKNOWLEDGED, SUPERSEDED})"

definition promoted_row :: "clock \<Rightarrow> delivery_row \<Rightarrow> outcome_write \<Rightarrow> delivery_row \<Rightarrow> delivery_row" where
  "promoted_row clk d w x = x\<lparr>d_state := ow_aggregate w, d_next_eligible_at := ow_next w,
     d_hold_reason := ow_hold w,
     d_dispatch_evidence := (if truthy_text (ow_dispatch_evidence w) then ow_dispatch_evidence w
        else d_dispatch_evidence d),
     d_dispatch_turn := (case ow_dispatch_turn w of Some t \<Rightarrow> Some t | None \<Rightarrow> d_dispatch_turn x),
     d_lease_owner := None, d_lease_until := None, d_updated_at := clk_iso clk\<rparr>"

definition settled_row :: "clock \<Rightarrow> outcome_write \<Rightarrow> attempt_row \<Rightarrow> attempt_row" where
  "settled_row clk w x = x\<lparr>a_internal_state := SETTLED, a_state := Some (ow_state w),
     a_record := Some (ow_record w), a_operation_observation := Some (ow_observation w),
     a_recipient_scan := Some (ow_scan w), a_affirmative_evidence := Some (ow_evidence w),
     a_reconciled_at := Some (clk_iso clk)\<rparr>"

definition write_outcome ::
  "clock \<Rightarrow> attempt_row \<Rightarrow> delivery_row \<Rightarrow> outcome_write \<Rightarrow> db \<Rightarrow> err + db \<times> bind_outcome option" where
  "write_outcome clk a d w db =
     (let current = is_current a d;
          db1 = db\<lparr>attempts := update_where (\<lambda>x. a_request x = a_request a) (settled_row clk w) (attempts db)\<rparr>;
          promoted = (if current then rowcount (promotable a) (deliveries db) else 0);
          db2 = (if current then db1\<lparr>deliveries :=
                   update_where (promotable a) (promoted_row clk d w) (deliveries db1)\<rparr> else db1)
      in bindE (if current \<and> promoted = 1 \<and> ow_aggregate w = DISPATCHED
                then bind_promoted_anchor clk a d (ow_dispatch_turn w) db2 else Inr (db2, None))
           (\<lambda>(db3, anchor). Inr (journal_entry ''reconciled'' (a_request a)
              (JObj [(''evidence'', JStr (evidence_str (ow_evidence w))),
                 (''state'', JStr (delivery_state_str (ow_aggregate w)))]) (clk_iso clk) db3, anchor)))"

section \<open>The outcomes\<close>

record reconciled =
  rc_evidence :: evidence
  rc_state :: delivery_state
  rc_record :: AttemptRecord
  rc_anchor :: "bind_outcome option"

definition reconciliation_of :: "clock \<Rightarrow> bool \<Rightarrow> evidence \<Rightarrow> reconciliation" where
  "reconciliation_of clk scanned evidence = \<lparr>operationReceiptChecked = True,
     recipientTurnsChecked = scanned, affirmativeEvidence = evidence, checkedAt = clk_iso clk\<rparr>"

definition settle_from_receipt ::
  "RetryPolicy \<Rightarrow> clock \<Rightarrow> attempt_row \<Rightarrow> delivery_row \<Rightarrow> TransportFacts \<Rightarrow> evidence \<Rightarrow> string \<Rightarrow> rat
     \<Rightarrow> db \<Rightarrow> err + db \<times> reconciled" where
  "settle_from_receipt p clk a d facts evidence observation now db =
     bindE (attempt_record facts (a_request a) (a_event a) (a_no a) (d_recipient_task d) ''unknown''
         (clk_iso clk) (Some (reconciliation_of clk False evidence))) (\<lambda>rcd.
       let reason = (if delivery_state facts = DEFERRED_BUSY then ''busy'' else ''presend'');
           capped = (retry_safe facts \<and> cap_for p reason \<le> a_no a);
           w = \<lparr>ow_record = rcd, ow_state = delivery_state facts, ow_evidence = evidence,
             ow_observation = observation, ow_scan = ''not scanned'',
             ow_next = (if retry_safe facts \<and> \<not> capped
                then Some (now + delay_for p (a_no a + 1) reason) else None),
             ow_hold = (if capped then Some (cap_reason reason) else None),
             ow_aggregate = delivery_state facts,
             ow_dispatch_evidence = (if delivery_state facts = DISPATCHED
                then Some ''transport_accepted'' else None),
             ow_dispatch_turn = turn_id facts\<rparr>
       in bindE (write_outcome clk a d w db) (\<lambda>(db', anchor).
            Inr (db', \<lparr>rc_evidence = evidence, rc_state = delivery_state facts, rc_record = rcd,
              rc_anchor = anchor\<rparr>)))"

text \<open>The stored record of the attempt, or the projection of one that never settled.\<close>

definition stored_record :: "clock \<Rightarrow> attempt_row \<Rightarrow> delivery_row \<Rightarrow> AttemptRecord" where
  "stored_record clk a d = (case a_record a of Some r \<Rightarrow> r
     | None \<Rightarrow> unfinished_record a d (clk_iso clk))"

definition settle_from_scan ::
  "clock \<Rightarrow> attempt_row \<Rightarrow> delivery_row \<Rightarrow> TokenScan \<Rightarrow> string \<Rightarrow> string \<Rightarrow> db \<Rightarrow> err + db \<times> reconciled" where
  "settle_from_scan clk a d scan observation detail db =
     (let rcd = (stored_record clk a d)\<lparr>record_reconciliation :=
            Some (reconciliation_of clk True TURN_FOUND)\<rparr>;
          w = \<lparr>ow_record = rcd, ow_state = deliveryState rcd, ow_evidence = TURN_FOUND,
            ow_observation = observation, ow_scan = detail, ow_next = None, ow_hold = None,
            ow_aggregate = DISPATCHED, ow_dispatch_evidence = Some ''turn_found'',
            ow_dispatch_turn = ts_turn_id scan\<rparr>
      in bindE (write_outcome clk a d w db) (\<lambda>(db', anchor).
           Inr (db', \<lparr>rc_evidence = TURN_FOUND, rc_state = DISPATCHED, rc_record = rcd,
             rc_anchor = anchor\<rparr>)))"

definition stay_held ::
  "clock \<Rightarrow> attempt_row \<Rightarrow> delivery_row \<Rightarrow> string \<Rightarrow> string \<Rightarrow> db \<Rightarrow> err + db \<times> reconciled" where
  "stay_held clk a d observation detail db =
     (let rcd = (stored_record clk a d)\<lparr>record_reconciliation :=
            Some (reconciliation_of clk (\<not> contains_text ''not scanned'' detail) NONE)\<rparr>;
          w = \<lparr>ow_record = rcd, ow_state = HELD_UNCERTAIN, ow_evidence = NONE,
            ow_observation = observation, ow_scan = detail, ow_next = None, ow_hold = None,
            ow_aggregate = HELD_UNCERTAIN, ow_dispatch_evidence = None, ow_dispatch_turn = None\<rparr>
      in bindE (write_outcome clk a d w db) (\<lambda>(db', anchor).
           Inr (db', \<lparr>rc_evidence = NONE, rc_state = HELD_UNCERTAIN, rc_record = rcd,
             rc_anchor = None\<rparr>)))"

section \<open>Reconciling one attempt\<close>

definition SCAN_LIMIT :: nat where "SCAN_LIMIT = 200"

definition scan_text :: "TokenScan \<Rightarrow> string" where
  "scan_text s = ''found='' @ bool_str (ts_found s) @ '' exhausted='' @ bool_str (ts_exhausted s)
     @ '' scanned='' @ nat_str (ts_scanned s)"

definition scan_recipient ::
  "host \<Rightarrow> clock \<Rightarrow> attempt_row \<Rightarrow> delivery_row \<Rightarrow> string \<Rightarrow> db \<Rightarrow> err + db \<times> reconciled" where
  "scan_recipient adapter clk a d observation db =
     (case find_token adapter (d_recipient_thread d) (a_request a) SCAN_LIMIT of
        Inl error \<Rightarrow> stay_held clk a d observation (''unreadable: '' @ error) db
      | Inr scan \<Rightarrow>
          if ts_found scan
          then (case settle_from_scan clk a d scan observation (scan_text scan) db of
                  Inr settled \<Rightarrow> Inr settled
                | Inl _ \<Rightarrow> stay_held clk a d observation ''unreadable: RegistrationError'' db)
          else stay_held clk a d observation (scan_text scan) db)"

definition reconcile_attempt ::
  "RetryPolicy \<Rightarrow> host \<Rightarrow> clock \<Rightarrow> rat \<Rightarrow> string \<Rightarrow> db \<Rightarrow> err + db \<times> reconciled" where
  "reconcile_attempt p adapter clk now request db =
     (case attempt_of db request of
        None \<Rightarrow> Inl KeyError
      | Some a \<Rightarrow>
          bindE (find_or_refuse db (a_event a)) (\<lambda>d.
            case get_operation adapter request of
              Inl error \<Rightarrow> scan_recipient adapter clk a d (''unreadable: '' @ error) db
            | Inr None \<Rightarrow> scan_recipient adapter clk a d ''missing'' db
            | Inr (Some receipt) \<Rightarrow>
                bindE (classify_operation_receipt receipt) (\<lambda>facts.
                  let observation = receipt_status_str (transport_receipt_status facts) @ '':''
                        @ delivery_state_str (delivery_state facts)
                  in if delivery_state facts = DISPATCHED
                     then settle_from_receipt p clk a d facts RECEIPT_TURN_ID observation now db
                     else if retry_safe facts
                     then settle_from_receipt p clk a d facts CONFIRMED_PRE_SEND_REJECTION observation now db
                     else scan_recipient adapter clk a d
                       (if transport_receipt_status facts \<noteq> UNFINISHED
                        then observation @ '' (not affirmative)'' else observation) db)))"

section \<open>Restart\<close>

fun reconcile_each ::
  "RetryPolicy \<Rightarrow> host \<Rightarrow> clock \<Rightarrow> rat \<Rightarrow> attempt_row list \<Rightarrow> db \<Rightarrow> db \<times> (err + (string \<times> reconciled) list)"
where
  "reconcile_each p adapter clk now [] db = (db, Inr [])"
| "reconcile_each p adapter clk now (a # rest) db =
     (case reconcile_attempt p adapter clk now (a_request a) db of
        Inl e \<Rightarrow> (db, Inl e)
      | Inr (db1, outcome) \<Rightarrow>
          (case reconcile_each p adapter clk now rest db1 of
             (db2, Inl e) \<Rightarrow> (db2, Inl e)
           | (db2, Inr outcomes) \<Rightarrow> (db2, Inr ((a_request a, outcome) # outcomes))))"

record recovery =
  rv_reconciled :: "(string \<times> reconciled) list"
  rv_held_uncertain :: "string list"
  rv_awaiting_ack :: "string list"

definition awaiting_ack :: "db \<Rightarrow> string list" where
  "awaiting_ack db = map d_event (filter (\<lambda>d. d_state d = DISPATCHED \<and> d_kind d = COMPLETION
     \<and> ack_of db (d_event d) = None) (deliveries db))"

definition recover_on_start ::
  "RetryPolicy \<Rightarrow> host \<Rightarrow> clock \<Rightarrow> rat \<Rightarrow> db \<Rightarrow> db \<times> (err + recovery)" where
  "recover_on_start p adapter clk now db =
     (case reconcile_each p adapter clk now (open_attempts db None [] 0) db of
        (db', Inl e) \<Rightarrow> (db', Inl e)
      | (db', Inr outcomes) \<Rightarrow> (db', Inr \<lparr>rv_reconciled = outcomes,
          rv_held_uncertain = map fst (filter (\<lambda>o1. rc_state (snd o1) = HELD_UNCERTAIN) outcomes),
          rv_awaiting_ack = awaiting_ack db'\<rparr>))"

section \<open>What one write does\<close>

lemma bind_row_frame [simp]:
  "deliveries (bind_row rid n turn stamp db) = deliveries db"
  "attempts (bind_row rid n turn stamp db) = attempts db"
  "attempt_messages (bind_row rid n turn stamp db) = attempt_messages db"
  "recipient_rates (bind_row rid n turn stamp db) = recipient_rates db"
  "events (bind_row rid n turn stamp db) = events db"
  "relationships (bind_row rid n turn stamp db) = relationships db"
  "acks (bind_row rid n turn stamp db) = acks db"
  "verdicts (bind_row rid n turn stamp db) = verdicts db"
  by (simp_all add: bind_row_def)

lemma bind_anchor_in_frame:
  assumes "bind_anchor_in clk rid n turn src db = Inr (db', out)"
  shows "deliveries db' = deliveries db \<and> attempts db' = attempts db
    \<and> attempt_messages db' = attempt_messages db \<and> recipient_rates db' = recipient_rates db
    \<and> events db' = events db \<and> relationships db' = relationships db \<and> acks db' = acks db
    \<and> verdicts db' = verdicts db"
proof (cases "src = ''dispatch_receipt''")
  case True
  then obtain val where v: "validated_turn_id turn = Inr val"
    using assms by (auto simp: bind_anchor_in_def)
  show ?thesis
  proof (cases val)
    case None
    with True v assms show ?thesis by (simp add: bind_anchor_in_def)
  next
    case (Some t)
    with True v assms show ?thesis
      by (cases "generation_row_of db rid n") (auto simp: bind_anchor_in_def split: if_splits)
  qed
qed (use assms in \<open>simp add: bind_anchor_in_def\<close>)

lemma bind_promoted_frame:
  assumes "bind_promoted_anchor clk a d turn db = Inr (db', out)"
  shows "deliveries db' = deliveries db \<and> attempts db' = attempts db
    \<and> attempt_messages db' = attempt_messages db \<and> recipient_rates db' = recipient_rates db
    \<and> events db' = events db \<and> relationships db' = relationships db \<and> acks db' = acks db
    \<and> verdicts db' = verdicts db"
  using assms bind_anchor_in_frame
  by (auto simp: bind_promoted_anchor_def Let_def split: if_splits option.splits)

text \<open>The rows a write changes: the attempt itself, and its delivery when the attempt is current.\<close>

lemma write_outcome_rows:
  assumes "write_outcome clk a d w db = Inr (db', anchor)"
  shows "attempts db' = update_where (\<lambda>x. a_request x = a_request a) (settled_row clk w) (attempts db)"
    and "deliveries db' = update_where (\<lambda>x. is_current a d \<and> promotable a x) (promoted_row clk d w) (deliveries db)"
    and "attempt_messages db' = attempt_messages db" and "recipient_rates db' = recipient_rates db"
    and "events db' = events db" and "relationships db' = relationships db" and "acks db' = acks db"
    and "verdicts db' = verdicts db"
proof -
  define db1 where "db1 = db\<lparr>attempts := update_where (\<lambda>x. a_request x = a_request a) (settled_row clk w) (attempts db)\<rparr>"
  define db2 where "db2 = (if is_current a d then db1\<lparr>deliveries :=
                   update_where (promotable a) (promoted_row clk d w) (deliveries db1)\<rparr> else db1)"
  obtain db3 anc detail where b: "(if is_current a d
        \<and> (if is_current a d then rowcount (promotable a) (deliveries db) else 0) = 1 \<and> ow_aggregate w = DISPATCHED
     then bind_promoted_anchor clk a d (ow_dispatch_turn w) db2 else Inr (db2, None)) = Inr (db3, anc)"
    and db': "db' = journal_entry ''reconciled'' (a_request a) detail (clk_iso clk) db3"
    using assms unfolding write_outcome_def Let_def db1_def [symmetric] db2_def [symmetric] by auto
  have f: "deliveries db3 = deliveries db2 \<and> attempts db3 = attempts db2
    \<and> attempt_messages db3 = attempt_messages db2 \<and> recipient_rates db3 = recipient_rates db2
    \<and> events db3 = events db2 \<and> relationships db3 = relationships db2 \<and> acks db3 = acks db2
    \<and> verdicts db3 = verdicts db2"
    using b bind_promoted_frame by (auto split: if_splits)
  have "update_where (\<lambda>x. False) (promoted_row clk d w) t = t" for t by (rule update_where_none) simp
  then show "attempts db' = update_where (\<lambda>x. a_request x = a_request a) (settled_row clk w) (attempts db)"
    "deliveries db' = update_where (\<lambda>x. is_current a d \<and> promotable a x) (promoted_row clk d w) (deliveries db)"
    "attempt_messages db' = attempt_messages db" "recipient_rates db' = recipient_rates db"
    "events db' = events db" "relationships db' = relationships db" "acks db' = acks db"
    "verdicts db' = verdicts db"
    using f by (simp_all add: db' db2_def db1_def)
qed

lemma rowcount_key:
  assumes "distinct (map k t)" "d \<in> set t" "P d" "\<And>x. P x \<Longrightarrow> k x = k d"
  shows "rowcount P t = 1"
  using assms(1,2)
proof (induction t)
  case (Cons y t)
  show ?case
  proof (cases "y = d")
    case True
    then have "\<not> P x" if "x \<in> set t" for x
      using that Cons.prems(1) assms(4) by (metis distinct.simps(2) image_eqI list.set_map list.simps(9))
    then have "filter P t = []" by (simp add: filter_empty_conv)
    then show ?thesis using True assms(3) by (simp add: rowcount_def)
  next
    case False
    then have "d \<in> set t" using Cons.prems(2) by simp
    moreover have "\<not> P y" using assms(4) Cons.prems(1) \<open>d \<in> set t\<close> by (metis distinct.simps(2) image_eqI list.set_map list.simps(9))
    ultimately show ?thesis using Cons by (simp add: rowcount_def)
  qed
qed simp

text \<open>A write that promotes the current attempt binds the generation it anchors.\<close>

lemma write_outcome_promoting:
  assumes "write_outcome clk a d w db = Inr (db', anchor)" "is_current a d"
    and "rowcount (promotable a) (deliveries db) = 1" "ow_aggregate w = DISPATCHED"
  shows "\<exists>db3 anc detail. bind_promoted_anchor clk a d (ow_dispatch_turn w)
      (db\<lparr>attempts := update_where (\<lambda>x. a_request x = a_request a) (settled_row clk w) (attempts db),
         deliveries := update_where (promotable a) (promoted_row clk d w) (deliveries db)\<rparr>) = Inr (db3, anc)
    \<and> db' = journal_entry ''reconciled'' (a_request a) detail (clk_iso clk) db3"
proof -
  define db2 where "db2 = db\<lparr>attempts := update_where (\<lambda>x. a_request x = a_request a) (settled_row clk w) (attempts db),
      deliveries := update_where (promotable a) (promoted_row clk d w) (deliveries db)\<rparr>"
  define detail where "detail = JObj [(''evidence'', JStr (evidence_str (ow_evidence w))),
                 (''state'', JStr (delivery_state_str (ow_aggregate w)))]"
  have "write_outcome clk a d w db = bindE (bind_promoted_anchor clk a d (ow_dispatch_turn w) db2)
      (\<lambda>(db3, anc). Inr (journal_entry ''reconciled'' (a_request a) detail (clk_iso clk) db3, anc))"
    unfolding write_outcome_def Let_def detail_def db2_def using assms(2-4) by simp
  with assms(1) obtain db3 anc where "bind_promoted_anchor clk a d (ow_dispatch_turn w) db2 = Inr (db3, anc)"
    "db' = journal_entry ''reconciled'' (a_request a) detail (clk_iso clk) db3"
    by (cases "bind_promoted_anchor clk a d (ow_dispatch_turn w) db2") auto
  then show ?thesis unfolding db2_def by blast
qed

text \<open>A write fails only while it promotes a revision whose turn id is blank.\<close>

lemma write_outcome_ok: "ow_aggregate w \<noteq> DISPATCHED \<Longrightarrow> \<exists>db'. write_outcome clk a d w db = Inr (db', None)"
  by (simp add: write_outcome_def Let_def)

lemma stay_held_ok: "\<exists>db' rc. stay_held clk a d ob de db = Inr (db', rc)"
proof -
  define w where "w = \<lparr>ow_record = (stored_record clk a d)\<lparr>record_reconciliation :=
            Some (reconciliation_of clk (\<not> contains_text ''not scanned'' de) NONE)\<rparr>, ow_state = HELD_UNCERTAIN,
            ow_evidence = NONE, ow_observation = ob, ow_scan = de, ow_next = None, ow_hold = None,
            ow_aggregate = HELD_UNCERTAIN, ow_dispatch_evidence = None, ow_dispatch_turn = None\<rparr>"
  have "ow_aggregate w \<noteq> DISPATCHED" by (simp add: w_def)
  then obtain db' where "write_outcome clk a d w db = Inr (db', None)" using write_outcome_ok by blast
  then show ?thesis unfolding stay_held_def Let_def w_def [symmetric] by simp
qed

text \<open>
  What a successful reconciliation wrote, and on what evidence.
\<close>

definition receipt_evidence :: "host \<Rightarrow> string \<Rightarrow> TransportFacts \<Rightarrow> bool" where
  "receipt_evidence adapter request facts =
     (\<exists>receipt. get_operation adapter request = Inr (Some receipt)
        \<and> classify_operation_receipt receipt = Inr facts)"

definition scan_evidence :: "host \<Rightarrow> string \<Rightarrow> string \<Rightarrow> TokenScan \<Rightarrow> bool" where
  "scan_evidence adapter thread request scan =
     (find_token adapter thread request SCAN_LIMIT = Inr scan \<and> ts_found scan)"

inductive wrote :: "host \<Rightarrow> clock \<Rightarrow> rat \<Rightarrow> RetryPolicy \<Rightarrow> attempt_row \<Rightarrow> delivery_row \<Rightarrow> outcome_write \<Rightarrow> bool"
  for adapter :: host and clk :: clock and now :: rat and p :: RetryPolicy and a :: attempt_row
    and d :: delivery_row
where
  wrote_receipt: "receipt_evidence adapter (a_request a) facts \<Longrightarrow>
    ow_evidence w = (if delivery_state facts = DISPATCHED then RECEIPT_TURN_ID else CONFIRMED_PRE_SEND_REJECTION) \<Longrightarrow>
    delivery_state facts = DISPATCHED \<or> retry_safe facts \<Longrightarrow>
    attempt_record facts (a_request a) (a_event a) (a_no a) (d_recipient_task d) ''unknown'' (clk_iso clk) rc
      = Inr (ow_record w) \<Longrightarrow>
    ow_state w = delivery_state facts \<Longrightarrow> ow_aggregate w = delivery_state facts \<Longrightarrow>
    ow_dispatch_turn w = turn_id facts \<Longrightarrow>
    (retry_safe facts \<longrightarrow> cap_for p (if delivery_state facts = DEFERRED_BUSY then ''busy'' else ''presend'') \<le> a_no a
       \<longrightarrow> ow_hold w \<noteq> None) \<Longrightarrow>
    wrote adapter clk now p a d w"
| wrote_scan: "scan_evidence adapter (d_recipient_thread d) (a_request a) scan \<Longrightarrow>
    ow_evidence w = TURN_FOUND \<Longrightarrow> ow_aggregate w = DISPATCHED \<Longrightarrow>
    ow_record w = (stored_record clk a d)\<lparr>record_reconciliation := rc\<rparr> \<Longrightarrow>
    ow_state w = deliveryState (ow_record w) \<Longrightarrow> ow_dispatch_turn w = ts_turn_id scan \<Longrightarrow>
    wrote adapter clk now p a d w"
| wrote_held: "ow_evidence w = NONE \<Longrightarrow> ow_aggregate w = HELD_UNCERTAIN \<Longrightarrow> ow_state w = HELD_UNCERTAIN \<Longrightarrow>
    ow_record w = (stored_record clk a d)\<lparr>record_reconciliation := rc\<rparr> \<Longrightarrow>
    wrote adapter clk now p a d w"

lemma stay_held_wrote:
  assumes "stay_held clk a d ob de db = Inr (db', rc)"
  shows "\<exists>w anchor. write_outcome clk a d w db = Inr (db', anchor) \<and> wrote adapter clk now p a d w
     \<and> rc_evidence rc = ow_evidence w \<and> rc_state rc = ow_aggregate w"
  using assms unfolding stay_held_def Let_def
  by (auto intro!: exI wrote_held [where rc = "Some (reconciliation_of clk (\<not> contains_text ''not scanned'' de) NONE)"])

lemma settle_from_scan_wrote:
  assumes "settle_from_scan clk a d scan ob de db = Inr (db', rc)"
    and "scan_evidence adapter (d_recipient_thread d) (a_request a) scan"
  shows "\<exists>w anchor. write_outcome clk a d w db = Inr (db', anchor) \<and> wrote adapter clk now p a d w
     \<and> rc_evidence rc = ow_evidence w \<and> rc_state rc = ow_aggregate w"
  using assms unfolding settle_from_scan_def Let_def
  by (auto intro!: exI wrote_scan [where rc = "Some (reconciliation_of clk True TURN_FOUND)"])

lemma settle_from_receipt_wrote:
  assumes "settle_from_receipt p clk a d facts ev ob now db = Inr (db', rc)"
    and "receipt_evidence adapter (a_request a) facts" "delivery_state facts = DISPATCHED \<or> retry_safe facts"
    and "ev = (if delivery_state facts = DISPATCHED then RECEIPT_TURN_ID else CONFIRMED_PRE_SEND_REJECTION)"
  shows "\<exists>w anchor. write_outcome clk a d w db = Inr (db', anchor) \<and> wrote adapter clk now p a d w
     \<and> rc_evidence rc = ow_evidence w \<and> rc_state rc = ow_aggregate w"
proof -
  define reason where "reason = (if delivery_state facts = DEFERRED_BUSY then ''busy'' else ''presend'')"
  obtain rcd where r: "attempt_record facts (a_request a) (a_event a) (a_no a) (d_recipient_task d) ''unknown''
       (clk_iso clk) (Some (reconciliation_of clk False ev)) = Inr rcd"
    using assms(1) by (auto simp: settle_from_receipt_def)
  define capped where "capped = (retry_safe facts \<and> cap_for p reason \<le> a_no a)"
  define w where "w = \<lparr>ow_record = rcd, ow_state = delivery_state facts, ow_evidence = ev,
             ow_observation = ob, ow_scan = ''not scanned'',
             ow_next = (if retry_safe facts \<and> \<not> capped
                then Some (now + delay_for p (a_no a + 1) reason) else None),
             ow_hold = (if capped then Some (cap_reason reason) else None),
             ow_aggregate = delivery_state facts,
             ow_dispatch_evidence = (if delivery_state facts = DISPATCHED
                then Some ''transport_accepted'' else None),
             ow_dispatch_turn = turn_id facts\<rparr>"
  obtain anchor where "write_outcome clk a d w db = Inr (db', anchor)" "rc_evidence rc = ev"
    "rc_state rc = delivery_state facts"
    using assms(1) unfolding settle_from_receipt_def r bindE_Inr Let_def reason_def [symmetric]
      capped_def [symmetric] w_def [symmetric] by auto
  moreover have "wrote adapter clk now p a d w"
    by (rule wrote_receipt [OF assms(2) _ assms(3), where rc = "Some (reconciliation_of clk False ev)"])
       (simp_all add: w_def assms(4) [symmetric] r capped_def reason_def)
  ultimately show ?thesis by (intro exI [of _ w]) (simp add: w_def)
qed

lemma scan_recipient_wrote:
  assumes "scan_recipient adapter clk a d ob db = Inr (db', rc)"
  shows "\<exists>w anchor. write_outcome clk a d w db = Inr (db', anchor) \<and> wrote adapter clk now p a d w
     \<and> rc_evidence rc = ow_evidence w \<and> rc_state rc = ow_aggregate w"
proof (cases "find_token adapter (d_recipient_thread d) (a_request a) SCAN_LIMIT")
  case (Inl e)
  then show ?thesis using assms stay_held_wrote by (simp add: scan_recipient_def)
next
  case (Inr scan)
  show ?thesis
  proof (cases "ts_found scan")
    case True
    then have ev: "scan_evidence adapter (d_recipient_thread d) (a_request a) scan"
      using Inr by (simp add: scan_evidence_def)
    show ?thesis
      using assms Inr True stay_held_wrote settle_from_scan_wrote [OF _ ev]
      by (cases "settle_from_scan clk a d scan ob (scan_text scan) db") (simp_all add: scan_recipient_def)
  next
    case False
    then show ?thesis using assms Inr stay_held_wrote by (simp add: scan_recipient_def)
  qed
qed

lemma reconcile_wrote:
  assumes "reconcile_attempt p adapter clk now request db = Inr (db', rc)"
  obtains a d w anchor where "attempt_of db request = Some a" "delivery_of db (a_event a) = Some d"
    "a_request a = request"
    "write_outcome clk a d w db = Inr (db', anchor)" "wrote adapter clk now p a d w"
    "rc_evidence rc = ow_evidence w" "rc_state rc = ow_aggregate w"
proof -
  obtain a d where ad: "attempt_of db request = Some a" "delivery_of db (a_event a) = Some d"
    using assms by (auto simp: reconcile_attempt_def find_or_refuse_def split: option.splits)
  have rq: "a_request a = request" using lookup_mem(4) [OF ad(1)] by simp
  note r = assms [unfolded reconcile_attempt_def ad find_or_refuse_def option.case bindE_Inr]
  have "\<exists>w anchor. write_outcome clk a d w db = Inr (db', anchor) \<and> wrote adapter clk now p a d w
     \<and> rc_evidence rc = ow_evidence w \<and> rc_state rc = ow_aggregate w"
  proof (cases "get_operation adapter request")
    case (Inl e)
    with r have "scan_recipient adapter clk a d (''unreadable: '' @ e) db = Inr (db', rc)" by simp
    then show ?thesis by (rule scan_recipient_wrote)
  next
    case (Inr o1)
    show ?thesis
    proof (cases o1)
      case None
      with r Inr have "scan_recipient adapter clk a d ''missing'' db = Inr (db', rc)" by simp
      then show ?thesis by (rule scan_recipient_wrote)
    next
      case (Some receipt)
      with r Inr obtain facts where f: "classify_operation_receipt receipt = Inr facts" by auto
      have ev: "receipt_evidence adapter (a_request a) facts" using Inr Some f rq by (auto simp: receipt_evidence_def)
      show ?thesis
        using r Inr Some f settle_from_receipt_wrote [OF _ ev] scan_recipient_wrote
        by (simp add: Let_def split: if_splits)
    qed
  qed
  with ad rq that show thesis by blast
qed

section \<open>The invariant\<close>

lemma settled_row_key [simp]: "attempt_key (settled_row clk w x) = attempt_key x"
  by (simp add: settled_row_def attempt_key_def)

lemma promoted_row_simps [simp]:
  "d_event (promoted_row clk d w x) = d_event x"
  "d_attempt_count (promoted_row clk d w x) = d_attempt_count x"
  "d_state (promoted_row clk d w x) = ow_aggregate w"
  "d_hold_reason (promoted_row clk d w x) = ow_hold w"
  by (simp_all add: promoted_row_def)

lemma wrote_aggregate:
  assumes "wrote adapter clk now p a d w"
  shows "ow_aggregate w \<in> {DISPATCHED, DEFERRED_BUSY, WITHHELD_PRE_SEND, HELD_UNCERTAIN}"
  using assms
proof cases
  case (wrote_receipt facts rc)
  then show ?thesis using classify_retry_safe by (auto simp: receipt_evidence_def)
qed simp_all

lemma wrote_claimable_unsent:
  assumes "wrote adapter clk now p a d w" "ow_aggregate w \<in> set CLAIMABLE"
  shows "unsent (settled_row clk w x)"
  using assms
proof (cases rule: wrote.cases)
  case (wrote_receipt facts rc)
  then obtain receipt where r: "classify_operation_receipt receipt = Inr facts"
    by (auto simp: receipt_evidence_def)
  show ?thesis
    by (rule unsent_iff_record [OF r wrote_receipt(4)])
       (use wrote_receipt assms(2) in \<open>simp_all add: settled_row_def\<close>)
qed (use assms(2) in \<open>simp_all add: CLAIMABLE_states\<close>)

lemma unresolved_current:
  assumes inv: "delivery_inv db" and a: "attempt_of db request = Some a"
    and d: "delivery_of db (a_event a) = Some d" and open1: "unresolved db a"
  shows "a_no a = d_attempt_count d \<and> d_state d \<notin> set CLAIMABLE"
proof -
  note am = lookup_mem(4) [OF a] and dm = lookup_mem(3) [OF d]
  have nu: "\<not> unsent a"
    using open1 d by (auto simp: unresolved_def unsent_def split: option.splits)
  obtain x where x: "x \<in> set (deliveries db)" "d_event x = a_event a" "a_no a \<le> d_attempt_count x"
    by (rule inv_owner [OF inv, of a]) (use am in auto)
  have "x = d" using key_unique [OF inv_distinct [OF inv] x(1)] dm x(2) by simp
  with x(3) nu inv_evidence(1) [OF inv, of d a] am dm show ?thesis by force
qed

lemma reconcile_inv:
  assumes inv: "delivery_inv db" and rec: "reconcile_attempt p adapter clk now request db = Inr (db', rc)"
    and open1: "attempt_of db request = Some a" "unresolved db a"
  shows "delivery_inv db'"
proof (rule reconcile_wrote [OF rec])
  fix a' d w anchor
  assume a': "attempt_of db request = Some a'" and d: "delivery_of db (a_event a') = Some d"
    and w: "write_outcome clk a' d w db = Inr (db', anchor)" "wrote adapter clk now p a' d w"
  have aa: "a' = a" using a' open1(1) by simp
  note rows = write_outcome_rows [OF w(1)]
  note cur = unresolved_current [OF inv open1(1) d [unfolded aa] open1(2)]
  have am: "a \<in> set (attempts db)" using lookup_mem(4) [OF open1(1)] by simp
  have dm: "d \<in> set (deliveries db)" "d_event d = a_event a" using lookup_mem(3) [OF d] aa by simp_all
  have q: "is_current a d \<and> promotable a d \<longleftrightarrow> d_state d \<notin> {DISPATCHED, ACKNOWLEDGED, SUPERSEDED}"
    using cur dm(2) by (auto simp: is_current_def promotable_def)
  show ?thesis
  proof (rule attempt_write_inv [OF inv am dm _ rows(1) [unfolded aa] rows(3) rows(2) [unfolded aa]])
    show "unsent (settled_row clk w a)"
      if "d_state (if is_current a d \<and> promotable a d then promoted_row clk d w d else d) \<in> set CLAIMABLE"
      using that cur wrote_claimable_unsent [OF w(2)] by (auto split: if_splits)
    show "d_state (if is_current a d \<and> promotable a d then promoted_row clk d w d else d) \<noteq> SENDING"
      using q wrote_aggregate [OF w(2)] by auto
  qed (use cur in \<open>simp_all add: promotable_def\<close>)
qed

text \<open>A turn id read off a receipt is never blank, so promoting on a receipt never fails.\<close>

lemma usable_not_blank: "usable_turn_id v = Some t \<Longrightarrow> \<not> blank t"
  by (auto simp: usable_turn_id_def split: json.splits if_splits)

lemma bind_anchor_in_ok: "\<not> blank t \<Longrightarrow> \<exists>db' o1. bind_anchor_in clk rid n (Some t) src db = Inr (db', o1)"
  by (simp add: bind_anchor_in_def validated_turn_id_def split: option.splits)

lemma write_outcome_turn_ok:
  assumes "ow_dispatch_turn w = Some t" "\<not> blank t"
  shows "\<exists>db' o1. write_outcome clk a d w db = Inr (db', o1)"
proof -
  have "t \<noteq> []" using assms(2) by auto
  then have "\<exists>db' o1. bind_promoted_anchor clk a d (ow_dispatch_turn w) x = Inr (db', o1)" for x
    using bind_anchor_in_ok [OF assms(2)]
    by (fastforce simp: bind_promoted_anchor_def assms(1) Let_def split: option.splits)
  then obtain f g where "bind_promoted_anchor clk a d (ow_dispatch_turn w) x = Inr (f x, g x)" for x
    by metis
  then show ?thesis by (simp add: write_outcome_def Let_def)
qed

lemma settle_from_receipt_ok:
  assumes "classify_operation_receipt receipt = Inr facts"
  shows "\<exists>db' rc. settle_from_receipt p clk a d facts ev ob now db = Inr (db', rc)"
proof -
  obtain rcd where r: "attempt_record facts (a_request a) (a_event a) (a_no a) (d_recipient_task d) ''unknown''
       (clk_iso clk) (Some (reconciliation_of clk False ev)) = Inr rcd"
    using attempt_record_Inr_iff [OF assms] by blast
  have ok: "\<exists>db' o1. write_outcome clk a d w db = Inr (db', o1)"
    if "ow_dispatch_turn w = turn_id facts" "ow_aggregate w = delivery_state facts" for w
  proof (cases "delivery_state facts = DISPATCHED")
    case True
    from assms True obtain t where "turn_id facts = Some t" "\<not> blank t"
      by (cases rule: classify_cases) (auto simp: fact_rows_def fact_row_def usable_not_blank)
    then show ?thesis using write_outcome_turn_ok that(1) by simp
  qed (use write_outcome_ok that(2) in metis)
  define f where "f w = projr (write_outcome clk a d w db)" for w
  have f: "write_outcome clk a d w db = Inr (f w)"
    if "ow_dispatch_turn w = turn_id facts" "ow_aggregate w = delivery_state facts" for w
    using ok [OF that] by (auto simp: f_def)
  show ?thesis unfolding settle_from_receipt_def r bindE_Inr Let_def
    by (simp add: f split: prod.split)
qed

lemma retry_safe_failed:
  assumes "classify_operation_receipt receipt = Inr facts" "retry_safe facts"
  shows "jget receipt ''status'' = JStr ''failed'' \<and> delivery_state facts \<in> {DEFERRED_BUSY, WITHHELD_PRE_SEND}"
  using classify_row [OF assms(1)] classify_status [OF assms(1)] assms(2)
  by (auto simp: fact_row_def fact_rows_def)

lemma dispatched_accepted:
  "classify_operation_receipt receipt = Inr facts \<Longrightarrow> delivery_state facts = DISPATCHED \<Longrightarrow>
     jget receipt ''status'' = JStr ''accepted''"
  by (erule classify_cases) (auto simp: fact_rows_def fact_row_def)

section \<open>Properties\<close>


text \<open>A store whose one attempt was claimed and whose sender then vanished.\<close>

definition demo_inflight :: db where
  "demo_inflight = fst (claim demo_config demo_clock demo_id 1000 ''w'' ''parent'' demo_ready)"

definition demo_request :: string where
  "demo_request = ''del-aaaaaaaaaaaa-a1''"

definition settled_host :: host where
  "settled_host = idle_host\<lparr>get_operation := \<lambda>_. Inr (Some (JObj [(''status'', JStr ''accepted''),
     (''turnId'', JStr ''turn-9'')]))\<rparr>"

definition found_host :: host where
  "found_host = idle_host\<lparr>find_token := \<lambda>_ _ _. Inr \<lparr>ts_found = True, ts_turn_id = Some ''turn-9'',
     ts_exhausted = False, ts_scanned = 12\<rparr>\<rparr>"


text \<open>
  reconciling rewrites the attempt it was asked about and no other, creates none, keeps every
  frozen message, and moves a delivery only when that attempt is its current one and the delivery
  is not already dispatched, acknowledged or superseded.
\<close>

theorem reconcile_moves_only_current:
  assumes "reconcile_attempt p adapter clk now request db = Inr (db', rc)"
    and "x \<in> set (deliveries db)" and "x \<notin> set (deliveries db')"
  shows "(\<exists>a. attempt_of db request = Some a \<and> d_event x = a_event a \<and> d_attempt_count x = a_no a
        \<and> d_state x \<notin> {DISPATCHED, ACKNOWLEDGED, SUPERSEDED})
    \<and> map attempt_key (attempts db') = map attempt_key (attempts db)
    \<and> attempt_messages db' = attempt_messages db
    \<and> {b \<in> set (attempts db). a_request b \<noteq> request} \<subseteq> set (attempts db')"
proof (rule reconcile_wrote [OF assms(1)])
  fix a d w anchor
  assume a: "attempt_of db request = Some a" "a_request a = request"
    and w: "write_outcome clk a d w db = Inr (db', anchor)"
  note rows = write_outcome_rows [OF w]
  have "is_current a d \<and> promotable a x"
  proof (rule ccontr)
    assume "\<not> (is_current a d \<and> promotable a x)"
    with assms(2) have "x \<in> set (deliveries db')" unfolding rows(2) set_update_where by force
    with assms(3) show False ..
  qed
  moreover have "map attempt_key (attempts db') = map attempt_key (attempts db)"
    by (simp add: rows(1) map_update_where)
  moreover have "{b \<in> set (attempts db). a_request b \<noteq> request} \<subseteq> set (attempts db')"
    unfolding rows(1) set_update_where using a(2) by auto
  ultimately show ?thesis using a(1) rows(3) by (auto simp: promotable_def)
qed

theorem reconcile_moves_only_current_witness:
  "\<exists>db' rc. reconcile_attempt default_policy settled_host demo_clock 1000 demo_request demo_inflight = Inr (db', rc)
     \<and> attempt_messages db' = attempt_messages demo_inflight"
proof -
  have "(case reconcile_attempt default_policy settled_host demo_clock 1000 demo_request demo_inflight of
      Inr (db', rc) \<Rightarrow> deliveries demo_inflight \<noteq> [] \<and> hd (deliveries demo_inflight) \<notin> set (deliveries db')
    | _ \<Rightarrow> False)" by code_simp
  then obtain db' rc where
    r: "reconcile_attempt default_policy settled_host demo_clock 1000 demo_request demo_inflight = Inr (db', rc)"
    "deliveries demo_inflight \<noteq> []" "hd (deliveries demo_inflight) \<notin> set (deliveries db')"
    by (auto split: sum.splits prod.splits)
  from reconcile_moves_only_current [OF r(1) _ r(3)] r show ?thesis by simp
qed



text \<open>
  when reconciliation promotes a revision request to dispatched, the generation it asked for is
  bound, in the same commit, to the very turn the delivery now carries.
\<close>

theorem promotion_binds_anchor:
  assumes "reconcile_attempt p adapter clk now request db = Inr (db', rc)" and "rc_state rc = DISPATCHED"
    and "attempt_of db request = Some a" and "delivery_of db (a_event a) = Some d" and "is_current a d"
    and "distinct (map d_event (deliveries db))" and "d_kind d = REVISION"
    and "event_of db (a_event a) = Some e" and "generation_row_of db (e_rel e) (e_gen e) = Some g"
    and "g_anchor_state g = ANCHOR_PENDING"
    and "delivery_of db' (a_event a) = Some d'" and "d_dispatch_turn d' = Some t" and "t \<noteq> []"
  shows "\<exists>g'. generation_row_of db' (e_rel e) (e_gen e) = Some g' \<and> g_anchor_state g' = ANCHOR_BOUND
    \<and> g_dispatch_turn g' = Some t"
proof (rule reconcile_wrote [OF assms(1)])
  fix a' dd w anchor
  assume a': "attempt_of db request = Some a'" and dd: "delivery_of db (a_event a') = Some dd"
    and w: "write_outcome clk a' dd w db = Inr (db', anchor)" and st: "rc_state rc = ow_aggregate w"
  have eq: "a' = a" "dd = d" using a' dd assms(3,4) by simp_all
  note w = w [unfolded eq] and rows = write_outcome_rows [OF w [unfolded eq]]
  have dm: "d \<in> set (deliveries db)" "d_event d = a_event a" using lookup_mem(3) [OF assms(4)] by auto
  have pr: "promotable a d" using assms(5) dm(2) by (simp add: is_current_def promotable_def)
  define db2 where "db2 = db\<lparr>attempts := update_where (\<lambda>x. a_request x = a_request a) (settled_row clk w) (attempts db),
      deliveries := update_where (promotable a) (promoted_row clk d w) (deliveries db)\<rparr>"
  have "rowcount (promotable a) (deliveries db) = 1"
    by (rule rowcount_key [where P = "promotable a", OF assms(6) dm(1) pr]) (simp add: promotable_def dm(2))
  then obtain db3 anc detail where b: "bind_promoted_anchor clk a d (ow_dispatch_turn w) db2 = Inr (db3, anc)"
    and db': "db' = journal_entry ''reconciled'' (a_request a) detail (clk_iso clk) db3"
    using write_outcome_promoting [OF w assms(5)] assms(2) st unfolding db2_def by metis
  have d': "d' = promoted_row clk d w d"
    using assms(4,11) rows(2) pr assms(5) by simp
  have turn: "(if truthy_text (ow_dispatch_turn w) then ow_dispatch_turn w else d_dispatch_turn d) = Some t"
    using assms(12,13) d' by (simp add: promoted_row_def split: option.splits)
  have "\<exists>o1. bind_anchor_in clk (e_rel e) (e_gen e) (Some t) ''dispatch_receipt'' db2 = Inr (db3, o1)"
    using b assms(7,8,13) by (auto simp: bind_promoted_anchor_def turn db2_def Let_def)
  moreover have "generation_row_of db2 (e_rel e) (e_gen e) = Some g" using assms(9) by (simp add: db2_def)
  ultimately have "db3 = bind_row (e_rel e) (e_gen e) t (clk_iso clk) db2"
    using assms(10) by (auto simp: bind_anchor_in_def validated_turn_id_def split: if_splits)
  then show ?thesis
    using assms(9) lookup_mem(10) [OF assms(9)]
    by (simp add: db' bind_row_def db2_def find_generation_def find_update_where_hit)
qed

text \<open>A case analysis that must end in one branch, as the existence of what that branch binds.\<close>

lemma case_holds:
  "(case x of None \<Rightarrow> False | Some a \<Rightarrow> P a) = (\<exists>a. x = Some a \<and> P a)"
  "(case r of Inl e \<Rightarrow> False | Inr b \<Rightarrow> Q b) = (\<exists>b. r = Inr b \<and> Q b)"
  by (auto split: option.splits sum.splits)

text \<open>A revision request in flight, with its second generation still waiting for a turn.\<close>

definition demo_revision :: db where
  "demo_revision = demo_inflight\<lparr>
     generations := [demo_generation 1 ''d1'' (Some ''turn-1''), demo_generation 2 ''d2'' None],
     events := [(demo_event demo_id ''h1'' 2)\<lparr>e_outcome := REVISION\<rparr>],
     deliveries := map (\<lambda>d. d\<lparr>d_kind := REVISION\<rparr>) (deliveries demo_inflight)\<rparr>"

theorem promotion_binds_anchor_witness:
  "\<exists>db' rc g'. reconcile_attempt default_policy found_host demo_clock 1000 demo_request demo_revision = Inr (db', rc)
     \<and> generation_row_of db' ''rel'' 2 = Some g' \<and> g_dispatch_turn g' = Some ''turn-9''"
proof -
  let ?r = "reconcile_attempt default_policy found_host demo_clock 1000 demo_request demo_revision"
  have "(case attempt_of demo_revision demo_request of None \<Rightarrow> False | Some a \<Rightarrow>
      (case delivery_of demo_revision (a_event a) of None \<Rightarrow> False | Some d \<Rightarrow>
       (case event_of demo_revision (a_event a) of None \<Rightarrow> False | Some e \<Rightarrow>
       (case generation_row_of demo_revision (e_rel e) (e_gen e) of None \<Rightarrow> False | Some g \<Rightarrow>
       (case ?r of Inl _ \<Rightarrow> False | Inr out \<Rightarrow>
       (case delivery_of (fst out) (a_event a) of None \<Rightarrow> False | Some d' \<Rightarrow>
         rc_state (snd out) = DISPATCHED \<and> is_current a d \<and> d_kind d = REVISION \<and> e_rel e = ''rel'' \<and> e_gen e = 2
         \<and> g_anchor_state g = ANCHOR_PENDING \<and> d_dispatch_turn d' = Some ''turn-9'')))))
      \<and> distinct (map d_event (deliveries demo_revision)))" by code_simp
  then obtain a d e g db' rc d' where
    f: "attempt_of demo_revision demo_request = Some a" "delivery_of demo_revision (a_event a) = Some d"
      "event_of demo_revision (a_event a) = Some e" "generation_row_of demo_revision (e_rel e) (e_gen e) = Some g"
      "?r = Inr (db', rc)" "delivery_of db' (a_event a) = Some d'"
      "rc_state rc = DISPATCHED" "is_current a d" "d_kind d = REVISION" "e_rel e = ''rel''" "e_gen e = 2"
      "g_anchor_state g = ANCHOR_PENDING" "d_dispatch_turn d' = Some ''turn-9''"
      "distinct (map d_event (deliveries demo_revision))"
    unfolding case_holds by (metis prod.collapse)
  from promotion_binds_anchor [OF f(5,7,1,2,8,14,9,3,4,12,6,13)] f(5,10,11) show ?thesis by auto
qed

section \<open>Recovery\<close>

lemma reconcile_keeps:
  assumes "reconcile_attempt p adapter clk now request db = Inr (db', rc)"
  shows "map attempt_key (attempts db') = map attempt_key (attempts db)
    \<and> attempt_messages db' = attempt_messages db \<and> recipient_rates db' = recipient_rates db
    \<and> map d_event (deliveries db') = map d_event (deliveries db)
    \<and> map d_attempt_count (deliveries db') = map d_attempt_count (deliveries db)"
proof (rule reconcile_wrote [OF assms])
  fix a d w anchor
  assume "write_outcome clk a d w db = Inr (db', anchor)"
  note rows = write_outcome_rows [OF this]
  show ?thesis by (simp add: rows(1,2,3,4) map_update_where)
qed

lemma reconcile_each_keeps:
  assumes "reconcile_each p adapter clk now todo db = (db', res)"
  shows "map attempt_key (attempts db') = map attempt_key (attempts db)
    \<and> attempt_messages db' = attempt_messages db \<and> recipient_rates db' = recipient_rates db
    \<and> map d_attempt_count (deliveries db') = map d_attempt_count (deliveries db)
    \<and> (case res of Inl _ \<Rightarrow> True | Inr out \<Rightarrow> map fst out = map a_request todo)"
  using assms
proof (induction todo arbitrary: db db' res)
  case (Cons a todo)
  show ?case
  proof (cases "reconcile_attempt p adapter clk now (a_request a) db")
    case (Inl e)
    then show ?thesis using Cons.prems by auto
  next
    case (Inr r)
    obtain db1 o1 where r: "r = (db1, o1)" by (cases r)
    obtain db2 out where e: "reconcile_each p adapter clk now todo db1 = (db2, out)"
      by (cases "reconcile_each p adapter clk now todo db1")
    have "db' = db2" "res = (case out of Inl e \<Rightarrow> Inl e | Inr os \<Rightarrow> Inr ((a_request a, o1) # os))"
      using Cons.prems by (auto simp: Inr r e split: sum.splits)
    then show ?thesis
      using Cons.IH [OF e] reconcile_keeps [OF Inr [unfolded r]] by (auto split: sum.splits)
  qed
qed auto

text \<open>
  recovery after a restart looks at every unresolved attempt and resends nothing: it allocates
  no attempt, freezes no message and counts no send, and when it completes its report names each of
  the unresolved attempts, oldest first.
\<close>

theorem recovery_resends_nothing:
  assumes "recover_on_start p adapter clk now db = (db', res)"
  shows "map attempt_key (attempts db') = map attempt_key (attempts db)
    \<and> attempt_messages db' = attempt_messages db \<and> recipient_rates db' = recipient_rates db
    \<and> map d_attempt_count (deliveries db') = map d_attempt_count (deliveries db)
    \<and> (case res of Inl _ \<Rightarrow> True
       | Inr r \<Rightarrow> map fst (rv_reconciled r) = map a_request (open_attempts db None [] 0)
           \<and> set (map fst (rv_reconciled r)) = a_request ` {a \<in> set (attempts db). unresolved db a})"
proof -
  obtain db1 out where e: "reconcile_each p adapter clk now (open_attempts db None [] 0) db = (db1, out)"
    by (cases "reconcile_each p adapter clk now (open_attempts db None [] 0) db")
  have eq: "db' = db1" "res = map_sum id (\<lambda>out. \<lparr>rv_reconciled = out,
      rv_held_uncertain = map fst (filter (\<lambda>o1. rc_state (snd o1) = HELD_UNCERTAIN) out),
      rv_awaiting_ack = awaiting_ack db1\<rparr>) out"
    using assms by (auto simp: recover_on_start_def e split: sum.splits)
  have "set (open_attempts db None [] 0) = {a \<in> set (attempts db). unresolved db a}"
    by (simp add: open_attempts_def)
  then have s: "set (map a_request (open_attempts db None [] 0)) = a_request ` {a \<in> set (attempts db). unresolved db a}"
    by simp
  show ?thesis
  proof (cases out)
    case (Inr os)
    then have m: "map fst os = map a_request (open_attempts db None [] 0)"
      using reconcile_each_keeps [OF e] by simp
    show ?thesis using reconcile_each_keeps [OF e] s by (simp add: eq Inr m del: set_map)
  qed (use reconcile_each_keeps [OF e] in \<open>simp add: eq\<close>)
qed

theorem recovery_resends_nothing_witness:
  "\<exists>db' r. recover_on_start default_policy idle_host demo_clock 1000 demo_inflight = (db', Inr r)
     \<and> map fst (rv_reconciled r) = [demo_request] \<and> attempt_messages db' = attempt_messages demo_inflight"
proof -
  have "(case recover_on_start default_policy idle_host demo_clock 1000 demo_inflight of
      (_, Inr r) \<Rightarrow> map a_request (open_attempts demo_inflight None [] 0) = [demo_request] | _ \<Rightarrow> False)"
    by code_simp
  then obtain db' r where
    r: "recover_on_start default_policy idle_host demo_clock 1000 demo_inflight = (db', Inr r)"
    "map a_request (open_attempts demo_inflight None [] 0) = [demo_request]"
    by (auto split: prod.splits sum.splits)
  from recovery_resends_nothing [OF r(1)] r show ?thesis by auto
qed

end
