(* ===== verification/Python_Text.thy ===== *)
theory Python_Text
  imports Identity
begin

text \<open>
  The two renderings of a JSON value the package relies on beyond plain strings: Python's \<^verbatim>\<open>str()\<close>
  of a decoded value, with \<^verbatim>\<open>repr\<close> inside containers, and the JSON string literal of
  \<^verbatim>\<open>json.dumps(..., ensure_ascii=False)\<close>. Code points are below 256.
\<close>

section \<open>\<^verbatim>\<open>str\<close> and \<^verbatim>\<open>repr\<close>\<close>

definition hex_byte :: "char \<Rightarrow> string" where
  "hex_byte c = (let n = of_char c :: nat in [hex_digit (n div 16), hex_digit (n mod 16)])"

definition unprintable :: "char \<Rightarrow> bool" where
  "unprintable c = (let n = of_char c :: nat in n < 32 \<or> (127 \<le> n \<and> n \<le> 160) \<or> n = 173)"

definition repr_char :: "char \<Rightarrow> char \<Rightarrow> string" where
  "repr_char quote c =
     (if c = quote \<or> c = CHR 0x5C then [CHR 0x5C, c]
      else if c = CHR 0x0A then [CHR 0x5C, CHR ''n'']
      else if c = CHR 0x0D then [CHR 0x5C, CHR ''r'']
      else if c = CHR 0x09 then [CHR 0x5C, CHR ''t'']
      else if unprintable c then [CHR 0x5C, CHR ''x''] @ hex_byte c
      else [c])"

definition repr_str :: "string \<Rightarrow> string" where
  "repr_str s =
     (let quote = (if CHR 0x27 \<in> set s \<and> CHR 0x22 \<notin> set s then CHR 0x22 else CHR 0x27)
      in [quote] @ concat (map (repr_char quote) s) @ [quote])"

fun comma_join :: "string list \<Rightarrow> string" where
  "comma_join [] = []"
| "comma_join [w] = w"
| "comma_join (w # v # ws) = w @ '', '' @ comma_join (v # ws)"

fun py_repr :: "json \<Rightarrow> string" where
  "py_repr JNull = ''None''"
| "py_repr (JBool b) = (if b then ''True'' else ''False'')"
| "py_repr (JInt i) = int_str i"
| "py_repr (JStr s) = repr_str s"
| "py_repr (JList xs) = ''['' @ comma_join (map py_repr xs) @ '']''"
| "py_repr (JObj kvs) =
     ''{'' @ comma_join (map (\<lambda>kv. repr_str (fst kv) @ '': '' @ py_repr (snd kv)) kvs) @ ''}''"

definition py_str :: "json \<Rightarrow> string" where
  "py_str v = (case v of JStr s \<Rightarrow> s | _ \<Rightarrow> py_repr v)"

text \<open>\<^verbatim>\<open>str(value or "")\<close>.\<close>

definition str_or_empty :: "json \<Rightarrow> string" where
  "str_or_empty v = (if jtruthy v then py_str v else [])"

text \<open>\<^verbatim>\<open>value or []\<close> of a list, and \<^verbatim>\<open>a or b\<close>.\<close>

definition jlist :: "json \<Rightarrow> json list" where
  "jlist v = (case v of JList xs \<Rightarrow> xs | _ \<Rightarrow> [])"

definition jor :: "json \<Rightarrow> json \<Rightarrow> json" where
  "jor a b = (if jtruthy a then a else b)"

text \<open>\<^verbatim>\<open>d[k]\<close> on a decoded dictionary.\<close>

definition py_item :: "json \<Rightarrow> string \<Rightarrow> err + json" where
  "py_item v k = (case v of JObj kvs \<Rightarrow> (case map_of kvs k of None \<Rightarrow> Inl KeyError | Some x \<Rightarrow> Inr x)
     | _ \<Rightarrow> Inl TypeError)"

lemma py_str_JStr [simp]: "py_str (JStr s) = s"
  by (simp add: py_str_def)

lemma str_or_empty_simps [simp]: "str_or_empty (JStr s) = s" "str_or_empty JNull = []"
  by (auto simp: str_or_empty_def)

section \<open>JSON string literals\<close>

definition json_char :: "char \<Rightarrow> string" where
  "json_char c =
     (if c = CHR 0x22 \<or> c = CHR 0x5C then [CHR 0x5C, c]
      else if c = CHR 0x0A then [CHR 0x5C, CHR ''n'']
      else if c = CHR 0x0D then [CHR 0x5C, CHR ''r'']
      else if c = CHR 0x09 then [CHR 0x5C, CHR ''t'']
      else if c = CHR 0x08 then [CHR 0x5C, CHR ''b'']
      else if c = CHR 0x0C then [CHR 0x5C, CHR ''f'']
      else if of_char c < (32::nat) then [CHR 0x5C, CHR ''u'', CHR ''0'', CHR ''0''] @ hex_byte c
      else [c])"

definition json_text :: "string \<Rightarrow> string" where
  "json_text s = concat (map json_char s)"

definition json_string :: "string \<Rightarrow> string" where
  "json_string s = [CHR 0x22] @ json_text s @ [CHR 0x22]"

text \<open>
  A literal can be read back whatever follows it: no encoded character is empty or starts with
  the closing quote, and an encoded character determines the character and the rest.
\<close>

lemma json_char_head: "\<exists>h t. json_char c = h # t \<and> h \<noteq> CHR 0x22"
  by (auto simp: json_char_def)

lemma hex_digit_inject: "m < 16 \<Longrightarrow> n < 16 \<Longrightarrow> hex_digit m = hex_digit n \<longleftrightarrow> m = n"
  unfolding hex_digit_def by (rule nth_eq_iff_index_eq) simp_all

lemma hex_byte_inject: "hex_byte c = hex_byte d \<longleftrightarrow> c = d"
proof -
  have lt: "(of_char x :: nat) < 256" for x by simp
  have "c = d" if "hex_byte c = hex_byte d"
  proof -
    from that have "(of_char c :: nat) div 16 = of_char d div 16" "(of_char c :: nat) mod 16 = of_char d mod 16"
      using lt [of c] lt [of d] by (auto simp: hex_byte_def Let_def hex_digit_inject)
    then have "(of_char c :: nat) = of_char d" by (metis div_mult_mod_eq)
    then show ?thesis by simp
  qed
  then show ?thesis by auto
qed

lemma json_char_inject:
  assumes "json_char c @ x = json_char d @ y" shows "c = d \<and> x = y"
  using assms hex_byte_inject [of c d]
  by (auto simp: json_char_def hex_byte_def Let_def split: if_splits)

lemma json_text_inject:
  assumes "json_text s @ CHR 0x22 # x = json_text t @ CHR 0x22 # y" shows "s = t \<and> x = y"
  using assms
proof (induction s arbitrary: t)
  case Nil
  then show ?case using json_char_head [of "hd t"] by (cases t) (auto simp: json_text_def)
next
  case (Cons c s)
  show ?case
  proof (cases t)
    case Nil
    with Cons.prems json_char_head [of c] show ?thesis by (auto simp: json_text_def)
  next
    case (Cons d t')
    have "json_char c @ (json_text s @ CHR 0x22 # x) = json_char d @ (json_text t' @ CHR 0x22 # y)"
      using Cons.prems \<open>t = d # t'\<close> by (simp add: json_text_def)
    then have "c = d \<and> json_text s @ CHR 0x22 # x = json_text t' @ CHR 0x22 # y" by (rule json_char_inject)
    with Cons.IH \<open>t = d # t'\<close> show ?thesis by auto
  qed
qed

lemma json_string_inject:
  assumes "json_string s @ x = json_string t @ y" shows "s = t \<and> x = y"
  using assms json_text_inject [of s x t y] by (simp add: json_string_def)

end
