(* ===== verification/Criteria.thy ===== *)
theory Criteria
  imports Python_Text Store Restoration
begin

text \<open>
  \<^verbatim>\<open>criteria.py\<close>: the canonical criteria of an assignment, the digest of a criteria set, the
  normalisation of findings, and the coverage a verdict has to establish. A finding is the JSON
  object the package keeps; a criterion that has been registered is a record.
\<close>

section \<open>Constants\<close>

definition DISPOSITIONS :: "string list" where
  "DISPOSITIONS = [''verified'', ''needs_changes'', ''unverified'']"

definition MANAGED :: string where "MANAGED = ''managed''"
definition LEGACY :: string where "LEGACY = ''legacy''"
definition MODES :: "string list" where "MODES = [MANAGED, LEGACY]"
definition COVERED :: string where "COVERED = ''covered''"
definition LEGACY_UNREGISTERED :: string where "LEGACY_UNREGISTERED = ''legacy_unregistered''"

definition finding_id :: "json \<Rightarrow> string" where
  "finding_id v = strip (str_or_empty v)"

section \<open>The digest of a set\<close>

record criterion =
  ct_id :: string
  ct_title :: string
  ct_required :: bool

definition criterion_text :: "criterion \<Rightarrow> string" where
  "criterion_text c = ''{'' @ json_string ''id'' @ '':'' @ json_string (ct_id c)
     @ '','' @ json_string ''required'' @ '':'' @ (if ct_required c then ''true'' else ''false'')
     @ '','' @ json_string ''title'' @ '':'' @ json_string (ct_title c) @ ''}''"

fun array_text :: "criterion list \<Rightarrow> string" where
  "array_text [] = []"
| "array_text [c] = criterion_text c"
| "array_text (c # d # cs) = criterion_text c @ '','' @ array_text (d # cs)"

definition set_payload :: "criterion list \<Rightarrow> string" where
  "set_payload entries = ''['' @ array_text (sort_key ct_id entries) @ '']''"

definition set_digest :: "criterion list \<Rightarrow> string" where
  "set_digest entries = sha256_hex (set_payload entries)"

section \<open>Findings\<close>

definition refuse :: "RefusalReason \<Rightarrow> err" where
  "refuse reason = RelayError AckRefused reason"

definition has_id :: "string \<Rightarrow> json \<Rightarrow> bool" where
  "has_id identifier finding = (jget finding ''id'' = JStr identifier)"

definition finding_entry :: "string \<Rightarrow> string \<Rightarrow> string \<Rightarrow> bool \<Rightarrow> json" where
  "finding_entry identifier disposition note carrier = JObj
     ([(''id'', JStr identifier), (''verdict'', JStr disposition)]
      @ (if note \<noteq> [] then [(''note'', JStr note)] else [])
      @ (if carrier then [(FIELD, JBool True)] else []))"

text \<open>
  One pass of the loop: the entries merged so far and what each id has explicitly declared about the
  restoration block.
\<close>

definition disposition_of :: "json \<Rightarrow> json" where
  "disposition_of item = (let v = jget item ''verdict'' in if jtruthy v then v else JStr ''verified'')"

definition note_of :: "json \<Rightarrow> string" where
  "note_of item = strip (str_or_empty (jget item ''note''))"

definition declare_block ::
  "string \<Rightarrow> json \<Rightarrow> (string \<times> bool) list \<Rightarrow> err + (string \<times> bool) list" where
  "declare_block identifier flag decls = (case flag of
       JNull \<Rightarrow> Inr decls
     | JBool b \<Rightarrow>
         if map_of decls identifier = Some (\<not> b) then Inl (refuse DISPOSITION_CONFLICT)
         else Inr ((identifier, b) # decls)
     | _ \<Rightarrow> Inl (refuse DISPOSITION_CONFLICT))"

definition merge_item ::
  "json \<Rightarrow> json list \<times> (string \<times> bool) list \<Rightarrow> err + json list \<times> (string \<times> bool) list" where
  "merge_item item acc =
     (case acc of (merged, decls) \<Rightarrow>
       let identifier = finding_id (jget item ''id'');
           conflict = Inl (refuse DISPOSITION_CONFLICT)
       in if \<not> is_obj item then conflict
       else if identifier = [] then conflict
       else case disposition_of item of
         JStr disposition \<Rightarrow>
           if disposition \<notin> set DISPOSITIONS then conflict
           else bindE (declare_block identifier (jget item FIELD) decls) (\<lambda>decls1.
             Inr (filter (\<lambda>e. \<not> has_id identifier e) merged
                  @ [finding_entry identifier disposition (note_of item)
                       (map_of decls1 identifier = Some True)], decls1))
       | _ \<Rightarrow> conflict)"

fun merge_items ::
  "json list \<Rightarrow> json list \<times> (string \<times> bool) list \<Rightarrow> err + json list \<times> (string \<times> bool) list" where
  "merge_items [] acc = Inr acc"
| "merge_items (item # items) acc = bindE (merge_item item acc) (merge_items items)"

definition normalise_findings :: "json list \<Rightarrow> json list \<Rightarrow> err + json list" where
  "normalise_findings criteria findings =
     bindE (merge_items (criteria @ findings) ([], [])) (\<lambda>(merged, decls).
       let carriers = filter declares merged
       in if length carriers > 1 then Inl (refuse DISPOSITION_CONFLICT)
          else if list_ex (\<lambda>e. declares e \<and> \<not> jtruthy (jget e ''note'')) merged
          then Inl (refuse DISPOSITION_CONFLICT)
          else Inr merged)"

section \<open>Registration\<close>

definition mode_row_of :: "db \<Rightarrow> string \<Rightarrow> mode_row option" where
  "mode_row_of db rid = List.find (\<lambda>m. md_rel m = rid) (verification_modes db)"

fun read_criteria :: "string list \<Rightarrow> json list \<Rightarrow> err + criterion list" where
  "read_criteria seen [] = Inr []"
| "read_criteria seen (entry # entries) =
     (let identifier = finding_id (jget entry ''id'');
          title = strip (str_or_empty (jget entry ''title''));
          required = (case entry of JObj kvs \<Rightarrow>
            (case map_of kvs ''required'' of None \<Rightarrow> True | Some v \<Rightarrow> jtruthy v) | _ \<Rightarrow> True)
      in if \<not> is_obj entry then Inl AttributeError
         else if identifier = [] \<or> title = [] then Inl (refuse CRITERIA_UNREGISTERED)
         else if identifier \<in> set seen then Inl (refuse CRITERIA_UNREGISTERED)
         else bindE (read_criteria (identifier # seen) entries) (\<lambda>cs.
           Inr (\<lparr>ct_id = identifier, ct_title = title, ct_required = required\<rparr> # cs)))"

definition write_mode :: "string \<Rightarrow> string \<Rightarrow> string \<Rightarrow> db \<Rightarrow> db" where
  "write_mode rid mode stamp db = db\<lparr>verification_modes :=
     upsert md_rel \<lparr>md_rel = rid, md_mode = mode, md_recorded_at = stamp\<rparr>
       (\<lambda>m. m\<lparr>md_mode := mode, md_recorded_at := stamp\<rparr>) (verification_modes db)\<rparr>"

definition criterion_key :: "criterion_row \<Rightarrow> string \<times> string" where
  "criterion_key c = (c_rel c, c_id c)"

fun insert_criteria :: "criterion_row list \<Rightarrow> criterion_row list \<Rightarrow> err + criterion_row list" where
  "insert_criteria [] t = Inr t"
| "insert_criteria (r # rs) t = bindE (insert_row criterion_key r t) (insert_criteria rs)"

record criteria_set =
  set_rel :: string
  set_of_digest :: string
  set_source_ref :: "string option"
  set_criteria :: "criterion list"

definition criterion_rows ::
  "string \<Rightarrow> string option \<Rightarrow> string \<Rightarrow> string \<Rightarrow> criterion list \<Rightarrow> criterion_row list" where
  "criterion_rows rid source_ref digest stamp cs = map (\<lambda>c.
     \<lparr>c_rel = rid, c_id = ct_id c, c_title = ct_title c, c_required = ct_required c,
      c_source_ref = source_ref, c_set_digest = digest, c_recorded_at = stamp\<rparr>) cs"

definition register_criteria ::
  "clock \<Rightarrow> string \<Rightarrow> json list \<Rightarrow> string option \<Rightarrow> db \<Rightarrow> err + db \<times> criteria_set" where
  "register_criteria clk rid entries source_ref db =
     bindE (read_criteria [] entries) (\<lambda>cs.
       if cs = [] then Inl (refuse CRITERIA_UNREGISTERED)
       else let digest = set_digest cs in
         bindE (insert_criteria (criterion_rows rid source_ref digest (clk_iso clk) cs)
                  (delete_where (\<lambda>c. c_rel c = rid) (canonical_criteria db))) (\<lambda>rows.
           Inr (journal_entry ''criteria_registered'' rid
                  (JObj [(''setDigest'', JStr digest), (''count'', JInt (int (length cs)))]) (clk_iso clk)
                  (write_mode rid MANAGED (clk_iso clk) (db\<lparr>canonical_criteria := rows\<rparr>)),
                \<lparr>set_rel = rid, set_of_digest = digest, set_source_ref = source_ref,
                 set_criteria = cs\<rparr>)))"

definition get_criteria :: "db \<Rightarrow> string \<Rightarrow> criteria_set option" where
  "get_criteria db rid =
     (case sort_key c_id (filter (\<lambda>c. c_rel c = rid) (canonical_criteria db)) of
        [] \<Rightarrow> None
      | r # rs \<Rightarrow> Some \<lparr>set_rel = rid, set_of_digest = c_set_digest r,
          set_source_ref = c_source_ref r,
          set_criteria = map (\<lambda>c. \<lparr>ct_id = c_id c, ct_title = c_title c, ct_required = c_required c\<rparr>)
            (r # rs)\<rparr>)"

definition criteria_digest :: "db \<Rightarrow> string \<Rightarrow> string option" where
  "criteria_digest db rid = map_option set_of_digest (get_criteria db rid)"

definition mode_of :: "db \<Rightarrow> string \<Rightarrow> string" where
  "mode_of db rid = (case mode_row_of db rid of None \<Rightarrow> LEGACY | Some m \<Rightarrow> md_mode m)"

definition set_mode :: "clock \<Rightarrow> string \<Rightarrow> string \<Rightarrow> db \<Rightarrow> err + db" where
  "set_mode clk rid mode db =
     (if mode \<notin> set MODES then Inl (refuse DISPOSITION_CONFLICT)
      else Inr (write_mode rid mode (clk_iso clk) db))"

section \<open>Binding a review to the set\<close>

definition bind_review :: "clock \<Rightarrow> string \<Rightarrow> string \<Rightarrow> db \<Rightarrow> db \<times> string option" where
  "bind_review clk rid event db =
     (let digest = criteria_digest db rid
      in (db\<lparr>claim_contexts := insert_or_ignore cc_event
            \<lparr>cc_event = event, cc_set_digest = digest, cc_bound_at = clk_iso clk\<rparr>
            (claim_contexts db)\<rparr>, digest))"

definition bound_digest :: "db \<Rightarrow> string \<Rightarrow> string option" where
  "bound_digest db event =
     (case List.find (\<lambda>c. cc_event c = event) (claim_contexts db) of
        None \<Rightarrow> None | Some c \<Rightarrow> cc_set_digest c)"

section \<open>Coverage\<close>

record cover =
  cov_coverage :: string
  cov_set_digest :: "string option"
  cov_bound :: "string option"
  cov_findings :: "json list"

definition by_id :: "json list \<Rightarrow> json list" where
  "by_id findings = foldl (\<lambda>acc f. filter (\<lambda>g. jget g ''id'' \<noteq> jget f ''id'') acc @ [f]) [] findings"

definition ruled :: "string \<Rightarrow> json \<Rightarrow> bool" where
  "ruled disposition f = (jget f ''verdict'' = JStr disposition)"

definition explained :: "string \<Rightarrow> json list \<Rightarrow> bool" where
  "explained disposition fs = list_ex (\<lambda>f. ruled disposition f \<and> jtruthy (jget f ''note'')) fs"

definition missing_required :: "criterion list \<Rightarrow> json list \<Rightarrow> string list" where
  "missing_required cs findings =
     filter (\<lambda>i. \<not> list_ex (\<lambda>f. has_id i f \<and> ruled ''verified'' f) (by_id findings))
       (map ct_id (filter ct_required cs))"

definition coverage_gap ::
  "criterion list \<Rightarrow> string \<Rightarrow> json list \<Rightarrow> string option \<Rightarrow> RefusalReason option" where
  "coverage_gap cs verdict findings reason =
     (if \<not> list_all (\<lambda>f. list_ex (\<lambda>c. has_id (ct_id c) f) cs) findings then Some UNKNOWN_CRITERION
      else if verdict = ''verified'' then
        (if missing_required cs findings \<noteq> [] then Some CRITERIA_NOT_COVERED else None)
      else if verdict = ''needs_changes'' then
        (if \<not> explained ''needs_changes'' (by_id findings) then Some FINDINGS_REQUIRED else None)
      else if verdict = ''unverified'' then
        (if \<not> explained ''unverified'' (by_id findings) then Some FINDINGS_REQUIRED else None)
      else if verdict = ''aborted'' then
        (if blank (case reason of None \<Rightarrow> [] | Some r \<Rightarrow> r) then Some FINDINGS_REQUIRED else None)
      else None)"

definition digest_gap ::
  "string \<Rightarrow> string option \<Rightarrow> string \<Rightarrow> string \<Rightarrow> string option \<Rightarrow> RefusalReason option" where
  "digest_gap mode bound digest verdict expected =
     (if mode = MANAGED \<and> bound = None \<and> expected = None \<and> verdict \<in> {''verified'', ''needs_changes''}
      then Some REVIEW_NOT_BOUND
      else if bound \<noteq> None \<and> bound \<noteq> Some digest then Some CRITERIA_SET_CHANGED
      else if expected \<noteq> None \<and> expected \<noteq> Some digest then Some CRITERIA_SET_CHANGED
      else None)"

definition coverage ::
  "db \<Rightarrow> string \<Rightarrow> string \<Rightarrow> string \<Rightarrow> json list \<Rightarrow> string option \<Rightarrow> string option \<Rightarrow> err + cover" where
  "coverage db rid event verdict findings reason expected =
     (case get_criteria db rid of
        None \<Rightarrow>
          (if mode_of db rid = MANAGED then Inl (refuse CRITERIA_UNREGISTERED)
           else Inr \<lparr>cov_coverage = LEGACY_UNREGISTERED, cov_set_digest = None, cov_bound = None,
                     cov_findings = findings\<rparr>)
      | Some registered \<Rightarrow>
          (case digest_gap (mode_of db rid) (bound_digest db event) (set_of_digest registered)
                  verdict expected of
             Some reason' \<Rightarrow> Inl (refuse reason')
           | None \<Rightarrow>
             (case coverage_gap (set_criteria registered) verdict findings reason of
                Some reason' \<Rightarrow> Inl (refuse reason')
              | None \<Rightarrow> Inr \<lparr>cov_coverage = COVERED, cov_set_digest = Some (set_of_digest registered),
                  cov_bound = bound_digest db event, cov_findings = findings\<rparr>)))"

section \<open>The payload determines the set\<close>

lemma array_text_Cons: "cs \<noteq> [] \<Longrightarrow> array_text (c # cs) = criterion_text c @ CHR '','' # array_text cs"
  by (cases cs) simp_all

lemma criterion_text_inject:
  assumes "criterion_text c @ x = criterion_text d @ y" shows "c = d \<and> x = y"
proof -
  define rest where "rest = (\<lambda>(e::criterion) z. ('','' @ json_string ''required'' @ '':''
     @ (if ct_required e then ''true'' else ''false'')
     @ '','' @ json_string ''title'' @ '':'' @ json_string (ct_title e) @ ''}'' @ z))"
  have "json_string (ct_id c) @ rest c x = json_string (ct_id d) @ rest d y"
    using assms by (simp add: criterion_text_def rest_def)
  then have ids: "ct_id c = ct_id d" and r: "rest c x = rest d y"
    using json_string_inject by blast+
  have req: "ct_required c = ct_required d" using r by (auto simp: rest_def split: if_splits)
  with r have "json_string (ct_title c) @ ''}'' @ x = json_string (ct_title d) @ ''}'' @ y"
    by (simp add: rest_def)
  from json_string_inject [OF this] ids req show ?thesis by simp
qed

lemma criterion_text_nonempty: "criterion_text c \<noteq> [] \<and> hd (criterion_text c) = CHR ''{''"
  by (simp add: criterion_text_def)

lemma array_text_inject:
  "array_text cs @ '']'' = array_text ds @ '']'' \<Longrightarrow> cs = ds"
proof (induction cs arbitrary: ds)
  case Nil
  show ?case
  proof (cases ds)
    case (Cons d es)
    with Nil criterion_text_nonempty [of d] show ?thesis
      by (cases es; cases "criterion_text d") (auto simp: array_text_Cons)
  qed simp
next
  case (Cons c cs)
  show ?case
  proof (cases ds)
    case Nil
    with Cons.prems criterion_text_nonempty [of c] show ?thesis
      by (cases cs; cases "criterion_text c") (auto simp: array_text_Cons)
  next
    case ds: (Cons d es)
    define tail where "tail = (\<lambda>xs. if xs = [] then '']'' else CHR '','' # array_text xs @ '']'')"
    have "criterion_text c @ tail cs = criterion_text d @ tail es"
      using Cons.prems ds by (cases cs; cases es) (auto simp: tail_def)
    from criterion_text_inject [OF this] have "c = d" "tail cs = tail es" by simp_all
    moreover from this(2) have "cs = es"
      using Cons.IH [of es] by (auto simp: tail_def split: if_splits)
    ultimately show ?thesis using ds by simp
  qed
qed

section \<open>Findings\<close>

definition well_formed_finding :: "json \<Rightarrow> bool" where
  "well_formed_finding f = (\<exists>i d n c. f = finding_entry i d n c \<and> i \<noteq> [] \<and> d \<in> set DISPOSITIONS)"

lemma finding_entry_get [simp]:
  "jget (finding_entry i d n c) ''id'' = JStr i"
  "jget (finding_entry i d n c) ''verdict'' = JStr d"
  "jget (finding_entry i d n c) ''note'' = (if n = [] then JNull else JStr n)"
  "declares (finding_entry i d n c) = c"
  by (simp_all add: finding_entry_def declares_def FIELD_def)

definition merged_ok :: "json list \<Rightarrow> bool" where
  "merged_ok merged = ((\<forall>f\<in>set merged. well_formed_finding f)
     \<and> distinct (map (\<lambda>f. jget f ''id'') merged))"

lemma merge_item_ok:
  assumes "merge_item item (merged, decls) = Inr (merged', decls')" "merged_ok merged"
  shows "merged_ok merged'"
proof -
  let ?i = "finding_id (jget item ''id'')"
  from assms(1) obtain d where d: "d \<in> set DISPOSITIONS" "?i \<noteq> []"
    "merged' = filter (\<lambda>e. \<not> has_id ?i e) merged
       @ [finding_entry ?i d (note_of item) (map_of decls' ?i = Some True)]"
    by (cases "disposition_of item") (auto simp: merge_item_def Let_def split: if_splits)
  have "well_formed_finding (finding_entry ?i d (note_of item) (map_of decls' ?i = Some True))"
    using d(1,2) by (auto simp: well_formed_finding_def)
  with assms(2) show ?thesis
    unfolding merged_ok_def d(3) by (auto simp: has_id_def distinct_map_filter)
qed

lemma merge_items_ok:
  "merge_items items (merged, decls) = Inr (merged', decls') \<Longrightarrow> merged_ok merged \<Longrightarrow> merged_ok merged'"
proof (induction items arbitrary: merged decls)
  case (Cons item items)
  then show ?case using merge_item_ok by fastforce
qed simp

section \<open>Reading back what was registered\<close>

lemma read_criteria_ids:
  "read_criteria seen es = Inr cs \<Longrightarrow> distinct (map ct_id cs) \<and> set (map ct_id cs) \<inter> set seen = {}"
proof (induction es arbitrary: seen cs)
  case (Cons e es)
  then show ?case by (fastforce simp: Let_def split: if_splits)
qed simp

lemma insert_criteria_Inr: "insert_criteria rs t = Inr t' \<Longrightarrow> t' = t @ rs"
  by (induction rs arbitrary: t) (fastforce simp: insert_row_Inr)+

lemma insert_criteria_total:
  "distinct (map criterion_key (t @ rs)) \<Longrightarrow> insert_criteria rs t = Inr (t @ rs)"
proof (induction rs arbitrary: t)
  case (Cons r rs)
  then show ?case using Cons.IH [of "t @ [r]"] by (auto simp: insert_row_def)
qed simp

lemma write_mode_select [simp]:
  "canonical_criteria (write_mode rid mode stamp db) = canonical_criteria db"
  "claim_contexts (write_mode rid mode stamp db) = claim_contexts db"
  by (simp_all add: write_mode_def)

lemma register_criteria_cases:
  assumes "register_criteria clk rid entries source_ref db = Inr (db', s)"
  obtains cs where "read_criteria [] entries = Inr cs" "cs \<noteq> []" "distinct (map ct_id cs)"
    "s = \<lparr>set_rel = rid, set_of_digest = set_digest cs, set_source_ref = source_ref, set_criteria = cs\<rparr>"
    "canonical_criteria db' = delete_where (\<lambda>c. c_rel c = rid) (canonical_criteria db)
       @ criterion_rows rid source_ref (set_digest cs) (clk_iso clk) cs"
    "claim_contexts db' = claim_contexts db"
  using assms read_criteria_ids [of "[]" entries]
  by (fastforce simp: register_criteria_def Let_def dest: insert_criteria_Inr split: if_splits)

lemma filter_registered:
  "filter (\<lambda>c. c_rel c = r) (delete_where (\<lambda>c. c_rel c = rid) t @ criterion_rows rid sr dg st cs) =
     (if r = rid then criterion_rows rid sr dg st cs else filter (\<lambda>c. c_rel c = r) t)"
  by (auto simp: delete_where_def criterion_rows_def filter_map comp_def intro: filter_cong)

lemma insort_key_map: "map f (insort_key (\<lambda>x. k (f x)) x xs) = insort_key k (f x) (map f xs)"
  by (induction xs) auto

lemma sort_key_map: "sort_key k (map f xs) = map f (sort_key (\<lambda>x. k (f x)) xs)"
  by (induction xs) (simp_all add: insort_key_map)

lemma get_registered:
  assumes "canonical_criteria db' = delete_where (\<lambda>c. c_rel c = rid) t @ criterion_rows rid sr dg st cs"
    and "cs \<noteq> []"
  shows "get_criteria db' rid = Some \<lparr>set_rel = rid, set_of_digest = dg, set_source_ref = sr,
      set_criteria = sort_key ct_id cs\<rparr>"
proof -
  define row where "row = (\<lambda>c::criterion. \<lparr>c_rel = rid, c_id = ct_id c, c_title = ct_title c,
      c_required = ct_required c, c_source_ref = sr, c_set_digest = dg, c_recorded_at = st\<rparr>)"
  have rows: "sort_key c_id (filter (\<lambda>c. c_rel c = rid) (canonical_criteria db'))
      = map row (sort_key ct_id cs)"
    unfolding assms(1) filter_registered
    by (simp add: criterion_rows_def sort_key_map row_def)
  obtain c cs' where sorted: "sort_key ct_id cs = c # cs'"
    using assms(2) by (metis list.exhaust set_empty set_sort)
  show ?thesis
    unfolding get_criteria_def rows sorted by (simp add: row_def comp_def map_idI)
qed

lemma by_id_subset: "set (by_id findings) \<subseteq> set findings"
proof -
  have "set (foldl (\<lambda>acc f. filter (\<lambda>g. jget g ''id'' \<noteq> jget f ''id'') acc @ [f]) acc fs)
      \<subseteq> set acc \<union> set fs" for acc fs
  proof (induction fs arbitrary: acc)
    case (Cons f fs)
    from Cons.IH [of "filter (\<lambda>g. jget g ''id'' \<noteq> jget f ''id'') acc @ [f]"] show ?case by auto
  qed simp
  from this [of "[]" findings] show ?thesis by (simp add: by_id_def)
qed

section \<open>Properties\<close>

text \<open>
  Findings after normalisation are well formed: every one names a criterion and a disposition of the
  frozen enumeration, no criterion is named twice, at most one finding carries the restoration
  block, and the one that does has a note.
\<close>

theorem normalised_findings_shape:
  assumes "normalise_findings criteria findings = Inr merged"
  shows "(\<forall>f\<in>set merged. well_formed_finding f) \<and> distinct (map (\<lambda>f. jget f ''id'') merged)
    \<and> length (filter declares merged) \<le> 1
    \<and> (\<forall>f\<in>set merged. declares f \<longrightarrow> jtruthy (jget f ''note''))"
proof -
  obtain decls where d: "merge_items (criteria @ findings) ([], []) = Inr (merged, decls)"
    "length (filter declares merged) \<le> 1"
    "\<not> list_ex (\<lambda>e. declares e \<and> \<not> jtruthy (jget e ''note'')) merged"
    using assms by (auto simp: normalise_findings_def Let_def split: if_splits)
  have "merged_ok merged" by (rule merge_items_ok [OF d(1)]) (simp add: merged_ok_def)
  with d(2,3) show ?thesis by (auto simp: merged_ok_def list_ex_iff)
qed

definition demo_findings :: "json list" where
  "demo_findings = [JObj [(''id'', JStr '' c2''), (''verdict'', JStr ''needs_changes''),
     (''note'', JStr ''redo the parser ''), (''restoration'', JBool True)], JObj [(''id'', JStr ''c1'')]]"

theorem normalised_findings_shape_witness:
  "\<exists>merged. normalise_findings [JObj [(''id'', JStr ''c2'')]] demo_findings = Inr merged
     \<and> length merged = 2 \<and> length (filter declares merged) = 1
     \<and> (\<forall>f\<in>set merged. declares f \<longrightarrow> jtruthy (jget f ''note''))"
proof -
  let ?m = "[finding_entry ''c2'' ''needs_changes'' ''redo the parser'' True,
      finding_entry ''c1'' ''verified'' '''' False]"
  have "normalise_findings [JObj [(''id'', JStr ''c2'')]] demo_findings = Inr ?m" by code_simp
  with normalised_findings_shape [OF this] show ?thesis by simp
qed

text \<open>
  The digest of a criteria set is taken over a payload that determines the set: two sets with the
  same payload have the same criteria in the same canonical order, whatever their ids and titles
  contain.
\<close>

theorem set_payload_injective:
  assumes "set_payload cs = set_payload ds"
  shows "sort_key ct_id cs = sort_key ct_id ds"
  using assms by (intro array_text_inject) (simp add: set_payload_def)

theorem set_payload_injective_witness:
  "sort_key ct_id [\<lparr>ct_id = ''b'', ct_title = ''t'', ct_required = True\<rparr>,
       \<lparr>ct_id = ''a'', ct_title = ''u|v'', ct_required = False\<rparr>]
     = sort_key ct_id [\<lparr>ct_id = ''a'', ct_title = ''u|v'', ct_required = False\<rparr>,
       \<lparr>ct_id = ''b'', ct_title = ''t'', ct_required = True\<rparr>]"
  by (rule set_payload_injective) code_simp

text \<open>
  What was registered is read back, in the order of the ids, with the digest of the set; the
  assignment becomes managed, and the criteria of every other assignment are what they were.
\<close>

theorem registered_criteria_read_back:
  assumes "register_criteria clk rid entries source_ref db = Inr (db', s)"
  shows "get_criteria db' rid = Some (s\<lparr>set_criteria := sort_key ct_id (set_criteria s)\<rparr>)
    \<and> set_of_digest s = set_digest (set_criteria s) \<and> mode_of db' rid = MANAGED
    \<and> (\<forall>other. other \<noteq> rid \<longrightarrow> get_criteria db' other = get_criteria db other)"
proof -
  from assms obtain cs where cs: "cs \<noteq> []"
    "s = \<lparr>set_rel = rid, set_of_digest = set_digest cs, set_source_ref = source_ref, set_criteria = cs\<rparr>"
    "canonical_criteria db' = delete_where (\<lambda>c. c_rel c = rid) (canonical_criteria db)
       @ criterion_rows rid source_ref (set_digest cs) (clk_iso clk) cs"
    by (rule register_criteria_cases)
  have "get_criteria db' other = get_criteria db other" if "other \<noteq> rid" for other
    unfolding get_criteria_def cs(3) filter_registered using that by simp
  moreover have "mode_of db' rid = MANAGED"
  proof -
    obtain db0 where v: "verification_modes db' = verification_modes (write_mode rid MANAGED (clk_iso clk) db0)"
      using assms by (auto simp: register_criteria_def Let_def journal_entry_def split: if_splits)
    show ?thesis
      unfolding mode_of_def mode_row_of_def v write_mode_def upsert_def
      by (auto simp: find_snoc find_update_where_hit find_None_iff_none split: option.splits
          dest: find_Some_iff_mem)
  qed
  ultimately show ?thesis using get_registered [OF cs(3,1)] cs(2) by simp
qed

definition demo_criteria :: "json list" where
  "demo_criteria = [JObj [(''id'', JStr ''c2''), (''title'', JStr ''parses'')],
     JObj [(''id'', JStr ''c1''), (''title'', JStr ''builds''), (''required'', JBool False)]]"

definition criteria_clock :: clock where
  "criteria_clock = \<lparr>clk_now = 100, clk_iso = ''t100''\<rparr>"

definition demo_criterion_list :: "criterion list" where
  "demo_criterion_list = [\<lparr>ct_id = ''c2'', ct_title = ''parses'', ct_required = True\<rparr>,
     \<lparr>ct_id = ''c1'', ct_title = ''builds'', ct_required = False\<rparr>]"

lemma demo_read: "read_criteria [] demo_criteria = Inr demo_criterion_list"
  by code_simp

lemma demo_registers:
  "\<exists>db' s. register_criteria criteria_clock ''rel'' demo_criteria None empty_db = Inr (db', s)
     \<and> set_criteria s = demo_criterion_list"
proof -
  have "insert_criteria (criterion_rows ''rel'' None d ''t100'' demo_criterion_list) []
      = Inr (criterion_rows ''rel'' None d ''t100'' demo_criterion_list)" for d
    by (rule insert_criteria_total [of "[]", simplified])
       (simp add: criterion_rows_def criterion_key_def demo_criterion_list_def)
  then show ?thesis
    unfolding register_criteria_def demo_read bindE_Inr Let_def
    by (simp add: demo_criterion_list_def empty_db_def criteria_clock_def delete_where_def)
qed

theorem registered_criteria_read_back_witness:
  "\<exists>db' s. register_criteria criteria_clock ''rel'' demo_criteria None empty_db = Inr (db', s)
     \<and> mode_of db' ''rel'' = MANAGED \<and> get_criteria db' ''other'' = None
     \<and> map_option set_criteria (get_criteria db' ''rel'') = Some (rev demo_criterion_list)"
proof -
  obtain db' s where r: "register_criteria criteria_clock ''rel'' demo_criteria None empty_db = Inr (db', s)"
    "set_criteria s = demo_criterion_list" using demo_registers by blast
  have "get_criteria empty_db ''other'' = None" by code_simp
  moreover have "sort_key ct_id demo_criterion_list = rev demo_criterion_list" by code_simp
  ultimately show ?thesis using registered_criteria_read_back [OF r(1)] r by simp
qed

text \<open>
  C38: A verified ruling on a managed assignment covers its criteria: the set is registered, the digest
  the review was bound to or the caller attested is the digest of that set, and every required
  criterion has a finding that records it as verified.
\<close>

theorem verified_covers_required:
  assumes "coverage db rid event ''verified'' findings reason expected = Inr c"
    and "mode_of db rid = MANAGED"
  shows "\<exists>s. get_criteria db rid = Some s \<and> cov_coverage c = COVERED
    \<and> (bound_digest db event = Some (set_of_digest s) \<or> expected = Some (set_of_digest s))
    \<and> bound_digest db event \<in> {None, Some (set_of_digest s)}
    \<and> (\<forall>ct\<in>set (set_criteria s). ct_required ct \<longrightarrow>
         (\<exists>f\<in>set findings. has_id (ct_id ct) f \<and> ruled ''verified'' f))"
proof -
  obtain s where s: "get_criteria db rid = Some s"
    "digest_gap MANAGED (bound_digest db event) (set_of_digest s) ''verified'' expected = None"
    "coverage_gap (set_criteria s) ''verified'' findings reason = None" "cov_coverage c = COVERED"
    using assms by (auto simp: coverage_def split: option.splits)
  have "missing_required (set_criteria s) findings = []"
    using s(3) by (auto simp: coverage_gap_def split: if_splits)
  then have "\<forall>ct\<in>set (set_criteria s). ct_required ct \<longrightarrow>
      (\<exists>f\<in>set findings. has_id (ct_id ct) f \<and> ruled ''verified'' f)"
    using by_id_subset [of findings]
    by (fastforce simp: missing_required_def filter_empty_conv list_ex_iff)
  moreover have "(bound_digest db event = Some (set_of_digest s) \<or> expected = Some (set_of_digest s))
      \<and> bound_digest db event \<in> {None, Some (set_of_digest s)}"
    using s(2) by (auto simp: digest_gap_def split: if_splits)
  ultimately show ?thesis using s(1,4) by blast
qed

definition demo_managed :: db where
  "demo_managed = empty_db\<lparr>canonical_criteria :=
       criterion_rows ''rel'' None ''digest'' ''t0'' demo_criterion_list,
     verification_modes := [\<lparr>md_rel = ''rel'', md_mode = MANAGED, md_recorded_at = ''t0''\<rparr>],
     claim_contexts := [\<lparr>cc_event = ''e'', cc_set_digest = Some ''digest'', cc_bound_at = ''t1''\<rparr>]\<rparr>"

theorem verified_covers_required_witness:
  "\<exists>c. coverage demo_managed ''rel'' ''e'' ''verified'' [finding_entry ''c2'' ''verified'' '''' False]
       None None = Inr c \<and> cov_coverage c = COVERED"
proof -
  let ?f = "[finding_entry ''c2'' ''verified'' '''' False]"
  have "is_ok (coverage demo_managed ''rel'' ''e'' ''verified'' ?f None None)"
    "mode_of demo_managed ''rel'' = MANAGED" by code_simp+
  then obtain c where c: "coverage demo_managed ''rel'' ''e'' ''verified'' ?f None None = Inr c"
    by (cases "coverage demo_managed ''rel'' ''e'' ''verified'' ?f None None") auto
  from verified_covers_required [OF c] \<open>mode_of demo_managed ''rel'' = MANAGED\<close> c
  show ?thesis by blast
qed

text \<open>
  Editing the criteria invalidates a review made against the earlier wording: once a review is
  bound to one set and another set with another digest is registered, no ruling on that event is
  covered, whatever findings or attested digest come with it.
\<close>

theorem edited_criteria_refuse:
  assumes "bind_review clk1 rid event db = (db1, Some digest)"
    and "event \<notin> cc_event ` set (claim_contexts db)"
    and "register_criteria clk2 rid entries source_ref db1 = Inr (db2, s)"
    and "set_of_digest s \<noteq> digest"
  shows "coverage db2 rid event verdict findings reason expected = Inl (refuse CRITERIA_SET_CHANGED)"
proof -
  from assms(3) obtain cs where cs: "cs \<noteq> []" "set_of_digest s = set_digest cs"
    "canonical_criteria db2 = delete_where (\<lambda>c. c_rel c = rid) (canonical_criteria db1)
       @ criterion_rows rid source_ref (set_digest cs) (clk_iso clk2) cs"
    "claim_contexts db2 = claim_contexts db1"
    by (rule register_criteria_cases) simp
  have none: "List.find (\<lambda>c. cc_event c = event) (claim_contexts db) = None"
    using assms(2) by (auto simp: find_None_iff_none)
  have "bound_digest db2 event = Some digest"
    using assms(1,2) none cs(4)
    by (auto simp: bind_review_def Let_def bound_digest_def insert_or_ignore_def find_snoc)
  with get_registered [OF cs(3,1)] cs(2) assms(4) show ?thesis
    by (simp add: coverage_def digest_gap_def)
qed

theorem edited_criteria_refuse_witness:
  "\<exists>db2. coverage db2 ''rel'' ''e'' ''verified'' [finding_entry ''c2'' ''verified'' '''' False] None None
     = Inl (refuse CRITERIA_SET_CHANGED)"
proof -
  let ?db = "demo_managed\<lparr>claim_contexts := []\<rparr>"
  obtain db1 where b: "bind_review criteria_clock ''rel'' ''e'' ?db = (db1, Some ''digest'')"
    "canonical_criteria db1 = canonical_criteria ?db"
  proof -
    have "snd (bind_review criteria_clock ''rel'' ''e'' ?db) = Some ''digest''" by code_simp
    moreover have "canonical_criteria (fst (bind_review criteria_clock ''rel'' ''e'' ?db))
        = canonical_criteria ?db" by (simp add: bind_review_def Let_def)
    ultimately show ?thesis using that by (cases "bind_review criteria_clock ''rel'' ''e'' ?db") auto
  qed
  have fresh: "''e'' \<notin> cc_event ` set (claim_contexts ?db)" by simp
  have empty: "delete_where (\<lambda>c. c_rel c = ''rel'') (canonical_criteria db1) = []"
    unfolding b(2) by (simp add: demo_managed_def criterion_rows_def demo_criterion_list_def delete_where_def)
  have ins: "insert_criteria (criterion_rows ''rel'' None d ''t100'' demo_criterion_list) []
      = Inr (criterion_rows ''rel'' None d ''t100'' demo_criterion_list)" for d
    by (rule insert_criteria_total [of "[]", simplified])
       (simp add: criterion_rows_def criterion_key_def demo_criterion_list_def)
  obtain db2 s where r: "register_criteria criteria_clock ''rel'' demo_criteria None db1 = Inr (db2, s)"
    "set_of_digest s = set_digest demo_criterion_list"
    unfolding register_criteria_def demo_read bindE_Inr Let_def empty
    using ins by (auto simp: criteria_clock_def demo_criterion_list_def)
  have "length (set_digest demo_criterion_list) = 64" by (simp add: set_digest_def sha.digest_length)
  then have "set_of_digest s \<noteq> ''digest''" using r(2) by auto
  from edited_criteria_refuse [OF b(1) fresh r(1) this] show ?thesis by blast
qed

end
