(* ===== verification/Admission.thy ===== *)
theory Admission
  imports Registry Lifecycle
begin

text \<open>
  \<^verbatim>\<open>admission.py\<close>: which turns belong to a generation's execution. The anchor always does; any other
  turn needs a stored admission or a continuation claim that names the anchor. The order of turns on
  the host can contradict such a claim and never stands in for one.
\<close>

definition ANCHOR :: string where "ANCHOR = ''anchor''"
definition EXPLICIT_ADMISSION :: string where "EXPLICIT_ADMISSION = ''explicit_admission''"

datatype corroboration = ORDERING_CORROBORATED | ORDERING_ABSENT | ORDERING_CONTRADICTED

record Admission =
  ad_admitted :: bool
  ad_evidence :: "string option"
  ad_corroboration :: "corroboration option"

definition not_admitted :: Admission where
  "not_admitted = \<lparr>ad_admitted = False, ad_evidence = None, ad_corroboration = None\<rparr>"

section \<open>Continuation claims\<close>

record ContinuationClaim =
  con_turn_id :: json
  con_anchor_turn_id :: string
  con_actor :: string
  con_reason :: string

text \<open>A field of a claim or a receipt that is a string and not blank.\<close>

definition text_of :: "json \<Rightarrow> string option" where
  "text_of v = (case v of JStr s \<Rightarrow> if blank s then None else Some s | _ \<Rightarrow> None)"

definition claim_from_record :: "json \<Rightarrow> err + ContinuationClaim option" where
  "claim_from_record v =
     (if v = JNull then Inr None
      else if \<not> is_obj v then Inl ValueError
      else case (text_of (jget v ''anchorTurnId''), text_of (jget v ''actor''), text_of (jget v ''reason'')) of
        (Some anchor, Some actor, Some reason) \<Rightarrow>
          Inr (Some \<lparr>con_turn_id = (case v of JObj kvs \<Rightarrow>
                 (case map_of kvs ''turnId'' of None \<Rightarrow> JStr [] | Some t \<Rightarrow> t) | _ \<Rightarrow> JStr []),
               con_anchor_turn_id = anchor, con_actor = actor, con_reason = reason\<rparr>)
      | _ \<Rightarrow> Inl ValueError)"

section \<open>Admission\<close>

definition turn_key :: "generation_turn_row \<Rightarrow> string \<times> int \<times> string" where
  "turn_key t = (gt_rel t, gt_gen t, gt_turn t)"

definition stored_admission :: "db \<Rightarrow> string \<Rightarrow> int \<Rightarrow> string \<Rightarrow> bool" where
  "stored_admission db rid number turn =
     list_ex (\<lambda>t. turn_key t = (rid, number, turn)) (generation_turns db)"

definition generation_of :: "relationship_record \<Rightarrow> string option \<Rightarrow> generation_row option" where
  "generation_of relationship anchor =
     List.find (\<lambda>g. g_dispatch_turn g = anchor) (rr_generations relationship)"

definition next_anchor_start :: "host \<Rightarrow> generation_row option \<Rightarrow> rat option" where
  "next_anchor_start adapter g = None"

definition corroborate ::
  "host option \<Rightarrow> relationship_record \<Rightarrow> string \<Rightarrow> string \<Rightarrow> corroboration" where
  "corroborate adapter relationship start turn =
     (case adapter of
        None \<Rightarrow> ORDERING_ABSENT
      | Some h \<Rightarrow>
          let thread = r_child_task (rr_row relationship) in
          (case (read_turn h thread start, read_turn h thread turn) of
             (Inr anchor, Inr candidate) \<Rightarrow>
               (case candidate of
                  None \<Rightarrow> ORDERING_CONTRADICTED
                | Some c \<Rightarrow>
                    (case (Option.bind anchor ti_started_at, ti_started_at c) of
                       (Some a, Some s) \<Rightarrow>
                         if s < a then ORDERING_CONTRADICTED
                         else (case next_anchor_start h (generation_of relationship (Some start)) of
                             Some closing \<Rightarrow> if closing \<le> s then ORDERING_CONTRADICTED
                                            else ORDERING_CORROBORATED
                           | None \<Rightarrow> ORDERING_CORROBORATED)
                     | _ \<Rightarrow> ORDERING_ABSENT))
           | _ \<Rightarrow> ORDERING_ABSENT))"

definition admit ::
  "host option \<Rightarrow> db \<Rightarrow> relationship_record \<Rightarrow> generation_row \<Rightarrow> string \<Rightarrow> ContinuationClaim option
     \<Rightarrow> Admission" where
  "admit adapter db relationship g turn claim =
     (if g_dispatch_turn g = Some turn
      then \<lparr>ad_admitted = True, ad_evidence = Some ANCHOR, ad_corroboration = None\<rparr>
      else if stored_admission db (r_id (rr_row relationship)) (g_no g) turn
      then \<lparr>ad_admitted = True, ad_evidence = Some EXPLICIT_ADMISSION, ad_corroboration = None\<rparr>
      else case claim of
        None \<Rightarrow> not_admitted
      | Some c \<Rightarrow>
          if g_dispatch_turn g \<noteq> Some (con_anchor_turn_id c) then not_admitted
          else let corroboration = corroborate adapter relationship (con_anchor_turn_id c) turn
            in if corroboration = ORDERING_CONTRADICTED then not_admitted
               else \<lparr>ad_admitted = True, ad_evidence = Some EXPLICIT_ADMISSION,
                     ad_corroboration = Some corroboration\<rparr>)"

definition write_admission :: "string \<Rightarrow> string \<Rightarrow> int \<Rightarrow> string \<Rightarrow> string \<Rightarrow> db \<Rightarrow> db" where
  "write_admission stamp rid number turn actor db = db\<lparr>generation_turns :=
     insert_or_ignore turn_key \<lparr>gt_rel = rid, gt_gen = number, gt_turn = turn,
       gt_evidence = EXPLICIT_ADMISSION, gt_actor = actor, gt_admitted_at = stamp\<rparr>
       (generation_turns db)\<rparr>"

definition admit_explicitly ::
  "clock \<Rightarrow> string \<Rightarrow> int \<Rightarrow> string \<Rightarrow> string \<Rightarrow> db \<Rightarrow> err + db" where
  "admit_explicitly clk rid number turn actor db =
     (if blank turn then Inl ValueError
      else if blank actor then Inl ValueError
      else Inr (journal_entry ''turn_admitted'' turn
             (JObj [(''relationship'', JStr rid), (''generation'', JInt number),
                (''actor'', JStr actor)]) (clk_iso clk)
             (write_admission (clk_iso clk) rid number turn actor db)))"

definition record_admission ::
  "clock \<Rightarrow> string \<Rightarrow> int \<Rightarrow> string \<Rightarrow> Admission \<Rightarrow> db \<Rightarrow> db" where
  "record_admission clk rid number turn admission db =
     (if ad_evidence admission \<noteq> Some EXPLICIT_ADMISSION then db
      else write_admission (clk_iso clk) rid number turn ''child'' db)"

section \<open>Lemmas\<close>

lemma record_admission_select [simp]:
  "relationships (record_admission clk rid g t a db) = relationships db"
  "generations (record_admission clk rid g t a db) = generations db"
  "events (record_admission clk rid g t a db) = events db"
  "observations (record_admission clk rid g t a db) = observations db"
  "settlements (record_admission clk rid g t a db) = settlements db"
  "refusals (record_admission clk rid g t a db) = refusals db"
  "deliveries (record_admission clk rid g t a db) = deliveries db"
  "attempts (record_admission clk rid g t a db) = attempts db"
  "revision_lineage (record_admission clk rid g t a db) = revision_lineage db"
  "acks (record_admission clk rid g t a db) = acks db"
  "verdicts (record_admission clk rid g t a db) = verdicts db"
  by (simp_all add: record_admission_def write_admission_def)

lemma record_admission_stored:
  "ad_evidence a = Some EXPLICIT_ADMISSION \<Longrightarrow> stored_admission (record_admission clk rid g t a db) rid g t"
  by (auto simp: record_admission_def write_admission_def stored_admission_def insert_or_ignore_def
      turn_key_def list_ex_iff)

lemma ANCHOR_not_explicit [simp]: "ANCHOR \<noteq> EXPLICIT_ADMISSION"
  by (simp add: ANCHOR_def EXPLICIT_ADMISSION_def)

lemma admit_basis:
  assumes "ad_admitted (admit adapter db relationship g turn claim)"
  shows "g_dispatch_turn g = Some turn
    \<or> stored_admission db (r_id (rr_row relationship)) (g_no g) turn
    \<or> (\<exists>c. claim = Some c \<and> g_dispatch_turn g = Some (con_anchor_turn_id c))"
  using assms by (auto simp: admit_def not_admitted_def Let_def split: if_splits option.splits)

section \<open>Properties\<close>

text \<open>
  The order of turns on the host never admits one. Without a claim the answer does not depend on the
  adapter at all, a turn admitted with an adapter is admitted without one, and a turn is admitted
  only as the anchor, by a stored admission, or by a claim naming the anchor of this generation.
\<close>

theorem ordering_never_admits:
  assumes "ad_admitted (admit adapter db relationship g turn claim)"
  shows "ad_admitted (admit None db relationship g turn claim)
    \<and> (g_dispatch_turn g = Some turn
         \<or> stored_admission db (r_id (rr_row relationship)) (g_no g) turn
         \<or> (\<exists>c. claim = Some c \<and> g_dispatch_turn g = Some (con_anchor_turn_id c)))
    \<and> admit adapter db relationship g turn None = admit None db relationship g turn None"
  using assms admit_basis [OF assms]
  by (auto simp: admit_def not_admitted_def Let_def corroborate_def split: option.splits)

definition anchored_generation :: generation_row where
  "anchored_generation = \<lparr>g_rel = ''rel'', g_no = 1, g_dispatch_request = ''q'',
     g_anchor_state = ANCHOR_BOUND, g_dispatch_turn = Some ''turn-1'', g_reason = ''initial_assignment'',
     g_opened_at = ''t0'', g_bound_at = Some ''t0''\<rparr>"

definition demo_claim :: json where
  "demo_claim = JObj [(''anchorTurnId'', JStr ''turn-1''), (''actor'', JStr ''child''), (''reason'', JStr ''loop'')]"

definition ordered_host :: host where
  "ordered_host = idle_host\<lparr>read_turn := \<lambda>_ t. Inr (Some \<lparr>ti_turn_id = t, ti_status = ''completed'',
     ti_started_at = Some (if t = ''turn-1'' then 1 else 2)\<rparr>)\<rparr>"

theorem ordering_never_admits_witness:
  "\<exists>c. claim_from_record demo_claim = Inr (Some c)
     \<and> corroborate (Some ordered_host) \<lparr>rr_row = demo_relationship, rr_generations = [anchored_generation]\<rparr>
         ''turn-1'' ''turn-2'' = ORDERING_CORROBORATED
     \<and> ad_admitted (admit None empty_db \<lparr>rr_row = demo_relationship, rr_generations = [anchored_generation]\<rparr>
         anchored_generation ''turn-2'' (Some c))
     \<and> \<not> ad_admitted (admit (Some ordered_host) empty_db
         \<lparr>rr_row = demo_relationship, rr_generations = [anchored_generation]\<rparr> anchored_generation ''turn-2'' None)"
proof -
  let ?r = "\<lparr>rr_row = demo_relationship, rr_generations = [anchored_generation]\<rparr>"
  define c where "c = \<lparr>con_turn_id = JStr [], con_anchor_turn_id = ''turn-1'', con_actor = ''child'',
      con_reason = ''loop''\<rparr>"
  have "claim_from_record demo_claim = Inr (Some c)"
    unfolding c_def by code_simp
  moreover have cor: "corroborate (Some ordered_host) ?r ''turn-1'' ''turn-2'' = ORDERING_CORROBORATED"
    by code_simp
  moreover have no: "stored_admission empty_db (r_id (rr_row ?r)) (g_no anchored_generation) ''turn-2'' = False"
    by code_simp
  moreover have "ad_admitted (admit (Some ordered_host) empty_db ?r anchored_generation ''turn-2'' (Some c))"
    using no cor by (simp add: admit_def c_def anchored_generation_def Let_def)
  moreover have "\<not> ad_admitted (admit (Some ordered_host) empty_db ?r anchored_generation ''turn-2'' None)"
    using no by (simp add: admit_def not_admitted_def anchored_generation_def)
  ultimately show ?thesis
    using ordering_never_admits [of "Some ordered_host" empty_db ?r anchored_generation "''turn-2''" "Some c"]
    by blast
qed

end
