(* ===== verification/Text_Lines.thy ===== *)
theory Text_Lines
  imports Python_Text
begin

text \<open>
  The parts of Python's string library that read a text line by line: \<^verbatim>\<open>split\<close> at a character,
  \<^verbatim>\<open>join\<close> with newlines, \<^verbatim>\<open>partition\<close>, \<^verbatim>\<open>find\<close> and \<^verbatim>\<open>in\<close>, \<^verbatim>\<open>strip("\n")\<close>, \<^verbatim>\<open>replace\<close>, and the longest
  run of one character. Splitting and joining are inverse to each other.
\<close>

named_theorems line_simps "how splitting and joining act on texts put together from lines"

abbreviation (input) newline :: char where
  "newline \<equiv> CHR 0x0A"

section \<open>Splitting and joining\<close>

fun split_on :: "char \<Rightarrow> string \<Rightarrow> string list" where
  "split_on c [] = [[]]"
| "split_on c (x # xs) =
     (if x = c then [] # split_on c xs
      else case split_on c xs of [] \<Rightarrow> [[x]] | l # ls \<Rightarrow> (x # l) # ls)"

abbreviation split_lines :: "string \<Rightarrow> string list" where
  "split_lines \<equiv> split_on newline"

fun join_lines :: "string list \<Rightarrow> string" where
  "join_lines [] = []"
| "join_lines [w] = w"
| "join_lines (w # v # ws) = w @ [CHR 0x0A] @ join_lines (v # ws)"

definition one_line :: "string \<Rightarrow> bool" where
  "one_line s = (newline \<notin> set s)"

text \<open>\<^verbatim>\<open>partition(c)\<close>: the text before the first separator and after it, none where it is absent.\<close>

fun partition_at :: "char \<Rightarrow> string \<Rightarrow> (string \<times> string) option" where
  "partition_at c [] = None"
| "partition_at c (x # xs) =
     (if x = c then Some ([], xs) else map_option (\<lambda>(a, b). (x # a, b)) (partition_at c xs))"

text \<open>\<^verbatim>\<open>s.find(p)\<close> and \<^verbatim>\<open>p in s\<close>.\<close>

fun find_sub :: "string \<Rightarrow> string \<Rightarrow> nat option" where
  "find_sub p [] = (if p = [] then Some 0 else None)"
| "find_sub p (x # xs) =
     (if starts_with p (x # xs) then Some 0 else map_option Suc (find_sub p xs))"

definition contains :: "string \<Rightarrow> string \<Rightarrow> bool" where
  "contains p s = (find_sub p s \<noteq> None)"

definition ends_with :: "string \<Rightarrow> string \<Rightarrow> bool" where
  "ends_with p s = starts_with (rev p) (rev s)"

definition rstrip_of :: "char \<Rightarrow> string \<Rightarrow> string" where
  "rstrip_of c s = rev (dropWhile (\<lambda>x. x = c) (rev s))"

definition strip_of :: "char \<Rightarrow> string \<Rightarrow> string" where
  "strip_of c s = rstrip_of c (dropWhile (\<lambda>x. x = c) s)"

text \<open>\<^verbatim>\<open>s.replace(p, q)\<close> for a pattern that is not empty.\<close>

function replace_sub :: "string \<Rightarrow> string \<Rightarrow> string \<Rightarrow> string" where
  "replace_sub p q [] = []"
| "replace_sub p q (x # xs) =
     (if p \<noteq> [] \<and> starts_with p (x # xs) then q @ replace_sub p q (drop (length p - 1) xs)
      else x # replace_sub p q xs)"
  by pat_completeness auto
termination by (relation "measure (\<lambda>(_, _, s). length s)") auto

text \<open>The longest run of a character, as a loop that keeps the current and the longest run.\<close>

fun longest_run :: "char \<Rightarrow> string \<Rightarrow> nat \<Rightarrow> nat \<Rightarrow> nat" where
  "longest_run c [] current longest = longest"
| "longest_run c (x # xs) current longest =
     (let current' = (if x = c then current + 1 else 0)
      in longest_run c xs current' (max longest current'))"

section \<open>Facts\<close>

lemma split_on_nonempty [simp]: "split_on c s \<noteq> []"
  by (induction s) (auto split: list.splits)

lemma split_on_pieces: "l \<in> set (split_on c s) \<Longrightarrow> c \<notin> set l"
  by (induction s arbitrary: l) (auto split: list.splits if_splits)

lemma split_on_word [line_simps]: "c \<notin> set s \<Longrightarrow> split_on c s = [s]"
  by (induction s) auto

lemma split_on_append [line_simps]: "c \<notin> set s \<Longrightarrow> split_on c (s @ c # t) = s # split_on c t"
  by (induction s) auto

lemma join_lines_Cons: "ws \<noteq> [] \<Longrightarrow> join_lines (w # ws) = w @ CHR 0x0A # join_lines ws"
  by (cases ws) simp_all

lemma join_char [simp]: "join_lines ((x # l) # ls) = x # join_lines (l # ls)"
  by (cases ls) simp_all

lemma join_split [simp]: "join_lines (split_lines s) = s"
proof (induction s)
  case (Cons x xs)
  then show ?case
    by (cases "split_lines xs") (auto simp: join_lines_Cons neq_Nil_conv split: list.splits)
qed simp

lemma split_join_lines [line_simps]:
  assumes "ws \<noteq> []" "\<forall>w\<in>set ws. one_line w"
  shows "split_lines (join_lines ws) = ws"
  using assms
proof (induction ws)
  case (Cons w ws)
  then show ?case
    by (cases ws) (auto simp: one_line_def line_simps)
qed simp

lemma split_lines_one_line: "l \<in> set (split_lines s) \<Longrightarrow> one_line l"
  by (simp add: one_line_def split_on_pieces)

lemma set_join_lines: "set (join_lines ws) \<subseteq> insert newline (\<Union>w\<in>set ws. set w)"
  by (induction ws rule: join_lines.induct) auto

lemma join_lines_append:
  "us \<noteq> [] \<Longrightarrow> ws \<noteq> [] \<Longrightarrow> join_lines (us @ ws) = join_lines us @ newline # join_lines ws"
  by (induction us rule: join_lines.induct) (auto simp: join_lines_Cons)

lemma partition_at_append [line_simps]: "c \<notin> set a \<Longrightarrow> partition_at c (a @ c # b) = Some (a, b)"
  by (induction a) auto

lemma partition_at_None: "partition_at c s = None \<longleftrightarrow> c \<notin> set s"
  by (induction s) auto

lemma partition_at_Some: "partition_at c s = Some (a, b) \<longleftrightarrow> s = a @ c # b \<and> c \<notin> set a"
proof (induction s arbitrary: a)
  case (Cons x xs)
  show ?case
  proof (cases "x = c")
    case True
    then show ?thesis by (cases a) auto
  next
    case False
    then have "partition_at c (x # xs) = Some (a, b) \<longleftrightarrow> (\<exists>a'. a = x # a' \<and> partition_at c xs = Some (a', b))"
      by (auto simp: map_option_case split: option.splits)
    with Cons.IH False show ?thesis by (cases a) auto
  qed
qed simp

lemma find_sub_Some: "find_sub p s = Some n \<Longrightarrow> \<exists>b. s = take n s @ p @ b \<and> n + length p \<le> length s"
proof (induction s arbitrary: n)
  case (Cons x xs)
  show ?case
  proof (cases "starts_with p (x # xs)")
    case True
    with Cons.prems obtain b where "x # xs = p @ b" "n = 0" by (auto simp: starts_with_iff)
    then show ?thesis by (metis add_0 append_Nil length_append le_add1 take0)
  next
    case False
    with Cons.prems obtain m where m: "find_sub p xs = Some m" "n = Suc m" by auto
    with Cons.IH [of m] show ?thesis by auto
  qed
qed (auto split: if_splits)

lemma find_sub_None: "find_sub p s = None \<longleftrightarrow> (\<nexists>a b. s = a @ p @ b)"
proof (induction s)
  case Nil
  then show ?case by auto
next
  case (Cons x xs)
  have "(\<exists>a b. x # xs = a @ p @ b) \<longleftrightarrow> starts_with p (x # xs) \<or> (\<exists>a b. xs = a @ p @ b)"
  proof
    assume "\<exists>a b. x # xs = a @ p @ b"
    then obtain a b where eq: "x # xs = a @ p @ b" by blast
    show "starts_with p (x # xs) \<or> (\<exists>a b. xs = a @ p @ b)"
    proof (cases a)
      case Nil
      with eq show ?thesis by (auto simp: starts_with_iff)
    next
      case (Cons y a')
      with eq show ?thesis by auto
    qed
  next
    assume "starts_with p (x # xs) \<or> (\<exists>a b. xs = a @ p @ b)"
    then show "\<exists>a b. x # xs = a @ p @ b"
      by (metis append_Cons append_Nil starts_with_iff)
  qed
  with Cons.IH show ?case by auto
qed

lemma contains_iff: "contains p s \<longleftrightarrow> (\<exists>a b. s = a @ p @ b)"
  by (simp add: contains_def find_sub_None)

lemma ends_with_append [simp]: "ends_with p (s @ p)"
  by (simp add: ends_with_def)

lemma ends_with_iff: "ends_with p s \<longleftrightarrow> (\<exists>t. s = t @ p)"
  by (metis ends_with_def rev_append rev_rev_ident starts_with_iff)

text \<open>Stripping white space.\<close>

lemma strip_fixed: "s \<noteq> [] \<Longrightarrow> \<not> is_space (hd s) \<Longrightarrow> \<not> is_space (last s) \<Longrightarrow> strip s = s"
proof -
  assume s: "s \<noteq> []" "\<not> is_space (hd s)" "\<not> is_space (last s)"
  then have "dropWhile is_space s = s" by (cases s) auto
  moreover have "dropWhile is_space (rev s) = rev s"
    using s by (cases "rev s") (auto simp: hd_rev [symmetric])
  ultimately show "strip s = s" by (simp add: strip_def)
qed

lemma strip_lead: "is_space c \<Longrightarrow> strip (c # s) = strip s"
  by (simp add: strip_def)

lemma strip_trail: "is_space c \<Longrightarrow> strip (s @ [c]) = strip s"
proof (cases "list_all is_space s")
  case True
  moreover assume "is_space c"
  ultimately have "blank (s @ [c])" "blank s" by (simp_all add: blank_def)
  then show ?thesis by (simp add: strip_empty_iff [THEN iffD2])
next
  case False
  moreover assume "is_space c"
  moreover have "dropWhile is_space (s @ [c]) = dropWhile is_space s @ [c]"
    using False by (simp add: dropWhile_append list_all_iff)
  ultimately show ?thesis by (simp add: strip_def)
qed

text \<open>
  The longest run: the loop finds a bound on every run, and no text with a shorter bound is
  missed.
\<close>

lemma longest_run_ge: "longest \<le> longest_run c s current longest"
proof (induction s arbitrary: current longest)
  case (Cons x xs)
  show ?case using Cons [of "max longest (if x = c then current + 1 else 0)" "if x = c then current + 1 else 0"]
    by (simp add: Let_def)
qed simp

lemma longest_run_prefix:
  "starts_with (replicate n c) s \<Longrightarrow> 0 < n \<Longrightarrow> current + n \<le> longest_run c s current longest"
proof (induction n arbitrary: s current longest)
  case (Suc n)
  then obtain xs where s: "s = c # xs" "starts_with (replicate n c) xs"
    by (auto simp: starts_with_iff)
  show ?case
  proof (cases "n = 0")
    case True
    with s longest_run_ge [of "max longest (current + 1)" c xs "current + 1"] show ?thesis by simp
  next
    case False
    with Suc.IH [OF s(2), of "current + 1" "max longest (current + 1)"] s show ?thesis by simp
  qed
qed simp

lemma longest_run_bounds: "contains (replicate n c) s \<Longrightarrow> n \<le> longest_run c s current longest"
proof -
  assume "contains (replicate n c) s"
  then obtain a b where s: "s = a @ replicate n c @ b" by (auto simp: contains_iff)
  show "n \<le> longest_run c s current longest"
    unfolding s
  proof (induction a arbitrary: current longest)
    case Nil
    show ?case
    proof (cases "n = 0")
      case False
      with longest_run_prefix [of n c "replicate n c @ b" current longest] show ?thesis by simp
    qed simp
  next
    case (Cons x xs)
    then show ?case by (simp add: Let_def)
  qed
qed

end
