(* ===== verification/Manifest.thy ===== *)
theory Manifest
  imports Text_Lines Scope
begin

text \<open>
  \<^verbatim>\<open>manifest.py\<close>: the canonical payload of a manifest, whose digest is the revision hash of a
  deliverable, and the verification of its entries against the disk or against a frozen copy.
  Reading a path is the work of file-descriptor calls: what one read of one path established is the
  parameter \<open>disk\<close>. The prose of a problem is not kept, only what it is about.
\<close>

section \<open>Entries\<close>

datatype PathBindingMode = BEST_EFFORT_DETECTION | LEASE_ENFORCED

definition at_least :: "PathBindingMode \<Rightarrow> PathBindingMode \<Rightarrow> bool" where
  "at_least actual minimum = (minimum = LEASE_ENFORCED \<longrightarrow> actual = LEASE_ENFORCED)"

definition binding_str :: "PathBindingMode \<Rightarrow> string" where
  "binding_str m = (case m of BEST_EFFORT_DETECTION \<Rightarrow> ''best_effort_detection''
     | LEASE_ENFORCED \<Rightarrow> ''lease_enforced'')"

text \<open>A digest is whatever JSON value the record carries until it is checked.\<close>

record Entry =
  en_path :: string
  en_sha256 :: json
  en_bytes :: "int option"

definition sha_is :: "json \<Rightarrow> string \<Rightarrow> bool" where
  "sha_is v digest = (v = JStr digest)"

section \<open>The canonical payload\<close>

fun lines_of :: "Entry list \<Rightarrow> err + string list" where
  "lines_of [] = Inr []"
| "lines_of (e # es) =
     bindE (normalize_declared_path (en_path e)) (\<lambda>path.
       case en_sha256 e of
         JStr digest \<Rightarrow>
           if DIGEST_RE digest
           then bindE (lines_of es) (\<lambda>ls. Inr ((path @ '':'' @ digest) # ls))
           else Inl (RelayError ScopeError MANIFEST_UNVERIFIED)
       | _ \<Rightarrow> Inl (RelayError ScopeError MANIFEST_UNVERIFIED))"

definition canonical_payload :: "Entry list \<Rightarrow> err + string" where
  "canonical_payload entries =
     bindE (lines_of (sort_key (\<lambda>e. utf8 (en_path e)) entries)) (\<lambda>ls. Inr (join_lines ls))"

definition revision_hash :: "Entry list \<Rightarrow> err + string" where
  "revision_hash entries = bindE (canonical_payload entries) (\<lambda>payload. Inr (sha256_hex payload))"

section \<open>Verification\<close>

datatype path_read =
    PathRead string int PathBindingMode
  | PathRefused
  | PathMissing
  | PathFault

datatype blob_read = BlobRead string int | BlobUnreadable

text \<open>
  What reading gives: a path under the authorized roots, asked for with or without a lease; the
  entries of the frozen manifest a reference names, nothing when it has none, or an exception; one
  blob of a frozen copy.
\<close>

record disk =
  hash_path :: "string \<Rightarrow> string list \<Rightarrow> bool \<Rightarrow> path_read"
  frozen_entries :: "string \<Rightarrow> err + Entry list option"
  frozen_blob :: "string \<Rightarrow> string \<Rightarrow> blob_read"

datatype problem =
    ReadRefused string | Vanished string | WrongBytes string | WrongSize string
  | NoFrozenManifest | OtherDeliverables | FrozenSize string | NotADigest string | FrozenUnreadable string
  | FrozenBytes string | FrozenBlobSize string

fun verify_against_disk ::
  "disk \<Rightarrow> Entry list \<Rightarrow> string list \<Rightarrow> bool \<Rightarrow> err + problem list \<times> (string \<times> PathBindingMode) list" where
  "verify_against_disk dk [] roots lease = Inr ([], [])"
| "verify_against_disk dk (e # es) roots lease =
     (case hash_path dk (en_path e) roots lease of
        PathFault \<Rightarrow> Inl HostError
      | PathRefused \<Rightarrow> bindE (verify_against_disk dk es roots lease)
          (\<lambda>(ps, bs). Inr (ReadRefused (en_path e) # ps, bs))
      | PathMissing \<Rightarrow> bindE (verify_against_disk dk es roots lease)
          (\<lambda>(ps, bs). Inr (Vanished (en_path e) # ps, bs))
      | PathRead digest nbytes mode \<Rightarrow> bindE (verify_against_disk dk es roots lease) (\<lambda>(ps, bs).
          Inr ((if \<not> sha_is (en_sha256 e) digest then [WrongBytes (en_path e)]
                else if en_bytes e \<noteq> None \<and> en_bytes e \<noteq> Some nbytes then [WrongSize (en_path e)]
                else []) @ ps, (en_path e, mode) # bs)))"

definition frozen_digest_ok :: "json \<Rightarrow> err + string option" where
  "frozen_digest_ok v =
     (if \<not> jtruthy v then Inr None
      else case v of JStr s \<Rightarrow> Inr (if DIGEST_RE s then Some s else None) | _ \<Rightarrow> Inl TypeError)"

fun check_blobs :: "disk \<Rightarrow> string \<Rightarrow> Entry list \<Rightarrow> err + problem list" where
  "check_blobs dk reference [] = Inr []"
| "check_blobs dk reference (e # es) =
     bindE (frozen_digest_ok (en_sha256 e)) (\<lambda>ok.
     bindE (check_blobs dk reference es) (\<lambda>ps.
       Inr ((case ok of None \<Rightarrow> [NotADigest (en_path e)]
             | Some sha \<Rightarrow>
                 (case frozen_blob dk reference sha of
                    BlobUnreadable \<Rightarrow> [FrozenUnreadable (en_path e)]
                  | BlobRead digest nbytes \<Rightarrow>
                      if digest \<noteq> sha then [FrozenBytes (en_path e)]
                      else if en_bytes e \<noteq> None \<and> en_bytes e \<noteq> Some nbytes
                      then [FrozenBlobSize (en_path e)] else [])) @ ps)))"

definition frozen_claims :: "Entry list \<Rightarrow> Entry list \<Rightarrow> problem list" where
  "frozen_claims entries frozen =
     (if (\<lambda>e. (en_path e, en_sha256 e)) ` set entries \<noteq> (\<lambda>e. (en_path e, en_sha256 e)) ` set frozen
      then [OtherDeliverables] else [])
     @ concat (map (\<lambda>e. case map_of (rev (map (\<lambda>f. (en_path f, en_bytes f)) frozen)) (en_path e) of
           Some (Some nbytes) \<Rightarrow> if en_bytes e \<noteq> None \<and> en_bytes e \<noteq> Some nbytes
                              then [FrozenSize (en_path e)] else []
         | _ \<Rightarrow> []) entries)"

text \<open>A digest put into a set has to be hashable.\<close>

definition unhashable :: "json \<Rightarrow> bool" where
  "unhashable v = (case v of JList xs \<Rightarrow> True | JObj kvs \<Rightarrow> True | _ \<Rightarrow> False)"

definition verify_frozen :: "disk \<Rightarrow> string \<Rightarrow> Entry list \<Rightarrow> err + string \<times> problem list" where
  "verify_frozen dk reference entries =
     bindE (frozen_entries dk reference) (\<lambda>document.
       case document of
         None \<Rightarrow> Inr ([], [NoFrozenManifest])
       | Some frozen \<Rightarrow>
           if list_ex (\<lambda>e. unhashable (en_sha256 e)) (entries @ frozen) then Inl TypeError
           else
           bindE (check_blobs dk reference frozen) (\<lambda>ps.
           bindE (revision_hash frozen) (\<lambda>digest.
             Inr (digest, frozen_claims entries frozen @ ps))))"

section \<open>The payload determines the manifest\<close>

text \<open>The deliverables a manifest names, as the payload orders them.\<close>

definition digest_of :: "Entry \<Rightarrow> string" where
  "digest_of e = (case en_sha256 e of JStr s \<Rightarrow> s | _ \<Rightarrow> [])"

definition deliverables :: "Entry list \<Rightarrow> (string \<times> string) list" where
  "deliverables entries = map (\<lambda>e. (en_path e, digest_of e))
     (sort_key (\<lambda>e. utf8 (en_path e)) entries)"

definition line_of :: "string \<times> string \<Rightarrow> string" where
  "line_of pd = fst pd @ '':'' @ snd pd"

lemma lines_of_Inr:
  "lines_of es = Inr ls \<Longrightarrow>
     ls = map (\<lambda>e. line_of (en_path e, digest_of e)) es
     \<and> (\<forall>e\<in>set es. \<exists>d. en_sha256 e = JStr d \<and> DIGEST_RE d)"
proof (induction es arbitrary: ls)
  case (Cons e es)
  then show ?case
    by (cases "en_sha256 e")
       (auto simp: normalize_declared_path_def line_of_def digest_of_def split: if_splits)
qed simp

lemma canonical_payload_Inr:
  assumes "canonical_payload entries = Inr payload"
  shows "payload = join_lines (map line_of (deliverables entries))
    \<and> (\<forall>pd\<in>set (deliverables entries). DIGEST_RE (snd pd))"
proof -
  obtain ls where ls: "lines_of (sort_key (\<lambda>e. utf8 (en_path e)) entries) = Inr ls" "payload = join_lines ls"
    using assms by (auto simp: canonical_payload_def)
  from lines_of_Inr [OF ls(1)] ls(2) show ?thesis
    by (auto simp: deliverables_def comp_def digest_of_def)
qed

lemma digest_chars:
  assumes "DIGEST_RE d" shows "CHR '':'' \<notin> set d"
proof
  assume c: "CHR '':'' \<in> set d"
  then have "CHR '':'' \<in> set (chomp d)" using set_chomp [OF c] by simp
  moreover have "list_all is_hex d \<or> list_all is_hex (chomp d)"
    using assms unfolding DIGEST_RE_def re_hex_def Let_def by (cases "length d = 64 + 1") simp_all
  ultimately have "is_hex CHR '':''" using c unfolding list_all_iff by blast
  then show False by (simp add: is_hex_def)
qed

lemma line_of_inject:
  assumes "line_of a = line_of b" "CHR '':'' \<notin> set (snd a)" "CHR '':'' \<notin> set (snd b)"
  shows "a = b"
  using sep_inject_last [of "fst a" "CHR '':''" "snd a" "fst b" "snd b"] assms
  by (auto simp: line_of_def prod_eq_iff)

lemma join_lines_inject:
  assumes "\<forall>w\<in>set ws. one_line w \<and> w \<noteq> []" "\<forall>w\<in>set vs. one_line w \<and> w \<noteq> []"
    and "join_lines ws = join_lines vs"
  shows "ws = vs"
  using assms
proof (induction ws arbitrary: vs)
  case Nil
  then show ?case by (cases vs rule: join_lines.cases) auto
next
  case (Cons w ws)
  show ?case
  proof (cases vs)
    case Nil
    then show ?thesis using Cons.prems by (cases ws) (auto simp: join_lines_Cons)
  next
    case vs: (Cons v us)
    have ol: "CHR 0x0A \<notin> set w" "CHR 0x0A \<notin> set v" using Cons.prems vs by (auto simp: one_line_def)
    show ?thesis
    proof (cases "ws = [] \<or> us = []")
      case True
      then show ?thesis using Cons.prems(3) ol vs
        by (cases ws; cases us) (auto simp: join_lines_Cons dest!: arg_cong [where f = set])
    next
      case False
      then have "w @ CHR 0x0A # join_lines ws = v @ CHR 0x0A # join_lines us"
        using Cons.prems(3) vs by (simp add: join_lines_Cons)
      from sep_inject [OF this ol] Cons.IH [of us] Cons.prems vs show ?thesis by auto
    qed
  qed
qed

section \<open>Properties\<close>

definition one_line_entry :: "Entry \<Rightarrow> bool" where
  "one_line_entry e = (one_line (en_path e) \<and> one_line (digest_of e))"

lemma deliverables_one_line:
  "list_all one_line_entry es \<Longrightarrow> pd \<in> set (deliverables es) \<Longrightarrow> one_line (line_of pd) \<and> line_of pd \<noteq> []"
  by (auto simp: deliverables_def list_all_iff one_line_entry_def one_line_def line_of_def)

text \<open>
  The canonical payload identifies the deliverable: two manifests whose paths and digests hold no
  line feed have one payload only when they name the same paths with the same digests. The revision
  hash is the SHA-256 of that payload.
\<close>

theorem canonical_payload_injective:
  assumes "canonical_payload es = Inr payload" and "canonical_payload fs = Inr payload"
    and "list_all one_line_entry es" and "list_all one_line_entry fs"
  shows "deliverables es = deliverables fs"
proof -
  note e = canonical_payload_Inr [OF assms(1)] and f = canonical_payload_Inr [OF assms(2)]
  have "map line_of (deliverables es) = map line_of (deliverables fs)"
    using join_lines_inject [of "map line_of (deliverables es)" "map line_of (deliverables fs)"] e f
      deliverables_one_line [OF assms(3)] deliverables_one_line [OF assms(4)] by auto
  moreover have "inj_on line_of (set (deliverables es) \<union> set (deliverables fs))"
    using e f line_of_inject digest_chars by (intro inj_onI) blast
  ultimately show ?thesis by (rule map_inj_on)
qed

definition demo_entry :: "string \<Rightarrow> char \<Rightarrow> Entry" where
  "demo_entry path c = \<lparr>en_path = path, en_sha256 = JStr (replicate 64 c), en_bytes = None\<rparr>"

theorem canonical_payload_injective_witness:
  "deliverables [demo_entry ''/b'' CHR ''1'', demo_entry ''/a'' CHR ''0'']
     = deliverables [demo_entry ''/a'' CHR ''0'', demo_entry ''/b'' CHR ''1'']"
proof -
  let ?es = "[demo_entry ''/b'' CHR ''1'', demo_entry ''/a'' CHR ''0'']"
  let ?fs = "[demo_entry ''/a'' CHR ''0'', demo_entry ''/b'' CHR ''1'']"
  have "is_ok (canonical_payload ?es)" "canonical_payload ?fs = canonical_payload ?es"
    and ol: "list_all one_line_entry ?es" "list_all one_line_entry ?fs" by code_simp+
  then obtain p where "canonical_payload ?es = Inr p" "canonical_payload ?fs = Inr p"
    by (cases "canonical_payload ?es") auto
  from canonical_payload_injective [OF this ol] show ?thesis .
qed

text \<open>
  A line feed is allowed in a declared path, and then the payload no longer identifies the
  deliverable: a manifest of two files and a manifest of one file, whose name holds the first
  line of the other payload, have the same payload and so the same revision hash.
\<close>

theorem payload_collides_on_newline:
  "\<exists>es fs payload. canonical_payload es = Inr payload \<and> canonical_payload fs = Inr payload
     \<and> length (deliverables es) = 2 \<and> length (deliverables fs) = 1"
proof -
  let ?es = "[demo_entry ''/a'' CHR ''0'', demo_entry ''/b'' CHR ''1'']"
  let ?fs = "[demo_entry (''/a:'' @ replicate 64 CHR ''0'' @ [CHR 0x0A] @ ''/b'') CHR ''1'']"
  have "(case (canonical_payload ?es, canonical_payload ?fs) of (Inr p, Inr q) \<Rightarrow> p = q | _ \<Rightarrow> False)"
    and "length (deliverables ?es) = 2" "length (deliverables ?fs) = 1" by code_simp+
  then show ?thesis by (cases "canonical_payload ?es"; cases "canonical_payload ?fs") auto
qed

end
