(* ===== verification/Receipts.thy ===== *)
theory Receipts
  imports Admission Manifest
begin

text \<open>
  \<^verbatim>\<open>receipts.py\<close>: what a turn status with or without a receipt means, the intake of a child's
  receipt, the receipts a daemon may synthesize, and the staging of a claim made from a turn that is
  still running. An operation that commits more than once has type \<open>db \<Rightarrow> db \<times> (err + 'a)\<close>: what it
  committed stays whatever follows.
\<close>

section \<open>Constants\<close>

definition TERMINAL :: "string list" where
  "TERMINAL = [''completed'', ''failed'', ''interrupted'']"

definition TURN_STATUSES :: "string list" where
  "TURN_STATUSES = [''completed'', ''interrupted'', ''failed'', ''inProgress'']"

definition CHILD :: string where "CHILD = ''child''"
definition DAEMON :: string where "DAEMON = ''daemon_observation''"
definition READY :: string where "READY = ''ready_for_review''"
definition PRODUCERS :: "string list" where "PRODUCERS = [CHILD, DAEMON]"

definition COMPATIBLE_TURN_STATUS :: "string \<Rightarrow> string list" where
  "COMPATIBLE_TURN_STATUS outcome =
     (if outcome = READY \<or> outcome = ''blocked_needs_input'' then [''completed'', ''inProgress'']
      else if outcome = ''failed'' then [''completed'', ''failed'']
      else if outcome = ''interrupted'' then [''completed'', ''interrupted'']
      else [])"

definition DAEMON_TURN_STATUS :: "string \<Rightarrow> string list" where
  "DAEMON_TURN_STATUS outcome =
     (if outcome = ''failed'' then [''failed'']
      else if outcome = ''interrupted'' then [''interrupted''] else [])"

definition RECEIPT_FIELDS :: "string list" where
  "RECEIPT_FIELDS = [''eventId'', ''relationshipId'', ''executionGeneration'', ''attempt'',
     ''revisionHash'', ''outcome'', ''producer'', ''turnRef'', ''criteria'', ''emittedAt'',
     ''manifest'', ''manifestRef'']"

definition REQUIRED_FIELDS :: "string list" where
  "REQUIRED_FIELDS = [''eventId'', ''relationshipId'', ''executionGeneration'', ''revisionHash'',
     ''outcome'', ''producer'', ''turnRef'', ''emittedAt'']"

definition ENTRY_FIELDS :: "string list" where
  "ENTRY_FIELDS = [''path'', ''sha256'', ''bytes'']"

text \<open>\<^verbatim>\<open>models.TurnRef\<close>.\<close>

record TurnRef =
  tr_thread_id :: string
  tr_turn_id :: string
  tr_status :: string

definition to_record :: "TurnRef \<Rightarrow> json" where
  "to_record t = JObj [(''threadId'', JStr (tr_thread_id t)), (''turnId'', JStr (tr_turn_id t)),
     (''turnStatus'', JStr (tr_status t))]"

section \<open>Five endings\<close>

datatype ObservationOutcome =
    OBS_READY | OBS_FAILED | OBS_INTERRUPTED | OBS_BLOCKED | ORDINARY_TURN_END | IN_PROGRESS
  | CONTRADICTORY

definition observation_str :: "ObservationOutcome \<Rightarrow> string" where
  "observation_str o' = (case o' of OBS_READY \<Rightarrow> ''ready_for_review'' | OBS_FAILED \<Rightarrow> ''failed''
     | OBS_INTERRUPTED \<Rightarrow> ''interrupted'' | OBS_BLOCKED \<Rightarrow> ''blocked_needs_input''
     | ORDINARY_TURN_END \<Rightarrow> ''ordinary_turn_end'' | IN_PROGRESS \<Rightarrow> ''in_progress''
     | CONTRADICTORY \<Rightarrow> ''contradictory'')"

definition observation_of :: "string \<Rightarrow> ObservationOutcome" where
  "observation_of outcome = (if outcome = READY then OBS_READY
     else if outcome = ''failed'' then OBS_FAILED
     else if outcome = ''interrupted'' then OBS_INTERRUPTED else OBS_BLOCKED)"

definition classify_observation :: "string \<Rightarrow> json option \<Rightarrow> err + ObservationOutcome" where
  "classify_observation turn_status child_receipt =
     (if turn_status \<notin> set TERMINAL then Inr IN_PROGRESS
      else case child_receipt of
        Some receipt \<Rightarrow>
          if jget receipt ''producer'' \<noteq> JStr CHILD
          then Inl (RelayError ReceiptRefused PRODUCER_NOT_PERMITTED)
          else (case jget receipt ''outcome'' of
              JStr outcome \<Rightarrow>
                if outcome \<notin> set OUTCOMES then Inl (RelayError ReceiptRefused OUTCOME_INCONSISTENT)
                else if turn_status \<notin> set (COMPATIBLE_TURN_STATUS outcome) then Inr CONTRADICTORY
                else Inr (observation_of outcome)
            | _ \<Rightarrow> Inl (RelayError ReceiptRefused OUTCOME_INCONSISTENT))
      | None \<Rightarrow>
          if turn_status = ''failed'' then Inr OBS_FAILED
          else if turn_status = ''interrupted'' then Inr OBS_INTERRUPTED
          else Inr ORDINARY_TURN_END)"

section \<open>Shape\<close>

definition refused :: "RefusalReason \<Rightarrow> err" where
  "refused reason = RelayError ReceiptRefused reason"

fun fields_of :: "json \<Rightarrow> string list" where
  "fields_of (JObj kvs) = map fst kvs"
| "fields_of _ = []"

definition str_in :: "json \<Rightarrow> string list \<Rightarrow> bool" where
  "str_in v options = (case v of JStr s \<Rightarrow> s \<in> set options | _ \<Rightarrow> False)"

definition positive_int :: "json \<Rightarrow> bool" where
  "positive_int v = (case v of JInt i \<Rightarrow> i \<ge> 1 | _ \<Rightarrow> False)"

definition nonempty_str :: "json \<Rightarrow> bool" where
  "nonempty_str v = (case v of JStr s \<Rightarrow> s \<noteq> [] | _ \<Rightarrow> False)"

definition turn_ref_ok :: "json \<Rightarrow> bool" where
  "turn_ref_ok turn = (is_obj turn
     \<and> set (fields_of turn) = {''threadId'', ''turnId'', ''turnStatus''}
     \<and> text_of (jget turn ''threadId'') \<noteq> None \<and> text_of (jget turn ''turnId'') \<noteq> None
     \<and> str_in (jget turn ''turnStatus'') TURN_STATUSES)"

definition validate_shape :: "json \<Rightarrow> err + unit" where
  "validate_shape payload =
     (if is_obj payload
         \<and> set (fields_of payload) \<subseteq> set RECEIPT_FIELDS
         \<and> set REQUIRED_FIELDS \<subseteq> set (fields_of payload)
         \<and> EVENT_ID_RE (py_str (jget payload ''eventId''))
         \<and> nonempty_str (jget payload ''relationshipId'')
         \<and> positive_int (jget payload ''executionGeneration'')
         \<and> DIGEST_RE (py_str (jget payload ''revisionHash''))
         \<and> str_in (jget payload ''outcome'') OUTCOMES
         \<and> str_in (jget payload ''producer'') PRODUCERS
         \<and> text_of (jget payload ''emittedAt'') \<noteq> None
         \<and> (jget payload ''attempt'' = JNull \<or> positive_int (jget payload ''attempt''))
         \<and> (jget payload ''manifestRef'' = JNull \<or> text_of (jget payload ''manifestRef'') \<noteq> None)
         \<and> turn_ref_ok (jget payload ''turnRef'')
      then Inr () else Inl (refused MALFORMED_RECEIPT))"

definition entry_ok :: "json \<Rightarrow> bool" where
  "entry_ok r = (is_obj r \<and> set (fields_of r) \<subseteq> set ENTRY_FIELDS
     \<and> {''path'', ''sha256''} \<subseteq> set (fields_of r)
     \<and> (case jget r ''path'' of JStr p \<Rightarrow> starts_with ''/'' p | _ \<Rightarrow> False)
     \<and> DIGEST_RE (py_str (jget r ''sha256''))
     \<and> (case jget r ''bytes'' of JNull \<Rightarrow> True | JInt i \<Rightarrow> i \<ge> 0 | _ \<Rightarrow> False))"

definition str_field :: "json \<Rightarrow> string \<Rightarrow> string" where
  "str_field v k = (case jget v k of JStr s \<Rightarrow> s | _ \<Rightarrow> [])"

definition int_field :: "json \<Rightarrow> string \<Rightarrow> int option" where
  "int_field v k = (case jget v k of JInt i \<Rightarrow> Some i | _ \<Rightarrow> None)"

definition opt_str_field :: "json \<Rightarrow> string \<Rightarrow> string option" where
  "opt_str_field v k = (case jget v k of JStr s \<Rightarrow> Some s | _ \<Rightarrow> None)"

definition entry_from_record :: "json \<Rightarrow> Entry" where
  "entry_from_record r = \<lparr>en_path = str_field r ''path'', en_sha256 = jget r ''sha256'',
     en_bytes = int_field r ''bytes''\<rparr>"

definition validate_manifest :: "json list \<Rightarrow> err + Entry list" where
  "validate_manifest records =
     (if list_all entry_ok records then Inr (map entry_from_record records)
      else Inl (refused MALFORMED_RECEIPT))"

section \<open>Generation and turn\<close>

definition check_generation :: "relationship_record \<Rightarrow> int \<Rightarrow> err + generation_row" where
  "check_generation relationship number =
     (case List.find (\<lambda>g. g_no g = number) (rr_generations relationship) of
        None \<Rightarrow> Inl (refused UNKNOWN_GENERATION)
      | Some g \<Rightarrow>
          if number < r_generation (rr_row relationship) then Inl (refused STALE_GENERATION)
          else if g_anchor_state g \<noteq> ANCHOR_BOUND then Inl (refused UNBOUND_GENERATION)
          else Inr g)"

definition check_turn_identity ::
  "host option \<Rightarrow> clock \<Rightarrow> relationship_record \<Rightarrow> generation_row \<Rightarrow> TurnRef \<Rightarrow> ContinuationClaim option
     \<Rightarrow> db \<Rightarrow> db \<times> (err + string option)" where
  "check_turn_identity adapter clk relationship g turn claim db =
     (if tr_thread_id turn \<noteq> r_child_task (rr_row relationship) then (db, Inl (refused UNASSIGNED_TURN))
      else let admission = admit adapter db relationship g (tr_turn_id turn) claim
      in if \<not> ad_admitted admission then (db, Inl (refused UNASSIGNED_TURN))
         else (record_admission clk (r_id (rr_row relationship)) (g_no g) (tr_turn_id turn)
                 admission db, Inr (ad_evidence admission)))"

section \<open>Bytes\<close>

definition require_minimum :: "PathBindingMode \<Rightarrow> PathBindingMode \<Rightarrow> err + PathBindingMode" where
  "require_minimum minimum mode =
     (if \<not> at_least mode minimum then Inl (refused INSUFFICIENT_PATH_BINDING) else Inr mode)"

definition weakest :: "(string \<times> PathBindingMode) list \<Rightarrow> PathBindingMode" where
  "weakest bindings = foldl (\<lambda>mode b. if \<not> at_least (snd b) mode then snd b else mode)
     LEASE_ENFORCED bindings"

definition verify_bytes ::
  "disk \<Rightarrow> PathBindingMode \<Rightarrow> Entry list \<Rightarrow> string list \<Rightarrow> string option \<Rightarrow> err + PathBindingMode" where
  "verify_bytes dk minimum entries roots manifest_ref =
     bindE (verify_against_disk dk entries roots (minimum = LEASE_ENFORCED)) (\<lambda>(problems, bindings).
       if problems = [] then require_minimum minimum (weakest bindings)
       else if truthy_text manifest_ref then
         bindE (verify_frozen dk (the manifest_ref) entries) (\<lambda>(digest, frozen_problems).
           if frozen_problems = [] then require_minimum minimum BEST_EFFORT_DETECTION
           else Inl (refused MANIFEST_UNVERIFIED))
       else Inl (refused MANIFEST_UNVERIFIED))"

fun all_within :: "Entry list \<Rightarrow> string list \<Rightarrow> err + unit" where
  "all_within [] roots = Inr ()"
| "all_within (e # es) roots = bindE (assert_within (en_path e) roots) (\<lambda>_. all_within es roots)"

section \<open>Storing an event\<close>

record stored =
  sv_receipt :: json
  sv_duplicate :: bool
  sv_binding_mode :: "string option"
  sv_stage :: event_stage

text \<open>A value sqlite3 can bind: not a container, and an integer of 64 bits.\<close>

definition bindable :: "json \<Rightarrow> bool" where
  "bindable v = (case v of JList xs \<Rightarrow> False | JObj kvs \<Rightarrow> False
     | JInt i \<Rightarrow> - (2 ^ 63) \<le> i \<and> i < 2 ^ 63 | _ \<Rightarrow> True)"

definition turn_of :: "json \<Rightarrow> TurnRef" where
  "turn_of payload = (let turn = jget payload ''turnRef''
     in \<lparr>tr_thread_id = str_field turn ''threadId'', tr_turn_id = str_field turn ''turnId'',
         tr_status = str_field turn ''turnStatus''\<rparr>)"

definition event_stage_of :: "TurnRef \<Rightarrow> event_stage" where
  "event_stage_of turn = (if tr_status turn = ''inProgress'' then STAGED else FINAL)"

definition new_event :: "string \<Rightarrow> json \<Rightarrow> string \<Rightarrow> PathBindingMode option \<Rightarrow> event_row" where
  "new_event stamp payload event binding_mode =
     \<lparr>e_id = event, e_rel = str_field payload ''relationshipId'',
      e_gen = the (int_field payload ''executionGeneration''),
      e_hash = str_field payload ''revisionHash'', e_outcome = str_field payload ''outcome'',
      e_producer = str_field payload ''producer'', e_attempt = int_field payload ''attempt'',
      e_thread = tr_thread_id (turn_of payload), e_turn = tr_turn_id (turn_of payload),
      e_turn_status = tr_status (turn_of payload), e_receipt = payload,
      e_manifest_ref = opt_str_field payload ''manifestRef'',
      e_binding_mode = map_option binding_str binding_mode,
      e_stage = event_stage_of (turn_of payload),
      e_staged_at = (if event_stage_of (turn_of payload) = STAGED then Some stamp else None),
      e_finalized_at = None, e_finalizing_status = None, e_suppressed_reason = None,
      e_first_seen_at = stamp, e_last_seen_at = stamp, e_observation_count = 1\<rparr>"

definition stage_str :: "event_stage \<Rightarrow> string" where
  "stage_str s = (case s of STAGED \<Rightarrow> ''staged'' | FINAL \<Rightarrow> ''final'' | SUPPRESSED \<Rightarrow> ''suppressed'')"

definition reobserve :: "string \<Rightarrow> string \<Rightarrow> db \<Rightarrow> db" where
  "reobserve stamp event db = journal_entry ''event_reobserved'' event JNull stamp
     (db\<lparr>events := update_where (\<lambda>e. e_id e = event)
        (\<lambda>e. e\<lparr>e_observation_count := e_observation_count e + 1, e_last_seen_at := stamp\<rparr>)
        (events db)\<rparr>)"

definition store_event ::
  "clock \<Rightarrow> json \<Rightarrow> string \<Rightarrow> PathBindingMode option \<Rightarrow> string option \<Rightarrow> db \<Rightarrow> err + db \<times> stored" where
  "store_event clk payload event binding_mode supersedes db =
     (case event_of db event of
        Some existing \<Rightarrow>
          Inr (reobserve (clk_iso clk) event db,
               \<lparr>sv_receipt = e_receipt existing, sv_duplicate = True, sv_binding_mode = None,
                sv_stage = e_stage existing\<rparr>)
      | None \<Rightarrow>
          let row = new_event (clk_iso clk) payload event binding_mode
          in if \<not> bindable (jget payload ''attempt'') then Inl BindError
          else bindE (insert_row e_id row (events db)) (\<lambda>evs.
            let db1 = journal_entry ''event_accepted'' event
                  (JObj [(''outcome'', JStr (e_outcome row)), (''stage'', JStr (stage_str (e_stage row)))])
                  (clk_iso clk) (db\<lparr>events := evs\<rparr>)
            in bindE (if e_outcome row = READY
                      then record_lineage clk (e_rel row) (e_gen row) event (e_hash row) supersedes db1
                      else Inr db1) (\<lambda>db2.
              Inr (db2, \<lparr>sv_receipt = payload, sv_duplicate = False,
                 sv_binding_mode = e_binding_mode row, sv_stage = e_stage row\<rparr>))))"

section \<open>Accepting a child's receipt\<close>

text \<open>What a receipt has to establish before its turn is looked at.\<close>

definition producer_ok :: "json \<Rightarrow> err + unit" where
  "producer_ok payload =
     (let outcome = str_field payload ''outcome''; producer = str_field payload ''producer''
      in if outcome \<in> {READY, ''blocked_needs_input''} \<and> producer \<noteq> CHILD
         then Inl (refused PRODUCER_NOT_PERMITTED)
         else if producer = CHILD then
           (if \<not> positive_int (jget payload ''attempt'') then Inl (refused OUTCOME_INCONSISTENT) else Inr ())
         else if jget payload ''attempt'' \<noteq> JNull then Inl (refused OUTCOME_INCONSISTENT)
         else Inr ())"

definition accept_checks ::
  "db \<Rightarrow> json \<Rightarrow> TurnRef option \<Rightarrow> json
     \<Rightarrow> err + relationship_record \<times> generation_row \<times> ContinuationClaim option" where
  "accept_checks db payload observation continuation =
     bindE (validate_shape payload) (\<lambda>_.
     bindE (require_active db (str_field payload ''relationshipId'')) (\<lambda>relationship.
     bindE (check_generation relationship (the (int_field payload ''executionGeneration''))) (\<lambda>g.
     bindE (producer_ok payload) (\<lambda>_.
       if observation \<noteq> Some (turn_of payload) then Inl (refused TURNREF_MISMATCH)
       else case claim_from_record continuation of
         Inl e \<Rightarrow> Inl (refused MALFORMED_RECEIPT)
       | Inr claim \<Rightarrow> Inr (relationship, g, claim)))))"

text \<open>What it claims about the turn and the bytes, checked after the turn was admitted.\<close>

definition ready_contents ::
  "disk \<Rightarrow> PathBindingMode \<Rightarrow> json \<Rightarrow> string list \<Rightarrow> err + PathBindingMode option" where
  "ready_contents dk minimum payload roots =
     (case jget payload ''manifest'' of
        JList records \<Rightarrow>
          if records = [] then Inl (refused MANIFEST_REQUIRED)
          else if jget payload ''revisionHash'' = JStr NO_DELIVERABLE
          then Inl (refused OUTCOME_INCONSISTENT)
          else bindE (validate_manifest records) (\<lambda>entries.
            bindE (all_within entries roots) (\<lambda>_.
            bindE (verify_bytes dk minimum entries roots (opt_str_field payload ''manifestRef'')) (\<lambda>mode.
            bindE (revision_hash entries) (\<lambda>recomputed.
              if jget payload ''revisionHash'' \<noteq> JStr recomputed then Inl (refused REVISION_MISMATCH)
              else Inr (Some mode)))))
      | _ \<Rightarrow> Inl (refused MANIFEST_REQUIRED))"

definition contents ::
  "disk \<Rightarrow> PathBindingMode \<Rightarrow> json \<Rightarrow> string list \<Rightarrow> err + PathBindingMode option" where
  "contents dk minimum payload roots =
     (let outcome = str_field payload ''outcome'';
          allowed = (if str_field payload ''producer'' = DAEMON then DAEMON_TURN_STATUS outcome
                     else COMPATIBLE_TURN_STATUS outcome)
      in if tr_status (turn_of payload) \<notin> set allowed then Inl (refused CONTRADICTORY_OBSERVATION)
         else if outcome = READY then ready_contents dk minimum payload roots
         else if jget payload ''manifest'' \<notin> {JNull, JList []} then Inl (refused MANIFEST_FORBIDDEN)
         else if jget payload ''revisionHash'' \<noteq> JStr NO_DELIVERABLE
         then Inl (refused OUTCOME_INCONSISTENT)
         else Inr None)"

definition derived_event_id :: "json \<Rightarrow> err + string" where
  "derived_event_id payload = event_id (str_field payload ''relationshipId'')
     (the (int_field payload ''executionGeneration'')) (str_field payload ''revisionHash'')
     (str_field payload ''outcome'') (Some (tr_turn_id (turn_of payload))) (int_field payload ''attempt'')"

definition accept_rest ::
  "disk \<Rightarrow> PathBindingMode \<Rightarrow> clock \<Rightarrow> json \<Rightarrow> string list \<Rightarrow> string option \<Rightarrow> db \<Rightarrow> err + db \<times> stored" where
  "accept_rest dk minimum clk payload roots supersedes db =
     bindE (contents dk minimum payload roots) (\<lambda>mode.
     bindE (derived_event_id payload) (\<lambda>expected.
       if jget payload ''eventId'' \<noteq> JStr expected then Inl (refused EVENT_ID_MISMATCH)
       else store_event clk payload expected mode supersedes db))"

record intake =
  in_disk :: disk
  in_minimum :: PathBindingMode
  in_adapter :: "host option"

definition accept ::
  "intake \<Rightarrow> clock \<Rightarrow> json \<Rightarrow> TurnRef option \<Rightarrow> json \<Rightarrow> string option \<Rightarrow> db \<Rightarrow> db \<times> (err + stored)" where
  "accept it clk payload observation continuation supersedes db =
     (case accept_checks db payload observation continuation of
        Inl e \<Rightarrow> (db, Inl e)
      | Inr (relationship, g, claim) \<Rightarrow>
          (case check_turn_identity (in_adapter it) clk relationship g (turn_of payload) claim db of
             (db1, Inl e) \<Rightarrow> (db1, Inl e)
           | (db1, Inr evidence) \<Rightarrow>
               (case accept_rest (in_disk it) (in_minimum it) clk payload
                       (r_artifact_roots (rr_row relationship)) supersedes db1 of
                  Inl e \<Rightarrow> (db1, Inl e)
                | Inr (db2, s) \<Rightarrow> (db2, Inr s))))"

definition record_refusal ::
  "clock \<Rightarrow> RefusalReason \<Rightarrow> json \<Rightarrow> json \<Rightarrow> db \<Rightarrow> err + db" where
  "record_refusal clk reason rid event db =
     (if \<not> bindable rid \<or> \<not> bindable event then Inl BindError
      else Inr (db\<lparr>refusals := refusals db @
        [\<lparr>rf_at = clk_iso clk, rf_rel = rid, rf_event = event, rf_reason = reason\<rparr>]\<rparr>))"

definition accept_child_receipt ::
  "intake \<Rightarrow> clock \<Rightarrow> json \<Rightarrow> TurnRef option \<Rightarrow> json \<Rightarrow> string option \<Rightarrow> db \<Rightarrow> db \<times> (err + stored)" where
  "accept_child_receipt it clk payload observation continuation supersedes db =
     (case accept it clk payload observation continuation supersedes db of
        (db1, Inl (RelayError cls reason)) \<Rightarrow>
          (case record_refusal clk reason (jget payload ''relationshipId'') (jget payload ''eventId'') db1 of
             Inl e \<Rightarrow> (db1, Inl e)
           | Inr db2 \<Rightarrow> (db2, Inl (RelayError cls reason)))
      | (db1, outcome) \<Rightarrow> (db1, outcome))"

section \<open>Staging\<close>

definition staged_events ::
  "db \<Rightarrow> string option \<Rightarrow> string option \<Rightarrow> string option \<Rightarrow> event_row list" where
  "staged_events db thread turn rid =
     sort_key e_first_seen_at (filter (\<lambda>e. e_stage e = STAGED
        \<and> (thread = None \<or> thread = Some (e_thread e))
        \<and> (turn = None \<or> turn = Some (e_turn e))
        \<and> (rid = None \<or> rid = Some (e_rel e))) (events db))"

record resolution =
  re_finalized :: "string list"
  re_suppressed :: "string list"
  re_pending :: bool

definition settle_row :: "string \<Rightarrow> string \<Rightarrow> event_row \<Rightarrow> event_row" where
  "settle_row stamp status e =
     (if status = ''completed''
      then e\<lparr>e_stage := FINAL, e_finalized_at := Some stamp, e_finalizing_status := Some status\<rparr>
      else e\<lparr>e_stage := SUPPRESSED, e_finalized_at := Some stamp, e_finalizing_status := Some status,
             e_suppressed_reason := Some (''the turn ended '' @ status
               @ '', so the staged claim is not promoted'')\<rparr>)"

definition resolve_staged_in ::
  "clock \<Rightarrow> TurnRef \<Rightarrow> string option \<Rightarrow> db \<Rightarrow> db \<times> resolution" where
  "resolve_staged_in clk turn rid db =
     (let status = tr_status turn;
          ids = map e_id (staged_events db (Some (tr_thread_id turn)) (Some (tr_turn_id turn)) rid);
          result = \<lparr>re_finalized = (if status = ''completed'' then ids else []),
                    re_suppressed = (if status = ''completed'' then [] else ids), re_pending = False\<rparr>
      in if status \<notin> set TERMINAL
         then (db, \<lparr>re_finalized = [], re_suppressed = [], re_pending = True\<rparr>)
         else if ids = [] then (db, \<lparr>re_finalized = [], re_suppressed = [], re_pending = False\<rparr>)
         else (journal_entry ''staged_resolved'' (tr_turn_id turn)
                (JObj [(''finalized'', JList (map JStr (re_finalized result))),
                   (''suppressed'', JList (map JStr (re_suppressed result))), (''status'', JStr status)])
                (clk_iso clk)
                (db\<lparr>events := fold (\<lambda>ev. update_where (\<lambda>e. e_id e = ev) (settle_row (clk_iso clk) status))
                   ids (events db)\<rparr>), result))"

definition resolve_staged :: "clock \<Rightarrow> TurnRef \<Rightarrow> db \<Rightarrow> db \<times> resolution" where
  "resolve_staged clk turn db =
     (if tr_status turn \<notin> set TERMINAL
      then (db, \<lparr>re_finalized = [], re_suppressed = [], re_pending = True\<rparr>)
      else if staged_events db (Some (tr_thread_id turn)) (Some (tr_turn_id turn)) None = []
      then (db, \<lparr>re_finalized = [], re_suppressed = [], re_pending = False\<rparr>)
      else resolve_staged_in clk turn None db)"

definition deliverable :: "db \<Rightarrow> string \<Rightarrow> bool" where
  "deliverable db event = (case event_of db event of None \<Rightarrow> False | Some e \<Rightarrow> e_stage e = FINAL)"

section \<open>What a daemon may say\<close>

definition daemon_payload :: "clock \<Rightarrow> string \<Rightarrow> int \<Rightarrow> TurnRef \<Rightarrow> string \<Rightarrow> json" where
  "daemon_payload clk rid number turn event = JObj
     [(''relationshipId'', JStr rid), (''executionGeneration'', JInt number), (''attempt'', JNull),
      (''revisionHash'', JStr NO_DELIVERABLE), (''outcome'', JStr (tr_status turn)),
      (''producer'', JStr DAEMON), (''turnRef'', to_record turn), (''manifest'', JNull),
      (''emittedAt'', JStr (clk_iso clk)), (''eventId'', JStr event)]"

definition daemon_observation ::
  "host option \<Rightarrow> clock \<Rightarrow> string \<Rightarrow> TurnRef \<Rightarrow> db \<Rightarrow> db \<times> (err + stored)" where
  "daemon_observation adapter clk rid turn db =
     (if tr_status turn \<notin> {''failed'', ''interrupted''}
      then (db, Inl (refused PRODUCER_NOT_PERMITTED))
      else case bindE (require_active db rid) (\<lambda>relationship.
             bindE (check_generation relationship (r_generation (rr_row relationship)))
               (\<lambda>g. Inr (relationship, g))) of
        Inl e \<Rightarrow> (db, Inl e)
      | Inr (relationship, g) \<Rightarrow>
          (case check_turn_identity adapter clk relationship g turn None db of
             (db1, Inl e) \<Rightarrow> (db1, Inl e)
           | (db1, Inr evidence) \<Rightarrow>
               (case bindE (event_id rid (r_generation (rr_row relationship)) NO_DELIVERABLE
                        (tr_status turn) (Some (tr_turn_id turn)) None) (\<lambda>event.
                      store_event clk (daemon_payload clk rid (r_generation (rr_row relationship)) turn event)
                        event None None db1) of
                  Inl e \<Rightarrow> (db1, Inl e)
                | Inr (db2, s) \<Rightarrow> (db2, Inr s))))"

definition observation_key :: "observation_row \<Rightarrow> string \<times> string \<times> string" where
  "observation_key x = (o_thread x, o_turn x, o_terminal_status x)"

definition settlement_key :: "settlement_row \<Rightarrow> string \<times> string \<times> string \<times> string" where
  "settlement_key x = (s_rel x, s_thread x, s_turn x, s_terminal_status x)"

definition record_observation_in ::
  "clock \<Rightarrow> TurnRef \<Rightarrow> string \<Rightarrow> string option \<Rightarrow> string option \<Rightarrow> db \<Rightarrow> db" where
  "record_observation_in clk turn classification rid event db =
     (let db1 = db\<lparr>observations := insert_or_ignore observation_key
            \<lparr>o_thread = tr_thread_id turn, o_turn = tr_turn_id turn, o_terminal_status = tr_status turn,
             o_rel = rid, o_classification = classification, o_event = event, o_observed_at = clk_iso clk\<rparr>
            (observations db)\<rparr>
      in case rid of None \<Rightarrow> db1
         | Some r \<Rightarrow> db1\<lparr>settlements := insert_or_ignore settlement_key
             \<lparr>s_rel = r, s_thread = tr_thread_id turn, s_turn = tr_turn_id turn,
              s_terminal_status = tr_status turn, s_settled_at = clk_iso clk\<rparr> (settlements db1)\<rparr>)"

definition contract_record :: "json \<Rightarrow> json" where
  "contract_record receipt = (case receipt of
       JObj kvs \<Rightarrow> JObj (filter (\<lambda>(k, v). \<not> starts_with ''_'' k
           \<and> \<not> (k \<in> {''manifestRef'', ''criteria''} \<and> v = JNull)) kvs)
     | _ \<Rightarrow> receipt)"

section \<open>What each step establishes\<close>

lemma accept_checksD:
  assumes "accept_checks db payload observation continuation = Inr (relationship, g, claim)"
  shows "require_active db (str_field payload ''relationshipId'') = Inr relationship
    \<and> g \<in> set (rr_generations relationship) \<and> r_generation (rr_row relationship) \<le> g_no g
    \<and> int_field payload ''executionGeneration'' = Some (g_no g) \<and> g_anchor_state g = ANCHOR_BOUND
    \<and> observation = Some (turn_of payload) \<and> producer_ok payload = Inr ()
    \<and> claim_from_record continuation = Inr claim \<and> validate_shape payload = Inr ()"
proof -
  have shape: "validate_shape payload = Inr ()" using assms by (auto simp: accept_checks_def)
  then have "positive_int (jget payload ''executionGeneration'')"
    by (auto simp: validate_shape_def split: if_splits)
  then obtain n where n: "int_field payload ''executionGeneration'' = Some n"
    by (auto simp: positive_int_def int_field_def split: json.splits)
  with shape assms show ?thesis
    by (auto simp: accept_checks_def check_generation_def split: if_splits option.splits sum.splits
        dest: find_Some_iff_mem)
qed

lemma require_activeD:
  "require_active db rid = Inr relationship \<Longrightarrow>
     relationship_of db rid = Some (rr_row relationship) \<and> r_status (rr_row relationship) = ACTIVE
     \<and> r_id (rr_row relationship) = rid"
  by (auto simp: require_active_def get_def row_to_record_def Let_def split: option.splits if_splits
      dest: lookup_mem(1))

lemma check_turn_identityD:
  assumes "check_turn_identity adapter clk relationship g turn claim db = (db1, Inr evidence)"
  shows "tr_thread_id turn = r_child_task (rr_row relationship)
    \<and> ad_admitted (admit adapter db relationship g (tr_turn_id turn) claim)
    \<and> (g_dispatch_turn g = Some (tr_turn_id turn)
       \<or> stored_admission db1 (r_id (rr_row relationship)) (g_no g) (tr_turn_id turn))"
proof -
  let ?a = "admit adapter db relationship g (tr_turn_id turn) claim"
  have ok: "tr_thread_id turn = r_child_task (rr_row relationship)" "ad_admitted ?a"
    and db1: "db1 = record_admission clk (r_id (rr_row relationship)) (g_no g) (tr_turn_id turn) ?a db"
    using assms by (auto simp: check_turn_identity_def Let_def split: if_splits)
  have "ad_evidence ?a = Some EXPLICIT_ADMISSION" if "g_dispatch_turn g \<noteq> Some (tr_turn_id turn)"
    using ok(2) that by (auto simp: admit_def not_admitted_def Let_def split: if_splits option.splits)
  then show ?thesis using ok db1 record_admission_stored by blast
qed

lemma check_turn_identity_select:
  assumes "check_turn_identity adapter clk relationship g turn claim db = (db1, res)"
  shows "relationships db1 = relationships db \<and> generations db1 = generations db
    \<and> events db1 = events db \<and> deliveries db1 = deliveries db \<and> attempts db1 = attempts db
    \<and> refusals db1 = refusals db \<and> acks db1 = acks db \<and> verdicts db1 = verdicts db"
  using assms by (auto simp: check_turn_identity_def Let_def split: if_splits)

lemma all_withinD: "all_within es roots = Inr u \<Longrightarrow> e \<in> set es \<Longrightarrow> \<exists>base\<in>set roots. is_within base (en_path e)"
  by (induction es) (auto dest: assert_within_Inr)

lemma weakest_at_least:
  "weakest bs = LEASE_ENFORCED \<Longrightarrow> (p, mode) \<in> set bs \<Longrightarrow> mode = LEASE_ENFORCED"
proof -
  have stuck: "foldl (\<lambda>mode b. if \<not> at_least (snd b) mode then snd b else mode) BEST_EFFORT_DETECTION bs
      = BEST_EFFORT_DETECTION" for bs :: "(string \<times> PathBindingMode) list"
    by (induction bs) (auto simp: at_least_def)
  show "weakest bs = LEASE_ENFORCED \<Longrightarrow> (p, mode) \<in> set bs \<Longrightarrow> mode = LEASE_ENFORCED"
  proof (induction bs)
    case (Cons b bs)
    then show ?case
      using stuck [of bs] by (cases "snd b") (auto simp: weakest_def at_least_def)
  qed simp
qed

lemma ready_contentsD:
  assumes "ready_contents dk minimum payload roots = Inr mode"
  shows "\<exists>records entries m. jget payload ''manifest'' = JList records \<and> entries \<noteq> []
    \<and> entries = map entry_from_record records
    \<and> (\<forall>e\<in>set entries. \<exists>base\<in>set roots. is_within base (en_path e))
    \<and> revision_hash entries = Inr (str_field payload ''revisionHash'') \<and> mode = Some m
    \<and> at_least m minimum"
proof -
  obtain records entries m where r: "jget payload ''manifest'' = JList records" "records \<noteq> []"
    "validate_manifest records = Inr entries" "all_within entries roots = Inr ()"
    "verify_bytes dk minimum entries roots (opt_str_field payload ''manifestRef'') = Inr m"
    "\<exists>h. revision_hash entries = Inr h \<and> jget payload ''revisionHash'' = JStr h" "mode = Some m"
    using assms by (cases "jget payload ''manifest''") (auto simp: ready_contents_def split: if_splits)
  moreover have "at_least m minimum"
    using r(5) by (auto simp: verify_bytes_def require_minimum_def split: if_splits)
  moreover have "entries = map entry_from_record records"
    using r(3) by (simp add: validate_manifest_def split: if_splits)
  ultimately show ?thesis using all_withinD by (fastforce simp: str_field_def)
qed

lemma record_lineage_select:
  assumes "record_lineage clk rid n ev h sd db = Inr db'"
  shows "events db' = events db \<and> deliveries db' = deliveries db \<and> attempts db' = attempts db
    \<and> generations db' = generations db \<and> relationships db' = relationships db
    \<and> generation_turns db' = generation_turns db \<and> acks db' = acks db \<and> verdicts db' = verdicts db"
  using assms by (auto simp: record_lineage_def Let_def split: if_splits)

lemma store_event_select:
  assumes "store_event clk payload ev mode sd db = Inr (db', s)"
  shows "deliveries db' = deliveries db \<and> attempts db' = attempts db
    \<and> generations db' = generations db \<and> relationships db' = relationships db
    \<and> generation_turns db' = generation_turns db \<and> acks db' = acks db \<and> verdicts db' = verdicts db"
  using assms by (auto simp: store_event_def reobserve_def Let_def insert_row_Inr
      dest!: record_lineage_select split: option.splits if_splits)

lemma store_event_cases:
  assumes "store_event clk payload ev mode sd db = Inr (db', s)"
  obtains (again) e where "event_of db ev = Some e" "sv_duplicate s" "sv_stage s = e_stage e"
      "events db' = update_where (\<lambda>x. e_id x = ev)
         (\<lambda>x. x\<lparr>e_observation_count := e_observation_count x + 1, e_last_seen_at := clk_iso clk\<rparr>)
         (events db)"
  | (fresh) "event_of db ev = None" "\<not> sv_duplicate s"
      "sv_stage s = e_stage (new_event (clk_iso clk) payload ev mode)"
      "events db' = events db @ [new_event (clk_iso clk) payload ev mode]"
proof (cases "event_of db ev")
  case None
  with assms have "\<not> sv_duplicate s" "sv_stage s = e_stage (new_event (clk_iso clk) payload ev mode)"
    "events db' = events db @ [new_event (clk_iso clk) payload ev mode]"
    by (auto simp: store_event_def Let_def insert_row_Inr dest!: record_lineage_select split: if_splits)
  with None show ?thesis by (rule fresh)
next
  case (Some e)
  with assms have "sv_duplicate s" "sv_stage s = e_stage e"
    "events db' = update_where (\<lambda>x. e_id x = ev)
         (\<lambda>x. x\<lparr>e_observation_count := e_observation_count x + 1, e_last_seen_at := clk_iso clk\<rparr>)
         (events db)"
    by (auto simp: store_event_def reobserve_def)
  with Some show ?thesis by (rule again)
qed

lemma new_event_simps [simp]:
  "e_id (new_event st p ev m) = ev" "e_stage (new_event st p ev m) = event_stage_of (turn_of p)"
  "e_turn_status (new_event st p ev m) = tr_status (turn_of p)"
  "e_outcome (new_event st p ev m) = str_field p ''outcome''"
  "e_finalizing_status (new_event st p ev m) = None"
  by (simp_all add: new_event_def)

lemma store_event_found:
  assumes "store_event clk payload ev mode sd db = Inr (db', s)"
  shows "\<exists>e. event_of db' ev = Some e \<and> sv_stage s = e_stage e"
  using assms by (cases rule: store_event_cases) (auto simp: map_option_case)

lemma accept_cases:
  assumes "accept it clk payload observation continuation supersedes db = (db', Inr s)"
  obtains relationship g claim db1 mode ev evidence where
    "accept_checks db payload observation continuation = Inr (relationship, g, claim)"
    "check_turn_identity (in_adapter it) clk relationship g (turn_of payload) claim db
       = (db1, Inr evidence)"
    "contents (in_disk it) (in_minimum it) payload (r_artifact_roots (rr_row relationship)) = Inr mode"
    "derived_event_id payload = Inr ev" "jget payload ''eventId'' = JStr ev"
    "store_event clk payload ev mode supersedes db1 = Inr (db', s)"
  using assms
  by (auto simp: accept_def accept_rest_def split: sum.splits prod.splits if_splits)

end
