(* ===== verification/Ack.thy ===== *)
theory Ack
  imports Criteria Receipts Delivery_Attempt
begin

text \<open>
  \<^verbatim>\<open>ack.py\<close>: acknowledgements and their verification, the claim of a review, the verdict with the
  generation and the correction it opens, and the deferred verification of an acknowledgement. What
  \<^verbatim>\<open>datetime.fromisoformat\<close> makes of a stored timestamp is a parameter; the optional synchronisation of a
  verdict with a coordination document is not modelled.
\<close>

section \<open>Constants\<close>

definition VERDICTS :: "string list" where
  "VERDICTS = [''verified'', ''needs_changes'', ''unverified'', ''aborted'']"

definition REJECTIONS :: "string list" where
  "REJECTIONS = [''stale_generation'', ''unknown_generation'', ''duplicate_event'',
     ''relationship_not_active'', ''revision_mismatch'']"

definition CURRENCY_REASONS :: "currency_reason \<Rightarrow> RefusalReason" where
  "CURRENCY_REASONS r = (case r of STALE_GENERATION_REASON \<Rightarrow> STALE_GENERATION
     | SUPERSEDED_REASON \<Rightarrow> SUPERSEDED_REVISION | AMBIGUOUS_REASON \<Rightarrow> REVISION_AMBIGUOUS
     | NOT_ACTIVE \<Rightarrow> RELATIONSHIP_NOT_ACTIVE)"

definition currency_reason_str :: "currency_reason \<Rightarrow> string" where
  "currency_reason_str r = (case r of NOT_ACTIVE \<Rightarrow> ''relationship_not_active''
     | STALE_GENERATION_REASON \<Rightarrow> ''stale_generation'' | SUPERSEDED_REASON \<Rightarrow> ''superseded_revision''
     | AMBIGUOUS_REASON \<Rightarrow> ''revision_ambiguous'')"

text \<open>\<^verbatim>\<open>RefusalReason.value\<close>.\<close>

definition reason_value :: "RefusalReason \<Rightarrow> string" where
  "reason_value r = (case r of
       UNREGISTERED_RELATIONSHIP \<Rightarrow> ''unregistered_relationship''
     | RELATIONSHIP_NOT_ACTIVE \<Rightarrow> ''relationship_not_active''
     | RELATIONSHIP_CONFLICT \<Rightarrow> ''relationship_conflict''
     | STALE_GENERATION \<Rightarrow> ''stale_generation''
     | UNKNOWN_GENERATION \<Rightarrow> ''unknown_generation''
     | UNBOUND_GENERATION \<Rightarrow> ''unbound_generation''
     | ANCHOR_ALREADY_BOUND \<Rightarrow> ''anchor_already_bound''
     | SCOPE_ESCAPE \<Rightarrow> ''scope_escape''
     | RECIPIENT_NOT_AUTHORIZED \<Rightarrow> ''recipient_not_authorized''
     | SYMLINK_COMPONENT \<Rightarrow> ''symlink_component''
     | PATH_CHANGED \<Rightarrow> ''path_changed''
     | PATH_RELOCATED \<Rightarrow> ''path_relocated''
     | ROOT_MOVED \<Rightarrow> ''root_moved''
     | UNVERIFIABLE_PATH_BINDING \<Rightarrow> ''unverifiable_path_binding''
     | INSUFFICIENT_PATH_BINDING \<Rightarrow> ''insufficient_path_binding''
     | ARTIFACT_MUTATED_DURING_READ \<Rightarrow> ''artifact_mutated_during_read''
     | ARTIFACT_LEASE_BROKEN \<Rightarrow> ''artifact_lease_broken''
     | NOT_A_REGULAR_FILE \<Rightarrow> ''not_a_regular_file''
     | MANIFEST_REQUIRED \<Rightarrow> ''manifest_required''
     | MANIFEST_FORBIDDEN \<Rightarrow> ''manifest_forbidden''
     | MANIFEST_UNVERIFIED \<Rightarrow> ''manifest_unverified''
     | REVISION_MISMATCH \<Rightarrow> ''revision_mismatch''
     | EVENT_ID_MISMATCH \<Rightarrow> ''event_id_mismatch''
     | TURNREF_MISMATCH \<Rightarrow> ''turnref_mismatch''
     | UNASSIGNED_TURN \<Rightarrow> ''unassigned_turn''
     | CONTRADICTORY_OBSERVATION \<Rightarrow> ''contradictory_observation''
     | MALFORMED_RECEIPT \<Rightarrow> ''malformed_receipt''
     | OUTCOME_INCONSISTENT \<Rightarrow> ''outcome_inconsistent''
     | PRODUCER_NOT_PERMITTED \<Rightarrow> ''producer_not_permitted''
     | DUPLICATE_EVENT \<Rightarrow> ''duplicate_event''
     | NOT_CLAIMABLE \<Rightarrow> ''not_claimable''
     | WRONG_DELIVERY_KIND \<Rightarrow> ''wrong_delivery_kind''
     | ACK_PROOF_MISMATCH \<Rightarrow> ''ack_proof_mismatch''
     | ACK_TURN_UNVERIFIED \<Rightarrow> ''ack_turn_unverified''
     | DISPOSITION_CONFLICT \<Rightarrow> ''disposition_conflict''
     | NOT_ACKNOWLEDGED \<Rightarrow> ''not_acknowledged''
     | OPERATOR_RELEASE_DISABLED \<Rightarrow> ''operator_release_disabled''
     | RELEASE_EVIDENCE_MISSING \<Rightarrow> ''release_evidence_missing''
     | SETTINGS_UNAVAILABLE \<Rightarrow> ''settings_unavailable''
     | SETTINGS_INCOMPLETE \<Rightarrow> ''settings_incomplete''
     | UNSUPPORTED_SANDBOX_TYPE \<Rightarrow> ''unsupported_sandbox_type''
     | UNSUPPORTED_APPROVAL_POLICY \<Rightarrow> ''unsupported_approval_policy''
     | SUPERSEDED_REVISION \<Rightarrow> ''superseded_revision''
     | REVISION_AMBIGUOUS \<Rightarrow> ''revision_ambiguous''
     | REVISION_LINEAGE_INVALID \<Rightarrow> ''revision_lineage_invalid''
     | CRITERIA_UNREGISTERED \<Rightarrow> ''criteria_unregistered''
     | CRITERIA_NOT_COVERED \<Rightarrow> ''criteria_not_covered''
     | CRITERIA_SET_CHANGED \<Rightarrow> ''criteria_set_changed''
     | UNKNOWN_CRITERION \<Rightarrow> ''unknown_criterion''
     | FINDINGS_REQUIRED \<Rightarrow> ''findings_required''
     | DUPLICATE_ASSIGNMENT \<Rightarrow> ''duplicate_assignment''
     | READBACK_MISMATCH \<Rightarrow> ''readback_mismatch''
     | SYNC_NOT_CLAIMABLE \<Rightarrow> ''sync_not_claimable''
     | SYNC_TARGET_MISMATCH \<Rightarrow> ''sync_target_mismatch''
     | REVIEW_NOT_BOUND \<Rightarrow> ''review_not_bound''
     | STALE_MARK_CONTEXT \<Rightarrow> ''stale_mark_context''
     | RESTORATION_UNDELIVERABLE \<Rightarrow> ''restoration_undeliverable'')"

section \<open>The disposition of an event\<close>

definition evaluate :: "db \<Rightarrow> string \<Rightarrow> err + string option" where
  "evaluate db ev =
     (if (case delivery_of db ev of None \<Rightarrow> False | Some d \<Rightarrow> d_kind d \<noteq> COMPLETION)
      then Inl (refuse WRONG_DELIVERY_KIND)
      else case event_of db ev of
        None \<Rightarrow> Inr (Some ''unknown_generation'')
      | Some event \<Rightarrow>
          bindE (get db (e_rel event)) (\<lambda>relationship.
            if r_status (rr_row relationship) \<noteq> ACTIVE then Inr (Some ''relationship_not_active'')
            else if e_gen event \<notin> g_no ` set (rr_generations relationship)
            then Inr (Some ''unknown_generation'')
            else if e_gen event < r_generation (rr_row relationship) then Inr (Some ''stale_generation'')
            else if (case ack_of db ev of None \<Rightarrow> False | Some k \<Rightarrow> k_verified k = ''verified'')
            then Inr (Some ''duplicate_event'')
            else Inr None))"

section \<open>Claiming a review\<close>

definition verdict_context_of :: "db \<Rightarrow> string \<Rightarrow> verdict_context_row option" where
  "verdict_context_of db ev = List.find (\<lambda>c. vc_event c = ev) (verdict_contexts db)"

definition ruling_is_current :: "db \<Rightarrow> string \<Rightarrow> bool" where
  "ruling_is_current db ev =
     (case (verdict_context_of db ev, event_of db ev) of
        (Some c, Some event) \<Rightarrow> vc_set_digest c = criteria_digest db (e_rel event)
      | _ \<Rightarrow> False)"

definition re_review_open :: "db \<Rightarrow> string \<Rightarrow> string option \<Rightarrow> err + bool" where
  "re_review_open db ev decided =
     (if (case verdict_of db ev of None \<Rightarrow> False | Some v \<Rightarrow> vd_verdict v \<noteq> ''verified'') then Inr False
      else case event_of db ev of
        None \<Rightarrow> Inr False
      | Some event \<Rightarrow>
          if decided = criteria_digest db (e_rel event) then Inr False
          else (case relationship_of db (e_rel event) of
              None \<Rightarrow> Inr False
            | Some relationship \<Rightarrow> bindE (currency_of db relationship event) (\<lambda>c. Inr (cu_current c))))"

definition bind_if_known :: "clock \<Rightarrow> string \<Rightarrow> db \<Rightarrow> db" where
  "bind_if_known clk ev db = (case event_of db ev of
       None \<Rightarrow> db | Some event \<Rightarrow> fst (bind_review clk (e_rel event) ev db))"

datatype claim_outcome = Proceed | Already_claimed

definition claim_verification ::
  "clock \<Rightarrow> string \<Rightarrow> string option \<Rightarrow> db \<Rightarrow> err + db \<times> claim_outcome" where
  "claim_verification clk ev turn db =
     (let claim = \<lparr>cl_event = ev, cl_turn = turn, cl_claimed_at = clk_iso clk\<rparr>
      in if claim_of db ev = None
         then Inr (bind_if_known clk ev
                (db\<lparr>verification_claims := insert_or_ignore cl_event claim (verification_claims db)\<rparr>),
                Proceed)
         else if ruling_is_current db ev then Inr (db, Already_claimed)
         else bindE (re_review_open db ev (bound_digest db ev)) (\<lambda>open.
           if \<not> open then Inr (db, Already_claimed)
           else Inr (bind_if_known clk ev
             (journal_entry ''review_reclaimed'' ev (JObj [(''claimTurnId'', jopt turn)]) (clk_iso clk)
               (db\<lparr>verification_claims := update_where (\<lambda>c. cl_event c = ev)
                    (\<lambda>c. c\<lparr>cl_turn := turn, cl_claimed_at := clk_iso clk\<rparr>) (verification_claims db),
                  claim_contexts := delete_where (\<lambda>c. cc_event c = ev) (claim_contexts db)\<rparr>)),
             Proceed)))"

section \<open>Acknowledging\<close>

definition certainly_before :: "(string \<Rightarrow> rat option) \<Rightarrow> rat \<Rightarrow> string \<Rightarrow> bool" where
  "certainly_before instant started sent =
     (case instant sent of None \<Rightarrow> False | Some t \<Rightarrow> started + 1 \<le> t)"

definition latest_attempt :: "db \<Rightarrow> string \<Rightarrow> attempt_row option" where
  "latest_attempt db ev =
     (case sort_key (\<lambda>a. - a_no a) (filter (\<lambda>a. a_event a = ev) (attempts db)) of
        [] \<Rightarrow> None | a # _ \<Rightarrow> Some a)"

definition sent_stamp :: "attempt_row \<Rightarrow> string" where
  "sent_stamp a = (case a_sent_at a of None \<Rightarrow> a_observed_at a
     | Some s \<Rightarrow> if s = [] then a_observed_at a else s)"

definition verify_ack_turn ::
  "(string \<Rightarrow> rat option) \<Rightarrow> host option \<Rightarrow> db \<Rightarrow> delivery_row \<Rightarrow> string \<Rightarrow> err + string" where
  "verify_ack_turn instant adapter db row ack_turn =
     (case adapter of
        None \<Rightarrow> Inr ''unverified_turn''
      | Some h \<Rightarrow>
          (case read_turn h (d_recipient_thread row) ack_turn of
             Inr (Some turn) \<Rightarrow>
               (case ti_started_at turn of
                  None \<Rightarrow> Inr ''unverified_turn''
                | Some started \<Rightarrow>
                    (case latest_attempt db (d_event row) of
                       None \<Rightarrow> Inr ''verified''
                     | Some a \<Rightarrow>
                         let dispatched = Option.bind (a_record a) turnId
                         in if Some ack_turn \<noteq> dispatched
                               \<and> certainly_before instant started (sent_stamp a)
                            then Inl (refuse ACK_TURN_UNVERIFIED) else Inr ''verified''))
           | _ \<Rightarrow> Inr ''unverified_turn''))"

record ack_result =
  kr_record :: json
  kr_verified :: string
  kr_replay :: bool

definition settled_ack :: "ack_row \<Rightarrow> ack_result" where
  "settled_ack k = \<lparr>kr_record = k_record k, kr_verified = k_verified k, kr_replay = True\<rparr>"

definition write_ack_evidence ::
  "string \<Rightarrow> string \<Rightarrow> string \<Rightarrow> string option \<Rightarrow> string option \<Rightarrow> rat option \<Rightarrow> bool \<Rightarrow> db \<Rightarrow> db" where
  "write_ack_evidence stamp ev tier reason fingerprint next_check_at bump db =
     (let n = (if bump then 1 else 0) in db\<lparr>ack_evidences := upsert ae_event
        \<lparr>ae_event = ev, ae_tier = tier, ae_attempts = n, ae_last_reason = reason,
         ae_fingerprint = fingerprint, ae_next_check_at = next_check_at, ae_observed_at = stamp\<rparr>
        (\<lambda>x. x\<lparr>ae_tier := tier, ae_attempts := ae_attempts x + n, ae_last_reason := reason,
           ae_fingerprint := fingerprint, ae_next_check_at := next_check_at, ae_observed_at := stamp\<rparr>)
        (ack_evidences db)\<rparr>)"

definition mark_acknowledged :: "string \<Rightarrow> string \<Rightarrow> db \<Rightarrow> db" where
  "mark_acknowledged stamp ev db = db\<lparr>deliveries := update_where (\<lambda>d. d_event d = ev)
     (\<lambda>d. d\<lparr>d_state := ACKNOWLEDGED, d_updated_at := stamp\<rparr>) (deliveries db)\<rparr>"

definition ack_json ::
  "event_row \<Rightarrow> string \<Rightarrow> string \<Rightarrow> bool \<Rightarrow> string option \<Rightarrow> string \<Rightarrow> json" where
  "ack_json event ack_turn proof_text accepted rejection stamp = JObj
     [(''eventId'', JStr (e_id event)), (''relationshipId'', JStr (e_rel event)),
      (''executionGeneration'', JInt (e_gen event)), (''revisionHash'', JStr (e_hash event)),
      (''ackTurnId'', JStr ack_turn), (''accepted'', JBool accepted),
      (''rejectionReason'', jopt rejection), (''ackAt'', JStr stamp), (''ackProof'', JStr proof_text)]"

text \<open>The disposition written: a refusal of the call, or the rejection reason of the record.\<close>

definition disposition :: "bool \<Rightarrow> string option \<Rightarrow> string option \<Rightarrow> err + string option" where
  "disposition accepted rejection computed =
     (if accepted then (if truthy_text computed then Inl (refuse DISPOSITION_CONFLICT) else Inr None)
      else let reason = (if truthy_text rejection then the rejection
             else if truthy_text computed then the computed else ''revision_mismatch'')
        in if reason \<notin> set REJECTIONS then Inl (refuse DISPOSITION_CONFLICT) else Inr (Some reason))"

definition put_ack :: "string \<Rightarrow> json \<Rightarrow> string \<Rightarrow> bool \<Rightarrow> string \<Rightarrow> string option \<Rightarrow> string \<Rightarrow> db \<Rightarrow> db" where
  "put_ack ev record_json ack_turn accepted verification rejection stamp db = db\<lparr>acks := upsert k_event
     \<lparr>k_event = ev, k_record = record_json, k_ack_turn = ack_turn, k_accepted = accepted,
      k_verified = verification, k_rejection_reason = rejection, k_ack_at = stamp\<rparr>
     (\<lambda>k. k\<lparr>k_record := record_json, k_ack_turn := ack_turn, k_accepted := accepted,
        k_verified := verification, k_rejection_reason := rejection, k_ack_at := stamp\<rparr>) (acks db)\<rparr>"

text \<open>
  The write transaction of \<open>acknowledge\<close>; \<open>event\<close> and the verification were read before it. An
  acknowledgement already verified is settled, whatever this call asks for.
\<close>

definition acknowledge_fresh ::
  "clock \<Rightarrow> event_row option \<Rightarrow> string \<Rightarrow> string \<Rightarrow> string \<Rightarrow> string \<Rightarrow> bool \<Rightarrow> string option \<Rightarrow> db
     \<Rightarrow> err + db \<times> ack_result" where
  "acknowledge_fresh clk event verification ev ack_turn proof_text accepted rejection db =
     (if (case delivery_of db ev of None \<Rightarrow> True
          | Some d \<Rightarrow> d_state d \<notin> {DISPATCHED, INBOX_ONLY, ACKNOWLEDGED})
      then Inl (refuse NOT_CLAIMABLE)
      else bindE (evaluate db ev) (\<lambda>computed.
      bindE (disposition accepted rejection computed) (\<lambda>reason.
        case event of
          None \<Rightarrow> Inl TypeError
        | Some event_read \<Rightarrow>
            let stamp = clk_iso clk; ok = (verification = ''verified'');
                record_json = ack_json (event_read\<lparr>e_id := ev\<rparr>) ack_turn proof_text accepted reason stamp;
                db1 = put_ack ev record_json ack_turn accepted verification reason stamp db;
                db2 = (if ok then mark_acknowledged stamp ev db1 else db1);
                db3 = write_ack_evidence stamp ev (if ok then ''host_read'' else ''unverified'')
                        (if ok then None else Some verification) None None False db2
            in Inr (journal_entry ''acknowledged'' ev
                 (JObj [(''accepted'', JBool accepted), (''verified'', JStr verification),
                    (''reason'', jopt reason)]) stamp db3,
                 \<lparr>kr_record = record_json, kr_verified = verification, kr_replay = False\<rparr>))))"

definition acknowledge_in ::
  "clock \<Rightarrow> event_row option \<Rightarrow> string \<Rightarrow> string \<Rightarrow> string \<Rightarrow> string \<Rightarrow> bool \<Rightarrow> string option \<Rightarrow> db
     \<Rightarrow> err + db \<times> ack_result" where
  "acknowledge_in clk event verification ev ack_turn proof_text accepted rejection db =
     (case ack_of db ev of
        Some k \<Rightarrow> if k_verified k = ''verified'' then Inr (db, settled_ack k)
                 else acknowledge_fresh clk event verification ev ack_turn proof_text accepted rejection db
      | None \<Rightarrow> acknowledge_fresh clk event verification ev ack_turn proof_text accepted rejection db)"

text \<open>What is read before the transaction: a settled acknowledgement, or the verification of the turn.\<close>

definition acknowledge_reads ::
  "(string \<Rightarrow> rat option) \<Rightarrow> host option \<Rightarrow> string \<Rightarrow> string \<Rightarrow> string \<Rightarrow> db \<Rightarrow> err + ack_result + string" where
  "acknowledge_reads instant adapter ev ack_turn proof_text db =
     (case delivery_of db ev of
        None \<Rightarrow> Inl (refuse NOT_CLAIMABLE)
      | Some row \<Rightarrow>
          if d_kind row \<noteq> COMPLETION then Inl (refuse WRONG_DELIVERY_KIND)
          else if (case ack_of db ev of None \<Rightarrow> False | Some k \<Rightarrow> k_verified k = ''verified'')
          then Inr (Inl (settled_ack (the (ack_of db ev))))
          else if d_state row \<notin> {DISPATCHED, INBOX_ONLY} then Inl (refuse NOT_CLAIMABLE)
          else bindE (ack_proof ev ack_turn) (\<lambda>expected.
            if proof_text \<noteq> expected then Inl (refuse ACK_PROOF_MISMATCH)
            else bindE (verify_ack_turn instant adapter db row ack_turn) (\<lambda>v. Inr (Inr v))))"

definition acknowledge ::
  "(string \<Rightarrow> rat option) \<Rightarrow> host option \<Rightarrow> clock \<Rightarrow> string \<Rightarrow> string \<Rightarrow> string \<Rightarrow> bool \<Rightarrow> string option \<Rightarrow> db
     \<Rightarrow> err + db \<times> ack_result" where
  "acknowledge instant adapter clk ev ack_turn proof_text accepted rejection db =
     bindE (acknowledge_reads instant adapter ev ack_turn proof_text db) (\<lambda>r.
       case r of
         Inl settled \<Rightarrow> Inr (db, settled)
       | Inr verification \<Rightarrow>
           acknowledge_in clk (event_of db ev) verification ev ack_turn proof_text accepted rejection db)"

section \<open>The verdict\<close>

record verdict_result =
  vr_record :: json
  vr_replay :: bool

definition outcome_str :: "restoration_outcome \<Rightarrow> string" where
  "outcome_str r = (case r of CARRIED \<Rightarrow> ''carried'' | TRUNCATED \<Rightarrow> ''truncated''
     | BUDGET_DROPPED \<Rightarrow> ''budget_dropped'' | NOT_CARRIED \<Rightarrow> ''not_carried'' | UNMEASURED \<Rightarrow> ''unmeasured'')"

definition projected_json :: "restoration_result \<Rightarrow> json" where
  "projected_json r = JObj [(''outcome'', JStr (outcome_str (ro_outcome r))),
     (''basis'', jopt (ro_basis r)), (''criterion'', ro_criterion r)]"

definition ack_evidence_tier :: "db \<Rightarrow> string \<Rightarrow> string" where
  "ack_evidence_tier db ev = (case ack_evidence_of db ev of None \<Rightarrow> ''unrecorded'' | Some x \<Rightarrow> ae_tier x)"

text \<open>The ruling already recorded for an event, with the digest of the set it was decided on.\<close>

definition settled_verdict :: "db \<Rightarrow> string \<Rightarrow> (json \<times> string option) option" where
  "settled_verdict db ev = map_option (\<lambda>v. (vd_record v,
     case verdict_context_of db ev of None \<Rightarrow> None | Some c \<Rightarrow> vc_set_digest c)) (verdict_of db ev)"

text \<open>What a fresh ruling has to establish before anything is written.\<close>

record ruling =
  ru_event :: event_row
  ru_relationship :: relationship_record
  ru_state :: currency
  ru_cover :: cover
  ru_projected :: restoration_result

definition check_correction :: "relationship_record \<Rightarrow> string \<Rightarrow> json list \<Rightarrow> err + restoration_result" where
  "check_correction relationship verdict findings =
     (if verdict \<noteq> ''needs_changes'' then Inr (not_carried (Some LEGACY_BASIS))
      else if r_child_task (rr_row relationship) \<notin> set (r_allowed_recipients (rr_row relationship))
      then Inl (refuse RECIPIENT_NOT_AUTHORIZED)
      else let projected = project_cap findings MANIFEST_LINES (Some LEGACY_BASIS)
        in if ro_outcome projected \<in> set UNDELIVERABLE then Inl (refuse RESTORATION_UNDELIVERABLE)
           else Inr projected)"

definition check_ruling ::
  "db \<Rightarrow> string \<Rightarrow> string \<Rightarrow> json list \<Rightarrow> string option \<Rightarrow> string option \<Rightarrow> err + ruling" where
  "check_ruling db ev verdict findings reason expected =
     (if (case ack_of db ev of None \<Rightarrow> True | Some k \<Rightarrow> \<not> k_accepted k \<or> k_verified k \<noteq> ''verified'')
      then Inl (refuse NOT_ACKNOWLEDGED)
      else case event_of db ev of
        None \<Rightarrow> Inl TypeError
      | Some event \<Rightarrow>
          bindE (require_active db (e_rel event)) (\<lambda>relationship.
          bindE (currency_of db (rr_row relationship) event) (\<lambda>state.
            if verdict \<in> {''verified'', ''needs_changes''} \<and> \<not> cu_current state
            then Inl (case cu_reason state of Some r \<Rightarrow> refuse (CURRENCY_REASONS r) | None \<Rightarrow> KeyError)
            else bindE (coverage db (e_rel event) ev verdict findings reason expected) (\<lambda>cov.
                 bindE (check_correction relationship verdict findings) (\<lambda>projected.
                   Inr \<lparr>ru_event = event, ru_relationship = relationship, ru_state = state,
                        ru_cover = cov, ru_projected = projected\<rparr>)))))"

text \<open>The correction a needs-changes verdict opens: a generation, the request event and its delivery.\<close>

definition correction_payload ::
  "string \<Rightarrow> relationship_row \<Rightarrow> string \<Rightarrow> int \<Rightarrow> event_row \<Rightarrow> string \<Rightarrow> json list \<Rightarrow> json" where
  "correction_payload stamp row revision next ev_row verdict_turn findings = JObj
     [(''eventId'', JStr revision), (''relationshipId'', JStr (r_id row)),
      (''executionGeneration'', JInt next), (''kind'', JStr REVISION),
      (''supersedesEvent'', JStr (e_id ev_row)), (''supersedesRevisionHash'', JStr (e_hash ev_row)),
      (''verdict'', JStr ''needs_changes''), (''verdictTurnId'', JStr verdict_turn),
      (''criteria'', JList findings), (''childTaskId'', JStr (r_child_task row)),
      (''emittedAt'', JStr stamp)]"

definition correction_event ::
  "string \<Rightarrow> relationship_row \<Rightarrow> string \<Rightarrow> int \<Rightarrow> string \<Rightarrow> json \<Rightarrow> event_row" where
  "correction_event stamp row revision next verdict_turn payload =
     \<lparr>e_id = revision, e_rel = r_id row, e_gen = next, e_hash = NO_DELIVERABLE,
      e_outcome = ''revision_request'', e_producer = ''relay'', e_attempt = None,
      e_thread = r_parent_task row, e_turn = verdict_turn, e_turn_status = ''completed'',
      e_receipt = payload, e_manifest_ref = None, e_binding_mode = None, e_stage = FINAL,
      e_staged_at = None, e_finalized_at = None, e_finalizing_status = None,
      e_suppressed_reason = None, e_first_seen_at = stamp, e_last_seen_at = stamp,
      e_observation_count = 1\<rparr>"

definition open_correction ::
  "clock \<Rightarrow> relationship_row \<Rightarrow> event_row \<Rightarrow> string \<Rightarrow> json list \<Rightarrow> db \<Rightarrow> err + db \<times> string \<times> int" where
  "open_correction clk row ev_row verdict_turn findings db =
     bindE (revision_request_event_id (r_id row) (e_id ev_row) verdict_turn) (\<lambda>revision.
     bindE (open_generation_in clk (r_id row) (''revision-'' @ revision) ''needs_changes_revision'' None db)
       (\<lambda>(db1, next).
     bindE (enqueue_in clk revision (r_id row) REVISION (r_child_task row)
              (db1\<lparr>events := insert_or_ignore e_id
                 (correction_event (clk_iso clk) row revision next verdict_turn
                    (correction_payload (clk_iso clk) row revision next ev_row verdict_turn findings))
                 (events db1)\<rparr>)) (\<lambda>db2. Inr (db2, revision, next))))"

definition verdict_json ::
  "event_row \<Rightarrow> string \<Rightarrow> string \<Rightarrow> string \<Rightarrow> json list \<Rightarrow> int option \<Rightarrow> json" where
  "verdict_json event verdict verdict_turn stamp findings next = JObj
     ([(''eventId'', JStr (e_id event)), (''relationshipId'', JStr (e_rel event)),
       (''executionGeneration'', JInt (e_gen event)), (''verdict'', JStr verdict),
       (''verdictTurnId'', JStr verdict_turn), (''decidedAt'', JStr stamp)]
      @ (if findings \<noteq> [] then [(''criteria'', JList findings)] else [])
      @ (case next of None \<Rightarrow> [] | Some n \<Rightarrow> [(''nextExecutionGeneration'', JInt n)]))"

definition put_verdict :: "string \<Rightarrow> json \<Rightarrow> string \<Rightarrow> int option \<Rightarrow> string \<Rightarrow> string \<Rightarrow> db \<Rightarrow> db" where
  "put_verdict ev record_json verdict next verdict_turn stamp db = db\<lparr>verdicts := upsert vd_event
     \<lparr>vd_event = ev, vd_record = record_json, vd_verdict = verdict, vd_next_generation = next,
      vd_verdict_turn = verdict_turn, vd_decided_at = stamp\<rparr>
     (\<lambda>v. v\<lparr>vd_record := record_json, vd_verdict := verdict, vd_next_generation := next,
        vd_verdict_turn := verdict_turn, vd_decided_at := stamp\<rparr>) (verdicts db)\<rparr>"

definition verdict_context_row ::
  "db \<Rightarrow> string \<Rightarrow> string \<Rightarrow> ruling \<Rightarrow> json list \<Rightarrow> string option \<Rightarrow> verdict_context_row" where
  "verdict_context_row db stamp ev ru findings reason =
     \<lparr>vc_event = ev, vc_set_digest = cov_set_digest (ru_cover ru), vc_coverage = cov_coverage (ru_cover ru),
      vc_findings = (if findings = [] then JNull else JList findings), vc_reason = reason,
      vc_currency = (if cu_current (ru_state ru) then ''current''
        else case cu_reason (ru_state ru) of Some r \<Rightarrow> currency_reason_str r | None \<Rightarrow> ''unknown''),
      vc_head_event = cu_head_event (ru_state ru), vc_head_revision = cu_head_hash (ru_state ru),
      vc_ack_evidence = ack_evidence_tier db ev, vc_recorded_at = stamp\<rparr>"

definition put_verdict_context :: "verdict_context_row \<Rightarrow> db \<Rightarrow> db" where
  "put_verdict_context row db = db\<lparr>verdict_contexts := upsert vc_event row
     (\<lambda>c. row\<lparr>vc_event := vc_event c\<rparr>) (verdict_contexts db)\<rparr>"

text \<open>The writes: the verdict, its journal entries and its context, after the correction if any.\<close>

definition journal_verdict ::
  "string \<Rightarrow> string \<Rightarrow> string \<Rightarrow> ruling \<Rightarrow> (json \<times> string option) option \<Rightarrow> (string \<times> int) option \<Rightarrow> db \<Rightarrow> db"
where
  "journal_verdict stamp ev verdict ru superseded correction db =
     (let projected = projected_json (ru_projected ru);
          db1 = journal_entry ''verdict_recorded'' ev (JObj [(''verdict'', JStr verdict)]) stamp db;
          db2 = journal_entry ''restoration_projected'' ev projected stamp db1;
          db3 = (case correction of None \<Rightarrow> db2
                 | Some (revision, n) \<Rightarrow> journal_entry ''restoration_projected'' revision projected stamp db2)
      in case superseded of None \<Rightarrow> db3
         | Some (old, digest) \<Rightarrow> journal_entry ''verdict_superseded'' ev
             (JObj [(''supersededVerdict'', old), (''reviewedSetDigest'', jopt digest),
                (''currentSetDigest'', jopt (cov_set_digest (ru_cover ru)))]) stamp db3)"

definition write_verdict ::
  "clock \<Rightarrow> string \<Rightarrow> string \<Rightarrow> string \<Rightarrow> json list \<Rightarrow> string option \<Rightarrow> ruling
     \<Rightarrow> (json \<times> string option) option \<Rightarrow> (string \<times> int) option \<Rightarrow> db \<Rightarrow> db \<times> verdict_result" where
  "write_verdict clk ev verdict verdict_turn findings reason ru superseded correction db =
     (let stamp = clk_iso clk; next = map_option snd correction;
          record_json = verdict_json (ru_event ru) verdict verdict_turn stamp findings next;
          db1 = journal_verdict stamp ev verdict ru superseded correction
                  (put_verdict ev record_json verdict next verdict_turn stamp db)
      in (put_verdict_context (verdict_context_row db1 stamp ev ru findings reason) db1,
          \<lparr>vr_record = record_json, vr_replay = False\<rparr>))"

definition rule_fresh ::
  "clock \<Rightarrow> string \<Rightarrow> string \<Rightarrow> string \<Rightarrow> json list \<Rightarrow> string option \<Rightarrow> string option
     \<Rightarrow> (json \<times> string option) option \<Rightarrow> db \<Rightarrow> err + db \<times> verdict_result" where
  "rule_fresh clk ev verdict verdict_turn findings reason expected superseded db =
     bindE (check_ruling db ev verdict findings reason expected) (\<lambda>ru.
       if verdict = ''needs_changes'' then
         bindE (open_correction clk (rr_row (ru_relationship ru)) (ru_event ru) verdict_turn findings db)
           (\<lambda>(db1, correction). Inr (write_verdict clk ev verdict verdict_turn findings reason ru
              superseded (Some correction) db1))
       else Inr (write_verdict clk ev verdict verdict_turn findings reason ru superseded None db))"

definition record_verdict ::
  "clock \<Rightarrow> string \<Rightarrow> string \<Rightarrow> string \<Rightarrow> json list \<Rightarrow> json list \<Rightarrow> string option \<Rightarrow> string option \<Rightarrow> db
     \<Rightarrow> err + db \<times> verdict_result" where
  "record_verdict clk ev verdict verdict_turn criteria findings_in reason expected db =
     (if verdict \<notin> set VERDICTS then Inl (refuse DISPOSITION_CONFLICT)
      else bindE (normalise_findings criteria findings_in) (\<lambda>findings.
        case settled_verdict db ev of
          None \<Rightarrow> rule_fresh clk ev verdict verdict_turn findings reason expected None db
        | Some (old, digest) \<Rightarrow>
            bindE (re_review_open db ev digest) (\<lambda>reopened.
              if \<not> reopened then Inr (db, \<lparr>vr_record = old, vr_replay = True\<rparr>)
              else if verdict \<notin> {''verified'', ''needs_changes''} then Inl (refuse DISPOSITION_CONFLICT)
              else if expected = None then Inl (refuse CRITERIA_SET_CHANGED)
              else rule_fresh clk ev verdict verdict_turn findings reason expected
                     (Some (old, digest)) db)))"

section \<open>Deferred verification\<close>

record pending =
  pe_event :: string
  pe_ack_turn :: string
  pe_attempts :: int
  pe_last_reason :: "string option"
  pe_fingerprint :: "string option"
  pe_next_check_at :: "rat option"

definition pending_of :: "db \<Rightarrow> ack_row \<Rightarrow> pending" where
  "pending_of db k = (case ack_evidence_of db (k_event k) of
       None \<Rightarrow> \<lparr>pe_event = k_event k, pe_ack_turn = k_ack_turn k, pe_attempts = 0,
         pe_last_reason = None, pe_fingerprint = None, pe_next_check_at = None\<rparr>
     | Some x \<Rightarrow> \<lparr>pe_event = k_event k, pe_ack_turn = k_ack_turn k, pe_attempts = ae_attempts x,
         pe_last_reason = ae_last_reason x, pe_fingerprint = ae_fingerprint x,
         pe_next_check_at = ae_next_check_at x\<rparr>)"

definition due_at :: "pending \<Rightarrow> rat" where
  "due_at q = (case pe_next_check_at q of None \<Rightarrow> 0 | Some t \<Rightarrow> t)"

definition pending_acks :: "db \<Rightarrow> nat \<Rightarrow> rat \<Rightarrow> pending list" where
  "pending_acks db limit now = take limit (sort_key due_at (sort_key pe_event
     (filter (\<lambda>q. case pe_next_check_at q of None \<Rightarrow> True | Some t \<Rightarrow> t \<le> now)
       (map (pending_of db) (filter (\<lambda>k. k_verified k = ''unverified_turn'') (acks db))))))"

text \<open>
  \<^verbatim>\<open>min(900.0, 30.0 * (2 ** max(0, attempt_no - 1)))\<close>: the power is an integer, and Python raises
  \<^verbatim>\<open>OverflowError\<close> when an integer of more than 1024 bits is multiplied with a float.
\<close>

definition pending_backoff :: "int \<Rightarrow> err + rat" where
  "pending_backoff attempt_no =
     (let n = nat (attempt_no - 1) in if 1024 \<le> n then Inl OverflowError else Inr (min 900 (30 * 2 ^ n)))"

definition pending_fingerprint :: "db \<Rightarrow> string \<Rightarrow> delivery_row option \<Rightarrow> string" where
  "pending_fingerprint db ev delivery =
     (let relationship = Option.bind (event_of db ev) (\<lambda>e. relationship_of db (e_rel e))
      in sha256_hex (
        (case delivery of None \<Rightarrow> ''absent'' | Some d \<Rightarrow> delivery_state_str (d_state d)) @ ''|'' @
        (case relationship of None \<Rightarrow> ''absent'' | Some r \<Rightarrow> r_status r) @ ''|'' @
        (case relationship of None \<Rightarrow> ''0'' | Some r \<Rightarrow> int_str (r_generation r)) @ ''|'' @
        (case event_of db ev of None \<Rightarrow> ''0'' | Some e \<Rightarrow> int_str (e_gen e))))"

text \<open>What still speaks against the acknowledgement, besides its turn.\<close>

definition ack_blocker :: "db \<Rightarrow> string \<Rightarrow> ack_row \<Rightarrow> err + string option" where
  "ack_blocker db ev k =
     (if (case delivery_of db ev of None \<Rightarrow> True
          | Some d \<Rightarrow> d_state d \<notin> {DISPATCHED, INBOX_ONLY, ACKNOWLEDGED})
      then Inr (Some ''delivery_state_changed'')
      else bindE (case evaluate db ev of
            Inl (RelayError AckRefused r) \<Rightarrow> Inr (Some (reason_value r))
          | outcome \<Rightarrow> outcome) (\<lambda>computed.
        Inr (if k_accepted k \<and> truthy_text computed then computed else None)))"

datatype pending_outcome = Already_settled | Ack_verified | Withheld string

definition settle_pending_ack ::
  "clock \<Rightarrow> pending \<Rightarrow> string \<Rightarrow> rat \<Rightarrow> db \<Rightarrow> err + db \<times> pending_outcome" where
  "settle_pending_ack clk q verification now db =
     (let ev = pe_event q; stamp = clk_iso clk in
      case ack_of db ev of
        None \<Rightarrow> Inr (db, Already_settled)
      | Some k \<Rightarrow>
          if k_verified k = ''verified'' then Inr (db, Already_settled)
          else bindE (ack_blocker db ev k) (\<lambda>blocker.
            let fingerprint = pending_fingerprint db ev (delivery_of db ev) in
            if blocker = None \<and> verification = ''verified'' then
              Inr (journal_entry ''ack_verified'' ev (JObj [(''tier'', JStr ''host_read'')]) stamp
                (write_ack_evidence stamp ev ''host_read'' None (Some fingerprint) None True
                  (mark_acknowledged stamp ev
                    (db\<lparr>acks := update_where (\<lambda>x. k_event x = ev)
                        (\<lambda>x. x\<lparr>k_verified := ''verified''\<rparr>) (acks db)\<rparr>))), Ack_verified)
            else let reason = (case blocker of Some b \<Rightarrow> b | None \<Rightarrow> verification);
                     unchanged = (pe_last_reason q = Some reason \<and> pe_fingerprint q = Some fingerprint)
              in bindE (pending_backoff (pe_attempts q + 1)) (\<lambda>delay.
                let db1 = write_ack_evidence stamp ev ''unverified'' (Some reason) (Some fingerprint)
                      (Some (now + delay)) True db
                in Inr (if unchanged then db1
                     else journal_entry ''ack_verification_withheld'' ev
                            (JObj [(''reason'', JStr reason)]) stamp db1, Withheld reason))))"

fun verify_each ::
  "(string \<Rightarrow> rat option) \<Rightarrow> host option \<Rightarrow> clock \<Rightarrow> rat \<Rightarrow> pending list \<Rightarrow> db
     \<Rightarrow> db \<times> (err + (string \<times> pending_outcome) list)" where
  "verify_each instant adapter clk now [] db = (db, Inr [])"
| "verify_each instant adapter clk now (q # qs) db =
     (case delivery_of db (pe_event q) of
        None \<Rightarrow> verify_each instant adapter clk now qs db
      | Some row \<Rightarrow>
          let verification = (case verify_ack_turn instant adapter db row (pe_ack_turn q) of
                Inl (RelayError cls r) \<Rightarrow> reason_value r | Inl _ \<Rightarrow> [] | Inr v \<Rightarrow> v)
          in (case settle_pending_ack clk q verification now db of
                Inl e \<Rightarrow> (db, Inl e)
              | Inr (db1, outcome) \<Rightarrow>
                  (case verify_each instant adapter clk now qs db1 of
                     (db2, Inl e) \<Rightarrow> (db2, Inl e)
                   | (db2, Inr outcomes) \<Rightarrow> (db2, Inr ((pe_event q, outcome) # outcomes)))))"

definition verify_pending_acks ::
  "(string \<Rightarrow> rat option) \<Rightarrow> host option \<Rightarrow> clock \<Rightarrow> nat \<Rightarrow> rat \<Rightarrow> db
     \<Rightarrow> db \<times> (err + (string \<times> pending_outcome) list)" where
  "verify_pending_acks instant adapter clk limit now db =
     verify_each instant adapter clk now (pending_acks db limit now) db"

section \<open>Binding the generation of a dispatched correction\<close>

definition bind_dispatched_revision :: "clock \<Rightarrow> string \<Rightarrow> db \<Rightarrow> db \<times> (err + generation_row option)" where
  "bind_dispatched_revision clk ev db =
     (case delivery_of db ev of
        None \<Rightarrow> (db, Inr None)
      | Some row \<Rightarrow>
          if d_state row \<noteq> DISPATCHED \<or> \<not> truthy_text (d_dispatch_turn row) then (db, Inr None)
          else case event_of db ev of
            None \<Rightarrow> (db, Inl TypeError)
          | Some event \<Rightarrow> bind_anchor clk (e_rel event) (e_gen event) (d_dispatch_turn row)
              ''dispatch_receipt'' db)"

definition unbound_revisions :: "db \<Rightarrow> nat \<Rightarrow> string list" where
  "unbound_revisions db limit = map d_event (take limit (sort_key d_updated_at
     (filter (\<lambda>d. d_kind d = REVISION \<and> d_state d \<in> {DISPATCHED, ACKNOWLEDGED}
        \<and> d_dispatch_turn d \<noteq> None
        \<and> (case event_of db (d_event d) of None \<Rightarrow> False
           | Some e \<Rightarrow> (case generation_row_of db (e_rel e) (e_gen e) of None \<Rightarrow> False
               | Some g \<Rightarrow> g_anchor_state g = ANCHOR_PENDING))) (deliveries db))))"

fun bind_each :: "clock \<Rightarrow> string list \<Rightarrow> db \<Rightarrow> db \<times> (err + string list)" where
  "bind_each clk [] db = (db, Inr [])"
| "bind_each clk (ev # evs) db =
     (case bind_dispatched_revision clk ev db of
        (db1, Inl (RelayError cls r)) \<Rightarrow> bind_each clk evs db1
      | (db1, Inl e) \<Rightarrow> (db1, Inl e)
      | (db1, Inr res) \<Rightarrow>
          (case bind_each clk evs db1 of
             (db2, Inl e) \<Rightarrow> (db2, Inl e)
           | (db2, Inr bound) \<Rightarrow> (db2, Inr (if res = None then bound else ev # bound))))"

definition bind_pending_anchors :: "clock \<Rightarrow> nat \<Rightarrow> db \<Rightarrow> db \<times> (err + string list)" where
  "bind_pending_anchors clk limit db = bind_each clk (unbound_revisions db limit) db"

end
