(* ===== verification/Ack_Safety.thy ===== *)
theory Ack_Safety
  imports Ack Delivery_Safety
begin

text \<open>
  What acknowledgements and verdicts guarantee: what a verified acknowledgement rests on and that it
  is never replaced, what a verdict has to establish and what it writes, and where the deferred
  verification stops.
\<close>

section \<open>What each operation writes\<close>

lemma bind_if_known_frame [simp]:
  "acks (bind_if_known clk ev db) = acks db" "verdicts (bind_if_known clk ev db) = verdicts db"
  "deliveries (bind_if_known clk ev db) = deliveries db" "events (bind_if_known clk ev db) = events db"
  "attempts (bind_if_known clk ev db) = attempts db"
  "attempt_messages (bind_if_known clk ev db) = attempt_messages db"
  "verification_claims (bind_if_known clk ev db) = verification_claims db"
  "relationships (bind_if_known clk ev db) = relationships db"
  "generations (bind_if_known clk ev db) = generations db"
  "canonical_criteria (bind_if_known clk ev db) = canonical_criteria db"
  "verdict_contexts (bind_if_known clk ev db) = verdict_contexts db"
  by (simp_all add: bind_if_known_def bind_review_def Let_def split: option.split)

lemma claim_verification_frame:
  assumes "claim_verification clk ev turn db = Inr (db', out)"
  shows "acks db' = acks db \<and> verdicts db' = verdicts db \<and> deliveries db' = deliveries db
    \<and> events db' = events db \<and> attempts db' = attempts db
    \<and> attempt_messages db' = attempt_messages db"
  using assms by (auto simp: claim_verification_def Let_def split: if_splits)

lemma open_generation_in_messages:
  "open_generation_in clk rid dr reason dt db = Inr (db', n) \<Longrightarrow>
     attempt_messages db' = attempt_messages db"
  by (auto simp: open_generation_in_def annotate_stale_def Let_def journal_entry_def
      split: option.splits if_splits)

lemma open_generation_in_frame:
  assumes "open_generation_in clk rid dr reason dt db = Inr (db', n)"
  shows "deliveries db' = deliveries db \<and> events db' = events db \<and> attempts db' = attempts db
    \<and> acks db' = acks db \<and> verdicts db' = verdicts db
    \<and> attempt_messages db' = attempt_messages db"
  using assms open_generation_in_messages [OF assms] by (cases rule: open_generation_in_cases) auto

lemma open_correction_cases:
  assumes "open_correction clk row event verdict_turn findings db = Inr (db', revision, next)"
  obtains db1 where "revision_request_event_id (r_id row) (e_id event) verdict_turn = Inr revision"
    "open_generation_in clk (r_id row) (''revision-'' @ revision) ''needs_changes_revision'' None db
       = Inr (db1, next)"
    "enqueue_in clk revision (r_id row) REVISION (r_child_task row)
       (db1\<lparr>events := insert_or_ignore e_id
          (correction_event (clk_iso clk) row revision next verdict_turn
             (correction_payload (clk_iso clk) row revision next event verdict_turn findings))
          (events db1)\<rparr>) = Inr db'"
  using assms by (auto simp: open_correction_def)

lemma journal_verdict_frame [simp]:
  "acks (journal_verdict st ev v ru su co db) = acks db"
  "verdicts (journal_verdict st ev v ru su co db) = verdicts db"
  "deliveries (journal_verdict st ev v ru su co db) = deliveries db"
  "events (journal_verdict st ev v ru su co db) = events db"
  "attempts (journal_verdict st ev v ru su co db) = attempts db"
  "attempt_messages (journal_verdict st ev v ru su co db) = attempt_messages db"
  "relationships (journal_verdict st ev v ru su co db) = relationships db"
  "generations (journal_verdict st ev v ru su co db) = generations db"
  "canonical_criteria (journal_verdict st ev v ru su co db) = canonical_criteria db"
  "verdict_contexts (journal_verdict st ev v ru su co db) = verdict_contexts db"
  by (simp_all add: journal_verdict_def Let_def split: option.split)

lemma write_verdict_frame:
  assumes "write_verdict clk ev verdict verdict_turn findings reason ru superseded correction db = (db', r)"
  shows "acks db' = acks db \<and> deliveries db' = deliveries db \<and> events db' = events db
    \<and> attempts db' = attempts db \<and> attempt_messages db' = attempt_messages db
    \<and> relationships db' = relationships db \<and> generations db' = generations db
    \<and> vr_record r = verdict_json (ru_event ru) verdict verdict_turn (clk_iso clk) findings
        (map_option snd correction) \<and> \<not> vr_replay r
    \<and> verdicts db' = verdicts (put_verdict ev (vr_record r) verdict (map_option snd correction)
        verdict_turn (clk_iso clk) db)"
  using assms
  by (auto simp: write_verdict_def Let_def put_verdict_def put_verdict_context_def)

lemma open_correction_frame:
  assumes "open_correction clk row event verdict_turn findings db = Inr (db', revision, next)"
  shows "acks db' = acks db \<and> verdicts db' = verdicts db \<and> attempts db' = attempts db
    \<and> attempt_messages db' = attempt_messages db
    \<and> deliveries db' = insert_or_ignore d_event
        (queued_row clk revision (r_id row) REVISION (r_child_task row)) (deliveries db)
    \<and> events db' = insert_or_ignore e_id
          (correction_event (clk_iso clk) row revision next verdict_turn
             (correction_payload (clk_iso clk) row revision next event verdict_turn findings))
          (events db)"
  using assms
proof (rule open_correction_cases)
  fix db1
  assume g: "open_generation_in clk (r_id row) (''revision-'' @ revision) ''needs_changes_revision'' None db
       = Inr (db1, next)"
    and q: "enqueue_in clk revision (r_id row) REVISION (r_child_task row)
       (db1\<lparr>events := insert_or_ignore e_id
          (correction_event (clk_iso clk) row revision next verdict_turn
             (correction_payload (clk_iso clk) row revision next event verdict_turn findings))
          (events db1)\<rparr>) = Inr db'"
  from open_generation_in_frame [OF g] enqueue_in_frame [OF q] show ?thesis by simp
qed

lemma rule_fresh_cases:
  assumes "rule_fresh clk ev verdict verdict_turn findings reason expected superseded db = Inr (db', r)"
  obtains ru db1 correction where "check_ruling db ev verdict findings reason expected = Inr ru"
    "if verdict = ''needs_changes'' then
       \<exists>c. correction = Some c \<and> open_correction clk (rr_row (ru_relationship ru)) (ru_event ru)
          verdict_turn findings db = Inr (db1, c)
     else correction = None \<and> db1 = db"
    "write_verdict clk ev verdict verdict_turn findings reason ru superseded correction db1 = (db', r)"
proof -
  obtain ru where ru: "check_ruling db ev verdict findings reason expected = Inr ru"
    using assms by (auto simp: rule_fresh_def)
  show thesis
  proof (cases "verdict = ''needs_changes''")
    case True
    with assms ru obtain db1 c where
      "open_correction clk (rr_row (ru_relationship ru)) (ru_event ru) verdict_turn findings db = Inr (db1, c)"
      "write_verdict clk ev verdict verdict_turn findings reason ru superseded (Some c) db1 = (db', r)"
      by (auto simp: rule_fresh_def)
    with ru True show ?thesis by (intro that [of ru "Some c" db1]) simp_all
  next
    case False
    with assms ru show ?thesis by (intro that [of ru None db]) (simp_all add: rule_fresh_def)
  qed
qed

lemma rule_fresh_acks:
  assumes "rule_fresh clk ev verdict verdict_turn findings reason expected superseded db = Inr (db', r)"
  shows "acks db' = acks db"
  using assms
proof (rule rule_fresh_cases)
  fix ru db1 correction
  assume c: "if verdict = ''needs_changes'' then
       \<exists>c. correction = Some c \<and> open_correction clk (rr_row (ru_relationship ru)) (ru_event ru)
          verdict_turn findings db = Inr (db1, c)
     else correction = None \<and> db1 = db"
    and w: "write_verdict clk ev verdict verdict_turn findings reason ru superseded correction db1 = (db', r)"
  have "acks db1 = acks db" using c open_correction_frame by (auto split: if_splits)
  with write_verdict_frame [OF w] show ?thesis by simp
qed

lemma record_verdict_cases:
  assumes "record_verdict clk ev verdict verdict_turn criteria fs reason expected db = Inr (db', r)"
  obtains (replay) "vr_replay r" "db' = db" "\<exists>d. settled_verdict db ev = Some (vr_record r, d)"
  | (ruled) findings superseded where "normalise_findings criteria fs = Inr findings"
      "verdict \<in> set VERDICTS"
      "rule_fresh clk ev verdict verdict_turn findings reason expected superseded db = Inr (db', r)"
      "superseded = settled_verdict db ev"
      "\<forall>old d. superseded = Some (old, d) \<longrightarrow> re_review_open db ev d = Inr True \<and> expected \<noteq> None
         \<and> verdict \<in> {''verified'', ''needs_changes''}"
proof -
  from assms obtain findings where f: "verdict \<in> set VERDICTS" "normalise_findings criteria fs = Inr findings"
    by (auto simp: record_verdict_def split: if_splits)
  show thesis
  proof (cases "settled_verdict db ev")
    case None
    with assms f have "rule_fresh clk ev verdict verdict_turn findings reason expected None db = Inr (db', r)"
      by (simp add: record_verdict_def)
    with f None show ?thesis by (intro ruled [of findings None]) auto
  next
    case (Some od)
    obtain old d where od: "od = (old, d)" by fastforce
    obtain reopened where o: "re_review_open db ev d = Inr reopened"
      using assms f Some od by (auto simp: record_verdict_def)
    show ?thesis
    proof (cases reopened)
      case True
      with assms f Some od o have "verdict \<in> {''verified'', ''needs_changes''} \<and> expected \<noteq> None
          \<and> rule_fresh clk ev verdict verdict_turn findings reason expected (Some (old, d)) db = Inr (db', r)"
        by (auto simp: record_verdict_def split: if_splits)
      with f Some od o True show ?thesis by (intro ruled [of findings "Some (old, d)"]) simp_all
    next
      case False
      with assms f Some od o have "db' = db \<and> r = \<lparr>vr_record = old, vr_replay = True\<rparr>"
        by (auto simp: record_verdict_def)
      with Some od show ?thesis by (intro replay) simp_all
    qed
  qed
qed

lemma record_verdict_acks:
  "record_verdict clk ev verdict verdict_turn criteria fs reason expected db = Inr (db', r) \<Longrightarrow>
     acks db' = acks db"
  by (erule record_verdict_cases) (auto dest: rule_fresh_acks)

lemma bind_row_acks [simp]: "acks (bind_row rid n turn now db) = acks db"
  by (simp add: bind_row_def)

lemma bind_dispatched_acks: "acks (fst (bind_dispatched_revision clk ev db)) = acks db"
  by (auto simp: bind_dispatched_revision_def bind_anchor_def Let_def split: option.splits sum.splits if_splits)

lemma bind_each_acks: "acks (fst (bind_each clk evs db)) = acks db"
proof (induction evs arbitrary: db)
  case (Cons ev evs)
  from bind_dispatched_acks [of clk ev db] show ?case
    by (auto simp: Cons.IH split: prod.splits sum.splits err.splits) (metis Cons.IH fst_conv)+
qed simp

lemma find_ack_other:
  assumes "k_event k \<noteq> ev" "\<And>x. k_event (m x) = k_event x"
  shows "find_ack (upsert k_event k m t) ev = find_ack t ev"
proof (cases "k_event k \<in> set (map k_event t)")
  case True
  then have "find_ack (upsert k_event k m t) ev = map_option (\<lambda>x. if k_event x = k_event k then m x else x) (find_ack t ev)"
    by (simp add: upsert_def assms(2))
  then show ?thesis
    using assms(1) by (cases "find_ack t ev") (auto dest: lookup_mem(5))
next
  case False
  with assms(1) show ?thesis by (simp add: upsert_def split: option.split)
qed

lemma find_ack_put:
  "find_ack (acks (put_ack ev rec turn acc ver rej stamp db)) ev
     = Some \<lparr>k_event = ev, k_record = rec, k_ack_turn = turn, k_accepted = acc, k_verified = ver,
         k_rejection_reason = rej, k_ack_at = stamp\<rparr>"
proof (cases "ev \<in> set (map k_event (acks db))")
  case True
  then obtain k where k: "ack_of db ev = Some k" using find_None_key(5) [of "acks db" ev] by fastforce
  with True show ?thesis
    by (auto simp: put_ack_def upsert_def dest: lookup_mem(5))
next
  case False
  with find_None_key(5) [of "acks db" ev] show ?thesis by (simp add: put_ack_def upsert_def)
qed

lemma write_ack_evidence_frame [simp]:
  "acks (write_ack_evidence st ev tier rs fp nx b db) = acks db"
  "deliveries (write_ack_evidence st ev tier rs fp nx b db) = deliveries db"
  "attempts (write_ack_evidence st ev tier rs fp nx b db) = attempts db"
  "attempt_messages (write_ack_evidence st ev tier rs fp nx b db) = attempt_messages db"
  "events (write_ack_evidence st ev tier rs fp nx b db) = events db"
  by (simp_all add: write_ack_evidence_def Let_def)

lemma mark_acknowledged_frame [simp]:
  "acks (mark_acknowledged st ev db) = acks db"
  "attempts (mark_acknowledged st ev db) = attempts db"
  "attempt_messages (mark_acknowledged st ev db) = attempt_messages db"
  "events (mark_acknowledged st ev db) = events db"
  by (simp_all add: mark_acknowledged_def)

lemma put_ack_frame [simp]:
  "deliveries (put_ack ev rec turn acc ver rej st db) = deliveries db"
  "attempts (put_ack ev rec turn acc ver rej st db) = attempts db"
  "attempt_messages (put_ack ev rec turn acc ver rej st db) = attempt_messages db"
  "events (put_ack ev rec turn acc ver rej st db) = events db"
  by (simp_all add: put_ack_def)

lemma acknowledge_fresh_cases:
  assumes "acknowledge_fresh clk event verification ev ack_turn proof_text accepted rejection db = Inr (db', r)"
  obtains d computed reason e where "delivery_of db ev = Some d"
    "d_state d \<in> {DISPATCHED, INBOX_ONLY, ACKNOWLEDGED}" "evaluate db ev = Inr computed"
    "disposition accepted rejection computed = Inr reason" "event = Some e"
    "\<not> kr_replay r" "kr_verified r = verification"
    "acks db' = acks (put_ack ev (kr_record r) ack_turn accepted verification reason (clk_iso clk) db)"
    "deliveries db' = (if verification = ''verified'' then deliveries (mark_acknowledged (clk_iso clk) ev db)
       else deliveries db)"
    "attempts db' = attempts db" "attempt_messages db' = attempt_messages db" "events db' = events db"
  using assms
  by (auto simp: acknowledge_fresh_def Let_def mark_acknowledged_def split: if_splits option.splits)

section \<open>The steps of the service\<close>

inductive ack_step :: "db \<Rightarrow> db \<Rightarrow> bool" where
  claiming: "claim_verification clk ev turn db = Inr (db', out) \<Longrightarrow> ack_step db db'"
| acknowledging: "acknowledge_in clk event verification ev ack_turn proof_text accepted rejection db = Inr (db', r)
    \<Longrightarrow> ack_step db db'"
| ruling: "record_verdict clk ev verdict verdict_turn criteria fs reason expected db = Inr (db', v)
    \<Longrightarrow> ack_step db db'"
| settling: "settle_pending_ack clk q verification now db = Inr (db', outcome) \<Longrightarrow> ack_step db db'"
| binding: "ack_step db (fst (bind_pending_anchors clk limit db))"

text \<open>A settlement of a pending acknowledgement, by its outcome.\<close>

lemma settle_pending_cases:
  assumes "settle_pending_ack clk q verification now db = Inr (db', outcome)"
  obtains (already) "outcome = Already_settled" "db' = db"
      "\<forall>k. ack_of db (pe_event q) = Some k \<longrightarrow> k_verified k = ''verified''"
  | (promoted) k where "outcome = Ack_verified" "ack_of db (pe_event q) = Some k"
      "k_verified k \<noteq> ''verified''" "ack_blocker db (pe_event q) k = Inr None" "verification = ''verified''"
      "acks db' = update_where (\<lambda>x. k_event x = pe_event q) (\<lambda>x. x\<lparr>k_verified := ''verified''\<rparr>) (acks db)"
      "deliveries db' = deliveries (mark_acknowledged (clk_iso clk) (pe_event q) db)"
      "attempts db' = attempts db" "attempt_messages db' = attempt_messages db" "events db' = events db"
  | (withheld) k reason where "outcome = Withheld reason" "ack_of db (pe_event q) = Some k"
      "k_verified k \<noteq> ''verified''" "acks db' = acks db" "deliveries db' = deliveries db"
      "attempts db' = attempts db" "attempt_messages db' = attempt_messages db" "events db' = events db"
proof (cases "ack_of db (pe_event q)")
  case None
  with assms show ?thesis by (intro already) (auto simp: settle_pending_ack_def Let_def)
next
  case (Some k)
  show ?thesis
  proof (cases "k_verified k = ''verified''")
    case True
    with assms Some show ?thesis by (intro already) (auto simp: settle_pending_ack_def Let_def)
  next
    case False
    obtain b where b: "ack_blocker db (pe_event q) k = Inr b"
      using assms Some False by (auto simp: settle_pending_ack_def Let_def)
    show ?thesis
    proof (cases "b = None \<and> verification = ''verified''")
      case True
      with assms Some False b show ?thesis
        by (intro promoted [of k]) (auto simp: settle_pending_ack_def Let_def mark_acknowledged_def)
    next
      case no: False
      define reason where "reason = (case b of Some r \<Rightarrow> r | None \<Rightarrow> verification)"
      have "settle_pending_ack clk q verification now db = bindE (pending_backoff (pe_attempts q + 1)) (\<lambda>delay.
          let db1 = write_ack_evidence (clk_iso clk) (pe_event q) ''unverified'' (Some reason)
                (Some (pending_fingerprint db (pe_event q) (delivery_of db (pe_event q)))) (Some (now + delay)) True db
          in Inr (if pe_last_reason q = Some reason
                \<and> pe_fingerprint q = Some (pending_fingerprint db (pe_event q) (delivery_of db (pe_event q)))
             then db1 else journal_entry ''ack_verification_withheld'' (pe_event q)
                (JObj [(''reason'', JStr reason)]) (clk_iso clk) db1, Withheld reason))"
        unfolding reason_def settle_pending_ack_def Let_def Some option.case if_not_P [OF False] b bindE_Inr
          if_not_P [OF no] by (rule refl)
      then obtain delay where "outcome = Withheld reason"
        "db' = (let db1 = write_ack_evidence (clk_iso clk) (pe_event q) ''unverified'' (Some reason)
                (Some (pending_fingerprint db (pe_event q) (delivery_of db (pe_event q)))) (Some (now + delay)) True db
          in (if pe_last_reason q = Some reason
                \<and> pe_fingerprint q = Some (pending_fingerprint db (pe_event q) (delivery_of db (pe_event q)))
             then db1 else journal_entry ''ack_verification_withheld'' (pe_event q)
                (JObj [(''reason'', JStr reason)]) (clk_iso clk) db1))"
        using assms by (cases "pending_backoff (pe_attempts q + 1)") (simp_all add: Let_def)
      then show ?thesis
        using Some False by (intro withheld [of reason k]) (simp_all add: Let_def)
    qed
  qed
qed

definition settled_ack_row :: "ack_row \<Rightarrow> db \<Rightarrow> bool" where
  "settled_ack_row k db = (ack_of db (k_event k) = Some k \<and> k_verified k = ''verified'')"

lemma acknowledge_in_settled:
  assumes "acknowledge_in clk event verification ev ack_turn proof_text accepted rejection db = Inr (db', r)"
    and "settled_ack_row k db"
  shows "settled_ack_row k db'"
proof (cases "k_event k = ev")
  case True
  with assms show ?thesis by (auto simp: acknowledge_in_def settled_ack_row_def)
next
  case False
  have "db' = db \<or> acknowledge_fresh clk event verification ev ack_turn proof_text accepted rejection db = Inr (db', r)"
    using assms(1) by (auto simp: acknowledge_in_def split: option.splits if_splits)
  then show ?thesis
  proof
    assume "acknowledge_fresh clk event verification ev ack_turn proof_text accepted rejection db = Inr (db', r)"
    then obtain reason where "acks db' = acks (put_ack ev (kr_record r) ack_turn accepted verification reason (clk_iso clk) db)"
      by (rule acknowledge_fresh_cases)
    with assms(2) False show ?thesis
      by (simp add: settled_ack_row_def put_ack_def find_ack_other)
  qed (use assms(2) in simp)
qed

lemma ack_step_settled: "ack_step db db' \<Longrightarrow> settled_ack_row k db \<Longrightarrow> settled_ack_row k db'"
proof (induction rule: ack_step.induct)
  case (claiming clk ev turn db db' out)
  then show ?case using claim_verification_frame [OF claiming(1)] by (simp add: settled_ack_row_def)
next
  case (acknowledging clk event verification ev ack_turn proof_text accepted rejection db db' r)
  then show ?case by (rule acknowledge_in_settled)
next
  case (ruling clk ev verdict verdict_turn criteria fs reason expected db db' v)
  then show ?case using record_verdict_acks [OF ruling(1)] by (simp add: settled_ack_row_def)
next
  case (settling clk q verification now db db' outcome)
  from settling(1) show ?case
  proof (cases rule: settle_pending_cases)
    case (promoted k')
    then have "pe_event q \<noteq> k_event k" using settling(2) by (auto simp: settled_ack_row_def)
    then show ?thesis using settling(2) promoted(6) by (auto simp: settled_ack_row_def)
  qed (use settling(2) in \<open>simp_all add: settled_ack_row_def\<close>)
next
  case (binding db clk limit)
  then show ?case using bind_each_acks by (simp add: settled_ack_row_def bind_pending_anchors_def)
qed

interpretation ack_machine: invariant_machine ack_step "settled_ack_row k"
  using ack_step_settled by unfold_locales

text \<open>The service keeps the delivery invariant: it sends nothing and makes nothing claimable again.\<close>

lemma mark_acknowledged_inv:
  assumes "delivery_inv db" "deliveries db' = deliveries (mark_acknowledged stamp ev db)"
    "attempts db' = attempts db" "attempt_messages db' = attempt_messages db"
  shows "delivery_inv db'"
  by (rule delivery_write_inv [OF assms(1) _ assms(3,4), of "\<lambda>d. d_event d = ev"
        "\<lambda>d. d\<lparr>d_state := ACKNOWLEDGED, d_updated_at := stamp\<rparr>"])
     (simp_all add: assms(2) mark_acknowledged_def CLAIMABLE_states)

lemma open_correction_inv:
  assumes "delivery_inv db" "open_correction clk row event verdict_turn findings db = Inr (db', revision, next)"
  shows "delivery_inv db'"
  using assms(2)
proof (rule open_correction_cases)
  fix db1
  assume g: "open_generation_in clk (r_id row) (''revision-'' @ revision) ''needs_changes_revision'' None db
       = Inr (db1, next)"
    and q: "enqueue_in clk revision (r_id row) REVISION (r_child_task row)
       (db1\<lparr>events := insert_or_ignore e_id
          (correction_event (clk_iso clk) row revision next verdict_turn
             (correction_payload (clk_iso clk) row revision next event verdict_turn findings))
          (events db1)\<rparr>) = Inr db'"
  have "delivery_inv (db1\<lparr>events := evs\<rparr>)" for evs
    using assms(1) delivery_inv_frame [of "db1\<lparr>events := evs\<rparr>" db] open_generation_in_frame [OF g] by simp
  from enqueue_in_inv [OF this q] show ?thesis .
qed

lemma rule_fresh_inv:
  assumes "delivery_inv db"
    "rule_fresh clk ev verdict verdict_turn findings reason expected superseded db = Inr (db', r)"
  shows "delivery_inv db'"
  using assms(2)
proof (rule rule_fresh_cases)
  fix ru db1 correction
  assume c: "if verdict = ''needs_changes'' then
       \<exists>c. correction = Some c \<and> open_correction clk (rr_row (ru_relationship ru)) (ru_event ru)
          verdict_turn findings db = Inr (db1, c)
     else correction = None \<and> db1 = db"
    and w: "write_verdict clk ev verdict verdict_turn findings reason ru superseded correction db1 = (db', r)"
  have "delivery_inv db1" using c assms(1) open_correction_inv by (auto split: if_splits)
  with write_verdict_frame [OF w] show ?thesis using delivery_inv_frame [of db' db1] by simp
qed

lemma bind_dispatched_delivery:
  "deliveries (fst (bind_dispatched_revision clk ev db)) = deliveries db
   \<and> attempts (fst (bind_dispatched_revision clk ev db)) = attempts db
   \<and> attempt_messages (fst (bind_dispatched_revision clk ev db)) = attempt_messages db"
  by (simp add: bind_dispatched_revision_def bind_anchor_def bind_row_def Let_def
      split: option.split sum.split)

lemma bind_each_inv: "delivery_inv db \<Longrightarrow> delivery_inv (fst (bind_each clk evs db))"
proof (induction evs arbitrary: db)
  case (Cons ev evs)
  define db1 where "db1 = fst (bind_dispatched_revision clk ev db)"
  have "delivery_inv db1"
    using Cons.prems bind_dispatched_delivery [of clk ev db] delivery_inv_frame [of db1 db] by (simp add: db1_def)
  with Cons.IH show ?case
    by (auto simp: db1_def split: prod.splits sum.splits err.splits) (metis fst_conv)+
qed simp

lemma ack_step_delivery_inv: "ack_step db db' \<Longrightarrow> delivery_inv db \<Longrightarrow> delivery_inv db'"
proof (induction rule: ack_step.induct)
  case (claiming clk ev turn db db' out)
  then show ?case using claim_verification_frame [OF claiming(1)] delivery_inv_frame [of db' db] by simp
next
  case (acknowledging clk event verification ev ack_turn proof_text accepted rejection db db' r)
  have "db' = db \<or> acknowledge_fresh clk event verification ev ack_turn proof_text accepted rejection db = Inr (db', r)"
    using acknowledging(1) by (auto simp: acknowledge_in_def split: option.splits if_splits)
  then show ?case
  proof
    assume "acknowledge_fresh clk event verification ev ack_turn proof_text accepted rejection db = Inr (db', r)"
    then show ?thesis
      by (rule acknowledge_fresh_cases)
         (use acknowledging(2) mark_acknowledged_inv delivery_inv_frame [of db' db] in \<open>auto split: if_splits\<close>)
  qed (use acknowledging(2) in simp)
next
  case (ruling clk ev verdict verdict_turn criteria fs reason expected db db' v)
  from ruling(1) show ?case
    by (cases rule: record_verdict_cases) (use ruling(2) rule_fresh_inv in auto)
next
  case (settling clk q verification now db db' outcome)
  from settling(1) show ?case
    by (cases rule: settle_pending_cases)
       (use settling(2) mark_acknowledged_inv delivery_inv_frame [of db' db] in auto)
next
  case (binding db clk limit)
  then show ?case by (simp add: bind_pending_anchors_def bind_each_inv)
qed

lemma open_generation_in_opens:
  assumes "open_generation_in clk rid dr reason dt db = Inr (db', n)"
  shows "\<exists>g\<in>set (generations db'). g_rel g = rid \<and> g_no g = n \<and> g_dispatch_request g = dr"
  using assms
proof (cases rule: open_generation_in_cases)
  case (opened cur t gens)
  then have "generations db' = generations db @ [new_generation (clk_iso clk) rid n dr reason t]"
    by (simp add: insert_generation_def split: if_splits)
  then show ?thesis by (simp add: new_generation_def)
qed auto

lemma find_inserted_event:
  assumes "events db' = insert_or_ignore e_id row (events db)" "e_id row = ev" "Q row"
  shows "\<exists>e. event_of db' ev = Some e \<and> (event_of db ev = None \<longrightarrow> Q e)"
  using assms find_None_key(2) [of "events db" ev]
  by (cases "event_of db ev") (auto simp: insert_or_ignore_def)

lemma find_inserted_delivery:
  assumes "deliveries db' = insert_or_ignore d_event row (deliveries db)" "d_event row = ev" "Q row"
  shows "\<exists>d. delivery_of db' ev = Some d \<and> (delivery_of db ev = None \<longrightarrow> Q d)"
  using assms find_None_key(3) [of "deliveries db" ev]
  by (cases "delivery_of db ev") (auto simp: insert_or_ignore_def)

lemma find_verdict_put:
  "find_verdict (verdicts (put_verdict ev rec verdict next turn stamp db)) ev
     = Some \<lparr>vd_event = ev, vd_record = rec, vd_verdict = verdict, vd_next_generation = next,
         vd_verdict_turn = turn, vd_decided_at = stamp\<rparr>"
proof (cases "ev \<in> set (map vd_event (verdicts db))")
  case True
  then obtain v where v: "verdict_of db ev = Some v" using find_None_key(6) [of "verdicts db" ev] by fastforce
  with True show ?thesis by (auto simp: put_verdict_def upsert_def dest: lookup_mem(6))
next
  case False
  with find_None_key(6) [of "verdicts db" ev] show ?thesis by (simp add: put_verdict_def upsert_def)
qed

section \<open>Properties\<close>

text \<open>
  C9: An acknowledgement is only written for a delivered completion by a caller that computed the proof
  over its own turn, and it counts as verified only when the host showed that turn, started at a known
  time which does not certainly precede the send, or being the dispatch turn itself. An acceptance
  also needs the event to be acceptable at that moment. Only a verified one moves the delivery.
\<close>

theorem acknowledgement_rests_on_its_turn:
  assumes "acknowledge instant adapter clk ev ack_turn proof_text accepted rejection db = Inr (db', r)"
    and "\<not> kr_replay r"
  shows "\<exists>row. delivery_of db ev = Some row \<and> d_kind row = COMPLETION \<and> d_state row \<in> {DISPATCHED, INBOX_ONLY}
    \<and> ack_proof ev ack_turn = Inr proof_text
    \<and> (accepted \<longrightarrow> (\<exists>c. evaluate db ev = Inr c \<and> \<not> truthy_text c))
    \<and> (if kr_verified r = ''verified''
       then (\<exists>h turn started. adapter = Some h \<and> read_turn h (d_recipient_thread row) ack_turn = Inr (Some turn)
              \<and> ti_started_at turn = Some started
              \<and> (\<forall>a. latest_attempt db ev = Some a \<longrightarrow> Option.bind (a_record a) turnId = Some ack_turn
                   \<or> \<not> certainly_before instant started (sent_stamp a)))
            \<and> deliveries db' = deliveries (mark_acknowledged (clk_iso clk) ev db)
       else deliveries db' = deliveries db)
    \<and> map_option k_verified (ack_of db' ev) = Some (kr_verified r)"
proof -
  obtain res where reads: "acknowledge_reads instant adapter ev ack_turn proof_text db = Inr res"
    using assms(1) by (auto simp: acknowledge_def)
  obtain row where row: "delivery_of db ev = Some row" "d_kind row = COMPLETION"
    using reads by (auto simp: acknowledge_reads_def split: option.splits if_splits)
  have unsettled: "\<not> (\<exists>k. ack_of db ev = Some k \<and> k_verified k = ''verified'')"
    using assms reads row by (auto simp: acknowledge_def acknowledge_reads_def settled_ack_def split: if_splits)
  obtain v where v: "res = Inr v" "ack_proof ev ack_turn = Inr proof_text" "d_state row \<in> {DISPATCHED, INBOX_ONLY}"
    "verify_ack_turn instant adapter db row ack_turn = Inr v"
    using reads row unsettled by (auto simp: acknowledge_reads_def split: if_splits option.splits)
  have "acknowledge_in clk (event_of db ev) v ev ack_turn proof_text accepted rejection db = Inr (db', r)"
    using assms(1) reads v(1) by (simp add: acknowledge_def)
  then have fresh: "acknowledge_fresh clk (event_of db ev) v ev ack_turn proof_text accepted rejection db = Inr (db', r)"
    using unsettled by (auto simp: acknowledge_in_def split: option.splits if_splits)
  then obtain computed reason where f: "evaluate db ev = Inr computed"
    "disposition accepted rejection computed = Inr reason" "kr_verified r = v"
    "acks db' = acks (put_ack ev (kr_record r) ack_turn accepted v reason (clk_iso clk) db)"
    "deliveries db' = (if v = ''verified'' then deliveries (mark_acknowledged (clk_iso clk) ev db)
       else deliveries db)"
    by (rule acknowledge_fresh_cases)
  have "accepted \<longrightarrow> \<not> truthy_text computed" using f(2) by (auto simp: disposition_def split: if_splits)
  moreover have "d_event row = ev" using lookup_mem(3) [OF row(1)] by simp
  then have "v = ''verified'' \<longrightarrow> (\<exists>h turn started. adapter = Some h
      \<and> read_turn h (d_recipient_thread row) ack_turn = Inr (Some turn) \<and> ti_started_at turn = Some started
      \<and> (\<forall>a. latest_attempt db ev = Some a \<longrightarrow> Option.bind (a_record a) turnId = Some ack_turn
           \<or> \<not> certainly_before instant started (sent_stamp a)))"
    using v(4) by (auto simp: verify_ack_turn_def Let_def split: option.splits sum.splits if_splits)
  moreover have "map_option k_verified (ack_of db' ev) = Some v" unfolding f(4) find_ack_put by simp
  ultimately show ?thesis using row v(2,3) f(1,3,5) by auto
qed

text \<open>
  C17: A verified acknowledgement is settled: in every state the service reaches from there, whatever
  acknowledgements, verdicts, claims and deferred verifications run, the row is the one that was
  written.
\<close>

theorem verified_ack_is_settled:
  assumes "reachable ack_step db db'" and "ack_of db ev = Some k" and "k_verified k = ''verified''"
  shows "ack_of db' ev = Some k"
proof -
  have "settled_ack_row k db" using assms(2,3) lookup_mem(5) [OF assms(2)] by (simp add: settled_ack_row_def)
  with ack_machine.reachable_inv [OF assms(1)] have "settled_ack_row k db'" by blast
  with lookup_mem(5) [OF assms(2)] show ?thesis by (simp add: settled_ack_row_def)
qed


text \<open>
  C8: A needs-changes verdict is one commit: with the verdict there are the next execution generation,
  opened for it, the event of the correction in that generation, final and naming what it
  supersedes, and a delivery of it to the child; an error leaves the database as it was, because
  the operation returns none.
\<close>

theorem needs_changes_is_whole:
  assumes "record_verdict clk ev ''needs_changes'' verdict_turn criteria fs reason expected db = Inr (db', r)"
    and "\<not> vr_replay r"
  shows "\<exists>event relationship revision next e d v. event_of db ev = Some event
    \<and> require_active db (e_rel event) = Inr relationship
    \<and> revision_request_event_id (r_id (rr_row relationship)) ev verdict_turn = Inr revision
    \<and> (\<exists>g\<in>set (generations db'). g_rel g = e_rel event \<and> g_no g = next
         \<and> g_dispatch_request g = ''revision-'' @ revision)
    \<and> event_of db' revision = Some e \<and> delivery_of db' revision = Some d
    \<and> (event_of db revision = None \<longrightarrow> e_gen e = next \<and> e_stage e = FINAL
         \<and> jget (e_receipt e) ''supersedesEvent'' = JStr ev)
    \<and> (delivery_of db revision = None \<longrightarrow> d_kind d = REVISION \<and> d_state d = QUEUED
         \<and> d_recipient_task d = r_child_task (rr_row relationship))
    \<and> verdict_of db' ev = Some v \<and> vd_verdict v = ''needs_changes'' \<and> vd_next_generation v = Some next"
  using assms(1)
proof (cases rule: record_verdict_cases)
  case (ruled findings superseded)
  from ruled(3) obtain ru db1 c where ru: "check_ruling db ev ''needs_changes'' findings reason expected = Inr ru"
    "open_correction clk (rr_row (ru_relationship ru)) (ru_event ru) verdict_turn findings db = Inr (db1, c)"
    "write_verdict clk ev ''needs_changes'' verdict_turn findings reason ru superseded (Some c) db1 = (db', r)"
    by (rule rule_fresh_cases) auto
  obtain revision "next" where c: "c = (revision, next)" by fastforce
  obtain event relationship where e: "event_of db ev = Some event" "ru_event ru = event"
    "require_active db (e_rel event) = Inr relationship" "ru_relationship ru = relationship"
    using ru(1) by (auto simp: check_ruling_def split: if_splits option.splits)
  have rid: "r_id (rr_row relationship) = e_rel event" using require_activeD [OF e(3)] by simp
  have eid: "e_id event = ev" using lookup_mem(2) [OF e(1)] by simp
  note oc = ru(2) [unfolded c e(2,4)]
  note f = open_correction_frame [OF oc] and w = write_verdict_frame [OF ru(3)]
  obtain db2 where g: "revision_request_event_id (e_rel event) ev verdict_turn = Inr revision"
    "open_generation_in clk (e_rel event) (''revision-'' @ revision) ''needs_changes_revision'' None db
       = Inr (db2, next)" "generations db1 = generations db2"
    using oc
    by (rule open_correction_cases) (use enqueue_in_frame in \<open>force simp: rid eid\<close>)
  have gen: "\<exists>g\<in>set (generations db'). g_rel g = e_rel event \<and> g_no g = next
         \<and> g_dispatch_request g = ''revision-'' @ revision"
    using open_generation_in_opens [OF g(2)] g(3) w by simp
  have e_row: "\<exists>e. event_of db' revision = Some e \<and> (event_of db revision = None \<longrightarrow> e_gen e = next
      \<and> e_stage e = FINAL \<and> jget (e_receipt e) ''supersedesEvent'' = JStr ev)"
    using w f by (intro find_inserted_event) (auto simp: correction_event_def correction_payload_def eid)
  have d_row: "\<exists>d. delivery_of db' revision = Some d \<and> (delivery_of db revision = None \<longrightarrow> d_kind d = REVISION
      \<and> d_state d = QUEUED \<and> d_recipient_task d = r_child_task (rr_row relationship))"
    using w f by (intro find_inserted_delivery) (auto simp: queued_row_def)
  have "verdict_of db' ev = Some \<lparr>vd_event = ev, vd_record = vr_record r, vd_verdict = ''needs_changes'',
      vd_next_generation = Some next, vd_verdict_turn = verdict_turn, vd_decided_at = clk_iso clk\<rparr>"
    using w by (simp add: find_verdict_put c)
  with e(1,3) g(1) rid gen e_row d_row show ?thesis by fastforce
qed (use assms(2) in simp)

text \<open>
  A ruling is made once. After a verdict, every further call for the event, whatever verdict, findings
  or turn it brings, is answered with the ruling of record and writes nothing, as long as the
  canonical criteria have not moved.
\<close>

lemma coverage_digest:
  "coverage db rid ev verdict findings reason expected = Inr c \<Longrightarrow> cov_set_digest c = criteria_digest db rid"
  by (auto simp: coverage_def criteria_digest_def split: option.splits if_splits)

lemma write_verdict_context:
  assumes "write_verdict clk ev verdict verdict_turn findings reason ru superseded correction db = (db', r)"
  shows "canonical_criteria db' = canonical_criteria db
    \<and> (\<exists>c. verdict_context_of db' ev = Some c \<and> vc_set_digest c = cov_set_digest (ru_cover ru))"
proof -
  define db5 where "db5 = journal_verdict (clk_iso clk) ev verdict ru superseded correction
      (put_verdict ev (verdict_json (ru_event ru) verdict verdict_turn (clk_iso clk) findings
         (map_option snd correction)) verdict (map_option snd correction) verdict_turn (clk_iso clk) db)"
  define row where "row = verdict_context_row db5 (clk_iso clk) ev ru findings reason"
  have w: "db' = put_verdict_context row db5" "vc_event row = ev"
    "vc_set_digest row = cov_set_digest (ru_cover ru)" "canonical_criteria db5 = canonical_criteria db"
    using assms by (auto simp: write_verdict_def Let_def db5_def row_def put_verdict_def verdict_context_row_def)
  have "\<exists>c. List.find (\<lambda>c. vc_event c = ev) (upsert vc_event row (\<lambda>c. row\<lparr>vc_event := vc_event c\<rparr>)
      (verdict_contexts db5)) = Some c \<and> vc_set_digest c = vc_set_digest row"
  proof (cases "ev \<in> set (map vc_event (verdict_contexts db5))")
    case True
    then obtain x where "List.find (\<lambda>c. vc_event c = ev) (verdict_contexts db5) = Some x"
      using find_not_None [of _ "verdict_contexts db5" "\<lambda>c. vc_event c = ev"] by fastforce
    with True w(2) find_Some_iff_mem [OF this] show ?thesis
      by (auto simp: upsert_def find_update_where_hit)
  next
    case False
    then have "List.find (\<lambda>c. vc_event c = ev) (verdict_contexts db5) = None"
      by (auto simp: find_None_iff_none)
    with False w(2) show ?thesis by (simp add: upsert_def find_snoc)
  qed
  with w show ?thesis by (simp add: put_verdict_context_def verdict_context_of_def)
qed

theorem ruling_is_made_once:
  assumes "record_verdict clk ev verdict verdict_turn criteria fs reason expected db = Inr (db', r)"
    and "\<not> vr_replay r"
    and "verdict2 \<in> set VERDICTS" and "normalise_findings criteria2 fs2 = Inr findings2"
  shows "record_verdict clk2 ev verdict2 turn2 criteria2 fs2 reason2 expected2 db'
    = Inr (db', \<lparr>vr_record = vr_record r, vr_replay = True\<rparr>)"
  using assms(1)
proof (cases rule: record_verdict_cases)
  case (ruled findings superseded)
  from ruled(3) obtain ru db1 correction where ru: "check_ruling db ev verdict findings reason expected = Inr ru"
    "if verdict = ''needs_changes'' then
       \<exists>c. correction = Some c \<and> open_correction clk (rr_row (ru_relationship ru)) (ru_event ru)
          verdict_turn findings db = Inr (db1, c)
     else correction = None \<and> db1 = db"
    "write_verdict clk ev verdict verdict_turn findings reason ru superseded correction db1 = (db', r)"
    by (rule rule_fresh_cases)
  note w = write_verdict_frame [OF ru(3)] and wc = write_verdict_context [OF ru(3)]
  have v: "verdict_of db' ev = Some \<lparr>vd_event = ev, vd_record = vr_record r, vd_verdict = verdict,
      vd_next_generation = map_option snd correction, vd_verdict_turn = verdict_turn, vd_decided_at = clk_iso clk\<rparr>"
    using w by (simp add: find_verdict_put)
  obtain c where c: "verdict_context_of db' ev = Some c" "vc_set_digest c = cov_set_digest (ru_cover ru)"
    using wc by blast
  have closed: "re_review_open db' ev (vc_set_digest c) = Inr False"
  proof (cases "verdict = ''verified''")
    case True
    then have "db1 = db" using ru(2) by simp
    obtain event relationship state cov projected where e: "event_of db ev = Some event"
      "coverage db (e_rel event) ev verdict findings reason expected = Inr cov" "ru_cover ru = cov"
      using ru(1) by (auto simp: check_ruling_def split: if_splits option.splits)
    have "criteria_digest db' (e_rel event) = criteria_digest db (e_rel event)"
      using wc \<open>db1 = db\<close> by (simp add: criteria_digest_def get_criteria_def)
    with e c(2) coverage_digest [OF e(2)] w \<open>db1 = db\<close> v True show ?thesis
      by (simp add: re_review_open_def)
  next
    case False
    with v show ?thesis by (simp add: re_review_open_def)
  qed
  have "settled_verdict db' ev = Some (vr_record r, vc_set_digest c)"
    using v c(1) by (simp add: settled_verdict_def)
  with assms(3,4) closed show ?thesis by (simp add: record_verdict_def)
qed (use assms(2) in simp)

text \<open>
  One revision is verified once: when a claim of a review that nobody had claimed is granted, the next
  claim by anyone is refused and writes nothing, as long as the canonical criteria have not moved.
\<close>

theorem review_is_claimed_once:
  assumes "claim_verification clk ev turn db = Inr (db', Proceed)" and "claim_of db ev = None"
    and "ev \<notin> cc_event ` set (claim_contexts db)"
  shows "claim_verification clk2 ev turn2 db' = Inr (db', Already_claimed)"
proof -
  define db1 where "db1 = db\<lparr>verification_claims := insert_or_ignore cl_event
      \<lparr>cl_event = ev, cl_turn = turn, cl_claimed_at = clk_iso clk\<rparr> (verification_claims db)\<rparr>"
  have db': "db' = bind_if_known clk ev db1"
    using assms(1,2) by (simp add: claim_verification_def Let_def db1_def)
  have "ev \<notin> cl_event ` set (verification_claims db)" using assms(2) by (simp add: find_None_key)
  then have "claim_of db1 ev \<noteq> None" using assms(2) by (simp add: db1_def insert_or_ignore_def)
  then have claimed: "claim_of db' ev \<noteq> None" by (simp add: db')
  have "re_review_open db' ev (bound_digest db' ev) = Inr False"
  proof (cases "event_of db' ev")
    case (Some event)
    then have e: "event_of db1 ev = Some event" by (simp add: db')
    have none: "List.find (\<lambda>c. cc_event c = ev) (claim_contexts db) = None"
      using assms(3) by (auto simp: find_None_iff_none)
    have "bound_digest db' ev = criteria_digest db1 (e_rel event)"
      using e none assms(3)
      by (simp add: db' bind_if_known_def bind_review_def Let_def bound_digest_def insert_or_ignore_def
          find_snoc db1_def)
    moreover have "criteria_digest db' (e_rel event) = criteria_digest db1 (e_rel event)"
      by (simp add: db' criteria_digest_def get_criteria_def)
    ultimately show ?thesis using Some by (simp add: re_review_open_def)
  qed (simp add: re_review_open_def)
  with claimed show ?thesis by (auto simp: claim_verification_def Let_def)
qed

text \<open>
  The deferred verification never rewrites what the parent authored: whatever the host answers, the
  record, the disposition and the turn of every acknowledgement are what they were, and one is
  promoted only with the turn verified and nothing against it at that moment.
\<close>

theorem authored_intent_is_kept:
  assumes "settle_pending_ack clk q verification now db = Inr (db', outcome)"
  shows "map (\<lambda>k. (k_event k, k_record k, k_ack_turn k, k_accepted k, k_rejection_reason k, k_ack_at k)) (acks db')
      = map (\<lambda>k. (k_event k, k_record k, k_ack_turn k, k_accepted k, k_rejection_reason k, k_ack_at k)) (acks db)
    \<and> (outcome = Ack_verified \<longrightarrow> verification = ''verified''
         \<and> (\<exists>k. ack_of db (pe_event q) = Some k \<and> ack_blocker db (pe_event q) k = Inr None))
    \<and> (outcome \<noteq> Ack_verified \<longrightarrow> acks db' = acks db \<and> deliveries db' = deliveries db)"
  using assms
proof (cases rule: settle_pending_cases)
  case (promoted k)
  then show ?thesis by (simp add: map_update_where)
qed simp_all

text \<open>
  The backoff of the deferred verification overflows: an acknowledgement that has been withheld 1024
  times, which takes less than eleven days at the ceiling of fifteen minutes, makes the settlement
  raise instead of withholding it again. Nothing is written, so it is still due on every later pass,
  and a pass that meets it first settles nothing at all.
\<close>

theorem withheld_ack_wedges_the_pass:
  assumes "ack_of db (pe_event q) = Some k" and "k_verified k \<noteq> ''verified''"
    and "ack_blocker db (pe_event q) k = Inr b" and "1024 \<le> pe_attempts q"
    and "verify_ack_turn instant adapter db row (pe_ack_turn q) \<noteq> Inr ''verified''"
    and "delivery_of db (pe_event q) = Some row" and "pending_acks db limit now = q # qs"
  shows "verify_pending_acks instant adapter clk limit now db = (db, Inl OverflowError)"
proof -
  let ?v = "case verify_ack_turn instant adapter db row (pe_ack_turn q) of
      Inl (RelayError cls r) \<Rightarrow> reason_value r | Inl _ \<Rightarrow> [] | Inr v \<Rightarrow> v"
  have "reason_value r \<noteq> ''verified''" for r by (cases r) (simp_all add: reason_value_def)
  then have v: "?v \<noteq> ''verified''" using assms(5) by (auto split: sum.splits err.splits)
  have "pending_backoff (pe_attempts q + 1) = Inl OverflowError"
    using assms(4) by (simp add: pending_backoff_def Let_def nat_le_iff)
  then have "settle_pending_ack clk q ?v now db = Inl OverflowError"
    using assms(1-3) v by (simp add: settle_pending_ack_def Let_def)
  then show ?thesis using assms(6,7) by (simp add: verify_pending_acks_def Let_def)
qed

end
