(* ===== verification/Receipt_Safety.thy ===== *)
theory Receipt_Safety
  imports Receipts
begin

text \<open>
  What the intake guarantees over any sequence of its operations: which events may be handed to a
  parent, what a stored receipt is bound to, and what a refused one leaves behind.
\<close>

section \<open>The steps of the intake\<close>

inductive intake_step :: "db \<Rightarrow> db \<Rightarrow> bool" where
  accepting: "intake_step db (fst (accept_child_receipt it clk payload observation continuation supersedes db))"
| observing: "intake_step db (fst (daemon_observation adapter clk rid turn db))"
| resolving: "intake_step db (fst (resolve_staged clk turn db))"
| resolving_one: "intake_step db (fst (resolve_staged_in clk turn rid db))"
| recording: "intake_step db (record_observation_in clk turn classification rid event db)"
| admitting: "admit_explicitly clk rid number at_turn actor db = Inr db' \<Longrightarrow> intake_step db db'"

text \<open>
  All that these steps do to the table of events: nothing, count one more observation of an event, add
  one event, or settle the staged events of one turn.
\<close>

definition bump :: "string \<Rightarrow> event_row \<Rightarrow> event_row" where
  "bump stamp e = e\<lparr>e_observation_count := e_observation_count e + 1, e_last_seen_at := stamp\<rparr>"

lemma bump_simps [simp]:
  "e_id (bump st e) = e_id e" "e_stage (bump st e) = e_stage e" "e_outcome (bump st e) = e_outcome e"
  "e_turn_status (bump st e) = e_turn_status e" "e_finalizing_status (bump st e) = e_finalizing_status e"
  by (simp_all add: bump_def)

lemma settle_row_simps [simp]:
  "e_id (settle_row st status e) = e_id e" "e_outcome (settle_row st status e) = e_outcome e"
  "e_turn_status (settle_row st status e) = e_turn_status e"
  "e_stage (settle_row st status e) = (if status = ''completed'' then FINAL else SUPPRESSED)"
  "e_finalizing_status (settle_row st status e) = Some status"
  "settle_row st status (settle_row st status e) = settle_row st status e"
  by (simp_all add: settle_row_def)

lemma fold_update_ids:
  assumes "\<And>e. k (f e) = k e" "\<And>e. f (f e) = f e"
  shows "fold (\<lambda>v. update_where (\<lambda>e. k e = v) f) ids t = update_where (\<lambda>e. k e \<in> set ids) f t"
proof (induction ids arbitrary: t)
  case (Cons v ids)
  show ?case unfolding fold.simps comp_def Cons.IH
    by (auto simp: update_where_def assms)
qed (simp add: update_where_def)

definition permitted :: "event_row \<Rightarrow> bool" where
  "permitted e = (case e_stage e of
       STAGED \<Rightarrow> e_turn_status e = ''inProgress''
     | FINAL \<Rightarrow> e_turn_status e = ''completed'' \<or> e_finalizing_status e = Some ''completed''
         \<or> (e_outcome e \<in> {''failed'', ''interrupted''} \<and> e_turn_status e = e_outcome e)
     | SUPPRESSED \<Rightarrow> e_finalizing_status e \<in> {Some ''failed'', Some ''interrupted''})"

definition events_change :: "db \<Rightarrow> db \<Rightarrow> bool" where
  "events_change db db' =
     (events db' = events db
      \<or> (\<exists>ev st. events db' = update_where (\<lambda>e. e_id e = ev) (bump st) (events db))
      \<or> (\<exists>e. e_id e \<notin> e_id ` set (events db) \<and> e_stage e \<noteq> SUPPRESSED \<and> permitted e
            \<and> events db' = events db @ [e])
      \<or> (\<exists>ids status st. status \<in> set TERMINAL \<and> (\<forall>e\<in>set (events db). e_id e \<in> ids \<longrightarrow>
              (\<exists>e'\<in>set (events db). e_id e' = e_id e \<and> e_stage e' = STAGED))
            \<and> events db' = update_where (\<lambda>e. e_id e \<in> ids) (settle_row st status) (events db)))"

lemma events_change_same: "events db' = events db \<Longrightarrow> events_change db db'"
  by (simp add: events_change_def)

lemma store_event_change:
  assumes "store_event clk payload ev mode sd db = Inr (db', s)"
    and "permitted (new_event (clk_iso clk) payload ev mode)"
  shows "events_change db db'"
  using assms(1)
proof (cases rule: store_event_cases)
  case (again e)
  then show ?thesis unfolding events_change_def bump_def [abs_def] by blast
next
  case fresh
  moreover have "e_stage (new_event (clk_iso clk) payload ev mode) \<noteq> SUPPRESSED"
    by (simp add: event_stage_of_def)
  moreover have "ev \<notin> e_id ` set (events db)" using fresh(1) by (simp add: find_None_key)
  ultimately show ?thesis using assms(2) unfolding events_change_def by (metis new_event_simps(1))
qed

lemma contents_permitted:
  assumes "contents dk minimum payload roots = Inr mode"
  shows "permitted (new_event st payload ev m)"
proof -
  let ?out = "str_field payload ''outcome''" and ?status = "tr_status (turn_of payload)"
  have "?status \<in> set (if str_field payload ''producer'' = DAEMON then DAEMON_TURN_STATUS ?out
      else COMPATIBLE_TURN_STATUS ?out)"
    using assms by (auto simp: contents_def Let_def split: if_splits)
  then show ?thesis
    by (auto simp: permitted_def event_stage_of_def COMPATIBLE_TURN_STATUS_def DAEMON_TURN_STATUS_def
        split: if_splits)
qed

lemma accept_change: "events_change db (fst (accept it clk payload observation continuation supersedes db))"
proof (cases "accept it clk payload observation continuation supersedes db")
  case (Pair db' res)
  show ?thesis
  proof (cases res)
    case (Inr s)
    with Pair have "accept it clk payload observation continuation supersedes db = (db', Inr s)" by simp
    then obtain relationship g claim db1 mode ev evidence where a:
      "check_turn_identity (in_adapter it) clk relationship g (turn_of payload) claim db = (db1, Inr evidence)"
      "contents (in_disk it) (in_minimum it) payload (r_artifact_roots (rr_row relationship)) = Inr mode"
      "store_event clk payload ev mode supersedes db1 = Inr (db', s)"
      by (rule accept_cases)
    have "events_change db1 db'" by (rule store_event_change [OF a(3) contents_permitted [OF a(2)]])
    with check_turn_identity_select [OF a(1)] Pair show ?thesis by (simp add: events_change_def)
  next
    case (Inl e)
    have "events db' = events db"
      using Pair Inl check_turn_identity_select
      by (fastforce simp: accept_def split: sum.splits prod.splits)
    with Pair show ?thesis by (simp add: events_change_same)
  qed
qed

lemma accept_child_receipt_events:
  "events (fst (accept_child_receipt it clk payload observation continuation supersedes db))
     = events (fst (accept it clk payload observation continuation supersedes db))"
  by (auto simp: accept_child_receipt_def record_refusal_def split: prod.splits sum.splits err.splits)

lemma daemon_change: "events_change db (fst (daemon_observation adapter clk rid turn db))"
proof (cases "daemon_observation adapter clk rid turn db")
  case (Pair db' res)
  show ?thesis
  proof (cases res)
    case (Inr s)
    with Pair obtain relationship g db1 evidence ev where a:
      "tr_status turn \<in> {''failed'', ''interrupted''}"
      "check_turn_identity adapter clk relationship g turn None db = (db1, Inr evidence)"
      "store_event clk (daemon_payload clk rid (r_generation (rr_row relationship)) turn ev) ev None None db1
         = Inr (db', s)"
      by (fastforce simp: daemon_observation_def split: if_splits sum.splits prod.splits)
    have "permitted (new_event (clk_iso clk)
        (daemon_payload clk rid (r_generation (rr_row relationship)) turn ev) ev None)"
      using a(1) by (auto simp: permitted_def event_stage_of_def turn_of_def daemon_payload_def
          str_field_def to_record_def Let_def)
    from store_event_change [OF a(3) this] check_turn_identity_select [OF a(2)] Pair
    show ?thesis by (simp add: events_change_def)
  next
    case (Inl e)
    have "events db' = events db"
      using Pair Inl check_turn_identity_select
      by (fastforce simp: daemon_observation_def split: if_splits sum.splits prod.splits)
    with Pair show ?thesis by (simp add: events_change_same)
  qed
qed

lemma resolve_in_change: "events_change db (fst (resolve_staged_in clk turn rid db))"
proof -
  define ids where "ids = map e_id (staged_events db (Some (tr_thread_id turn)) (Some (tr_turn_id turn)) rid)"
  have staged: "\<forall>e\<in>set (events db). e_id e \<in> set ids \<longrightarrow>
      (\<exists>e'\<in>set (events db). e_id e' = e_id e \<and> e_stage e' = STAGED)"
    unfolding ids_def staged_events_def set_map set_sort set_filter by force
  have "events (fst (resolve_staged_in clk turn rid db)) = events db
      \<or> tr_status turn \<in> set TERMINAL \<and> events (fst (resolve_staged_in clk turn rid db))
         = update_where (\<lambda>e. e_id e \<in> set ids) (settle_row (clk_iso clk) (tr_status turn)) (events db)"
    unfolding resolve_staged_in_def Let_def ids_def [symmetric]
    by (simp add: fold_update_ids [of e_id "settle_row (clk_iso clk) (tr_status turn)"])
  with staged show ?thesis unfolding events_change_def by blast
qed

lemma intake_step_change: "intake_step db db' \<Longrightarrow> events_change db db'"
proof (induction rule: intake_step.induct)
  case (accepting db it clk payload observation continuation supersedes)
  from accept_change show ?case unfolding events_change_def accept_child_receipt_events .
next
  case (resolving db clk turn)
  then show ?case using resolve_in_change by (auto simp: resolve_staged_def events_change_same)
next
  case (recording db clk turn classification rid event)
  show ?case by (rule events_change_same) (simp add: record_observation_in_def Let_def split: option.splits)
next
  case (admitting clk rid number at_turn actor db db')
  then show ?case
    by (intro events_change_same) (auto simp: admit_explicitly_def write_admission_def split: if_splits)
qed (rule daemon_change, rule resolve_in_change)

section \<open>Invariants\<close>

definition intake_inv :: "db \<Rightarrow> bool" where
  "intake_inv db = (distinct (map e_id (events db)) \<and> (\<forall>e\<in>set (events db). permitted e))"

lemma events_change_inv:
  assumes "events_change db db'" "intake_inv db"
  shows "intake_inv db'"
proof -
  have d: "distinct (map e_id (events db))" and p: "\<forall>e\<in>set (events db). permitted e"
    using assms(2) by (simp_all add: intake_inv_def)
  from assms(1) consider "events db' = events db"
    | ev st where "events db' = update_where (\<lambda>e. e_id e = ev) (bump st) (events db)"
    | e where "e_id e \<notin> e_id ` set (events db)" "permitted e" "events db' = events db @ [e]"
    | ids status st where "status \<in> set TERMINAL"
        "events db' = update_where (\<lambda>e. e_id e \<in> ids) (settle_row st status) (events db)"
    unfolding events_change_def by blast
  then show ?thesis
  proof cases
    case 2
    have "permitted (bump st e)" if "permitted e" for e
      using that by (cases "e_stage e") (simp_all add: permitted_def)
    with d p show ?thesis unfolding intake_inv_def 2 by (auto simp: set_update_where map_update_where)
  next
    case 4
    have "permitted (settle_row st status e)" for e using 4(1) by (auto simp: permitted_def TERMINAL_def)
    with d p show ?thesis unfolding intake_inv_def 4(2) by (auto simp: set_update_where map_update_where)
  qed (use d p in \<open>auto simp: intake_inv_def\<close>)
qed

interpretation intake_machine: invariant_machine intake_step intake_inv
  using intake_step_change events_change_inv by unfold_locales blast

text \<open>What an event is about, which no step rewrites.\<close>

definition about :: "event_row \<Rightarrow> string \<times> int \<times> string \<times> string \<times> string \<times> string \<times> json" where
  "about e = (e_rel e, e_gen e, e_hash e, e_outcome e, e_producer e, e_turn e, e_receipt e)"

lemma about_simps [simp]: "about (bump st e) = about e" "about (settle_row st status e) = about e"
  by (simp_all add: about_def bump_def settle_row_def)

definition settled_as :: "string \<Rightarrow> event_row \<Rightarrow> db \<Rightarrow> bool" where
  "settled_as ev e0 db = (intake_inv db
     \<and> (\<exists>e. event_of db ev = Some e \<and> e_stage e = e_stage e0 \<and> about e = about e0))"

lemma events_change_settled:
  assumes "events_change db db'" "settled_as ev e0 db" "e_stage e0 \<noteq> STAGED"
  shows "settled_as ev e0 db'"
proof -
  obtain e where e: "event_of db ev = Some e" "e_stage e = e_stage e0" "about e = about e0"
    and inv: "intake_inv db" using assms(2) by (auto simp: settled_as_def)
  have mem: "e \<in> set (events db)" "e_id e = ev" using lookup_mem(2) [OF e(1)] by auto
  have "\<exists>e'. event_of db' ev = Some e' \<and> e_stage e' = e_stage e0 \<and> about e' = about e0"
    using assms(1) unfolding events_change_def
  proof (elim disjE exE conjE)
    fix ids status st
    assume only: "\<forall>e\<in>set (events db). e_id e \<in> ids \<longrightarrow>
        (\<exists>e'\<in>set (events db). e_id e' = e_id e \<and> e_stage e' = STAGED)"
      and db': "events db' = update_where (\<lambda>e. e_id e \<in> ids) (settle_row st status) (events db)"
    have "e_id e \<notin> ids"
    proof
      assume "e_id e \<in> ids"
      with only mem obtain e' where "e' \<in> set (events db)" "e_id e' = e_id e" "e_stage e' = STAGED"
        by blast
      with inv mem have "e' = e" by (auto simp: intake_inv_def intro: key_unique [of e_id])
      with \<open>e_stage e' = STAGED\<close> e(2) assms(3) show False by simp
    qed
    with e show ?thesis unfolding db' by simp
  qed (use e in auto)
  with events_change_inv [OF assms(1) inv] show ?thesis by (simp add: settled_as_def)
qed

lemma settled_machine:
  "e_stage e0 \<noteq> STAGED \<Longrightarrow> invariant_machine intake_step (settled_as ev e0)"
  using intake_step_change events_change_settled by unfold_locales blast

section \<open>Properties\<close>

text \<open>
  C10: Nothing is handed to a parent as ready for review unless its turn was seen to end normally: in
  every state the intake reaches, a deliverable event that claims a reviewable result, or that its
  author waits for input, was emitted from a completed turn or finalized by the observation that its
  turn completed. A turn that failed or was interrupted never promotes a claim.
\<close>

theorem ready_needs_completed_turn:
  assumes "reachable intake_step db0 db" and "intake_inv db0" and "event_of db ev = Some e"
    and "deliverable db ev" and "e_outcome e \<notin> {''failed'', ''interrupted''}"
  shows "e_turn_status e = ''completed'' \<or> e_finalizing_status e = Some ''completed''"
proof -
  have "intake_inv db" by (rule intake_machine.reachable_inv [OF assms(1,2)])
  with lookup_mem(2) [OF assms(3)] have "permitted e" by (auto simp: intake_inv_def)
  with assms(3-5) show ?thesis by (auto simp: deliverable_def permitted_def)
qed

definition live_claim :: "event_row" where
  "live_claim = (demo_event ''e1'' ''h1'' 1)\<lparr>e_stage := STAGED, e_turn_status := ''inProgress'',
     e_thread := ''child'', e_turn := ''turn-1''\<rparr>"

definition staged_db :: db where
  "staged_db = empty_db\<lparr>events := [live_claim]\<rparr>"

definition intake_clock :: clock where
  "intake_clock = \<lparr>clk_now = 7, clk_iso = ''t7''\<rparr>"

definition ended_turn :: "string \<Rightarrow> TurnRef" where
  "ended_turn status = \<lparr>tr_thread_id = ''child'', tr_turn_id = ''turn-1'', tr_status = status\<rparr>"

lemma staged_db_inv: "intake_inv staged_db"
  by (simp add: intake_inv_def staged_db_def live_claim_def permitted_def demo_event_def)

theorem ready_needs_completed_turn_witness:
  "\<not> deliverable staged_db ''e1''
   \<and> (\<exists>db e. reachable intake_step staged_db db \<and> event_of db ''e1'' = Some e \<and> deliverable db ''e1''
       \<and> (e_turn_status e = ''completed'' \<or> e_finalizing_status e = Some ''completed''))"
proof -
  define db where "db = fst (resolve_staged intake_clock (ended_turn ''completed'') staged_db)"
  have r: "reachable intake_step staged_db db" unfolding db_def by (intro reach_one resolving)
  have no: "\<not> deliverable staged_db ''e1''" and yes: "deliverable db ''e1''"
    and out: "map_option e_outcome (event_of db ''e1'') = Some ''ready_for_review''"
    unfolding db_def by code_simp+
  then obtain e where e: "event_of db ''e1'' = Some e" "e_outcome e \<notin> {''failed'', ''interrupted''}" by auto
  from ready_needs_completed_turn [OF r staged_db_inv e(1) yes e(2)] no yes r e(1)
  show ?thesis by blast
qed

text \<open>
  C16: A settled event never moves again: once final or suppressed it keeps that stage and everything it
  is about through every later step. In particular a claim suppressed with its turn is never
  deliverable afterwards, and submitting the same receipt again, from a turn that did complete, does
  not bring it back.
\<close>

theorem settled_events_never_move:
  assumes "reachable intake_step db db'" and "intake_inv db" and "event_of db ev = Some e"
    and "e_stage e \<noteq> STAGED"
  shows "\<exists>e'. event_of db' ev = Some e' \<and> e_stage e' = e_stage e \<and> about e' = about e
    \<and> (e_stage e = SUPPRESSED \<longrightarrow> \<not> deliverable db' ev)"
proof -
  have "settled_as ev e db" using assms(2,3) by (auto simp: settled_as_def)
  with invariant_machine.reachable_inv [OF settled_machine [OF assms(4)] assms(1)]
  have "settled_as ev e db'" .
  then show ?thesis by (auto simp: settled_as_def deliverable_def)
qed

theorem settled_events_never_move_witness:
  "\<exists>db e'. reachable intake_step staged_db db \<and> event_of db ''e1'' = Some e' \<and> e_stage e' = SUPPRESSED
     \<and> \<not> deliverable db ''e1''"
proof -
  define db1 where "db1 = fst (resolve_staged intake_clock (ended_turn ''failed'') staged_db)"
  define db2 where "db2 = fst (resolve_staged intake_clock (ended_turn ''completed'') db1)"
  have r: "reachable intake_step staged_db db1" "reachable intake_step db1 db2"
    unfolding db1_def db2_def by (intro reach_one resolving)+
  have r2: "reachable intake_step staged_db db2"
    unfolding db2_def by (rule reach_step [OF r(1) resolving])
  have "map_option e_stage (event_of db1 ''e1'') = Some SUPPRESSED" unfolding db1_def by code_simp
  then obtain e where e: "event_of db1 ''e1'' = Some e" "e_stage e = SUPPRESSED" by auto
  have inv: "intake_inv db1" by (rule intake_machine.reachable_inv [OF r(1) staged_db_inv])
  from settled_events_never_move [OF r(2) inv e(1)] e(2) r2 show ?thesis by auto
qed


text \<open>A world where a child reports, from its anchor turn, that it waits for input.\<close>

definition active_db :: db where
  "active_db = empty_db\<lparr>relationships := [demo_relationship\<lparr>r_child_task := ''child'', r_generation := 1\<rparr>],
     generations := [anchored_generation]\<rparr>"

definition no_disk :: disk where
  "no_disk = \<lparr>hash_path = \<lambda>_ _ _. PathMissing, frozen_entries = \<lambda>_. Inr None,
     frozen_blob = \<lambda>_ _. BlobUnreadable\<rparr>"

definition demo_intake :: intake where
  "demo_intake = \<lparr>in_disk = no_disk, in_minimum = BEST_EFFORT_DETECTION, in_adapter = None\<rparr>"

definition demo_receipt :: "string \<Rightarrow> string \<Rightarrow> TurnRef \<Rightarrow> json" where
  "demo_receipt event outcome turn = JObj [(''eventId'', JStr event), (''relationshipId'', JStr ''rel''),
     (''executionGeneration'', JInt 1), (''attempt'', JInt 1), (''revisionHash'', JStr NO_DELIVERABLE),
     (''outcome'', JStr outcome), (''producer'', JStr CHILD), (''turnRef'', to_record turn),
     (''emittedAt'', JStr ''t6'')]"

definition demo_event_id :: string where
  "demo_event_id = take 32 (sha256_hex ''rel|1|blocked_needs_input|turn-1|1'')"

lemma demo_event_id_derived:
  "event_id ''rel'' 1 NO_DELIVERABLE ''blocked_needs_input'' (Some ''turn-1'') (Some 1) = Inr demo_event_id"
proof -
  have "event_payload ''rel'' 1 NO_DELIVERABLE ''blocked_needs_input'' (Some ''turn-1'') (Some 1)
      = Inr ''rel|1|blocked_needs_input|turn-1|1''" by code_simp
  then show ?thesis by (simp add: event_id_def demo_event_id_def)
qed

lemma demo_receipt_shape:
  assumes "EVENT_ID_RE ev" "outcome \<in> set OUTCOMES" "tr_status turn \<in> set TURN_STATUSES"
    "\<not> blank (tr_thread_id turn)" "\<not> blank (tr_turn_id turn)"
  shows "validate_shape (demo_receipt ev outcome turn) = Inr ()"
proof -
  have "DIGEST_RE NO_DELIVERABLE" by code_simp
  moreover have "\<not> blank ''t6''" by code_simp
  ultimately show ?thesis
    using assms
    by (auto simp: validate_shape_def demo_receipt_def RECEIPT_FIELDS_def REQUIRED_FIELDS_def
        nonempty_str_def positive_int_def str_in_def PRODUCERS_def text_of_def turn_ref_ok_def to_record_def)
qed

lemma store_event_fresh:
  assumes "event_of db ev = None" "bindable (jget payload ''attempt'')" "str_field payload ''outcome'' \<noteq> READY"
  shows "\<exists>db' s. store_event clk payload ev mode sd db = Inr (db', s)"
proof -
  have "ev \<notin> e_id ` set (events db)" using assms(1) by (simp add: find_None_key)
  then show ?thesis using assms(2,3) by (simp add: store_event_def assms(1) Let_def insert_row_def)
qed

definition active_record :: relationship_record where
  "active_record = \<lparr>rr_row = hd (relationships active_db), rr_generations = [anchored_generation]\<rparr>"

lemma demo_receipt_fields [simp]:
  "str_field (demo_receipt ev out t) ''relationshipId'' = ''rel''"
  "int_field (demo_receipt ev out t) ''executionGeneration'' = Some 1"
  "str_field (demo_receipt ev out t) ''outcome'' = out" "str_field (demo_receipt ev out t) ''producer'' = CHILD"
  "str_field (demo_receipt ev out t) ''revisionHash'' = NO_DELIVERABLE"
  "int_field (demo_receipt ev out t) ''attempt'' = Some 1"
  "jget (demo_receipt ev out t) ''attempt'' = JInt 1" "jget (demo_receipt ev out t) ''eventId'' = JStr ev"
  "jget (demo_receipt ev out t) ''manifest'' = JNull"
  "jget (demo_receipt ev out t) ''revisionHash'' = JStr NO_DELIVERABLE" "turn_of (demo_receipt ev out t) = t"
  by (simp_all add: demo_receipt_def str_field_def int_field_def turn_of_def to_record_def)

definition like_active :: "db \<Rightarrow> bool" where
  "like_active db = (relationships db = relationships active_db \<and> generations db = generations active_db)"

lemma demo_checks:
  assumes "validate_shape (demo_receipt ev out t) = Inr ()" "claim_from_record continuation = Inr claim"
    "like_active db"
  shows "accept_checks db (demo_receipt ev out t) (Some t) continuation
    = Inr (active_record, anchored_generation, claim)"
proof -
  have "row_to_record db = row_to_record active_db"
    by (rule ext) (use assms(3) in \<open>simp add: like_active_def row_to_record_def generations_of_def\<close>)
  then have "require_active db ''rel'' = require_active active_db ''rel''"
    using assms(3) by (simp add: like_active_def require_active_def get_def split: option.split)
  moreover have "require_active active_db ''rel'' = Inr active_record"
    and "check_generation active_record 1 = Inr anchored_generation" by code_simp+
  ultimately show ?thesis
    by (simp add: accept_checks_def assms producer_ok_def positive_int_def CHILD_def)
qed

lemma demo_accepts:
  assumes "like_active db"
  shows "\<exists>db' s. accept_child_receipt demo_intake intake_clock
     (demo_receipt demo_event_id ''blocked_needs_input'' (ended_turn ''completed''))
     (Some (ended_turn ''completed'')) JNull None db = (db', Inr s) \<and> like_active db'"
proof -
  let ?p = "demo_receipt demo_event_id ''blocked_needs_input'' (ended_turn ''completed'')"
  let ?t = "ended_turn ''completed''"
  have status: "tr_status ?t = ''completed''" "tr_turn_id ?t = ''turn-1''" by (simp_all add: ended_turn_def)
  have "EVENT_ID_RE demo_event_id" using event_id_re [OF demo_event_id_derived] by simp
  then have shape: "validate_shape ?p = Inr ()"
    by (rule demo_receipt_shape) (code_simp+)
  have "claim_from_record JNull = Inr None" by (simp add: claim_from_record_def)
  note checks = demo_checks [OF shape this assms]
  have identity: "check_turn_identity None intake_clock active_record anchored_generation ?t None db
      = (db, Inr (Some ANCHOR))"
    by (simp add: check_turn_identity_def active_record_def active_db_def ended_turn_def admit_def
        anchored_generation_def record_admission_def)
  have ok: "contents no_disk BEST_EFFORT_DETECTION ?p roots = Inr None" for roots
    by (simp add: contents_def Let_def status READY_def CHILD_def DAEMON_def COMPATIBLE_TURN_STATUS_def)
  have derived: "derived_event_id ?p = Inr demo_event_id"
    using demo_event_id_derived by (simp add: derived_event_id_def status)
  have "\<exists>db' s. store_event intake_clock ?p demo_event_id None None db = Inr (db', s)"
  proof (cases "event_of db demo_event_id")
    case None
    then show ?thesis by (rule store_event_fresh) (simp_all add: bindable_def READY_def)
  qed (simp add: store_event_def)
  then obtain db' s where st: "store_event intake_clock ?p demo_event_id None None db = Inr (db', s)" by blast
  then have "like_active db'" using store_event_select [OF st] assms by (simp add: like_active_def)
  with st show ?thesis
    by (auto simp: accept_child_receipt_def accept_def checks demo_intake_def identity
        accept_rest_def ok derived)
qed

lemma active_like: "like_active active_db"
  by (simp add: like_active_def)


lemma accept_refused_select:
  assumes "accept it clk payload observation continuation supersedes db = (db1, Inl e)"
  shows "events db1 = events db \<and> refusals db1 = refusals db \<and> deliveries db1 = deliveries db
    \<and> relationships db1 = relationships db \<and> generations db1 = generations db"
  using assms check_turn_identity_select
  by (fastforce simp: accept_def split: sum.splits prod.splits)

text \<open>
  A refusal is recorded and changes nothing it was about: when the intake answers with a reason, the
  last row of the refusals says so with the identity the payload claimed, and events, deliveries,
  relationships and generations are what they were.
\<close>

theorem refusal_is_recorded:
  assumes "accept_child_receipt it clk payload observation continuation supersedes db
    = (db', Inl (RelayError cls reason))"
  shows "refusals db' = refusals db @ [\<lparr>rf_at = clk_iso clk, rf_rel = jget payload ''relationshipId'',
      rf_event = jget payload ''eventId'', rf_reason = reason\<rparr>]
    \<and> events db' = events db \<and> deliveries db' = deliveries db \<and> relationships db' = relationships db
    \<and> generations db' = generations db"
proof -
  obtain db1 where a: "accept it clk payload observation continuation supersedes db
      = (db1, Inl (RelayError cls reason))"
    "record_refusal clk reason (jget payload ''relationshipId'') (jget payload ''eventId'') db1 = Inr db'"
    using assms
    by (auto simp: accept_child_receipt_def record_refusal_def split: prod.splits sum.splits err.splits if_splits)
  from accept_refused_select [OF a(1)] a(2) show ?thesis
    by (auto simp: record_refusal_def split: if_splits)
qed

theorem refusal_is_recorded_witness:
  "\<exists>db'. accept_child_receipt demo_intake intake_clock (JObj [(''eventId'', JStr ''e'')])
       None JNull None active_db = (db', Inl (RelayError ReceiptRefused MALFORMED_RECEIPT))
     \<and> map rf_reason (refusals db') = [MALFORMED_RECEIPT]"
proof -
  let ?call = "accept_child_receipt demo_intake intake_clock (JObj [(''eventId'', JStr ''e'')]) None JNull None active_db"
  have "snd ?call = Inl (RelayError ReceiptRefused MALFORMED_RECEIPT)" by code_simp
  then obtain db' where a: "?call = (db', Inl (RelayError ReceiptRefused MALFORMED_RECEIPT))"
    by (cases ?call) auto
  have "refusals active_db = []" by (simp add: active_db_def empty_db_def)
  with refusal_is_recorded [OF a] a show ?thesis by simp
qed

text \<open>
  Submitting an accepted receipt again is one fact seen twice: whatever the host and the disk say by
  then, an accepted second submission is answered as a duplicate with the stage the event has, and no
  event is added, dropped, moved or rewritten.
\<close>

theorem resubmission_is_a_duplicate:
  assumes "accept_child_receipt it clk payload observation continuation supersedes db = (db1, Inr s)"
    and "accept_child_receipt it' clk' payload observation' continuation' supersedes' db1 = (db2, Inr s')"
  shows "sv_duplicate s' \<and> sv_stage s' = sv_stage s
    \<and> map (\<lambda>e. (e_id e, e_stage e, about e)) (events db2) = map (\<lambda>e. (e_id e, e_stage e, about e)) (events db1)"
proof -
  have a: "accept it clk payload observation continuation supersedes db = (db1, Inr s)"
    "accept it' clk' payload observation' continuation' supersedes' db1 = (db2, Inr s')"
    using assms by (auto simp: accept_child_receipt_def split: prod.splits sum.splits err.splits)
  obtain db0 ev mode where first: "derived_event_id payload = Inr ev"
    "store_event clk payload ev mode supersedes db0 = Inr (db1, s)"
    using a(1) by (rule accept_cases)
  obtain relationship g claim evidence db3 mode' ev' where second:
    "check_turn_identity (in_adapter it') clk' relationship g (turn_of payload) claim db1 = (db3, Inr evidence)"
    "derived_event_id payload = Inr ev'" "store_event clk' payload ev' mode' supersedes' db3 = Inr (db2, s')"
    using a(2) by (rule accept_cases)
  have evs: "events db3 = events db1" and same: "ev' = ev"
    using check_turn_identity_select [OF second(1)] first(1) second(2) by auto
  obtain e where e: "event_of db1 ev = Some e" "sv_stage s = e_stage e"
    using store_event_found [OF first(2)] by blast
  from second(3) show ?thesis
  proof (cases rule: store_event_cases)
    case (again e')
    have "events db2 = update_where (\<lambda>x. e_id x = ev) (bump (clk_iso clk')) (events db1)"
      using again(4) same evs by (simp add: bump_def [abs_def])
    then have "map (\<lambda>e. (e_id e, e_stage e, about e)) (events db2)
        = map (\<lambda>e. (e_id e, e_stage e, about e)) (events db1)"
      by (simp add: map_update_where)
    with again e same evs show ?thesis by simp
  next
    case fresh
    with e same evs show ?thesis by simp
  qed
qed

theorem resubmission_is_a_duplicate_witness:
  "\<exists>db1 s db2 s'. accept_child_receipt demo_intake intake_clock
       (demo_receipt demo_event_id ''blocked_needs_input'' (ended_turn ''completed''))
       (Some (ended_turn ''completed'')) JNull None active_db = (db1, Inr s)
     \<and> accept_child_receipt demo_intake intake_clock
       (demo_receipt demo_event_id ''blocked_needs_input'' (ended_turn ''completed''))
       (Some (ended_turn ''completed'')) JNull None db1 = (db2, Inr s') \<and> sv_duplicate s'"
proof -
  obtain db1 s where a: "accept_child_receipt demo_intake intake_clock
       (demo_receipt demo_event_id ''blocked_needs_input'' (ended_turn ''completed''))
       (Some (ended_turn ''completed'')) JNull None active_db = (db1, Inr s)" "like_active db1"
    using demo_accepts [OF active_like] by blast
  then obtain db2 s' where b: "accept_child_receipt demo_intake intake_clock
       (demo_receipt demo_event_id ''blocked_needs_input'' (ended_turn ''completed''))
       (Some (ended_turn ''completed'')) JNull None db1 = (db2, Inr s')"
    using demo_accepts by blast
  from resubmission_is_a_duplicate [OF a(1) b] a(1) b show ?thesis by blast
qed

text \<open>
  A refused receipt can still admit its turn: the admission of a continuation is committed before the
  rest of the receipt is looked at, so a receipt refused for contradicting the observed turn leaves
  that turn admitted to the generation, and a later receipt from it needs no claim.
\<close>

theorem refused_receipt_still_admits:
  "\<exists>db'. accept_child_receipt demo_intake intake_clock
       (demo_receipt (replicate 32 (CHR ''a'')) ''blocked_needs_input'' (ended_turn ''failed''\<lparr>tr_turn_id := ''turn-2''\<rparr>))
       (Some (ended_turn ''failed''\<lparr>tr_turn_id := ''turn-2''\<rparr>)) demo_claim None active_db
       = (db', Inl (RelayError ReceiptRefused CONTRADICTORY_OBSERVATION))
     \<and> \<not> stored_admission active_db ''rel'' 1 ''turn-2'' \<and> stored_admission db' ''rel'' 1 ''turn-2''
     \<and> events db' = events active_db"
proof -
  let ?t = "ended_turn ''failed''\<lparr>tr_turn_id := ''turn-2''\<rparr>"
  let ?p = "demo_receipt (replicate 32 (CHR ''a'')) ''blocked_needs_input'' ?t"
  have status: "tr_status ?t = ''failed''" "tr_turn_id ?t = ''turn-2''" "tr_thread_id ?t = ''child''"
    by (simp_all add: ended_turn_def)
  have shape: "validate_shape ?p = Inr ()" by (rule demo_receipt_shape) (code_simp+)
  define c where "c = \<lparr>con_turn_id = JStr [], con_anchor_turn_id = ''turn-1'', con_actor = ''child'',
      con_reason = ''loop''\<rparr>"
  have "claim_from_record demo_claim = Inr (Some c)" unfolding c_def by code_simp
  note checks = demo_checks [OF shape this active_like]
  have none: "\<not> stored_admission active_db ''rel'' 1 ''turn-2''" by code_simp
  define a where "a = admit None active_db active_record anchored_generation ''turn-2'' (Some c)"
  have a: "ad_admitted a" "ad_evidence a = Some EXPLICIT_ADMISSION"
    unfolding a_def c_def by code_simp+
  define db1 where "db1 = record_admission intake_clock ''rel'' 1 ''turn-2'' a active_db"
  have row: "r_id (rr_row active_record) = ''rel''" "r_child_task (rr_row active_record) = ''child''"
    "g_no anchored_generation = 1" by code_simp+
  have identity: "check_turn_identity None intake_clock active_record anchored_generation ?t (Some c) active_db
      = (db1, Inr (Some EXPLICIT_ADMISSION))"
    by (simp add: check_turn_identity_def status row a Let_def db1_def flip: a_def)
  have "contents no_disk BEST_EFFORT_DETECTION ?p roots = Inl (refused CONTRADICTORY_OBSERVATION)" for roots
    by (simp add: contents_def Let_def status READY_def CHILD_def DAEMON_def COMPATIBLE_TURN_STATUS_def)
  then have call: "accept demo_intake intake_clock ?p (Some ?t) demo_claim None active_db
      = (db1, Inl (RelayError ReceiptRefused CONTRADICTORY_OBSERVATION))"
    by (simp add: accept_def checks demo_intake_def identity accept_rest_def refused_def)
  have "bindable (jget ?p ''relationshipId'')" "bindable (jget ?p ''eventId'')"
    by (simp_all add: bindable_def demo_receipt_def)
  then have "\<exists>db'. accept_child_receipt demo_intake intake_clock ?p (Some ?t) demo_claim None active_db
      = (db', Inl (RelayError ReceiptRefused CONTRADICTORY_OBSERVATION))
      \<and> generation_turns db' = generation_turns db1 \<and> events db' = events db1"
    by (simp add: accept_child_receipt_def call record_refusal_def)
  moreover have "stored_admission db1 ''rel'' 1 ''turn-2''"
    unfolding db1_def by (rule record_admission_stored [OF a(2)])
  moreover have "events db1 = events active_db" by (simp add: db1_def)
  ultimately show ?thesis using none by (auto simp: stored_admission_def)
qed

text \<open>
  One malformed receipt crashes the intake instead of being refused: when the identity it claims is a
  JSON array or object, the refusal itself cannot be written, and the caller sees the database
  error, with no refusal recorded.
\<close>

theorem unbindable_identity_escapes:
  assumes "accept it clk payload observation continuation supersedes db = (db', Inl (RelayError cls reason))"
    and "\<not> bindable (jget payload ''relationshipId'') \<or> \<not> bindable (jget payload ''eventId'')"
  shows "accept_child_receipt it clk payload observation continuation supersedes db = (db', Inl BindError)
    \<and> refusals db' = refusals db"
  using assms accept_refused_select [OF assms(1)] by (auto simp: accept_child_receipt_def record_refusal_def)

theorem unbindable_identity_escapes_witness:
  "\<exists>db'. accept_child_receipt demo_intake intake_clock (JObj [(''eventId'', JList [])]) None JNull None active_db
     = (db', Inl BindError) \<and> refusals db' = []"
proof -
  let ?p = "JObj [(''eventId'', JList [])]"
  let ?call = "accept demo_intake intake_clock ?p None JNull None active_db"
  have "snd ?call = Inl (RelayError ReceiptRefused MALFORMED_RECEIPT)" by code_simp
  then obtain db' where a: "?call = (db', Inl (RelayError ReceiptRefused MALFORMED_RECEIPT))"
    by (cases ?call) auto
  have "\<not> bindable (jget ?p ''relationshipId'') \<or> \<not> bindable (jget ?p ''eventId'')"
    by (simp add: bindable_def)
  from unbindable_identity_escapes [OF a this] show ?thesis by (simp add: active_db_def empty_db_def)
qed

end
