(* ===== verification/Relay_Machine.thy ===== *)
theory Relay_Machine
  imports Reconcile Ack_Safety Receipt_Safety
begin

text \<open>
  The relay as one machine: every transaction of the queue, the attempt, the reconciler, the registry,
  the intake and the acknowledgement service as a step on the shared store, in any order and from any
  process. Two facts are proved of it: it keeps the delivery invariant, and what it does to one
  delivery is a run of a small abstract machine, the life of a delivery.
\<close>

section \<open>The life of a delivery\<close>

datatype phase = Absent | Phase delivery_state int

definition phase_of_row :: "delivery_row \<Rightarrow> phase" where
  "phase_of_row d = Phase (d_state d) (d_attempt_count d)"

definition phase_of :: "db \<Rightarrow> string \<Rightarrow> phase" where
  "phase_of db ev = (case delivery_of db ev of None \<Rightarrow> Absent | Some d \<Rightarrow> phase_of_row d)"

inductive move :: "phase \<Rightarrow> phase \<Rightarrow> bool" where
  enqueued: "move Absent (Phase QUEUED 0)"
| postponed: "s \<in> set CLAIMABLE \<Longrightarrow> s' \<in> set CLAIMABLE \<Longrightarrow> move (Phase s n) (Phase s' n)"
| withdrawn: "s \<in> set CLAIMABLE \<Longrightarrow> move (Phase s n) (Phase SUPERSEDED n)"
| claimed: "s \<in> set CLAIMABLE \<Longrightarrow> move (Phase s n) (Phase SENDING (n + 1))"
| settled: "s' \<in> {DISPATCHED, DEFERRED_BUSY, WITHHELD_PRE_SEND, INBOX_ONLY, HELD_UNCERTAIN}
    \<Longrightarrow> move (Phase SENDING n) (Phase s' n)"
| resolved: "s \<in> {SENDING, HELD_UNCERTAIN, INBOX_ONLY} \<Longrightarrow>
    s' \<in> {DISPATCHED, DEFERRED_BUSY, WITHHELD_PRE_SEND, HELD_UNCERTAIN}
    \<Longrightarrow> move (Phase s n) (Phase s' n)"
| acknowledged: "s \<in> {DISPATCHED, INBOX_ONLY, ACKNOWLEDGED} \<Longrightarrow> move (Phase s n) (Phase ACKNOWLEDGED n)"

inductive_cases move_PhaseE: "move (Phase s n) q"

definition lives :: "db \<Rightarrow> db \<Rightarrow> bool" where
  "lives db db' = (\<forall>ev. move\<^sup>*\<^sup>* (phase_of db ev) (phase_of db' ev))"

lemma lives_same: "deliveries db' = deliveries db \<Longrightarrow> lives db db'"
  by (simp add: lives_def phase_of_def)

lemma lives_trans: "lives a b \<Longrightarrow> lives b c \<Longrightarrow> lives a c"
  unfolding lives_def by (meson rtranclp_trans)

lemma lives_update:
  assumes "deliveries db' = update_where P f (deliveries db)"
    and "\<And>d. d_event (f d) = d_event d"
    and "\<And>ev d. delivery_of db ev = Some d \<Longrightarrow> P d \<Longrightarrow> move\<^sup>*\<^sup>* (phase_of_row d) (phase_of_row (f d))"
  shows "lives db db'"
proof -
  have "delivery_of db' ev = map_option (\<lambda>d. if P d then f d else d) (delivery_of db ev)" for ev
    unfolding assms(1) find_delivery_def by (rule find_update_where_hit) (simp add: assms(2))
  then show ?thesis using assms(3) by (auto simp: lives_def phase_of_def split: option.split)
qed

lemma lives_insert:
  assumes "deliveries db' = insert_or_ignore d_event (queued_row clk ev rid kind recipient) (deliveries db)"
  shows "lives db db'"
proof -
  have "move\<^sup>*\<^sup>* (phase_of db e) (phase_of db' e)" for e
  proof (cases "e = ev \<and> delivery_of db ev = None")
    case True
    then have "phase_of db e = Absent" "phase_of db' e = Phase QUEUED 0"
      using find_inserted_delivery [OF assms, of ev "\<lambda>d. phase_of_row d = Phase QUEUED 0"]
      by (auto simp: phase_of_def phase_of_row_def queued_row_def)
    then show ?thesis using enqueued by simp
  next
    case False
    have "delivery_of db' e = delivery_of db e"
    proof (cases "ev \<in> set (map d_event (deliveries db))")
      case True
      then show ?thesis by (simp add: assms insert_or_ignore_def queued_row_def)
    next
      case new: False
      then have "e \<noteq> ev" using False find_None_key(3) [of "deliveries db" ev] by auto
      then show ?thesis
        using new by (cases "delivery_of db e") (simp_all add: assms insert_or_ignore_def queued_row_def split: option.split)
    qed
    then show ?thesis by (simp add: phase_of_def)
  qed
  then show ?thesis by (simp add: lives_def)
qed

section \<open>The life under each operation\<close>

lemma withdraw_lives: "lives db (withdraw clk ev reason db)"
  by (rule lives_update [OF withdraw_deliveries])
     (auto simp: withdrawable_def phase_of_row_def intro: move.withdrawn)

lemma suppress_lives: "suppress_if_superseded clk ev db = Inr (db', r) \<Longrightarrow> lives db db'"
  by (erule suppress_cases) (simp_all add: withdraw_lives lives_same)

lemma unmoved_lives:
  assumes "deliveries db' = update_where (unmoved ev tries) f (deliveries db)"
    and "\<And>d. d_event (f d) = d_event d" "\<And>d. d_attempt_count (f d) = d_attempt_count d"
    and "\<And>d. d_state (f d) \<in> set CLAIMABLE"
  shows "lives db db'"
  by (rule lives_update [OF assms(1,2)])
     (use assms(3,4) in \<open>auto simp: unmoved_def phase_of_row_def intro!: r_into_rtranclp postponed\<close>)

lemma postpone_lives: "state \<in> set CLAIMABLE \<Longrightarrow> lives db (postpone clk ev state when tries db)"
  by (rule unmoved_lives [of _ ev tries
        "\<lambda>d. d\<lparr>d_state := state, d_next_eligible_at := Some when, d_updated_at := clk_iso clk\<rparr>"])
     (simp_all add: postpone_def)

lemma withhold_lives: "lives db (withhold p clk ev obs now tries db)"
  by (rule unmoved_lives [of _ ev tries "\<lambda>d. d\<lparr>d_state := WITHHELD_PRE_SEND,
        d_next_eligible_at := Some (now + lifecycle_recheck_seconds p), d_updated_at := clk_iso clk\<rparr>"])
     (simp_all add: withhold_def postpone_def Let_def CLAIMABLE_states)

lemma withhold_settings_lives: "lives db (withhold_settings p clk ev now reason row db)"
  by (rule unmoved_lives [of _ ev "d_attempt_count row" "\<lambda>d. d\<lparr>d_state := WITHHELD_PRE_SEND,
        d_next_eligible_at := Some (now + lifecycle_recheck_seconds p), d_updated_at := clk_iso clk\<rparr>"])
     (simp_all add: withhold_settings_def postpone_def Let_def CLAIMABLE_states)

lemma defer_busy_lives: "lives db (defer_busy p clk ev row now db)"
  by (rule unmoved_lives [of _ ev "d_attempt_count row" "\<lambda>d. d\<lparr>d_state := DEFERRED_BUSY,
        d_next_eligible_at := Some (now + delay_for p (d_attempt_count row + 1) ''busy''),
        d_hold_reason := (if busy_max_attempts p \<le> d_attempt_count row
           then Some (cap_reason ''busy'') else None), d_updated_at := clk_iso clk\<rparr>"])
     (simp_all add: defer_busy_def Let_def CLAIMABLE_states)

lemma enqueue_in_lives: "enqueue_in clk ev rid kind recipient db = Inr db' \<Longrightarrow> lives db db'"
  using enqueue_in_frame lives_insert by blast

lemma clear_intent_deliveries [simp]:
  "deliveries (clear_intent ev db) = deliveries db" "attempts (clear_intent ev db) = attempts db"
  "attempt_messages (clear_intent ev db) = attempt_messages db"
  by (simp_all add: clear_intent_def)

lemma enqueue_lives: "lives db (fst (enqueue clk ev kind recipient db))"
proof -
  have "lives db (fst (after_commit db r (bindE (enqueue_in clk ev rid kind task db)
      (\<lambda>db'. Inr (clear_intent ev db')))))" for r :: "db \<Rightarrow> err + delivery_row" and rid task
    using enqueue_in_lives [of clk ev rid kind task db]
    by (cases "enqueue_in clk ev rid kind task db")
       (auto simp: after_commit_def lives_same intro: lives_trans)
  then show ?thesis
    unfolding enqueue_def Let_def by (simp add: lives_same split: option.splits sum.splits)
qed

lemma claim_lives:
  assumes inv: "delivery_inv db" shows "lives db (fst (claim cf clk ev now owner recipient db))"
proof (cases "suppress_if_superseded clk ev db")
  case (Inl e)
  then show ?thesis by (simp add: claim_def lives_same)
next
  case (Inr r)
  obtain db1 o1 where r: "r = (db1, o1)" by (cases r)
  have inv1: "delivery_inv db1" and l1: "lives db db1"
    using suppress_inv [OF inv] suppress_lives Inr r by auto
  have "lives db1 db2"
    if "claim_in cf clk ev now owner recipient db1 = Inr (db2, n, request, message)" for db2 n request message
  proof (rule claim_in_success [OF that inv_distinct [OF inv1]])
    assume "deliveries db2 = update_where (claim_guard db1 now ev) (claimed_row cf clk now owner) (deliveries db1)"
    then show ?thesis
      by (rule lives_update) (auto simp: phase_of_row_def claim_guard_def intro: move.claimed)
  qed
  with l1 Inr r show ?thesis
    by (auto simp: claim_def intro: lives_trans split: option.splits sum.splits)
qed

lemma quiet_lives:
  assumes "quiet cf clk now owner ev db db'" "delivery_inv db" shows "lives db db'"
  using assms(1)
proof cases
  case quiet_rate
  then show ?thesis by (simp add: reschedule_def postpone_lives)
next
  case (quiet_busy row obs)
  show ?thesis unfolding quiet_busy by (rule lives_trans [OF lives_same defer_busy_lives]) simp
next
  case (quiet_withheld obs tries)
  show ?thesis unfolding quiet_withheld by (rule lives_trans [OF lives_same withhold_lives]) simp
next
  case (quiet_settings reason row obs)
  show ?thesis unfolding quiet_settings by (rule lives_trans [OF lives_same withhold_settings_lives]) simp
next
  case (quiet_claim recipient obs stop)
  have "delivery_inv (record_lifecycle clk obs db)"
    using assms(2) delivery_inv_frame [of "record_lifecycle clk obs db" db] by simp
  from claim_lives [OF this, of cf clk ev now owner recipient] quiet_claim
  have "lives (record_lifecycle clk obs db) db'" by simp
  with lives_same [of "record_lifecycle clk obs db" db] show ?thesis by (auto intro: lives_trans)
next
  case (quiet_late recipient obs db1 stop r)
  have "delivery_inv (record_lifecycle clk obs db)"
    using assms(2) delivery_inv_frame [of "record_lifecycle clk obs db" db] by simp
  from claim_lives [OF this, of cf clk ev now owner recipient] quiet_late(1)
  have "lives (record_lifecycle clk obs db) db1" by simp
  with lives_same [of "record_lifecycle clk obs db" db] have "lives db db1" by (auto intro: lives_trans)
  from this suppress_lives [OF quiet_late(2)] show ?thesis by (rule lives_trans)
qed (simp_all add: lives_same)

text \<open>A settlement of the current attempt while the delivery is still in flight.\<close>

lemma settle_lives:
  assumes "settle p clk ev request record facts prev now db = Inr db'"
    and "classify_operation_receipt receipt = Inr facts"
    and "delivery_of db ev = Some d" "d_state d = SENDING"
  shows "lives db db'"
proof (rule lives_update [OF settle_frame(3) [OF assms(1)]])
  fix e x
  assume x: "delivery_of db e = Some x" "d_event x = ev"
  then have "x = d" using assms(3) lookup_mem(3) [OF x(1)] by simp
  with x assms(4) classify_state [OF assms(2)]
  show "move\<^sup>*\<^sup>* (phase_of_row x) (phase_of_row (x\<lparr>d_state := delivery_state facts,
      d_next_eligible_at := settle_when p record (delivery_state facts) now,
      d_hold_reason := settle_hold p record (delivery_state facts),
      d_dispatch_evidence := (if delivery_state facts = DISPATCHED then Some ''transport_accepted'' else None),
      d_dispatch_turn := turn_id facts, d_lease_owner := None, d_lease_until := None,
      d_updated_at := clk_iso clk\<rparr>))"
    by (auto simp: phase_of_row_def intro!: r_into_rtranclp move.settled)
qed simp

lemma attempt_lives:
  assumes "delivery_inv db" shows "lives db (fst (attempt cf adapter clk now owner ev db))"
proof -
  obtain db' sent res where a: "attempt cf adapter clk now owner ev db = (db', sent, res)"
    by (cases "attempt cf adapter clk now owner ev db")
  then show ?thesis
  proof (cases rule: attempt_cases)
    case quiet
    then show ?thesis using quiet_lives assms a by simp
  next
    case (sent row rel settings known db2 claimed obs)
    let ?db1 = "record_lifecycle clk obs db"
    have inv1: "delivery_inv ?db1" using assms delivery_inv_frame [of ?db1 db] by simp
    have inv2: "delivery_inv db2"
      using claim_inv [OF inv1, of cf clk ev now owner "d_recipient_task row"] sent(6) by simp
    have l2: "lives db db2"
      using claim_lives [OF inv1, of cf clk ev now owner "d_recipient_task row"] sent(6) lives_same [of ?db1 db]
      by (auto intro: lives_trans)
    obtain n request message where c: "claimed = (n, request, message)" by (cases claimed)
    obtain d where d: "d \<in> set (deliveries db2)" "d_event d = ev" "d_state d = SENDING"
      by (rule claim_result [OF inv1 sent(6) [unfolded c]])
    then have row: "delivery_of db2 ev = Some d"
      using find_key [OF inv_distinct [OF inv2] d(1)] by (simp add: find_delivery_def)
    have ev: "d_event row = ev" using attempt_checks_row [OF sent(1)] by simp
    have "lives db2 (fst (send_and_settle cf adapter clk now row rel obs settings known (n, request, message) db2))"
    proof (rule send_and_settle_preserves [of "lives db2"])
      show "lives db2 db4"
        if "classify_operation_receipt receipt = Inr facts"
          "settle (cf_policy cf) clk (d_event row) request rcd facts prev now db3 = Inr db4"
          "deliveries db3 = deliveries db2" "lives db2 db3" for receipt facts rcd prev db3 db4
        by (rule lives_trans [OF that(4) settle_lives [OF that(2,1) _ d(3)]]) (use row that(3) ev in simp)
    qed (simp_all add: lives_same lives_def phase_of_def)
    with l2 sent(7) a c show ?thesis by (metis fst_conv lives_trans)
  qed
qed

lemma reconcile_lives:
  assumes inv: "delivery_inv db" and rec: "reconcile_attempt p adapter clk now request db = Inr (db', rc)"
    and open1: "attempt_of db request = Some a" "unresolved db a"
  shows "lives db db'"
proof (rule reconcile_wrote [OF rec])
  fix a' d w anchor
  assume a': "attempt_of db request = Some a'" and d: "delivery_of db (a_event a') = Some d"
    and w: "write_outcome clk a' d w db = Inr (db', anchor)" "wrote adapter clk now p a' d w"
  have aa: "a' = a" using a' open1(1) by simp
  note cur = unresolved_current [OF inv open1(1) d [unfolded aa] open1(2)]
  show ?thesis
  proof (rule lives_update [OF write_outcome_rows(2) [OF w(1)]])
    fix ev x
    assume x: "delivery_of db ev = Some x" "is_current a' d \<and> promotable a' x"
    then have "x = d" using d lookup_mem(3) [OF x(1)] by (simp add: promotable_def)
    with x cur wrote_aggregate [OF w(2)] show "move\<^sup>*\<^sup>* (phase_of_row x) (phase_of_row (promoted_row clk d w x))"
      by (cases "d_state d")
         (auto simp: phase_of_row_def promotable_def CLAIMABLE_def intro!: r_into_rtranclp move.resolved)
  qed simp
qed

lemma mark_acknowledged_lives:
  assumes "deliveries db' = deliveries (mark_acknowledged stamp ev db)"
    and "delivery_of db ev = Some d" "d_state d \<in> {DISPATCHED, INBOX_ONLY, ACKNOWLEDGED}"
  shows "lives db db'"
proof (rule lives_update [of _ "\<lambda>d. d_event d = ev" "\<lambda>d. d\<lparr>d_state := ACKNOWLEDGED, d_updated_at := stamp\<rparr>"])
  fix e x
  assume x: "delivery_of db e = Some x" "d_event x = ev"
  then have "x = d" using assms(2) lookup_mem(3) [OF x(1)] by simp
  with assms(3) show "move\<^sup>*\<^sup>* (phase_of_row x) (phase_of_row (x\<lparr>d_state := ACKNOWLEDGED, d_updated_at := stamp\<rparr>))"
    by (auto simp: phase_of_row_def intro!: r_into_rtranclp move.acknowledged)
qed (simp_all add: assms(1) mark_acknowledged_def)

lemma rule_fresh_lives:
  assumes "rule_fresh clk ev verdict verdict_turn findings reason expected superseded db = Inr (db', r)"
  shows "lives db db'"
  using assms
proof (rule rule_fresh_cases)
  fix ru db1 correction
  assume c: "if verdict = ''needs_changes'' then
       \<exists>c. correction = Some c \<and> open_correction clk (rr_row (ru_relationship ru)) (ru_event ru)
          verdict_turn findings db = Inr (db1, c)
     else correction = None \<and> db1 = db"
    and w: "write_verdict clk ev verdict verdict_turn findings reason ru superseded correction db1 = (db', r)"
  have "lives db db1"
  proof (cases "verdict = ''needs_changes''")
    case True
    with c obtain revision nxt where "open_correction clk (rr_row (ru_relationship ru)) (ru_event ru)
        verdict_turn findings db = Inr (db1, revision, nxt)" by auto
    from open_correction_frame [OF this] show ?thesis by (intro lives_insert) blast
  qed (use c in \<open>simp add: lives_same\<close>)
  moreover have "lives db1 db'" using write_verdict_frame [OF w] by (intro lives_same) simp
  ultimately show ?thesis by (rule lives_trans)
qed

lemma ack_step_lives: "ack_step db db' \<Longrightarrow> lives db db'"
proof (induction rule: ack_step.induct)
  case (claiming clk ev turn db db' out)
  then show ?case using claim_verification_frame by (intro lives_same) blast
next
  case (acknowledging clk event verification ev ack_turn proof_text accepted rejection db db' r)
  have "db' = db \<or> acknowledge_fresh clk event verification ev ack_turn proof_text accepted rejection db = Inr (db', r)"
    using acknowledging(1) by (auto simp: acknowledge_in_def split: option.splits if_splits)
  then show ?case
  proof
    assume "acknowledge_fresh clk event verification ev ack_turn proof_text accepted rejection db = Inr (db', r)"
    then show ?thesis
      by (rule acknowledge_fresh_cases) (auto intro: mark_acknowledged_lives lives_same split: if_splits)
  qed (simp add: lives_same)
next
  case (ruling clk ev verdict verdict_turn criteria fs reason expected db db' v)
  from ruling(1) show ?case
    by (cases rule: record_verdict_cases) (auto intro: rule_fresh_lives lives_same)
next
  case (settling clk q verification now db db' outcome)
  from settling(1) show ?case
  proof (cases rule: settle_pending_cases)
    case (promoted k)
    then obtain d where "delivery_of db (pe_event q) = Some d" "d_state d \<in> {DISPATCHED, INBOX_ONLY, ACKNOWLEDGED}"
      by (auto simp: ack_blocker_def split: option.splits if_splits)
    with promoted(7) show ?thesis by (rule mark_acknowledged_lives)
  qed (simp_all add: lives_same)
next
  case (binding db clk limit)
  have "deliveries (fst (bind_each clk evs db)) = deliveries db" for evs
  proof (induction evs arbitrary: db)
    case (Cons ev evs)
    from bind_dispatched_delivery [of clk ev db] show ?case
      by (auto simp: Cons.IH split: prod.splits sum.splits err.splits) (metis Cons.IH fst_conv)+
  qed simp
  then show ?case by (simp add: bind_pending_anchors_def lives_same)
qed

section \<open>Operations that leave the queue alone\<close>

definition aside :: "db \<Rightarrow> db \<Rightarrow> bool" where
  "aside db db' = (deliveries db' = deliveries db \<and> attempts db' = attempts db
     \<and> attempt_messages db' = attempt_messages db)"

lemma aside_inv: "aside db db' \<Longrightarrow> delivery_inv db \<Longrightarrow> delivery_inv db'"
  unfolding aside_def using delivery_inv_frame [of db' db] by blast

lemma aside_lives: "aside db db' \<Longrightarrow> lives db db'"
  by (simp add: aside_def lives_same)

lemma aside_refl [simp]: "aside db db"
  by (simp add: aside_def)

lemma aside_trans: "aside a b \<Longrightarrow> aside b c \<Longrightarrow> aside a c"
  by (simp add: aside_def)

lemma write_status_aside [simp]: "aside db (write_status clk rid st actor db)"
  by (simp add: aside_def write_status_def)

lemma bind_row_aside [simp]: "aside db (bind_row rid n turn now db)"
  by (simp add: aside_def)

lemma open_generation_in_aside: "open_generation_in clk rid dr reason dt db = Inr (db', n) \<Longrightarrow> aside db db'"
  using open_generation_in_frame by (simp add: aside_def)

lemma register_in_aside: "register_in clk rid p c k ro re dr sc dt sp db = Inr db' \<Longrightarrow> aside db db'"
  by (auto simp: register_in_def Let_def aside_def split: if_splits)

lemma registry_step_aside: "registry_step db db' \<Longrightarrow> aside db db'"
proof (induction rule: registry_step.induct)
  case (step_register db clk p c k roots recs dr sc dt sp)
  show ?case
    using register_in_aside by (auto simp: register_def after_commit_def split: sum.splits option.splits)
next
  case (step_open db clk rid dr reason dt)
  show ?case using open_generation_in_aside
    by (auto simp: open_generation_def split: sum.splits option.splits prod.splits)
next
  case (step_open_in clk rid dr reason dt db db' n)
  then show ?case by (rule open_generation_in_aside)
next
  case (step_bind db clk rid n dt src)
  show ?case by (auto simp: bind_anchor_def Let_def split: sum.splits option.splits)
next
  case (step_bind_in clk rid n dt src db db' out)
  then show ?case using bind_anchor_in_frame by (simp add: aside_def)
next
  case (step_status db clk rid st actor)
  show ?case by (auto simp: set_status_def Let_def split: sum.splits)
next
  case (step_resume db clk rid n ro re actor)
  show ?case by (auto simp: resume_def resume_in_def after_commit_def split: sum.splits option.splits if_splits)
next
  case (step_supersede db clk rid new)
  show ?case by (auto simp: supersede_def aside_def split: sum.splits)
qed

lemma record_lineage_aside: "record_lineage clk rid n ev h sd db = Inr db' \<Longrightarrow> aside db db'"
  by (auto simp: record_lineage_def Let_def aside_def split: if_splits)

lemma store_event_aside: "store_event clk payload ev mode sd db = Inr (db', s) \<Longrightarrow> aside db db'"
  by (auto simp: store_event_def reobserve_def Let_def aside_def dest!: record_lineage_aside
      split: option.splits if_splits)

lemma check_turn_aside: "check_turn_identity adapter clk rel g turn cont db = (db1, res) \<Longrightarrow> aside db db1"
  by (auto simp: check_turn_identity_def Let_def aside_def record_admission_def write_admission_def
      split: if_splits)

lemma accept_rest_aside: "accept_rest dk m clk payload roots supersedes db = Inr (db', s) \<Longrightarrow> aside db db'"
  using store_event_aside by (auto simp: accept_rest_def split: if_splits)

lemma accept_aside: "aside db (fst (accept it clk payload observation continuation supersedes db))"
proof (cases "accept_checks db payload observation continuation")
  case (Inl e)
  then show ?thesis by (simp add: accept_def)
next
  case (Inr ck)
  obtain rel g cont where ck: "ck = (rel, g, cont)" by (cases ck)
  obtain db1 res where t: "check_turn_identity (in_adapter it) clk rel g (turn_of payload) cont db = (db1, res)"
    by fastforce
  note d = accept_def Inr ck t sum.case prod.case
  show ?thesis
  proof (cases res)
    case (Inl e)
    then show ?thesis unfolding d using check_turn_aside [OF t] by simp
  next
    case ev: (Inr evidence)
    show ?thesis
      unfolding d ev
      by (cases "accept_rest (in_disk it) (in_minimum it) clk payload (r_artifact_roots (rr_row rel)) supersedes db1")
         (auto intro: check_turn_aside [OF t] aside_trans [OF check_turn_aside [OF t] accept_rest_aside])
  qed
qed

lemma daemon_aside: "aside db (fst (daemon_observation adapter clk rid turn db))"
proof (cases "daemon_observation adapter clk rid turn db")
  case (Pair db' res)
  show ?thesis
  proof (cases res)
    case (Inr s)
    with Pair obtain rel g db1 evidence ev where
      "check_turn_identity adapter clk rel g turn None db = (db1, Inr evidence)"
      "store_event clk (daemon_payload clk rid (r_generation (rr_row rel)) turn ev) ev None None db1 = Inr (db', s)"
      by (fastforce simp: daemon_observation_def split: if_splits sum.splits prod.splits)
    with Pair show ?thesis by (auto intro: aside_trans [OF check_turn_aside store_event_aside])
  next
    case (Inl e)
    have "aside db db'"
      using Pair Inl check_turn_aside
      by (fastforce simp: daemon_observation_def split: if_splits sum.splits prod.splits)
    with Pair show ?thesis by simp
  qed
qed

lemma accept_child_aside: "aside db (fst (accept_child_receipt it clk payload observation continuation supersedes db))"
proof -
  obtain db1 res where a: "accept it clk payload observation continuation supersedes db = (db1, res)"
    by fastforce
  have "aside db db1" using accept_aside [of db it clk payload observation continuation supersedes] a by simp
  moreover have "aside db1 db2" if "record_refusal clk reason rid ev db1 = Inr db2" for reason rid ev db2
    using that by (auto simp: record_refusal_def aside_def split: if_splits)
  ultimately show ?thesis
    by (auto simp: accept_child_receipt_def a intro: aside_trans split: sum.split err.split)
qed

lemma intake_step_aside: "intake_step db db' \<Longrightarrow> aside db db'"
proof (induction rule: intake_step.induct)
  case (accepting db it clk payload observation continuation supersedes)
  show ?case by (rule accept_child_aside)
next
  case (observing db adapter clk rid turn)
  show ?case by (rule daemon_aside)
next
  case (resolving db clk turn)
  show ?case by (simp add: resolve_staged_def resolve_staged_in_def Let_def aside_def)
next
  case (resolving_one db clk turn rid)
  show ?case by (simp add: resolve_staged_in_def Let_def aside_def)
next
  case (recording db clk turn classification rid event)
  show ?case by (simp add: record_observation_in_def Let_def aside_def split: option.split)
next
  case (admitting clk rid number at_turn actor db db')
  then show ?case
    by (auto simp: admit_explicitly_def write_admission_def aside_def split: option.splits if_splits)
qed

lemma recording_aside:
  "record_settings clk task data source db = Inr db' \<Longrightarrow> aside db db'"
  "register_criteria clk rid entries ref db = Inr (db'', cs) \<Longrightarrow> aside db db''"
  "set_mode clk rid mode db = Inr db1 \<Longrightarrow> aside db db1"
  "aside db (record_intent_in p clk ev rid kind recipient now db)"
  "aside db (record_failure clk ev op rid' parent code safe nxt db)"
  "aside db (record_lifecycle clk obs db)"
  by (auto simp: record_settings_def register_criteria_def set_mode_def write_mode_def record_intent_in_def
      Let_def aside_def split: if_splits)

section \<open>The steps of the relay\<close>

text \<open>
  \<open>attempting\<close> is an attempt run to its end; \<open>claiming\<close> is one whose process has claimed and not yet
  heard from the host, and \<open>reporting\<close> is its settlement when nothing else has settled the delivery in
  between: the write itself has no such guard, which \<open>late_settle_reopens\<close> is about.
\<close>

inductive relay_step :: "db \<Rightarrow> db \<Rightarrow> bool" where
  queueing: "relay_step db (fst (enqueue clk ev kind recipient db))"
| queueing_in: "enqueue_in clk ev rid kind recipient db = Inr db' \<Longrightarrow> relay_step db db'"
| intending: "relay_step db (record_intent_in p clk ev rid kind recipient now db)"
| suppressing: "suppress_if_superseded clk ev db = Inr (db', reason) \<Longrightarrow> relay_step db db'"
| withdrawing: "relay_step db (mark_superseded clk ev why db)"
| attempting: "relay_step db (fst (attempt cf adapter clk now owner ev db))"
| claiming_one: "relay_step db (fst (claim cf clk ev now owner recipient db))"
| reporting: "attempt_of db request = Some a \<Longrightarrow> delivery_of db (a_event a) = Some d \<Longrightarrow>
    a_no a = d_attempt_count d \<Longrightarrow> d_state d = SENDING \<Longrightarrow>
    classify_operation_receipt receipt = Inr facts \<Longrightarrow>
    attempt_record facts request (a_event a) n task status stamp None = Inr rcd \<Longrightarrow>
    settle p clk (a_event a) request rcd facts prev now db = Inr db' \<Longrightarrow> relay_step db db'"
| failing: "relay_step db (record_failure clk ev op rid parent code safe nxt db)"
| observing_recipient: "relay_step db (record_lifecycle clk obs db)"
| reconciling: "attempt_of db request = Some a \<Longrightarrow> unresolved db a \<Longrightarrow>
    reconcile_attempt p adapter clk now request db = Inr (db', rc) \<Longrightarrow> relay_step db db'"
| registering: "registry_step db db' \<Longrightarrow> relay_step db db'"
| receiving: "intake_step db db' \<Longrightarrow> relay_step db db'"
| serving: "ack_step db db' \<Longrightarrow> relay_step db db'"
| authorizing: "record_settings clk task data source db = Inr db' \<Longrightarrow> relay_step db db'"
| enrolling: "register_criteria clk rid entries ref db = Inr (db', cs) \<Longrightarrow> relay_step db db'"
| choosing: "set_mode clk rid mode db = Inr db' \<Longrightarrow> relay_step db db'"

lemma relay_step_kept:
  assumes "relay_step db db'" "delivery_inv db"
  shows "delivery_inv db' \<and> lives db db'"
  using assms
proof (induction rule: relay_step.induct)
  case (queueing db clk ev kind recipient)
  then show ?case using enqueue_inv enqueue_lives by blast
next
  case (queueing_in clk ev rid kind recipient db db')
  then show ?case using enqueue_in_inv enqueue_in_lives by blast
next
  case (suppressing clk ev db db' reason)
  then show ?case using suppress_inv suppress_lives by blast
next
  case (withdrawing db clk ev why)
  then show ?case unfolding mark_superseded_def using withdraw_inv withdraw_lives by blast
next
  case (attempting db cf adapter clk now owner ev)
  then show ?case using attempt_inv attempt_lives by blast
next
  case (claiming_one db cf clk ev now owner recipient)
  then show ?case using claim_inv claim_lives by blast
next
  case (reporting db request a d receipt facts n task status stamp rcd p clk prev now db')
  have a: "a \<in> set (attempts db)" "a_request a = request" using lookup_mem(4) [OF reporting(1)] by simp_all
  have d: "d \<in> set (deliveries db)" "d_event d = a_event a" using lookup_mem(3) [OF reporting(2)] by simp_all
  show ?case
    using settle_inv [OF reporting(8) a refl d reporting(3,5,6,7)]
      settle_lives [OF reporting(7,5,2,4)] by blast
next
  case (reconciling db request a p adapter clk now db' rc)
  then show ?case using reconcile_inv reconcile_lives by blast
next
  case (serving db db')
  then show ?case using ack_step_delivery_inv ack_step_lives by blast
qed (use recording_aside registry_step_aside intake_step_aside aside_inv aside_lives in metis)+

interpretation relay_machine: invariant_machine relay_step delivery_inv
  using relay_step_kept by unfold_locales blast

lemma empty_delivery_inv: "delivery_inv empty_db"
  by (rule delivery_inv_empty) (simp_all add: empty_db_def)

interpretation life_machine: invariant_machine relay_step "\<lambda>db. delivery_inv db \<and> lives db0 db"
  using relay_step_kept lives_trans by unfold_locales blast

lemma reachable_trans: "reachable step a b \<Longrightarrow> reachable step b c \<Longrightarrow> reachable step a c"
  by (rotate_tac, induction rule: reachable.induct) (auto intro: reach_step)

section \<open>What the life of a delivery allows\<close>

lemma moves_dispatched:
  assumes "move\<^sup>*\<^sup>* q q'" "q = Phase s n" "s \<in> {DISPATCHED, ACKNOWLEDGED}"
  shows "\<exists>s'\<in>{DISPATCHED, ACKNOWLEDGED}. q' = Phase s' n"
  using assms
proof (induction rule: rtranclp_induct)
  case (step y z)
  then obtain s' where "y = Phase s' n" "s' \<in> {DISPATCHED, ACKNOWLEDGED}" by blast
  with step(2) show ?case by (auto simp: CLAIMABLE_def elim!: move_PhaseE)
qed simp

lemma moves_superseded: "move\<^sup>*\<^sup>* q q' \<Longrightarrow> q = Phase SUPERSEDED n \<Longrightarrow> q' = Phase SUPERSEDED n"
  by (induction rule: rtranclp_induct) (auto simp: CLAIMABLE_def elim!: move_PhaseE)

lemma moves_count: "move\<^sup>*\<^sup>* q q' \<Longrightarrow> q = Phase s n \<Longrightarrow> \<exists>s' n'. q' = Phase s' n' \<and> n \<le> n'"
  by (induction arbitrary: rule: rtranclp_induct) (force elim!: move_PhaseE)+

section \<open>Recovery as a run of the machine\<close>

text \<open>Reconciling one unresolved attempt leaves every other one unresolved.\<close>

lemma reconcile_keeps_unresolved:
  assumes inv: "delivery_inv db" and rec: "reconcile_attempt p adapter clk now request db = Inr (db', rc)"
    and a: "attempt_of db request = Some a" "unresolved db a"
    and b: "b \<in> set (attempts db)" "unresolved db b" "b \<noteq> a"
  shows "attempt_of db' (a_request b) = Some b \<and> unresolved db' b"
proof (rule reconcile_wrote [OF rec])
  fix a' d w anchor
  assume a': "attempt_of db request = Some a'" and d: "delivery_of db (a_event a') = Some d"
    and w: "write_outcome clk a' d w db = Inr (db', anchor)"
  have aa: "a' = a" using a' a(1) by simp
  note rows = write_outcome_rows [OF w]
  have rq: "distinct (map a_request (attempts db))" using inv by (simp add: delivery_inv_def keys_ok_def)
  have am: "a \<in> set (attempts db)" using lookup_mem(4) [OF a(1)] by simp
  have fb: "attempt_of db (a_request b) = Some b" using find_key [OF rq b(1)] by (simp add: find_attempt_def)
  have ne: "a_request b \<noteq> a_request a" using key_unique [OF rq b(1) am] b(3) by blast
  obtain e where e: "delivery_of db (a_event b) = Some e"
    using b(2) by (auto simp: unresolved_def split: option.splits)
  have other: "a_event b \<noteq> a_event a"
  proof
    assume same: "a_event b = a_event a"
    have "d = e" using d e same aa by simp
    then have "a_no b = a_no a"
      using unresolved_current [OF inv a(1) d [unfolded aa] a(2)] unresolved_current [OF inv fb e b(2)] by simp
    with inv_request [OF inv b(1) am] same b(3) show False by blast
  qed
  have "attempt_of db' (a_request b) = Some b"
    using fb ne by (simp add: rows(1) aa settled_row_def)
  moreover have "delivery_of db' (a_event b) = Some e"
    using e other lookup_mem(3) [OF e] by (simp add: rows(2) aa promotable_def)
  ultimately show ?thesis
    using b(2) e by (simp add: unresolved_def rows(6))
qed

lemma reconcile_each_run:
  assumes "delivery_inv db" "distinct todo" "\<forall>a\<in>set todo. a \<in> set (attempts db) \<and> unresolved db a"
  shows "reachable relay_step db (fst (reconcile_each p adapter clk now todo db))"
  using assms
proof (induction todo arbitrary: db)
  case Nil
  show ?case by (simp add: reach_start)
next
  case (Cons a todo)
  have a: "a \<in> set (attempts db)" "unresolved db a" using Cons.prems(3) by simp_all
  have fa: "attempt_of db (a_request a) = Some a"
    using find_key [OF _ a(1), of a_request] Cons.prems(1) by (simp add: find_attempt_def delivery_inv_def keys_ok_def)
  show ?case
  proof (cases "reconcile_attempt p adapter clk now (a_request a) db")
    case (Inl e)
    then show ?thesis by (simp add: reach_start)
  next
    case (Inr r)
    obtain db1 o1 where r: "r = (db1, o1)" by (cases r)
    note rec = Inr [unfolded r]
    have step: "relay_step db db1" by (rule reconciling [OF fa a(2) rec])
    have "\<forall>b\<in>set todo. b \<in> set (attempts db1) \<and> unresolved db1 b"
    proof
      fix b assume "b \<in> set todo"
      with Cons.prems(2,3) have "b \<in> set (attempts db)" "unresolved db b" "b \<noteq> a" by auto
      from reconcile_keeps_unresolved [OF Cons.prems(1) rec fa a(2) this]
      show "b \<in> set (attempts db1) \<and> unresolved db1 b" using lookup_mem(4) by blast
    qed
    with Cons.IH [of db1] Cons.prems(2) relay_step_kept [OF step Cons.prems(1)]
    have "reachable relay_step db1 (fst (reconcile_each p adapter clk now todo db1))" by simp
    with reach_one [of relay_step, OF step]
    have "reachable relay_step db (fst (reconcile_each p adapter clk now todo db1))"
      by (rule reachable_trans)
    then show ?thesis
      by (auto simp: Inr r split: prod.splits sum.splits)
  qed
qed

lemma recover_run:
  assumes "delivery_inv db"
  shows "reachable relay_step db (fst (recover_on_start p adapter clk now db))"
proof -
  have "distinct (attempts db)"
    using assms by (simp add: delivery_inv_def keys_ok_def distinct_map)
  then have "distinct (open_attempts db None [] 0)" by (simp add: open_attempts_def)
  from reconcile_each_run [OF assms this, of p adapter clk now] show ?thesis
    by (auto simp: open_attempts_def recover_on_start_def split: prod.splits sum.splits)
qed

end
