(* ===== verification/Ack_Examples.thy ===== *)
theory Ack_Examples
  imports Ack_Safety Receipt_Safety
begin

text \<open>The theorems on acknowledgements and verdicts, each applied to a concrete database.\<close>

definition ack_id :: string where "ack_id = replicate 32 (CHR ''a'')"

definition sent_row :: delivery_row where
  "sent_row = \<lparr>d_event = ack_id, d_rel = ''rel'', d_kind = COMPLETION, d_recipient_task = ''parent'',
     d_recipient_thread = ''parent'', d_state = DISPATCHED, d_attempt_count = 0, d_next_eligible_at = None,
     d_hold_reason = None, d_lease_owner = None, d_lease_until = None, d_dispatch_evidence = None,
     d_dispatch_turn = None, d_created_at = ''t0'', d_updated_at = ''t0''\<rparr>"

definition sent_db :: db where
  "sent_db = empty_db\<lparr>relationships := [demo_relationship], generations := [anchored_generation],
     events := [demo_event ack_id ''h1'' 1], deliveries := [sent_row]\<rparr>"

definition verified_ack :: ack_row where
  "verified_ack = \<lparr>k_event = ack_id, k_record = JObj [], k_ack_turn = ''turn-9'', k_accepted = True,
     k_verified = ''verified'', k_rejection_reason = None, k_ack_at = ''t2''\<rparr>"

definition judged_db :: db where
  "judged_db = sent_db\<lparr>acks := [verified_ack]\<rparr>"

theorem acknowledgement_rests_on_its_turn_witness:
  "\<exists>pt db' r. acknowledge (\<lambda>_. None) (Some ordered_host) intake_clock ack_id ''turn-9'' pt True None sent_db
      = Inr (db', r) \<and> kr_verified r = ''verified'' \<and> map_option k_verified (ack_of db' ack_id) = Some ''verified''"
proof -
  have "EVENT_ID_RE ack_id" "\<not> blank ''turn-9''" by code_simp+
  then obtain pt where pt: "ack_proof ack_id ''turn-9'' = Inr pt" by (simp add: ack_proof_def)
  have row: "delivery_of sent_db ack_id = Some sent_row" and no: "ack_of sent_db ack_id = None"
    and kind: "d_kind sent_row = COMPLETION" "d_state sent_row \<in> {DISPATCHED, INBOX_ONLY}"
    and v: "verify_ack_turn (\<lambda>_. None) (Some ordered_host) sent_db sent_row ''turn-9'' = Inr ''verified''"
    by code_simp+
  have reads: "acknowledge_reads (\<lambda>_. None) (Some ordered_host) ack_id ''turn-9'' pt sent_db = Inr (Inr ''verified'')"
    using kind by (simp add: acknowledge_reads_def row no pt v)
  have ev: "evaluate sent_db ack_id = Inr None" by code_simp
  have "event_of sent_db ack_id = Some (demo_event ack_id ''h1'' 1)" by code_simp
  then obtain db' r where a: "acknowledge (\<lambda>_. None) (Some ordered_host) intake_clock ack_id ''turn-9'' pt True None sent_db
      = Inr (db', r)" "\<not> kr_replay r" "kr_verified r = ''verified''"
    using kind by (auto simp: acknowledge_def reads acknowledge_in_def no acknowledge_fresh_def row ev
        disposition_def Let_def)
  from acknowledgement_rests_on_its_turn [OF a(1,2)] a show ?thesis by auto
qed

lemma judged_verdict:
  "\<exists>db' r. record_verdict intake_clock ack_id ''verified'' ''turn-10'' [] [] None None judged_db = Inr (db', r)
     \<and> \<not> vr_replay r \<and> verdicts db' \<noteq> []"
proof -
  have "case record_verdict intake_clock ack_id ''verified'' ''turn-10'' [] [] None None judged_db of
      Inl e \<Rightarrow> False | Inr (db', r) \<Rightarrow> \<not> vr_replay r \<and> verdicts db' \<noteq> []" by code_simp
  then show ?thesis by (auto split: sum.splits)
qed

theorem verified_ack_is_settled_witness:
  "\<exists>db'. reachable ack_step judged_db db' \<and> verdicts db' \<noteq> [] \<and> ack_of db' ack_id = Some verified_ack"
proof -
  obtain db' r where v: "record_verdict intake_clock ack_id ''verified'' ''turn-10'' [] [] None None judged_db
      = Inr (db', r)" "\<not> vr_replay r" "verdicts db' \<noteq> []" using judged_verdict by blast
  have r: "reachable ack_step judged_db db'" by (intro reach_one ruling [OF v(1)])
  have "ack_of judged_db ack_id = Some verified_ack" "k_verified verified_ack = ''verified''" by code_simp+
  from verified_ack_is_settled [OF r this] have "ack_of db' ack_id = Some verified_ack" .
  with r v(3) show ?thesis by blast
qed


theorem ruling_is_made_once_witness:
  "\<exists>db' r. record_verdict intake_clock ack_id ''verified'' ''turn-10'' [] [] None None judged_db = Inr (db', r)
     \<and> record_verdict intake_clock ack_id ''aborted'' ''turn-11'' [] [] (Some ''late'') None db'
         = Inr (db', \<lparr>vr_record = vr_record r, vr_replay = True\<rparr>)"
proof -
  obtain db' r where v: "record_verdict intake_clock ack_id ''verified'' ''turn-10'' [] [] None None judged_db
      = Inr (db', r)" "\<not> vr_replay r" using judged_verdict by blast
  have "''aborted'' \<in> set VERDICTS" "normalise_findings [] [] = Inr []" by code_simp+
  from ruling_is_made_once [OF v this] v(1) show ?thesis by blast
qed

theorem review_is_claimed_once_witness:
  "\<exists>db'. claim_verification intake_clock ack_id (Some ''t-1'') judged_db = Inr (db', Proceed)
     \<and> claim_verification intake_clock ack_id (Some ''t-2'') db' = Inr (db', Already_claimed)"
proof -
  have "case claim_verification intake_clock ack_id (Some ''t-1'') judged_db of
      Inl e \<Rightarrow> False | Inr (db', out) \<Rightarrow> out = Proceed" by code_simp
  then obtain db' where c: "claim_verification intake_clock ack_id (Some ''t-1'') judged_db = Inr (db', Proceed)"
    by (auto split: sum.splits)
  have "claim_of judged_db ack_id = None" "ack_id \<notin> cc_event ` set (claim_contexts judged_db)" by code_simp+
  from review_is_claimed_once [OF c this] c show ?thesis by blast
qed

text \<open>An acknowledgement authored without a host and withheld 1024 times.\<close>

definition withheld_db :: db where
  "withheld_db = sent_db\<lparr>acks := [verified_ack\<lparr>k_verified := ''unverified_turn''\<rparr>],
     ack_evidences := [\<lparr>ae_event = ack_id, ae_tier = ''unverified'', ae_attempts = 1024,
       ae_last_reason = Some ''unverified_turn'', ae_fingerprint = None, ae_next_check_at = Some 900,
       ae_observed_at = ''t3''\<rparr>]\<rparr>"

theorem authored_intent_is_kept_witness:
  "\<exists>q db'. pending_acks withheld_db 8 1000 = [q]
     \<and> settle_pending_ack intake_clock q ''verified'' 1000 withheld_db = Inr (db', Ack_verified)
     \<and> map k_record (acks db') = map k_record (acks withheld_db)"
proof -
  define q where "q = pending_of withheld_db (verified_ack\<lparr>k_verified := ''unverified_turn''\<rparr>)"
  have pend: "pending_acks withheld_db 8 1000 = [q]" unfolding q_def by code_simp
  have pe: "pe_event q = ack_id" unfolding q_def by code_simp
  have k: "ack_of withheld_db ack_id = Some (verified_ack\<lparr>k_verified := ''unverified_turn''\<rparr>)" by code_simp
  have b: "ack_blocker withheld_db ack_id (verified_ack\<lparr>k_verified := ''unverified_turn''\<rparr>) = Inr None" by code_simp
  obtain db' where s: "settle_pending_ack intake_clock q ''verified'' 1000 withheld_db = Inr (db', Ack_verified)"
    by (simp add: settle_pending_ack_def Let_def pe k b)
  from authored_intent_is_kept [OF s]
  have "map (\<lambda>k. (k_event k, k_record k, k_ack_turn k, k_accepted k, k_rejection_reason k, k_ack_at k)) (acks db')
      = map (\<lambda>k. (k_event k, k_record k, k_ack_turn k, k_accepted k, k_rejection_reason k, k_ack_at k)) (acks withheld_db)"
    by blast
  then have "map (fst \<circ> snd) (map (\<lambda>k. (k_event k, k_record k, k_ack_turn k, k_accepted k, k_rejection_reason k, k_ack_at k)) (acks db'))
      = map (fst \<circ> snd) (map (\<lambda>k. (k_event k, k_record k, k_ack_turn k, k_accepted k, k_rejection_reason k, k_ack_at k)) (acks withheld_db))"
    by simp
  then have "map k_record (acks db') = map k_record (acks withheld_db)" by (simp add: comp_def)
  with pend s show ?thesis by blast
qed

theorem withheld_ack_wedges_the_pass_witness:
  "verify_pending_acks (\<lambda>_. None) None intake_clock 8 1000 withheld_db = (withheld_db, Inl OverflowError)"
proof -
  define q where "q = pending_of withheld_db (verified_ack\<lparr>k_verified := ''unverified_turn''\<rparr>)"
  let ?k = "verified_ack\<lparr>k_verified := ''unverified_turn''\<rparr>"
  have pend: "pending_acks withheld_db 8 1000 = q # []" unfolding q_def by code_simp
  have k: "ack_of withheld_db (pe_event q) = Some ?k" and b: "ack_blocker withheld_db (pe_event q) ?k = Inr None"
    and n: "1024 \<le> pe_attempts q" and row: "delivery_of withheld_db (pe_event q) = Some sent_row"
    unfolding q_def by code_simp+
  have kv: "k_verified ?k \<noteq> ''verified''" by simp
  have v: "verify_ack_turn (\<lambda>_. None) None withheld_db sent_row (pe_ack_turn q) \<noteq> Inr ''verified''"
    by (simp add: verify_ack_turn_def)
  show ?thesis by (rule withheld_ack_wedges_the_pass [OF k kv b n v row pend])
qed

text \<open>A needs-changes verdict on the acknowledged revision; the id of the correction is a digest.\<close>

definition needs_changes_finding :: json where
  "needs_changes_finding = finding_entry ''c1'' ''needs_changes'' ''redo'' False"

definition short_db :: db where
  "short_db = empty_db\<lparr>relationships := [demo_relationship], generations := [anchored_generation],
     events := [demo_event ''e1'' ''h1'' 1], deliveries := [sent_row\<lparr>d_event := ''e1''\<rparr>],
     acks := [verified_ack\<lparr>k_event := ''e1''\<rparr>]\<rparr>"

lemma short_opens:
  "\<exists>db1. open_generation_in intake_clock ''rel'' (''revision-'' @ rid) ''needs_changes_revision'' None short_db
     = Inr (db1, 2) \<and> events db1 = [demo_event ''e1'' ''h1'' 1] \<and> deliveries db1 = [sent_row\<lparr>d_event := ''e1''\<rparr>]"
proof -
  have rel: "relationships short_db = [demo_relationship]" "generations short_db = [anchored_generation]"
    by (simp_all add: short_db_def)
  have "''needs_changes_revision'' \<in> set REASONS" by code_simp
  then show ?thesis
    by (simp add: open_generation_in_def validated_turn_id_def rel lookup_defs demo_relationship_def
        anchored_generation_def insert_generation_def new_generation_def ACTIVE_def Let_def)
       (simp add: short_db_def)
qed

lemma enqueue_alone:
  assumes "events db = [demo_event ''e1'' ''h1'' 1]" "deliveries db = [sent_row\<lparr>d_event := ''e1''\<rparr>]"
    and "e_id ce = rid" "e_gen ce = 2" "rid \<noteq> ''e1''"
  shows "\<exists>db'. enqueue_in clk rid ''rel'' REVISION ''child''
      (db\<lparr>events := insert_or_ignore e_id ce (events db)\<rparr>) = Inr db'"
proof -
  have evs: "insert_or_ignore e_id ce [demo_event ''e1'' ''h1'' 1] = [demo_event ''e1'' ''h1'' 1, ce]"
    using assms(3,5) by (auto simp: insert_or_ignore_def demo_event_def)
  have "e_id (demo_event ''e1'' ''h1'' 1) = ''e1''" "e_gen (demo_event ''e1'' ''h1'' 1) = 1"
    by (simp_all add: demo_event_def)
  then show ?thesis
    using assms(3-5)
    by (simp add: enqueue_in_def annotate_predecessors_in_def assms(1,2) evs lookup_defs outstanding_others_def
        insert_or_ignore_def queued_row_def)
qed

theorem needs_changes_is_whole_witness:
  "\<exists>db' r v. record_verdict intake_clock ''e1'' ''needs_changes'' ''turn-10'' [needs_changes_finding] [] None None
       short_db = Inr (db', r)
     \<and> verdict_of db' ''e1'' = Some v \<and> vd_verdict v = ''needs_changes''"
proof -
  have norm: "normalise_findings [needs_changes_finding] [] = Inr [needs_changes_finding]"
    and known: "''needs_changes'' \<in> set VERDICTS" and fresh: "settled_verdict short_db ''e1'' = None"
    by code_simp+
  have "case check_ruling short_db ''e1'' ''needs_changes'' [needs_changes_finding] None None of Inl e \<Rightarrow> False
      | Inr ru \<Rightarrow> ru_event ru = demo_event ''e1'' ''h1'' 1 \<and> rr_row (ru_relationship ru) = demo_relationship"
    by code_simp
  then obtain ru where ru: "check_ruling short_db ''e1'' ''needs_changes'' [needs_changes_finding] None None = Inr ru"
    "ru_event ru = demo_event ''e1'' ''h1'' 1" "rr_row (ru_relationship ru) = demo_relationship"
    by (auto split: sum.splits)
  have ids: "r_id demo_relationship = ''rel''" "e_id (demo_event ''e1'' ''h1'' 1) = ''e1''"
    "r_child_task demo_relationship = ''child''" by (simp_all add: demo_relationship_def demo_event_def)
  have "\<not> blank ''turn-10''" "\<not> blank ''e1''" by code_simp+
  then obtain rid where rid: "revision_request_event_id ''rel'' ''e1'' ''turn-10'' = Inr rid"
    by (simp add: revision_request_event_id_def)
  then have differ: "rid \<noteq> ''e1''" using revision_request_event_id_re by fastforce
  from short_opens [of rid] obtain db1 where g:
    "open_generation_in intake_clock ''rel'' (''revision-'' @ rid) ''needs_changes_revision'' None short_db = Inr (db1, 2)"
    "events db1 = [demo_event ''e1'' ''h1'' 1]" "deliveries db1 = [sent_row\<lparr>d_event := ''e1''\<rparr>]" by blast
  have "\<exists>db2. enqueue_in intake_clock rid ''rel'' REVISION ''child''
      (db1\<lparr>events := insert_or_ignore e_id (correction_event (clk_iso intake_clock) demo_relationship rid 2 ''turn-10''
         (correction_payload (clk_iso intake_clock) demo_relationship rid 2 (demo_event ''e1'' ''h1'' 1) ''turn-10''
            [needs_changes_finding])) (events db1)\<rparr>) = Inr db2"
    by (rule enqueue_alone [OF g(2,3) _ _ differ]) (simp_all add: correction_event_def)
  then obtain db2 where "open_correction intake_clock demo_relationship (demo_event ''e1'' ''h1'' 1) ''turn-10''
      [needs_changes_finding] short_db = Inr (db2, rid, 2)"
    using rid g(1) by (auto simp: open_correction_def ids)
  then obtain db' r where v: "record_verdict intake_clock ''e1'' ''needs_changes'' ''turn-10''
      [needs_changes_finding] [] None None short_db = Inr (db', r)" "\<not> vr_replay r"
    using known by (simp add: record_verdict_def norm fresh rule_fresh_def ru write_verdict_def Let_def)
  from needs_changes_is_whole [OF v] v(1) show ?thesis by blast
qed

end
