(* ===== verification/Sync_Outbox.thy ===== *)
theory Sync_Outbox
  imports Sync_Block Store
begin

text \<open>
  \<^verbatim>\<open>sync.SyncOutbox\<close>: the queue of summaries owed to a document. Its two tables stand beside the
  database in \<open>sync_state\<close>; the journal is the database's. A claim's random token is an argument. The
  wording of a packet's protocol is not modelled. The character U+2014 of a verdict's summary is
  outside the model's code points and is a parameter.
\<close>

section \<open>States and tables\<close>

definition PENDING :: string where "PENDING = ''pending''"
definition CLAIMED :: string where "CLAIMED = ''claimed''"
definition WRITTEN :: string where "WRITTEN = ''written''"
definition CONFIRMED :: string where "CONFIRMED = ''confirmed''"
definition FAILED :: string where "FAILED = ''failed''"

definition COORDINATION_DOCUMENT :: string where
  "COORDINATION_DOCUMENT = ''coordination_document''"

definition MAX_ATTEMPTS :: int where "MAX_ATTEMPTS = 8"
definition LEASE_SECONDS :: rat where "LEASE_SECONDS = 300"
definition BASE_BACKOFF :: rat where "BASE_BACKOFF = 30"
definition MAX_BACKOFF :: rat where "MAX_BACKOFF = 900"

record sync_target_row =
  tg_relationship :: string
  tg_target :: string
  tg_target_ref :: string
  tg_recorded_at :: string

record sync_state =
  sync_db :: db
  sync_targets :: "sync_target_row list"
  sync_outbox :: "sync_row list"

definition empty_sync :: "db \<Rightarrow> sync_state" where
  "empty_sync db = \<lparr>sync_db = db, sync_targets = [], sync_outbox = []\<rparr>"

definition sync_journal :: "string \<Rightarrow> string \<Rightarrow> json \<Rightarrow> string \<Rightarrow> sync_state \<Rightarrow> sync_state" where
  "sync_journal kind subject detail stamp s =
     s\<lparr>sync_db := journal_entry kind subject detail stamp (sync_db s)\<rparr>"

definition find_job :: "string \<Rightarrow> sync_state \<Rightarrow> sync_row option" where
  "find_job identifier s = List.find (\<lambda>r. sy_id r = identifier) (sync_outbox s)"

definition update_jobs :: "(sync_row \<Rightarrow> bool) \<Rightarrow> (sync_row \<Rightarrow> sync_row) \<Rightarrow> sync_state \<Rightarrow> sync_state" where
  "update_jobs P f s = s\<lparr>sync_outbox := update_where P f (sync_outbox s)\<rparr>"

section \<open>Targets and enqueueing\<close>

definition target_key :: "sync_target_row \<Rightarrow> string \<times> string" where
  "target_key r = (tg_relationship r, tg_target r)"

definition set_target :: "clock \<Rightarrow> string \<Rightarrow> string \<Rightarrow> string \<Rightarrow> sync_state \<Rightarrow> sync_state" where
  "set_target c relationship target target_ref s =
     s\<lparr>sync_targets := upsert target_key
         \<lparr>tg_relationship = relationship, tg_target = target, tg_target_ref = target_ref,
          tg_recorded_at = clk_iso c\<rparr>
         (\<lambda>r. r\<lparr>tg_target_ref := target_ref, tg_recorded_at := clk_iso c\<rparr>) (sync_targets s)\<rparr>"

definition target_for :: "string \<Rightarrow> string \<Rightarrow> sync_state \<Rightarrow> sync_target_row option" where
  "target_for relationship target s =
     List.find (\<lambda>r. tg_relationship r = relationship \<and> tg_target r = target) (sync_targets s)"

definition new_job ::
    "string \<Rightarrow> string \<Rightarrow> string \<Rightarrow> string \<Rightarrow> string \<Rightarrow> string option \<Rightarrow> int option \<Rightarrow> string option
     \<Rightarrow> string option \<Rightarrow> string \<Rightarrow> string \<Rightarrow> sync_row" where
  "new_job relationship issue_key target target_ref kind event gen revision verdict summary now =
     \<lparr>sy_id = sync_id target target_ref kind relationship event gen revision verdict,
      sy_relationship = relationship, sy_issue_key = issue_key, sy_target = target,
      sy_target_ref = target_ref, sy_subject_kind = kind, sy_event = event, sy_generation = gen,
      sy_revision = revision, sy_verdict = verdict,
      sy_digest = identity_digest target target_ref kind relationship event gen revision verdict,
      sy_summary = summary, sy_state = PENDING, sy_attempts = 0, sy_next_attempt_at = None,
      sy_last_error = None, sy_lease_owner = None, sy_lease_until = None, sy_claim_token = None,
      sy_external_ref = None, sy_readback = None, sy_written_at = None, sy_confirmed_at = None,
      sy_created_at = now, sy_updated_at = now\<rparr>"

definition enqueue_in ::
    "clock \<Rightarrow> string \<Rightarrow> string \<Rightarrow> string \<Rightarrow> string \<Rightarrow> string option \<Rightarrow> int option \<Rightarrow> string option
     \<Rightarrow> string option \<Rightarrow> string \<Rightarrow> sync_state \<Rightarrow> sync_state \<times> string option" where
  "enqueue_in c relationship issue_key kind summary event gen revision verdict target s =
     (case target_for relationship target s of
        None \<Rightarrow> (s, None)
      | Some configured \<Rightarrow>
          (let job = new_job relationship issue_key target (tg_target_ref configured) kind event gen
                 revision verdict summary (clk_iso c)
           in (sync_journal ''sync_enqueued'' (sy_id job)
                 (JObj [(''subjectKind'', JStr kind), (''eventId'', jopt event)]) (clk_iso c)
                 (s\<lparr>sync_outbox := insert_or_ignore sy_id job (sync_outbox s)\<rparr>),
               Some (sy_id job))))"

section \<open>The summary of a verdict\<close>

definition middle_dot :: string where
  "middle_dot = [CHR '' '', CHR 0xB7, CHR '' '']"

fun finding_lines :: "string \<Rightarrow> json list \<Rightarrow> err + string list" where
  "finding_lines dash [] = Inr []"
| "finding_lines dash (f # fs) =
     bindE (py_item f ''id'') (\<lambda>i. bindE (py_item f ''verdict'') (\<lambda>v.
       bindE (finding_lines dash fs) (\<lambda>ls.
         Inr ((''  '' @ py_str i @ '': '' @ py_str v
               @ (if jtruthy (jget f ''note'') then '' '' @ dash @ '' '' @ py_str (jget f ''note'')
                  else [])) # ls))))"

definition render_verdict_summary ::
    "string \<Rightarrow> relationship_row \<Rightarrow> event_row \<Rightarrow> string \<Rightarrow> json list \<Rightarrow> int option
     \<Rightarrow> err + string" where
  "render_verdict_summary dash relationship event verdict findings next_generation =
     bindE (if findings = [] then Inr [] else
              bindE (finding_lines dash findings) (\<lambda>ls. Inr (''findings:'' # ls))) (\<lambda>found.
       Inr (join_lines
         ([r_issue_key relationship @ middle_dot @ r_child_task relationship @ middle_dot @ verdict,
           ''generation '' @ int_str (e_gen event) @ '', revision ''
             @ take 12 (e_hash event)]
          @ (case next_generation of
               None \<Rightarrow> []
             | Some n \<Rightarrow> if n = 0 then [] else
                 [''a revision request was queued to the same child under generation ''
                  @ int_str n])
          @ found)))"

definition enqueue_verdict_in ::
    "string \<Rightarrow> clock \<Rightarrow> relationship_row \<Rightarrow> event_row \<Rightarrow> string \<Rightarrow> json list \<Rightarrow> int option
     \<Rightarrow> sync_state \<Rightarrow> err + sync_state \<times> string option" where
  "enqueue_verdict_in dash c relationship event verdict findings next_generation s =
     bindE (render_verdict_summary dash relationship event verdict findings next_generation)
       (\<lambda>summary. Inr (enqueue_in c (r_id relationship) (r_issue_key relationship) ''verdict''
          summary (Some (e_id event)) (Some (e_gen event)) (Some (e_hash event))
          (Some verdict) COORDINATION_DOCUMENT s))"

text \<open>An assignment record, a dictionary.\<close>

definition render_progress_summary :: "json \<Rightarrow> err + string" where
  "render_progress_summary assignment =
     bindE (py_item assignment ''head'') (\<lambda>head.
     bindE (py_item assignment ''issueKey'') (\<lambda>issue.
     bindE (py_item assignment ''childTaskId'') (\<lambda>child.
     bindE (py_item assignment ''state'') (\<lambda>state.
     bindE (py_item assignment ''executionGeneration'') (\<lambda>gen.
     bindE (py_item assignment ''nextExpectedAction'') (\<lambda>action.
     bindE (py_item head ''revisionHash'') (\<lambda>revision.
     bindE (if jtruthy revision then (case revision of JStr h \<Rightarrow> Inr (take 12 h)
              | JList xs \<Rightarrow> Inr (py_repr (JList (take 12 xs))) | _ \<Rightarrow> Inl TypeError)
            else Inr ''none'') (\<lambda>hash.
     bindE (py_item head ''evidence'') (\<lambda>evidence.
       Inr (join_lines
         [py_str issue @ middle_dot @ py_str child @ middle_dot @ py_str state,
          ''generation '' @ py_str gen @ '', next: '' @ py_str action,
          ''current revision: '' @ hash @ '' ('' @ py_str evidence @ '')'']))))))))))"

section \<open>Discovery and the lease\<close>

definition not_claimable :: err where
  "not_claimable = RelayError AckRefused SYNC_NOT_CLAIMABLE"

definition get_job :: "string \<Rightarrow> sync_state \<Rightarrow> err + sync_row" where
  "get_job identifier s =
     (case find_job identifier s of None \<Rightarrow> Inl not_claimable | Some row \<Rightarrow> Inr row)"

definition due :: "rat \<Rightarrow> rat option \<Rightarrow> bool" where
  "due now t = (case t of None \<Rightarrow> True | Some u \<Rightarrow> u \<le> now)"

definition next_jobs :: "rat \<Rightarrow> string \<Rightarrow> int \<Rightarrow> sync_state \<Rightarrow> sync_row list" where
  "next_jobs now target limit s =
     (let rows = sort_key sy_created_at (filter (\<lambda>r. sy_state r \<in> {PENDING, WRITTEN, CLAIMED}
            \<and> due now (sy_next_attempt_at r) \<and> due now (sy_lease_until r)
            \<and> (target \<noteq> [] \<longrightarrow> sy_target r = target)) (sync_outbox s))
      in if limit < 0 then rows else take (nat limit) rows)"

definition claimed_job :: "clock \<Rightarrow> string \<Rightarrow> string \<Rightarrow> sync_row \<Rightarrow> sync_row" where
  "claimed_job c owner token r =
     r\<lparr>sy_state := CLAIMED, sy_lease_owner := Some owner,
        sy_lease_until := Some (clk_now c + LEASE_SECONDS), sy_claim_token := Some token,
        sy_updated_at := clk_iso c\<rparr>"

definition claim_job :: "clock \<Rightarrow> string \<Rightarrow> string \<Rightarrow> string \<Rightarrow> sync_state \<Rightarrow> err + sync_state" where
  "claim_job c token identifier owner s =
     (case find_job identifier s of
        None \<Rightarrow> Inl not_claimable
      | Some row \<Rightarrow>
          if sy_state row = CONFIRMED then Inl not_claimable
          else if sy_state row = FAILED then Inl not_claimable
          else if \<not> due (clk_now c) (sy_next_attempt_at row) then Inl not_claimable
          else if \<not> due (clk_now c) (sy_lease_until row) then Inl not_claimable
          else Inr (update_jobs (\<lambda>r. sy_id r = identifier) (claimed_job c owner token) s))"

definition fenced :: "string \<Rightarrow> string option \<Rightarrow> sync_state \<Rightarrow> err + sync_row" where
  "fenced identifier claim_token s =
     (case find_job identifier s of
        None \<Rightarrow> Inl not_claimable
      | Some row \<Rightarrow> if sy_claim_token row \<noteq> claim_token then Inl not_claimable else Inr row)"

section \<open>The packet a writer executes\<close>

text \<open>The prose of the protocol, a constant of the code, is left out.\<close>

record sync_operation =
  op_sync_id :: string
  op_target :: string
  op_target_ref :: string
  op_issue_key :: string
  op_subject_kind :: string
  op_event :: "string option"
  op_generation :: "int option"
  op_revision :: "string option"
  op_disposition :: "string option"
  op_digest :: string
  op_start_marker :: string
  op_end_marker :: string
  op_container_start :: string
  op_container_end :: string
  op_block :: string

definition sync_operation_of :: "string \<Rightarrow> sync_state \<Rightarrow> err + sync_operation" where
  "sync_operation_of identifier s =
     bindE (get_job identifier s) (\<lambda>row. Inr
       \<lparr>op_sync_id = sy_id row, op_target = sy_target row, op_target_ref = sy_target_ref row,
        op_issue_key = sy_issue_key row, op_subject_kind = sy_subject_kind row,
        op_event = sy_event row, op_generation = sy_generation row,
        op_revision = sy_revision row, op_disposition = sy_verdict row,
        op_digest = sy_digest row, op_start_marker = start_marker (sy_id row),
        op_end_marker = end_marker (sy_id row),
        op_container_start = container_start (sy_relationship row),
        op_container_end = container_end (sy_relationship row), op_block = render_block row\<rparr>)"

section \<open>Comparing a block with the job it records\<close>

definition expected_identity :: "sync_row \<Rightarrow> (string \<times> string) list" where
  "expected_identity row =
     [(''syncId'', sy_id row), (''subjectKind'', sy_subject_kind row),
      (''issueKey'', sy_issue_key row), (''relationshipId'', sy_relationship row),
      (''eventId'', or_empty (sy_event row)),
      (''executionGeneration'', or_empty (map_option int_str (sy_generation row))),
      (''revisionHash'', or_empty (sy_revision row)),
      (''disposition'', or_empty (sy_verdict row)), (''identityDigest'', sy_digest row)]"

definition field_problem :: "(string \<times> string) list \<Rightarrow> (string \<times> string) list \<Rightarrow> string \<Rightarrow> string list" where
  "field_problem expected hdrs k =
     (case map_of hdrs k of
        None \<Rightarrow> [k @ '' is missing'']
      | Some actual \<Rightarrow>
          if map_of expected k = Some actual then []
          else [k @ '' is '' @ repr_str actual @ '', expected ''
                @ repr_str (or_empty (map_of expected k))])"

definition identity_mismatch :: "sync_row \<Rightarrow> (string \<times> string) list \<Rightarrow> string list" where
  "identity_mismatch row hdrs = concat (map (field_problem (expected_identity row) hdrs) IDENTITY_FIELDS)"

text \<open>The dictionary \<^verbatim>\<open>_v2_mismatch\<close> expects has the entries of \<open>rendered_fields\<close>.\<close>

definition v2_mismatch :: "sync_row \<Rightarrow> block \<Rightarrow> string list" where
  "v2_mismatch row found =
     (let summary = canonical_summary (sy_summary row);
          problems = concat (map (field_problem (rendered_fields row) (bk_fields found)) RENDERED_FIELDS);
          unexpected = sort (filter (\<lambda>k. k \<notin> set RENDERED_FIELDS) (map fst (bk_fields found)))
      in problems
         @ (if unexpected = [] then []
            else [''the header region carries unexpected headers '' @ py_repr (JList (map JStr unexpected))])
         @ (if bk_summary found = summary then []
            else [''the fenced summary is not this job'' @ CHR 0x27 # ''s summary text'']))"

definition payload_mismatch :: "sync_row \<Rightarrow> block \<Rightarrow> string list" where
  "payload_mismatch row found =
     (case bk_format found of
        UNSUPPORTED \<Rightarrow> bk_problems found
      | V2 \<Rightarrow> bk_problems found @ v2_mismatch row found
      | _ \<Rightarrow> bk_problems found @ identity_mismatch row (bk_fields found)
              @ (let summary = strip (sy_summary row)
                 in if summary \<noteq> [] \<and> \<not> contains summary (bk_summary found)
                    then [''the block does not carry this job'' @ CHR 0x27 # ''s summary text''] else []))"

datatype reconciliation =
    Malformed
  | Duplicate
  | Absent
  | Stale "string list" string
  | Already_Written string

definition reconcile_job :: "string \<Rightarrow> string \<Rightarrow> sync_state \<Rightarrow> err + reconciliation" where
  "reconcile_job identifier observed_text s =
     bindE (get_job identifier s) (\<lambda>row.
       let document = parse_document observed_text
       in if sy_id row \<in> set (doc_malformed document) then Inr Malformed
          else if sy_id row \<in> set (doc_duplicates document) then Inr Duplicate
          else case map_of (doc_blocks document) (sy_id row) of
            None \<Rightarrow> Inr Absent
          | Some found \<Rightarrow>
              if payload_mismatch row found \<noteq> []
              then Inr (Stale (payload_mismatch row found) (bk_text found))
              else Inr (Already_Written (bk_text found)))"

section \<open>Settling\<close>

text \<open>Why a read-back does not confirm a job, or the text of the block that does.\<close>

definition judge_readback :: "sync_row \<Rightarrow> string \<Rightarrow> string list + string" where
  "judge_readback row readback =
     (let document = parse_document readback
      in if sy_id row \<in> set (doc_malformed document)
         then Inl [''an unterminated block for this job is present, so what landed is uncertain'']
         else if sy_id row \<in> set (doc_duplicates document)
         then Inl [''more than one block for this job is present, which is not one successful unique record'']
         else case map_of (doc_blocks document) (sy_id row) of
           None \<Rightarrow> Inl [''the readback carries no block for this job'']
         | Some found \<Rightarrow>
             if payload_mismatch row found \<noteq> [] then Inl (payload_mismatch row found)
             else Inr (bk_text found))"

fun semicolon_join :: "string list \<Rightarrow> string" where
  "semicolon_join [] = []"
| "semicolon_join [w] = w"
| "semicolon_join (w # v # ws) = w @ ''; '' @ semicolon_join (v # ws)"

definition confirmed_job :: "clock \<Rightarrow> string option \<Rightarrow> string \<Rightarrow> sync_row \<Rightarrow> sync_row" where
  "confirmed_job c external_ref observed r =
     r\<lparr>sy_state := CONFIRMED, sy_external_ref := external_ref, sy_readback := Some observed,
        sy_written_at := (case sy_written_at r of None \<Rightarrow> Some (clk_iso c) | w \<Rightarrow> w),
        sy_confirmed_at := Some (clk_iso c), sy_last_error := None, sy_next_attempt_at := None,
        sy_lease_owner := None, sy_lease_until := None, sy_updated_at := clk_iso c\<rparr>"

definition written_job :: "clock \<Rightarrow> string list \<Rightarrow> sync_row \<Rightarrow> sync_row" where
  "written_job c problems r =
     r\<lparr>sy_state := WRITTEN, sy_last_error := Some (semicolon_join problems),
        sy_lease_owner := None, sy_lease_until := None, sy_updated_at := clk_iso c\<rparr>"

text \<open>In SQL, \<^verbatim>\<open>claim_token = NULL\<close> holds of no row.\<close>

definition complete_job ::
    "clock \<Rightarrow> string \<Rightarrow> string option \<Rightarrow> string \<Rightarrow> string \<Rightarrow> string option \<Rightarrow> sync_state
     \<Rightarrow> sync_state \<times> (err + sync_row)" where
  "complete_job c identifier claim_token target_ref readback external_ref s =
     (case fenced identifier claim_token s of
        Inl e \<Rightarrow> (s, Inl e)
      | Inr row \<Rightarrow>
          if sy_state row = CONFIRMED then (s, Inr row)
          else if sy_target_ref row \<noteq> target_ref
          then (s, Inl (RelayError AckRefused SYNC_TARGET_MISMATCH))
          else case judge_readback row readback of
            Inr observed \<Rightarrow>
              (let s' = sync_journal ''sync_confirmed'' identifier
                     (JObj [(''targetRef'', JStr target_ref)]) (clk_iso c)
                     (update_jobs (\<lambda>r. sy_id r = identifier) (confirmed_job c external_ref observed) s)
               in (s', get_job identifier s'))
          | Inl problems \<Rightarrow>
              (update_jobs (\<lambda>r. sy_id r = identifier \<and> claim_token \<noteq> None
                   \<and> sy_claim_token r = claim_token \<and> sy_state r \<noteq> CONFIRMED)
                 (written_job c problems) s,
               Inl (RelayError AckRefused READBACK_MISMATCH)))"

text \<open>
  \<^verbatim>\<open>BASE_BACKOFF * (2 ** n)\<close> converts the integer power to a float, which overflows from
  \<^verbatim>\<open>2 ** 1024\<close> on.
\<close>

definition sync_delay :: "int \<Rightarrow> err + rat" where
  "sync_delay tries =
     (let n = max 0 (tries - 1)
      in if 1024 \<le> n then Inl OverflowError
         else Inr (min MAX_BACKOFF (BASE_BACKOFF * 2 ^ nat n)))"

definition failed_job :: "clock \<Rightarrow> string \<Rightarrow> int \<Rightarrow> string \<Rightarrow> rat \<Rightarrow> sync_row \<Rightarrow> sync_row" where
  "failed_job c state tries error delay r =
     r\<lparr>sy_state := state, sy_attempts := tries, sy_last_error := Some error,
        sy_next_attempt_at := Some (clk_now c + delay), sy_lease_owner := None,
        sy_lease_until := None, sy_claim_token := None, sy_updated_at := clk_iso c\<rparr>"

definition fail_job ::
    "clock \<Rightarrow> string \<Rightarrow> string option \<Rightarrow> string \<Rightarrow> sync_state \<Rightarrow> err + sync_state" where
  "fail_job c identifier claim_token error s =
     bindE (fenced identifier claim_token s) (\<lambda>row.
       if sy_state row = CONFIRMED then Inl not_claimable
       else
         let tries = sy_attempts row + 1;
             state = (if MAX_ATTEMPTS \<le> tries then FAILED else PENDING)
         in bindE (sync_delay tries) (\<lambda>delay.
           Inr (sync_journal ''sync_failed'' identifier
                  (JObj [(''attempts'', JInt tries), (''state'', JStr state)]) (clk_iso c)
                  (update_jobs (\<lambda>r. sy_id r = identifier)
                     (failed_job c state tries error delay) s))))"

definition retried_job :: "clock \<Rightarrow> sync_row \<Rightarrow> sync_row" where
  "retried_job c r =
     r\<lparr>sy_state := PENDING, sy_next_attempt_at := None, sy_lease_owner := None,
        sy_lease_until := None, sy_claim_token := None, sy_updated_at := clk_iso c\<rparr>"

definition retry_job :: "clock \<Rightarrow> string \<Rightarrow> sync_state \<Rightarrow> sync_state \<times> (err + sync_row)" where
  "retry_job c identifier s =
     (let s' = update_jobs (\<lambda>r. sy_id r = identifier \<and> sy_state r \<noteq> CONFIRMED) (retried_job c) s
      in (s', get_job identifier s'))"

section \<open>The snapshot\<close>

record sync_snapshot =
  sn_jobs :: "sync_row list"
  sn_pending :: nat
  sn_failed :: nat
  sn_confirmed :: nat

definition snapshot :: "string \<Rightarrow> sync_state \<Rightarrow> sync_snapshot" where
  "snapshot relationship s =
     (let rows = sort_key sy_created_at (filter (\<lambda>r. relationship \<noteq> [] \<longrightarrow> sy_relationship r = relationship)
            (sync_outbox s))
      in \<lparr>sn_jobs = rows,
          sn_pending = rowcount (\<lambda>r. sy_state r \<in> {PENDING, CLAIMED, WRITTEN}) rows,
          sn_failed = rowcount (\<lambda>r. sy_state r = FAILED) rows,
          sn_confirmed = rowcount (\<lambda>r. sy_state r = CONFIRMED) rows\<rparr>)"

end
