(* ===== verification/Sync_Roundtrip.thy ===== *)
theory Sync_Roundtrip
  imports Sync_Block
begin

text \<open>
  What the parser of \<^verbatim>\<open>sync.py\<close> reads from a document that holds rendered blocks between other lines.
  A connector may have put blank lines before an end marker. The conditions are that a row's
  header values are \<^emph>\<open>clean\<close> (one line, no outer white space), which the parser strips away, and that no
  other line is a start marker.
\<close>

section \<open>Clean values\<close>

definition clean :: "string \<Rightarrow> bool" where
  "clean s = (one_line s \<and> strip s = s)"

definition clean_row :: "sync_row \<Rightarrow> bool" where
  "clean_row row = list_all clean (map snd (rendered_fields row))"

definition delivered_lines :: "string list \<Rightarrow> sync_row \<Rightarrow> string list" where
  "delivered_lines gap row =
     (let summary = canonical_summary (sy_summary row); fence = summary_fence summary
      in [start_marker (sy_id row)] @ map header_line (rendered_fields row)
         @ [[], fence @ ''text''] @ split_lines summary @ [fence] @ gap @ [end_marker (sy_id row)])"

definition delivered_block :: "string list \<Rightarrow> sync_row \<Rightarrow> block" where
  "delivered_block gap row =
     \<lparr>bk_fields = rendered_fields row, bk_text = join_lines (delivered_lines gap row),
      bk_summary = canonical_summary (sy_summary row), bk_format = V2, bk_problems = []\<rparr>"

lemma block_lines_delivered: "block_lines row = delivered_lines [] row"
  by (simp add: block_lines_def delivered_lines_def Let_def)

section \<open>Markers\<close>

lemma marker_ends:
  "strip (start_marker i) = start_marker i" "strip (end_marker i) = end_marker i"
  "start_marker i \<noteq> []" "end_marker i \<noteq> []"
  by (auto simp: start_marker_def end_marker_def is_space_def intro!: strip_fixed)

lemma strip_space: "strip (s @ '' '') = strip s"
  using strip_trail [of "CHR '' ''" s] by (simp add: is_space_def)

lemma marker_id_start:
  assumes "clean i" shows "marker_id (start_marker i) = Some i"
proof -
  have "take (length (start_marker i) - 3) (start_marker i) = ''<!-- relay-sync:'' @ i @ '' ''"
    by (simp add: start_marker_def)
  then have "strip (drop 16 (take (length (start_marker i) - 3) (start_marker i))) = i"
    using assms strip_space [of i] by (simp add: clean_def)
  moreover have "starts_with ''<!-- relay-sync:'' (start_marker i)"
    unfolding start_marker_def by (rule starts_with_append)
  moreover have "ends_with ''-->'' (start_marker i)"
    unfolding start_marker_def ends_with_iff
    by (rule exI [of _ "''<!-- relay-sync:'' @ i @ '' ''"]) simp
  ultimately show ?thesis unfolding marker_id_def Let_def marker_ends by simp
qed

section \<open>The header region\<close>

definition header_key :: "string \<Rightarrow> bool" where
  "header_key k = (k \<noteq> [] \<and> strip k = k \<and> CHR '':'' \<notin> set k \<and> CHR '' '' \<notin> set k
     \<and> hd k \<noteq> CHR ''<'' \<and> \<not> is_space (hd k))"

lemma update_fresh: "k \<notin> set (map fst kvs) \<Longrightarrow> AList.update k v kvs = kvs @ [(k, v)]"
  by (induction kvs) auto

lemma header_line_visible:
  assumes "header_key k"
  shows "strip (header_line (k, v)) \<noteq> []" and "strip (header_line (k, v)) \<noteq> end_marker i"
proof -
  obtain c k' where k: "k = c # k'" "c \<noteq> CHR ''<''" "\<not> is_space c"
    using assms by (cases k) (auto simp: header_key_def)
  have "\<exists>t. strip (c # s) = c # t" for s
  proof -
    have "strip (c # s) = rev (dropWhile is_space (rev s @ [c]))" using k by (simp add: strip_def)
    also have "dropWhile is_space (rev s @ [c]) = dropWhile is_space (rev s) @ [c]"
      using k(3) by (induction "rev s" arbitrary: s) (auto simp: dropWhile_append)
    finally show ?thesis by simp
  qed
  with k show "strip (header_line (k, v)) \<noteq> []" "strip (header_line (k, v)) \<noteq> end_marker i"
    by (auto simp: header_line_def end_marker_def) (metis list.distinct(1), metis list.inject)
qed

lemma read_header_one:
  assumes "header_key k" "clean v" "k \<notin> set (map fst hdrs)"
  shows "read_header (end_marker i) (header_line (k, v) # ls) hdrs problems
    = read_header (end_marker i) ls (hdrs @ [(k, v)]) problems"
proof -
  have "partition_at CHR '':'' (header_line (k, v)) = Some (k, '' '' @ v)"
    using assms(1) partition_at_append [of "CHR '':''" k "'' '' @ v"]
    by (simp add: header_line_def header_key_def)
  moreover have "strip ('' '' @ v) = v"
    using assms(2) strip_lead [of "CHR '' ''" v] by (simp add: clean_def is_space_def)
  moreover have "strip k = k" "k \<noteq> []" "CHR '' '' \<notin> set k" using assms(1) by (auto simp: header_key_def)
  ultimately show ?thesis
    using header_line_visible [OF assms(1), of v] assms(3) update_fresh [OF assms(3), of v]
    by (simp add: Let_def)
qed

lemma read_header_fields:
  assumes "list_all header_key (map fst kvs)" "list_all clean (map snd kvs)"
    "distinct (map fst (hdrs @ kvs))"
  shows "read_header (end_marker i) (map header_line kvs @ [] # ls) hdrs problems
    = (hdrs @ kvs, problems, [] # ls)"
  using assms
proof (induction kvs arbitrary: hdrs)
  case Nil
  then show ?case by (simp add: strip_def)
next
  case (Cons kv kvs)
  obtain k v where kv: "kv = (k, v)" by (cases kv)
  have "k \<notin> set (map fst hdrs)" using Cons.prems(3) kv by auto
  with Cons.prems kv read_header_one [of k v hdrs i "map header_line kvs @ [] # ls" problems]
    Cons.IH [of "hdrs @ [kv]"]
  show ?case by simp
qed

lemma header_keys: "list_all header_key (map fst (rendered_fields row))"
  by (simp add: rendered_fields_def header_key_def strip_def is_space_def)

lemma header_distinct: "distinct (map fst (rendered_fields row))"
  by (simp add: rendered_fields_def)

section \<open>The fence\<close>

lemma strip_infix: "\<exists>a b. s = a @ strip s @ b"
proof -
  let ?t = "dropWhile is_space s"
  have "?t = strip s @ rev (takeWhile is_space (rev ?t))"
    unfolding strip_def by (metis rev_append rev_rev_ident takeWhile_dropWhile_id)
  then show ?thesis by (metis takeWhile_dropWhile_id)
qed

lemma split_infix: "l \<in> set (split_on c s) \<Longrightarrow> \<exists>a b. s = a @ l @ b"
proof (induction s arbitrary: l)
  case (Cons x xs)
  show ?case
  proof (cases "x = c")
    case True
    with Cons show ?thesis by (auto intro: exI [of _ "[]"]) (metis append_Cons)
  next
    case False
    obtain m ms where ms: "split_on c xs = m # ms" by (cases "split_on c xs") auto
    with False Cons.prems have "l = x # m \<or> l \<in> set ms" by auto
    then show ?thesis
    proof
      assume l: "l = x # m"
      have "\<exists>b. xs = m @ b"
        using ms
      proof (induction xs arbitrary: m ms)
        case (Cons y ys)
        then show ?case by (auto split: if_splits list.splits)
      qed auto
      with l show ?thesis by (metis append_Cons append_Nil)
    next
      assume "l \<in> set ms"
      with Cons.IH [of l] ms obtain a b where "xs = a @ l @ b" by auto
      then show ?thesis by (metis append_Cons)
    qed
  qed
qed auto

lemma takeWhile_replicate: "takeWhile (\<lambda>x. x = c) s = replicate (length (takeWhile (\<lambda>x. x = c) s)) c"
  by (induction s) auto

lemma summary_line_open:
  assumes "l \<in> set (split_lines summary)" "fence_length l = Some (count, info)"
  shows "count < fence_size summary"
proof -
  have count: "count = length (takeWhile (\<lambda>c. c = FENCE_CHARACTER) (strip l))"
    using assms(2) by (auto simp: fence_length_def Let_def split: if_splits)
  obtain rest where "strip l = replicate count FENCE_CHARACTER @ rest"
    using count takeWhile_replicate [of FENCE_CHARACTER "strip l"]
    by (metis takeWhile_dropWhile_id)
  moreover obtain a b where "l = a @ strip l @ b" using strip_infix by blast
  moreover obtain a' b' where "summary = a' @ l @ b'" using split_infix [OF assms(1)] by blast
  ultimately have "summary = (a' @ a) @ replicate count FENCE_CHARACTER @ (rest @ b @ b')"
    by (metis append.assoc)
  then have "contains (replicate count FENCE_CHARACTER) summary" unfolding contains_iff by blast
  from longest_run_bounds [OF this, of 0 0] show ?thesis by (simp add: fence_size_def)
qed

lemma fence_not_space: "\<not> is_space FENCE_CHARACTER"
  by (simp add: FENCE_CHARACTER_def is_space_def)

lemma fence_facts:
  "3 \<le> fence_size summary" "summary_fence summary \<noteq> []"
  "strip (summary_fence summary) = summary_fence summary"
  "strip (summary_fence summary @ ''text'') = summary_fence summary @ ''text''"
proof -
  show 3: "3 \<le> fence_size summary" by (simp add: fence_size_def MINIMUM_FENCE_def)
  then obtain n where n: "fence_size summary = Suc n" by (cases "fence_size summary") auto
  show ne: "summary_fence summary \<noteq> []" by (simp add: summary_fence_def n)
  have hd: "hd (summary_fence summary) = FENCE_CHARACTER" "last (summary_fence summary) = FENCE_CHARACTER"
    by (simp_all add: summary_fence_def n last_replicate del: replicate_Suc)
  show "strip (summary_fence summary) = summary_fence summary"
    by (rule strip_fixed) (simp_all add: ne hd fence_not_space)
  show "strip (summary_fence summary @ ''text'') = summary_fence summary @ ''text''"
    by (rule strip_fixed) (simp_all add: ne hd fence_not_space, simp add: is_space_def)
qed

lemma takeWhile_fence:
  "takeWhile (\<lambda>c. c = FENCE_CHARACTER) (summary_fence s) = summary_fence s"
  "takeWhile (\<lambda>c. c = FENCE_CHARACTER) (summary_fence s @ ''text'') = summary_fence s"
proof -
  have all: "\<forall>c\<in>set (summary_fence s). c = FENCE_CHARACTER" by (simp add: summary_fence_def)
  then show "takeWhile (\<lambda>c. c = FENCE_CHARACTER) (summary_fence s) = summary_fence s"
    by (simp add: takeWhile_eq_all_conv)
  show "takeWhile (\<lambda>c. c = FENCE_CHARACTER) (summary_fence s @ ''text'') = summary_fence s"
    using all by (simp add: takeWhile_append2 FENCE_CHARACTER_def)
qed

lemma fence_length_fence:
  "fence_length (summary_fence s) = Some (fence_size s, [])"
  "fence_length (summary_fence s @ ''text'') = Some (fence_size s, ''text'')"
proof -
  have len: "length (summary_fence s) = fence_size s" by (simp add: summary_fence_def)
  have "\<not> fence_size s < MINIMUM_FENCE" using fence_facts(1) [of s] by (simp add: MINIMUM_FENCE_def)
  with len show "fence_length (summary_fence s) = Some (fence_size s, [])"
    "fence_length (summary_fence s @ ''text'') = Some (fence_size s, ''text'')"
    unfolding fence_length_def fence_facts(3,4) takeWhile_fence Let_def
    by (simp_all add: FENCE_CHARACTER_def)
qed

lemma read_fence_closed:
  assumes "\<And>l count info. l \<in> set ls \<Longrightarrow> fence_length l = Some (count, info) \<Longrightarrow> count < n"
    and "fence_length f = Some (n, [])"
  shows "read_fence n (ls @ f # rest) = (ls, True, rest)"
  using assms(1)
proof (induction ls)
  case Nil
  then show ?case using assms(2) by simp
next
  case (Cons l ls)
  have "read_fence n (ls @ f # rest) = (ls, True, rest)" by (rule Cons.IH) (use Cons.prems in auto)
  moreover have "fence_length l = None \<or> (\<exists>count info. fence_length l = Some (count, info) \<and> count < n)"
    using Cons.prems [of l] by (cases "fence_length l") auto
  ultimately show ?case by auto
qed

section \<open>One block\<close>

definition gap_ok :: "string list \<Rightarrow> bool" where
  "gap_ok gap = list_all (\<lambda>l. one_line l \<and> strip l = []) gap"

lemma skip_blank_gap: "gap_ok gap \<Longrightarrow> skip_blank (gap @ ls) = skip_blank ls"
  by (induction gap) (auto simp: gap_ok_def)

definition block_tail :: "string list \<Rightarrow> sync_row \<Rightarrow> string list" where
  "block_tail gap row =
     (let summary = canonical_summary (sy_summary row)
      in split_lines summary @ [summary_fence summary] @ gap @ [end_marker (sy_id row)])"

lemma delivered_split:
  "delivered_lines gap row = start_marker (sy_id row) # map header_line (rendered_fields row)
     @ [] # (summary_fence (canonical_summary (sy_summary row)) @ ''text'') # block_tail gap row"
  by (simp add: delivered_lines_def block_tail_def Let_def)

lemma read_summary_tail:
  "read_summary ((summary_fence (canonical_summary (sy_summary row)) @ ''text'') # block_tail gap row @ rest)
     problems
   = (Some (canonical_summary (sy_summary row)), FENCED_LEGACY, problems,
      gap @ end_marker (sy_id row) # rest)"
proof -
  let ?s = "canonical_summary (sy_summary row)"
  have "read_fence (fence_size ?s) (block_tail gap row @ rest)
      = read_fence (fence_size ?s) (split_lines ?s @ summary_fence ?s # (gap @ end_marker (sy_id row) # rest))"
    by (simp add: block_tail_def Let_def)
  also have "\<dots> = (split_lines ?s, True, gap @ end_marker (sy_id row) # rest)"
    by (rule read_fence_closed [OF summary_line_open fence_length_fence(1)])
  finally show ?thesis
    by (simp add: read_summary_def fence_length_fence)
qed

lemma read_block_delivered:
  assumes "clean_row row" "gap_ok gap"
  shows "read_block (sy_id row) (start_marker (sy_id row)) (tl (delivered_lines gap row) @ rest)
    = Some (delivered_block gap row, length (tl (delivered_lines gap row)))"
proof -
  let ?s = "canonical_summary (sy_summary row)" and ?tl = "tl (delivered_lines gap row)"
  let ?fence = "summary_fence ?s @ ''text''" and ?em = "end_marker (sy_id row)"
  have tl: "?tl = map header_line (rendered_fields row) @ [] # ?fence # block_tail gap row"
    by (simp add: delivered_split)
  have header: "read_header ?em (?tl @ rest) [] []
      = (rendered_fields row, [], [] # ?fence # block_tail gap row @ rest)"
    using read_header_fields [OF header_keys, of row "[]" "sy_id row" "?fence # block_tail gap row @ rest" "[]"]
      assms(1) header_distinct [of row] by (simp add: tl clean_row_def)
  have skip1: "skip_blank ([] # ?fence # block_tail gap row @ rest) = ?fence # block_tail gap row @ rest"
    using fence_facts [of ?s] by (simp add: strip_def [of "[]"])
  have skip2: "skip_blank (gap @ ?em # rest) = ?em # rest"
    using skip_blank_gap [OF assms(2)] marker_ends [of "sy_id row"] by simp
  have fmt: "map_of (rendered_fields row) ''blockFormat'' = Some BLOCK_FORMAT"
    by (simp add: rendered_fields_def)
  have len: "length (?tl @ rest) - length (?em # rest) = length ?tl - 1" by simp
  have suc: "length ?tl - 1 + 1 = length ?tl" by (simp add: tl)
  have whole: "start_marker (sy_id row) # take (length ?tl) (?tl @ rest) = delivered_lines gap row"
    by (simp add: delivered_split)
  show ?thesis
    unfolding read_block_def Let_def header prod.case skip1 read_summary_tail fmt declared_format_def
      option.case skip2 list.sel marker_ends len suc whole
    by (simp add: delivered_block_def)
qed

lemma parse_delivered:
  assumes "clean_row row" "gap_ok gap"
  shows "parse_lines (delivered_lines gap row @ rest) doc
    = parse_lines rest (add_block (sy_id row) (delivered_block gap row) doc)"
proof -
  have "clean (sy_id row)" using assms(1) by (simp add: clean_row_def rendered_fields_def)
  then have id: "marker_id (start_marker (sy_id row)) = Some (sy_id row)" by (rule marker_id_start)
  define T where "T = tl (delivered_lines gap row)"
  have T: "delivered_lines gap row = start_marker (sy_id row) # T"
    by (simp add: T_def delivered_split)
  show ?thesis
    unfolding T append_Cons parse_lines.simps(2) id option.case
      read_block_delivered [OF assms, of rest, folded T_def] prod.case
    by simp
qed

section \<open>A document\<close>

text \<open>Each part of a document: lines that are no start marker, and the block that follows them.\<close>

type_synonym part = "string list \<times> string list \<times> sync_row"

definition part_ok :: "part \<Rightarrow> bool" where
  "part_ok = (\<lambda>(before, gap, row).
     list_all (\<lambda>l. one_line l \<and> marker_id l = None) before \<and> gap_ok gap \<and> clean_row row)"

definition part_lines :: "part \<Rightarrow> string list" where
  "part_lines = (\<lambda>(before, gap, row). before @ delivered_lines gap row)"

definition part_block :: "part \<Rightarrow> string \<times> block" where
  "part_block = (\<lambda>(before, gap, row). (sy_id row, delivered_block gap row))"

definition document_lines :: "part list \<Rightarrow> string list \<Rightarrow> string list" where
  "document_lines parts after = concat (map part_lines parts) @ after"

lemma parse_prose:
  "list_all (\<lambda>l. one_line l \<and> marker_id l = None) before \<Longrightarrow> parse_lines (before @ ls) doc = parse_lines ls doc"
  by (induction before) auto

lemma parse_parts:
  assumes "list_all part_ok parts"
  shows "parse_lines (document_lines parts after) doc
    = parse_lines after (fold (\<lambda>(i, b). add_block i b) (map part_block parts) doc)"
  using assms
proof (induction parts arbitrary: doc)
  case Nil
  then show ?case by (simp add: document_lines_def)
next
  case (Cons p parts)
  obtain before gap row where p: "p = (before, gap, row)" by (cases p)
  then have ok: "list_all (\<lambda>l. one_line l \<and> marker_id l = None) before" "gap_ok gap" "clean_row row"
    using Cons.prems by (auto simp: part_ok_def)
  have "parse_lines (document_lines (p # parts) after) doc
      = parse_lines (delivered_lines gap row @ document_lines parts after) doc"
    using parse_prose [OF ok(1), of "delivered_lines gap row @ document_lines parts after" doc]
    by (simp add: document_lines_def part_lines_def p)
  also have "\<dots> = parse_lines (document_lines parts after)
      (add_block (sy_id row) (delivered_block gap row) doc)"
    by (rule parse_delivered [OF ok(3,2)])
  finally show ?case using Cons by (simp add: part_block_def p)
qed

lemma clean_lines:
  assumes "clean_row row" "gap_ok gap"
  shows "\<forall>l\<in>set (delivered_lines gap row). one_line l"
proof -
  have "one_line (snd kv)" if "kv \<in> set (rendered_fields row)" for kv
    using assms(1) that by (auto simp: clean_row_def list_all_iff clean_def)
  moreover have "one_line (fst kv)" if "kv \<in> set (rendered_fields row)" for kv
    using that by (auto simp: rendered_fields_def one_line_def)
  ultimately have "one_line (header_line kv)" if "kv \<in> set (rendered_fields row)" for kv
    using that by (simp add: header_line_def one_line_def)
  moreover have "one_line (sy_id row)"
    using assms(1) by (simp add: clean_row_def rendered_fields_def clean_def)
  then have "one_line (start_marker (sy_id row))" "one_line (end_marker (sy_id row))"
    by (simp_all add: one_line_def start_marker_def end_marker_def)
  moreover have "one_line (summary_fence s)" "one_line (summary_fence s @ ''text'')" for s
    by (auto simp: one_line_def summary_fence_def FENCE_CHARACTER_def)
  moreover have "one_line l" if "l \<in> set gap" for l
    using assms(2) that by (auto simp: gap_ok_def list_all_iff)
  ultimately show ?thesis
    by (auto simp: delivered_lines_def Let_def split_lines_one_line) (simp add: one_line_def)
qed

lemma document_one_line:
  assumes "list_all part_ok parts" "list_all (\<lambda>l. one_line l \<and> marker_id l = None) after"
  shows "\<forall>l\<in>set (document_lines parts after). one_line l"
proof -
  have "\<forall>l\<in>set (part_lines p). one_line l" if "p \<in> set parts" for p
  proof -
    obtain before gap row where p: "p = (before, gap, row)" by (cases p)
    have "part_ok p" using assms(1) that by (simp add: list_all_iff)
    with p have "list_all (\<lambda>l. one_line l \<and> marker_id l = None) before" "gap_ok gap" "clean_row row"
      by (auto simp: part_ok_def)
    with clean_lines [of row gap] show ?thesis by (auto simp: part_lines_def p list_all_iff)
  qed
  with assms(2) show ?thesis by (auto simp: document_lines_def list_all_iff)
qed

lemma parse_document_parts:
  assumes "list_all part_ok parts" "list_all (\<lambda>l. one_line l \<and> marker_id l = None) after" "parts \<noteq> []"
  shows "parse_document (join_lines (document_lines parts after))
    = fold (\<lambda>(i, b). add_block i b) (map part_block parts) empty_document"
proof -
  let ?ls = "document_lines parts after"
  obtain p ps where parts: "parts = p # ps" using assms(3) by (cases parts) auto
  have ne: "?ls \<noteq> []"
    by (cases p) (simp add: document_lines_def parts part_lines_def delivered_split)
  have "parse_document (join_lines ?ls) = parse_lines (split_lines (join_lines ?ls)) empty_document"
  proof (cases "join_lines ?ls = []")
    case True
    then have "split_lines (join_lines ?ls) = [[]]" by simp
    moreover have "marker_id [] = None" by (simp add: marker_id_def strip_def starts_with_def)
    ultimately show ?thesis using True by (simp add: parse_document_def)
  next
    case False
    then show ?thesis by (simp add: parse_document_def)
  qed
  also have "split_lines (join_lines ?ls) = ?ls"
    by (rule split_join_lines [OF ne document_one_line [OF assms(1,2)]])
  also have "parse_lines ?ls empty_document
      = parse_lines (after @ []) (fold (\<lambda>(i, b). add_block i b) (map part_block parts) empty_document)"
    using parse_parts [OF assms(1)] by simp
  also have "\<dots> = fold (\<lambda>(i, b). add_block i b) (map part_block parts) empty_document"
    by (subst parse_prose [OF assms(2)]) simp
  finally show ?thesis .
qed

lemma fold_add_distinct:
  assumes "distinct (map fst (doc_blocks doc) @ map fst bs)"
  shows "fold (\<lambda>(i, b). add_block i b) bs doc = doc\<lparr>doc_blocks := doc_blocks doc @ bs\<rparr>"
  using assms
proof (induction bs arbitrary: doc)
  case (Cons p bs)
  obtain i b where p: "p = (i, b)" by (cases p)
  have fresh: "i \<notin> set (map fst (doc_blocks doc))" using Cons.prems p by auto
  have add: "add_block i b doc = doc\<lparr>doc_blocks := doc_blocks doc @ [(i, b)]\<rparr>"
    unfolding add_block_def update_fresh [OF fresh] using fresh by simp
  show ?case using Cons.prems Cons.IH [of "add_block i b doc"] by (simp add: p add)
qed simp

lemma add_block_select [simp]:
  "set (map fst (doc_blocks (add_block i b doc))) = insert i (set (map fst (doc_blocks doc)))"
  "doc_malformed (add_block i b doc) = doc_malformed doc"
  by (simp_all add: add_block_def dom_update)

lemma fold_add_malformed: "doc_malformed (fold (\<lambda>(i, b). add_block i b) bs doc) = doc_malformed doc"
  by (induction bs arbitrary: doc) auto

lemma fold_add_duplicates:
  "i \<in> set (doc_duplicates (fold (\<lambda>(i, b). add_block i b) bs doc))
    \<longleftrightarrow> i \<in> set (doc_duplicates doc)
      \<or> (if i \<in> set (map fst (doc_blocks doc)) then 1 else 2) \<le> count_list (map fst bs) i"
proof (induction bs arbitrary: doc)
  case (Cons p bs)
  obtain j b where p: "p = (j, b)" by (cases p)
  have dup: "i \<in> set (doc_duplicates (add_block j b doc))
      \<longleftrightarrow> i \<in> set (doc_duplicates doc) \<or> (i = j \<and> i \<in> set (map fst (doc_blocks doc)))"
    by (auto simp: add_block_def)
  show ?case
    using Cons.IH [of "add_block j b doc"] dup add_block_select(1) [of j b doc]
    by (simp add: p del: add_block_select)
qed simp

text \<open>
  C34: a document put together from rendered blocks and lines that are no start marker is read back
  block for block, whatever the summaries quote: nothing is malformed, an identifier is reported as a
  duplicate exactly when it occurs twice, and without duplicates the blocks are the rendered ones in
  order.
\<close>

theorem document_roundtrip:
  assumes "list_all part_ok parts" "list_all (\<lambda>l. one_line l \<and> marker_id l = None) after" "parts \<noteq> []"
  shows "doc_malformed (parse_document (join_lines (document_lines parts after))) = []
    \<and> set (doc_duplicates (parse_document (join_lines (document_lines parts after))))
        = {i. 2 \<le> count_list (map (fst \<circ> part_block) parts) i}
    \<and> (distinct (map (fst \<circ> part_block) parts) \<longrightarrow>
         parse_document (join_lines (document_lines parts after))
           = \<lparr>doc_blocks = map part_block parts, doc_duplicates = [], doc_malformed = []\<rparr>)"
  unfolding parse_document_parts [OF assms]
  using fold_add_distinct [of empty_document "map part_block parts"]
  by (auto simp: fold_add_malformed fold_add_duplicates empty_document_def)

end
