(* ===== verification/Sync_Safety.thy ===== *)
theory Sync_Safety
  imports Sync_Outbox Sync_Roundtrip
begin

text \<open>
  What the operations of the outbox guarantee, as a state machine: how one step moves one job, the
  invariant of every reachable outbox, the finality of a confirmation, the fence of a claim, the
  backoff of a failure, and that the block a job renders confirms it.
\<close>

named_theorems job_updates "what the updates of one job leave and write"

section \<open>Steps\<close>

text \<open>The tokens claims of a run draw are the set \<open>T\<close>.\<close>

inductive sync_step :: "string set \<Rightarrow> sync_state \<Rightarrow> sync_state \<Rightarrow> bool" for T :: "string set" where
  step_target: "sync_step T s (set_target c relationship target target_ref s)"
| step_enqueue: "sync_step T s
    (fst (enqueue_in c relationship issue_key kind summary event gen revision verdict target s))"
| step_claim: "claim_job c token identifier owner s = Inr s' \<Longrightarrow> token \<in> T \<Longrightarrow> sync_step T s s'"
| step_complete: "sync_step T s
    (fst (complete_job c identifier claim_token target_ref readback external_ref s))"
| step_fail: "fail_job c identifier claim_token error s = Inr s' \<Longrightarrow> sync_step T s s'"
| step_retry: "sync_step T s (fst (retry_job c identifier s))"

inductive job_step :: "string set \<Rightarrow> sync_row \<Rightarrow> sync_row \<Rightarrow> bool" for T :: "string set" where
  job_stays: "job_step T r r"
| job_claimed: "sy_state r \<noteq> CONFIRMED \<Longrightarrow> sy_state r \<noteq> FAILED \<Longrightarrow> token \<in> T
    \<Longrightarrow> job_step T r (claimed_job c owner token r)"
| job_confirmed: "sy_state r \<noteq> CONFIRMED \<Longrightarrow> judge_readback r readback = Inr observed
    \<Longrightarrow> job_step T r (confirmed_job c external_ref observed r)"
| job_written: "sy_state r \<noteq> CONFIRMED \<Longrightarrow> job_step T r (written_job c problems r)"
| job_failed: "sy_state r \<noteq> CONFIRMED
    \<Longrightarrow> job_step T r (failed_job c (if MAX_ATTEMPTS \<le> sy_attempts r + 1 then FAILED else PENDING)
          (sy_attempts r + 1) error delay r)"
| job_retried: "sy_state r \<noteq> CONFIRMED \<Longrightarrow> job_step T r (retried_job c r)"

text \<open>The columns no operation rewrites.\<close>

definition same_job :: "sync_row \<Rightarrow> sync_row \<Rightarrow> bool" where
  "same_job r r' = (sy_id r' = sy_id r \<and> sy_relationship r' = sy_relationship r
     \<and> sy_issue_key r' = sy_issue_key r \<and> sy_target r' = sy_target r
     \<and> sy_target_ref r' = sy_target_ref r \<and> sy_subject_kind r' = sy_subject_kind r
     \<and> sy_event r' = sy_event r \<and> sy_generation r' = sy_generation r
     \<and> sy_revision r' = sy_revision r \<and> sy_verdict r' = sy_verdict r \<and> sy_digest r' = sy_digest r
     \<and> sy_summary r' = sy_summary r)"

lemma same_job_updates [job_updates]:
  "same_job r r" "same_job r (claimed_job c owner token r)" "same_job r (confirmed_job c x obs r)"
  "same_job r (written_job c ps r)" "same_job r (failed_job c st n e d r)"
  "same_job r (retried_job c r)"
  by (simp_all add: same_job_def claimed_job_def confirmed_job_def written_job_def failed_job_def
      retried_job_def)

lemma job_step_same: "job_step T r r' \<Longrightarrow> same_job r r'"
  by (cases rule: job_step.cases) (auto intro: job_updates)

lemma same_job_judged:
  assumes "same_job r r'"
  shows "rendered_fields r' = rendered_fields r" "payload_mismatch r' b = payload_mismatch r b"
    "judge_readback r' t = judge_readback r t"
proof -
  show f: "rendered_fields r' = rendered_fields r"
    using assms unfolding same_job_def rendered_fields_def by simp
  have e: "expected_identity r' = expected_identity r"
    using assms unfolding same_job_def expected_identity_def by simp
  have i: "sy_summary r' = sy_summary r" "sy_id r' = sy_id r" using assms by (simp_all add: same_job_def)
  have p: "payload_mismatch r' b = payload_mismatch r b" for b
    unfolding payload_mismatch_def v2_mismatch_def identity_mismatch_def f e i by (rule refl)
  then show "payload_mismatch r' b = payload_mismatch r b" .
  show "judge_readback r' t = judge_readback r t"
    unfolding judge_readback_def p i by (rule refl)
qed

section \<open>One step moves each job by one job step\<close>

inductive fresh_job :: "sync_row \<Rightarrow> bool" where
  "fresh_job (new_job rel issue target ref kind event gen revision verdict summary now)"

definition outbox_moves :: "string set \<Rightarrow> sync_row list \<Rightarrow> sync_row list \<Rightarrow> bool" where
  "outbox_moves T t t' = (\<exists>rows added. t' = rows @ added \<and> list_all2 (job_step T) t rows
     \<and> (\<forall>job\<in>set added. fresh_job job \<and> sy_id job \<notin> sy_id ` set t) \<and> length added \<le> 1)"

lemma moves_refl: "outbox_moves T t t"
  unfolding outbox_moves_def by (rule exI [of _ t]) (simp add: list_all2_refl job_stays)

lemma moves_update:
  assumes "\<And>r. r \<in> set t \<Longrightarrow> P r \<Longrightarrow> job_step T r (f r)"
  shows "outbox_moves T t (update_where P f t)"
proof -
  have "list_all2 (job_step T) t (update_where P f t)"
    using assms by (induction t) (auto intro: job_stays)
  then show ?thesis unfolding outbox_moves_def
    by (intro exI [of _ "update_where P f t"] exI [of _ "[]"]) simp
qed

lemma moves_insert:
  assumes "fresh_job job"
  shows "outbox_moves T t (insert_or_ignore sy_id job t)"
proof (cases "sy_id job \<in> set (map sy_id t)")
  case True
  then show ?thesis by (simp add: insert_or_ignore_def moves_refl)
next
  case False
  then have "insert_or_ignore sy_id job t = t @ [job]" by (simp add: insert_or_ignore_def)
  with False assms show ?thesis unfolding outbox_moves_def
    by (intro exI [of _ t] exI [of _ "[job]"]) (simp add: list_all2_refl job_stays)
qed

lemma outbox_select [simp]:
  "sync_outbox (sync_journal k i d stamp s) = sync_outbox s"
  "sync_outbox (update_jobs P f s) = update_where P f (sync_outbox s)"
  "sync_outbox (set_target c r t ref s) = sync_outbox s"
  by (simp_all add: sync_journal_def update_jobs_def set_target_def)

definition unique_jobs :: "sync_state \<Rightarrow> bool" where
  "unique_jobs s = distinct (map sy_id (sync_outbox s))"

lemma find_job_only:
  assumes "find_job i s = Some row" "unique_jobs s" "r \<in> set (sync_outbox s)" "sy_id r = i"
  shows "r = row"
proof -
  have "row \<in> set (sync_outbox s) \<and> sy_id row = i"
    using assms(1) unfolding find_job_def by (rule find_Some_iff_mem)
  with assms(2-4) show ?thesis
    using key_unique [of sy_id "sync_outbox s" r row] by (simp add: unique_jobs_def)
qed

lemma fenced_Inr: "fenced i t s = Inr row \<longleftrightarrow> find_job i s = Some row \<and> sy_claim_token row = t"
  by (auto simp: fenced_def split: option.splits)

lemma claim_job_cases:
  assumes "claim_job c token i owner s = Inr s'"
  shows "\<exists>row. find_job i s = Some row \<and> sy_state row \<noteq> CONFIRMED \<and> sy_state row \<noteq> FAILED
    \<and> due (clk_now c) (sy_next_attempt_at row) \<and> due (clk_now c) (sy_lease_until row)
    \<and> s' = update_jobs (\<lambda>r. sy_id r = i) (claimed_job c owner token) s"
  using assms unfolding claim_job_def by (auto split: option.splits if_splits)

lemma fail_job_cases:
  assumes "fail_job c i t error s = Inr s'"
  shows "\<exists>row delay. find_job i s = Some row \<and> sy_claim_token row = t \<and> sy_state row \<noteq> CONFIRMED
    \<and> sync_delay (sy_attempts row + 1) = Inr delay
    \<and> sync_outbox s' = update_where (\<lambda>r. sy_id r = i)
        (failed_job c (if MAX_ATTEMPTS \<le> sy_attempts row + 1 then FAILED else PENDING)
          (sy_attempts row + 1) error delay) (sync_outbox s)"
  using assms unfolding fail_job_def by (auto simp: fenced_Inr Let_def split: if_splits)

lemma complete_job_cases:
  obtains (refused) e where "complete_job c i t ref readback ext s = (s, Inl e)"
  | (again) row where "find_job i s = Some row" "sy_state row = CONFIRMED"
      "complete_job c i t ref readback ext s = (s, Inr row)"
  | (confirmed) row observed where "find_job i s = Some row" "sy_claim_token row = t"
      "sy_state row \<noteq> CONFIRMED" "sy_target_ref row = ref" "judge_readback row readback = Inr observed"
      "sync_outbox (fst (complete_job c i t ref readback ext s))
        = update_where (\<lambda>r. sy_id r = i) (confirmed_job c ext observed) (sync_outbox s)"
  | (mismatch) row problems where "find_job i s = Some row" "sy_claim_token row = t"
      "sy_state row \<noteq> CONFIRMED" "judge_readback row readback = Inl problems"
      "complete_job c i t ref readback ext s
        = (update_jobs (\<lambda>r. sy_id r = i \<and> t \<noteq> None \<and> sy_claim_token r = t \<and> sy_state r \<noteq> CONFIRMED)
             (written_job c problems) s, Inl (RelayError AckRefused READBACK_MISMATCH))"
proof (cases "fenced i t s")
  case (Inl e)
  then show thesis by (intro refused [of e]) (simp add: complete_job_def)
next
  case (Inr row)
  then have row: "find_job i s = Some row" "sy_claim_token row = t" by (simp_all add: fenced_Inr)
  show thesis
  proof (cases "sy_state row = CONFIRMED \<or> sy_target_ref row \<noteq> ref")
    case True
    then show thesis
      using again [OF row(1)] refused Inr by (cases "sy_state row = CONFIRMED") (auto simp: complete_job_def)
  next
    case False
    show thesis
    proof (cases "judge_readback row readback")
      case (Inl problems)
      with False Inr show thesis
        by (intro mismatch [OF row, of problems]) (auto simp: complete_job_def)
    next
      case (Inr observed)
      with False \<open>fenced i t s = Inr row\<close> show thesis
        by (intro confirmed [OF row, of observed]) (auto simp: complete_job_def Let_def)
    qed
  qed
qed

lemma sync_step_moves:
  assumes "sync_step T s s'" "unique_jobs s"
  shows "outbox_moves T (sync_outbox s) (sync_outbox s')"
  using assms(1)
proof cases
  case (step_target c relationship target target_ref)
  then show ?thesis by (simp add: moves_refl)
next
  case (step_enqueue c relationship issue_key kind summary event gen revision verdict target)
  then show ?thesis
    by (cases "target_for relationship target s")
       (auto simp: enqueue_in_def Let_def moves_refl intro: moves_insert fresh_job.intros)
next
  case (step_claim c token i owner)
  from claim_job_cases [OF step_claim(1)] obtain row where row: "find_job i s = Some row"
    "sy_state row \<noteq> CONFIRMED" "sy_state row \<noteq> FAILED"
    and s': "s' = update_jobs (\<lambda>r. sy_id r = i) (claimed_job c owner token) s" by blast
  show ?thesis unfolding s' outbox_select
    by (rule moves_update) (use find_job_only [OF row(1) assms(2)] row step_claim(2) in \<open>auto intro: job_claimed\<close>)
next
  case (step_complete c i t ref readback ext)
  show ?thesis
  proof (cases rule: complete_job_cases [of c i t ref readback ext s])
    case (refused e)
    with step_complete show ?thesis by (simp add: moves_refl)
  next
    case (again row)
    with step_complete show ?thesis by (simp add: moves_refl)
  next
    case (confirmed row observed)
    show ?thesis unfolding step_complete confirmed(6)
      by (rule moves_update)
         (use find_job_only [OF confirmed(1) assms(2)] confirmed(3,5) in \<open>auto intro: job_confirmed\<close>)
  next
    case (mismatch row problems)
    show ?thesis unfolding step_complete mismatch(5) fst_conv outbox_select
      by (rule moves_update) (auto intro: job_written)
  qed
next
  case (step_fail c i t error)
  from fail_job_cases [OF step_fail] obtain row delay where row: "find_job i s = Some row"
    "sy_state row \<noteq> CONFIRMED"
    and s': "sync_outbox s' = update_where (\<lambda>r. sy_id r = i)
        (failed_job c (if MAX_ATTEMPTS \<le> sy_attempts row + 1 then FAILED else PENDING)
          (sy_attempts row + 1) error delay) (sync_outbox s)" by blast
  show ?thesis unfolding s'
  proof (rule moves_update)
    fix r assume "r \<in> set (sync_outbox s)" "sy_id r = i"
    then have "r = row" by (rule find_job_only [OF row(1) assms(2)])
    with row(2) show "job_step T r
        (failed_job c (if MAX_ATTEMPTS \<le> sy_attempts row + 1 then FAILED else PENDING)
          (sy_attempts row + 1) error delay r)" by (simp add: job_failed del: if_split)
  qed
next
  case (step_retry c i)
  show ?thesis unfolding step_retry retry_job_def Let_def fst_conv outbox_select
    by (rule moves_update) (auto intro: job_retried)
qed

section \<open>The invariant\<close>

definition job_inv :: "sync_row \<Rightarrow> bool" where
  "job_inv r =
     (sy_id r = sync_id (sy_target r) (sy_target_ref r) (sy_subject_kind r) (sy_relationship r)
        (sy_event r) (sy_generation r) (sy_revision r) (sy_verdict r)
      \<and> sy_state r \<in> {PENDING, CLAIMED, WRITTEN, CONFIRMED, FAILED}
      \<and> (sy_lease_until r \<noteq> None \<longleftrightarrow> sy_state r = CLAIMED)
      \<and> (sy_state r = PENDING \<or> sy_state r = FAILED \<longrightarrow> sy_claim_token r = None)
      \<and> 0 \<le> sy_attempts r \<and> (sy_state r = FAILED \<longrightarrow> MAX_ATTEMPTS \<le> sy_attempts r)
      \<and> (sy_state r = CONFIRMED \<longrightarrow>
           (\<exists>t. \<exists>observed. judge_readback r t = Inr observed \<and> sy_readback r = Some observed)))"

definition sync_inv :: "sync_state \<Rightarrow> bool" where
  "sync_inv s = (unique_jobs s \<and> (\<forall>r\<in>set (sync_outbox s). job_inv r))"

lemma state_names:
  "PENDING \<noteq> CLAIMED" "PENDING \<noteq> WRITTEN" "PENDING \<noteq> CONFIRMED" "PENDING \<noteq> FAILED"
  "CLAIMED \<noteq> WRITTEN" "CLAIMED \<noteq> CONFIRMED" "CLAIMED \<noteq> FAILED" "WRITTEN \<noteq> CONFIRMED"
  "WRITTEN \<noteq> FAILED" "CONFIRMED \<noteq> FAILED"
  by (simp_all add: PENDING_def CLAIMED_def WRITTEN_def CONFIRMED_def FAILED_def)

lemmas state_facts = state_names state_names [symmetric]

lemma fresh_job_inv: "fresh_job r \<Longrightarrow> job_inv r"
  by (induction rule: fresh_job.induct) (simp add: job_inv_def new_job_def state_facts)

lemma job_step_inv:
  assumes "job_step T r r'" "job_inv r" shows "job_inv r'"
proof -
  have id: "sy_id r' = sync_id (sy_target r') (sy_target_ref r') (sy_subject_kind r') (sy_relationship r')
        (sy_event r') (sy_generation r') (sy_revision r') (sy_verdict r')"
    using job_step_same [OF assms(1)] assms(2) by (simp add: same_job_def job_inv_def)
  note judged = same_job_judged(3) [OF job_step_same [OF assms(1)]]
  note fields = claimed_job_def confirmed_job_def written_job_def failed_job_def retried_job_def
  show ?thesis
    using assms(1)
  proof cases
    case job_stays
    with assms(2) show ?thesis by simp
  next
    case (job_claimed token c owner)
    with id assms(2) show ?thesis by (simp add: job_inv_def fields state_facts)
  next
    case (job_confirmed readback observed c ext)
    have "judge_readback r' readback = Inr observed" using judged job_confirmed(3) by simp
    with id assms(2) job_confirmed show ?thesis
      by (auto simp: job_inv_def fields state_facts)
  next
    case (job_written c problems)
    with id assms(2) show ?thesis by (simp add: job_inv_def fields state_facts)
  next
    case (job_failed error delay c)
    with id assms(2) show ?thesis by (simp add: job_inv_def fields state_facts)
  next
    case (job_retried c)
    with id assms(2) show ?thesis by (simp add: job_inv_def fields state_facts)
  qed
qed

lemma moved_row:
  assumes "outbox_moves T t t'" "r' \<in> set t'"
  shows "fresh_job r' \<or> (\<exists>r\<in>set t. job_step T r r')"
proof -
  obtain rows added where t': "t' = rows @ added" "list_all2 (job_step T) t rows"
    and added: "\<forall>job\<in>set added. fresh_job job"
    using assms(1) by (auto simp: outbox_moves_def)
  show ?thesis
  proof (cases "r' \<in> set added")
    case True
    with added show ?thesis by blast
  next
    case False
    with assms(2) t'(1) obtain k where "k < length rows" "rows ! k = r'" by (auto simp: in_set_conv_nth)
    then have "job_step T (t ! k) r'" "t ! k \<in> set t"
      using t'(2) by (auto simp: list_all2_conv_all_nth)
    then show ?thesis by blast
  qed
qed

lemma moved_from:
  assumes "outbox_moves T t t'" "r \<in> set t"
  shows "\<exists>r'\<in>set t'. job_step T r r'"
proof -
  obtain rows added where t': "t' = rows @ added" "list_all2 (job_step T) t rows"
    using assms(1) by (auto simp: outbox_moves_def)
  obtain k where k: "k < length t" "t ! k = r" using assms(2) by (auto simp: in_set_conv_nth)
  then have "job_step T r (rows ! k)" "rows ! k \<in> set rows"
    using t'(2) by (auto simp: list_all2_conv_all_nth)
  with t'(1) show ?thesis by auto
qed

lemma moved_ids:
  assumes "outbox_moves T t t'" "distinct (map sy_id t)"
  shows "distinct (map sy_id t')"
proof -
  obtain rows added where t': "t' = rows @ added" "list_all2 (job_step T) t rows"
    and added: "\<forall>job\<in>set added. sy_id job \<notin> sy_id ` set t" "length added \<le> 1"
    using assms(1) by (auto simp: outbox_moves_def)
  have ids: "map sy_id rows = map sy_id t"
    using t'(2)
    by (induction rule: list_all2_induct) (auto dest!: job_step_same simp: same_job_def)
  have "distinct (map sy_id added)" using added(2) by (cases added) auto
  moreover have "set (map sy_id t) \<inter> set (map sy_id added) = {}"
    using added(1) by auto (metis imageI)
  ultimately show ?thesis using assms(2) unfolding t'(1) map_append distinct_append ids by blast
qed

lemma sync_step_inv: "sync_step T s s' \<Longrightarrow> sync_inv s \<Longrightarrow> sync_inv s'"
proof -
  assume step: "sync_step T s s'" and inv: "sync_inv s"
  then have u: "unique_jobs s" by (simp add: sync_inv_def)
  note moves = sync_step_moves [OF step u]
  have "unique_jobs s'" using moved_ids [OF moves] u by (simp add: unique_jobs_def)
  moreover have "job_inv r" if "r \<in> set (sync_outbox s')" for r
    using moved_row [OF moves that] fresh_job_inv job_step_inv inv by (auto simp: sync_inv_def)
  ultimately show "sync_inv s'" by (simp add: sync_inv_def)
qed

interpretation sync_machine: invariant_machine "sync_step T" sync_inv for T
  by unfold_locales (rule sync_step_inv)

lemma empty_sync_inv: "sync_inv (empty_sync db)"
  by (simp add: sync_inv_def unique_jobs_def empty_sync_def)

lemma sync_reachable_inv: "reachable (sync_step T) (empty_sync db) s \<Longrightarrow> sync_inv s"
  using sync_machine.reachable_inv empty_sync_inv by blast

text \<open>A job stays in the outbox, with the columns that say what it owes.\<close>

lemma job_remains:
  assumes "reachable (sync_step T) s s'" "sync_inv s" "r \<in> set (sync_outbox s)"
  shows "\<exists>r'\<in>set (sync_outbox s'). same_job r r'"
  using assms
proof (induction rule: reachable.induct)
  case reach_start
  then show ?case using job_updates(1) by blast
next
  case (reach_step s1 s2)
  then obtain r1 where r1: "r1 \<in> set (sync_outbox s1)" "same_job r r1" by blast
  have "unique_jobs s1"
    using sync_machine.reachable_inv [OF reach_step(1) reach_step.prems(1)] by (simp add: sync_inv_def)
  from moved_from [OF sync_step_moves [OF reach_step(2) this] r1(1)]
  obtain r2 where "r2 \<in> set (sync_outbox s2)" "job_step T r1 r2" by blast
  with job_step_same [of T r1 r2] r1(2) show ?case by (auto simp: same_job_def)
qed

section \<open>Properties\<close>

lemma judge_readback_Inr:
  "judge_readback r t = Inr observed \<longleftrightarrow>
     sy_id r \<notin> set (doc_malformed (parse_document t))
     \<and> sy_id r \<notin> set (doc_duplicates (parse_document t))
     \<and> (\<exists>found. map_of (doc_blocks (parse_document t)) (sy_id r) = Some found
          \<and> payload_mismatch r found = [] \<and> observed = bk_text found)"
  unfolding judge_readback_def Let_def by (auto split: option.splits)

text \<open>A block in the current format without a mismatch carries the job's record and nothing else.\<close>

lemma field_problem_Nil: "field_problem expected hdrs k = [] \<longleftrightarrow>
    (\<exists>v. map_of hdrs k = Some v \<and> map_of expected k = Some v)"
  unfolding field_problem_def by (auto split: option.splits)

lemma rendered_keys: "map fst (rendered_fields r) = RENDERED_FIELDS"
  by (simp add: rendered_fields_def RENDERED_FIELDS_def)

lemma if_Nil: "(if c then [] else [m]) = [] \<longleftrightarrow> c"
  by simp

lemma v2_block_carries:
  assumes "v2_mismatch r b = []"
  shows "map_of (bk_fields b) = map_of (rendered_fields r)" "bk_summary b = canonical_summary (sy_summary r)"
proof -
  let ?F = "field_problem (rendered_fields r) (bk_fields b)"
  let ?U = "sort (filter (\<lambda>k. k \<notin> set RENDERED_FIELDS) (map fst (bk_fields b)))"
  have all: "concat (map ?F RENDERED_FIELDS) = [] \<and> ?U = []
      \<and> bk_summary b = canonical_summary (sy_summary r)"
    using assms unfolding v2_mismatch_def Let_def append_is_Nil_conv if_Nil .
  then show "bk_summary b = canonical_summary (sy_summary r)" by (elim conjE)
  from all have "concat (map ?F RENDERED_FIELDS) = []" by (elim conjE)
  then have parts: "\<forall>k\<in>set RENDERED_FIELDS. ?F k = []"
    unfolding concat_eq_Nil_conv set_map by (rule ball_imageD)
  from all have "?U = []" by (elim conjE)
  then have "set ?U = {}" by (simp only: list.set)
  then have sub: "set (map fst (bk_fields b)) \<subseteq> set RENDERED_FIELDS" by auto
  show "map_of (bk_fields b) = map_of (rendered_fields r)"
  proof
    fix k
    show "map_of (bk_fields b) k = map_of (rendered_fields r) k"
    proof (cases "k \<in> set RENDERED_FIELDS")
      case True
      with parts have "?F k = []" by (rule bspec)
      then show ?thesis unfolding field_problem_Nil by auto
    next
      case False
      have "set (map fst (rendered_fields r)) = set RENDERED_FIELDS" by (simp only: rendered_keys)
      with False sub have "k \<notin> fst ` set (bk_fields b)" "k \<notin> fst ` set (rendered_fields r)"
        unfolding set_map by blast+
      then show ?thesis by (metis map_of_eq_None_iff)
    qed
  qed
qed

section \<open>A rendered block confirms its job\<close>

lemma delivered_no_mismatch: "payload_mismatch r (delivered_block gap r) = []"
proof -
  have "field_problem (rendered_fields r) (rendered_fields r) k = []" if "k \<in> set RENDERED_FIELDS" for k
  proof -
    from that have "k \<in> fst ` set (rendered_fields r)"
      using rendered_keys [of r] by (metis list.set_map)
    then obtain v where "map_of (rendered_fields r) k = Some v"
      by (metis domD dom_map_of_conv_image_fst)
    then show ?thesis unfolding field_problem_Nil by blast
  qed
  then have "concat (map (field_problem (rendered_fields r) (rendered_fields r)) RENDERED_FIELDS) = []"
    by (simp add: concat_eq_Nil_conv)
  moreover have "filter (\<lambda>k. k \<notin> set RENDERED_FIELDS) (map fst (rendered_fields r)) = []"
    unfolding rendered_keys by (rule filter_False) blast
  ultimately have "v2_mismatch r (delivered_block gap r) = []"
    unfolding v2_mismatch_def Let_def delivered_block_def block.simps by simp
  then show ?thesis by (simp add: payload_mismatch_def delivered_block_def)
qed

lemma delivered_judged:
  assumes "list_all part_ok parts" "list_all (\<lambda>l. one_line l \<and> marker_id l = None) after"
    and "distinct (map (fst \<circ> part_block) parts)" "(before, gap, r) \<in> set parts"
  shows "judge_readback r (join_lines (document_lines parts after))
    = Inr (join_lines (delivered_lines gap r))"
proof -
  let ?t = "join_lines (document_lines parts after)"
  have "parts \<noteq> []" using assms(4) by auto
  then have "parse_document ?t = empty_document\<lparr>doc_blocks := map part_block parts\<rparr>"
    using parse_document_parts [OF assms(1,2)] fold_add_distinct [of empty_document "map part_block parts"]
      assms(3) by (simp add: empty_document_def)
  then have doc: "doc_blocks (parse_document ?t) = map part_block parts"
    "doc_duplicates (parse_document ?t) = []" "doc_malformed (parse_document ?t) = []"
    by (simp_all add: empty_document_def)
  have "(sy_id r, delivered_block gap r) \<in> set (map part_block parts)"
    using assms(4) by (force simp: part_block_def)
  then have "map_of (map part_block parts) (sy_id r) = Some (delivered_block gap r)"
    using assms(3) by simp
  with doc delivered_no_mismatch [of r gap] show ?thesis
    unfolding judge_readback_Inr by (simp add: delivered_block_def)
qed

lemma reconcile_judged:
  assumes "judge_readback r text = Inr observed" "find_job (sy_id r) s = Some r"
  shows "reconcile_job (sy_id r) text s = Inr (Already_Written observed)"
  using assms(1) unfolding judge_readback_Inr
  by (auto simp: reconcile_job_def get_job_def assms(2) Let_def)

lemma find_job_update:
  assumes "\<And>r. sy_id (f r) = sy_id r"
  shows "find_job i (sync_journal k j d t (update_jobs (\<lambda>r. sy_id r = i) f s)) = map_option f (find_job i s)"
proof -
  have "List.find (\<lambda>r. sy_id r = i) (update_where (\<lambda>r. sy_id r = i) f rows)
      = map_option f (List.find (\<lambda>r. sy_id r = i) rows)" for rows
    by (induction rows) (auto simp: assms)
  then show ?thesis by (simp add: find_job_def)
qed

lemma complete_judged:
  assumes "judge_readback r text = Inr observed" "find_job i s = Some r" "sy_claim_token r = tok"
    "sy_state r \<noteq> CONFIRMED"
  shows "snd (complete_job c i tok (sy_target_ref r) text ext s) = Inr (confirmed_job c ext observed r)"
proof -
  have "fenced i tok s = Inr r" using assms(2,3) by (simp add: fenced_Inr)
  moreover have "sy_id (confirmed_job c ext observed x) = sy_id x" for x
    by (simp add: confirmed_job_def)
  ultimately show ?thesis
    using assms find_job_update [of "confirmed_job c ext observed"]
    by (simp add: complete_job_def Let_def get_job_def)
qed

lemma clean_hex: "list_all is_hex s \<Longrightarrow> clean s"
proof -
  assume hex: "list_all is_hex s"
  have "list_all (\<lambda>c. c \<noteq> newline \<and> \<not> is_space c) ''0123456789abcdef''" by code_simp
  then have no: "c \<noteq> newline \<and> \<not> is_space c" if "c \<in> set s" for c
    using hex that unfolding list_all_iff is_hex_def by blast
  show "clean s"
  proof (cases "s = []")
    case True
    then show ?thesis by (simp add: clean_def one_line_def strip_def)
  next
    case False
    then have "strip s = s" using no by (intro strip_fixed) auto
    with no show ?thesis by (auto simp: clean_def one_line_def)
  qed
qed

text \<open>
  a read-back that holds the block of a claimed job once, between any other rendered blocks and lines,
  with blank lines a connector may have put before the end marker, confirms it: reconciliation reports
  the write as landed and \<open>complete\<close> with the job's token and document moves it to confirmed, whatever
  the summary quotes.
\<close>

theorem rendered_block_confirms:
  assumes "list_all part_ok parts" "list_all (\<lambda>l. one_line l \<and> marker_id l = None) after"
    and "distinct (map (fst \<circ> part_block) parts)" "(before, gap, r) \<in> set parts"
    and "find_job (sy_id r) s = Some r" "sy_claim_token r = Some token" "sy_state r \<noteq> CONFIRMED"
  shows "reconcile_job (sy_id r) (join_lines (document_lines parts after)) s
        = Inr (Already_Written (join_lines (delivered_lines gap r)))
    \<and> (\<exists>r'. snd (complete_job c (sy_id r) (Some token) (sy_target_ref r)
                 (join_lines (document_lines parts after)) ext s) = Inr r'
          \<and> sy_state r' = CONFIRMED \<and> sy_readback r' = Some (join_lines (delivered_lines gap r)))"
proof -
  note judged = delivered_judged [OF assms(1-4)]
  from complete_judged [OF judged assms(5,6,7), of c ext] reconcile_judged [OF judged assms(5)]
  show ?thesis by (simp add: confirmed_job_def)
qed

section \<open>A run\<close>

definition demo_job :: sync_row where
  "demo_job = new_job ''rel'' ''ISSUE-1'' COORDINATION_DOCUMENT ''doc-1'' ''verdict'' (Some ''ev'')
     (Some 1) (Some ''hash'') (Some ''verified'') ''quotes ``` a fence'' ''t0''"

definition sync_clock :: clock where
  "sync_clock = \<lparr>clk_now = 0, clk_iso = ''t0''\<rparr>"

definition demo_claimed :: sync_state where
  "demo_claimed = (let s0 = set_target sync_clock ''rel'' COORDINATION_DOCUMENT ''doc-1'' (empty_sync empty_db);
       s1 = fst (enqueue_in sync_clock ''rel'' ''ISSUE-1'' ''verdict'' ''quotes ``` a fence'' (Some ''ev'')
              (Some 1) (Some ''hash'') (Some ''verified'') COORDINATION_DOCUMENT s0)
     in update_jobs (\<lambda>r. sy_id r = sy_id demo_job) (claimed_job sync_clock ''writer'' ''tok'') s1)"

definition claimed_demo :: sync_row where
  "claimed_demo = claimed_job sync_clock ''writer'' ''tok'' demo_job"

definition demo_document :: string where
  "demo_document = join_lines (document_lines [([], [[]], claimed_demo)] [])"

lemma demo_outbox: "sync_outbox demo_claimed = [claimed_demo]"
proof -
  have job: "new_job ''rel'' ''ISSUE-1'' COORDINATION_DOCUMENT ''doc-1'' ''verdict'' (Some ''ev'')
     (Some 1) (Some ''hash'') (Some ''verified'') ''quotes ``` a fence'' ''t0'' = demo_job"
    by (simp add: demo_job_def)
  show ?thesis
    by (simp add: demo_claimed_def Let_def set_target_def empty_sync_def enqueue_in_def target_for_def
        upsert_def sync_clock_def job update_jobs_def sync_journal_def insert_or_ignore_def claimed_demo_def)
qed

lemma demo_run: "reachable (sync_step {''tok''}) (empty_sync db0) demo_claimed" if "db0 = empty_db"
proof -
  let ?s0 = "set_target sync_clock ''rel'' COORDINATION_DOCUMENT ''doc-1'' (empty_sync empty_db)"
  let ?s1 = "fst (enqueue_in sync_clock ''rel'' ''ISSUE-1'' ''verdict'' ''quotes ``` a fence'' (Some ''ev'')
              (Some 1) (Some ''hash'') (Some ''verified'') COORDINATION_DOCUMENT ?s0)"
  have job: "new_job ''rel'' ''ISSUE-1'' COORDINATION_DOCUMENT ''doc-1'' ''verdict'' (Some ''ev'')
     (Some 1) (Some ''hash'') (Some ''verified'') ''quotes ``` a fence'' ''t0'' = demo_job"
    by (simp add: demo_job_def)
  have "find_job (sy_id demo_job) ?s1 = Some demo_job"
    by (simp add: find_job_def set_target_def empty_sync_def enqueue_in_def target_for_def
        upsert_def sync_clock_def job sync_journal_def insert_or_ignore_def Let_def)
  moreover have "sy_state demo_job = PENDING" "sy_next_attempt_at demo_job = None" "sy_lease_until demo_job = None"
    by (simp_all add: demo_job_def new_job_def)
  ultimately have claim: "claim_job sync_clock ''tok'' (sy_id demo_job) ''writer'' ?s1 = Inr demo_claimed"
    by (simp add: claim_job_def due_def state_facts demo_claimed_def Let_def)
  have "reachable (sync_step {''tok''}) (empty_sync empty_db) ?s0"
    by (rule reach_one) (rule step_target)
  then have "reachable (sync_step {''tok''}) (empty_sync empty_db) ?s1"
    by (rule reach_step) (rule step_enqueue)
  then show ?thesis unfolding that by (rule reach_step) (rule step_claim [OF claim], simp)
qed

lemma claimed_demo_facts:
  "sy_claim_token claimed_demo = Some ''tok''" "sy_state claimed_demo = CLAIMED"
  "find_job (sy_id claimed_demo) demo_claimed = Some claimed_demo"
  by (simp_all add: claimed_demo_def claimed_job_def find_job_def demo_outbox)

lemma demo_part: "part_ok ([], [[]], claimed_demo)"
proof -
  have hex: "clean (take n (sha256_hex x))" "clean (sha256_hex x)" for n x
  proof -
    have "\<forall>c\<in>set (sha256_hex x). is_hex c" using sha.digest_hex [of x] by (simp only: list_all_iff)
    moreover have "set (take n (sha256_hex x)) \<subseteq> set (sha256_hex x)" by (rule set_take_subset)
    ultimately have "list_all is_hex (take n (sha256_hex x))" "list_all is_hex (sha256_hex x)"
      unfolding list_all_iff by blast+
    then show "clean (take n (sha256_hex x))" "clean (sha256_hex x)" by (simp_all only: clean_hex)
  qed
  have "clean_row claimed_demo"
    unfolding clean_row_def claimed_demo_def claimed_job_def demo_job_def new_job_def
      rendered_fields_def sync_id_def identity_digest_def COORDINATION_DOCUMENT_def BLOCK_FORMAT_def
      or_empty_def int_str_def
    by (simp add: hex) (simp add: clean_def one_line_def strip_def is_space_def nat_str.simps digit_char_def)
  then show ?thesis by (simp add: part_ok_def gap_ok_def one_line_def strip_def)
qed

theorem rendered_block_confirms_witness:
  "reconcile_job (sy_id claimed_demo) demo_document demo_claimed
        = Inr (Already_Written (join_lines (delivered_lines [[]] claimed_demo)))
    \<and> (\<exists>r'. snd (complete_job sync_clock (sy_id claimed_demo) (Some ''tok'') (sy_target_ref claimed_demo)
                 demo_document None demo_claimed) = Inr r'
          \<and> sy_state r' = CONFIRMED \<and> sy_readback r' = Some (join_lines (delivered_lines [[]] claimed_demo)))"
  unfolding demo_document_def
  by (rule rendered_block_confirms [of _ _ "[]"])
     (use demo_part claimed_demo_facts state_facts in simp_all)

definition confirmed_state :: sync_state where
  "confirmed_state = fst (complete_job sync_clock (sy_id claimed_demo) (Some ''tok'') ''doc-1''
     demo_document None demo_claimed)"

definition demo_confirmed :: sync_row where
  "demo_confirmed = confirmed_job sync_clock None (join_lines (delivered_lines [[]] claimed_demo)) claimed_demo"

lemma confirmed_demo_outbox: "sync_outbox confirmed_state = [demo_confirmed]"
proof -
  have judged: "judge_readback claimed_demo demo_document
      = Inr (join_lines (delivered_lines [[]] claimed_demo))"
    unfolding demo_document_def by (rule delivered_judged [of _ _ "[]"]) (use demo_part in simp_all)
  have "fenced (sy_id claimed_demo) (Some ''tok'') demo_claimed = Inr claimed_demo"
    using claimed_demo_facts by (simp add: fenced_Inr)
  moreover have "sy_target_ref claimed_demo = ''doc-1''"
    by (simp add: claimed_demo_def claimed_job_def demo_job_def new_job_def)
  ultimately show ?thesis
    using claimed_demo_facts judged
    by (simp add: confirmed_state_def complete_job_def state_facts Let_def demo_outbox demo_confirmed_def)
qed

lemma confirmed_run: "reachable (sync_step {''tok''}) (empty_sync empty_db) confirmed_state"
  using demo_run [OF refl] unfolding confirmed_state_def by (rule reach_step) (rule step_complete)

lemma demo_confirmed_state: "sy_state demo_confirmed = CONFIRMED"
  by (simp add: demo_confirmed_def confirmed_job_def)

section \<open>Safety\<close>



text \<open>
  a confirmation is final: whatever later steps do (a failure, a retry, a claim, another read-back),
  the confirmed row stays exactly as it is.
\<close>

theorem confirmed_job_is_final:
  assumes "reachable (sync_step T) s s'" "sync_inv s" "r \<in> set (sync_outbox s)" "sy_state r = CONFIRMED"
  shows "r \<in> set (sync_outbox s')"
  using assms(1)
proof (induction rule: reachable.induct)
  case reach_start
  show ?case by (rule assms(3))
next
  case (reach_step s1 s2)
  have "unique_jobs s1"
    using sync_machine.reachable_inv [OF reach_step(1) assms(2)] by (simp add: sync_inv_def)
  from moved_from [OF sync_step_moves [OF reach_step(2) this] reach_step.IH]
  obtain r' where r': "r' \<in> set (sync_outbox s2)" "job_step T r r'" by blast
  from r'(2) assms(4) have "r' = r" by (cases rule: job_step.cases) simp_all
  with r'(1) show ?case by simp
qed

theorem confirmed_job_is_final_witness:
  "demo_confirmed \<in> set (sync_outbox (fst (retry_job sync_clock (sy_id demo_confirmed) confirmed_state)))"
proof (rule confirmed_job_is_final)
  show "reachable (sync_step {}) confirmed_state
      (fst (retry_job sync_clock (sy_id demo_confirmed) confirmed_state))"
    by (rule reach_one) (rule step_retry)
qed (simp_all add: sync_reachable_inv [OF confirmed_run] confirmed_demo_outbox demo_confirmed_state)

text \<open>
  C21: the fence: once the token of a claim is no longer the one a job holds, no run in which that token is
  not drawn again lets its holder complete or fail the job; both calls are refused and write nothing.
\<close>

theorem superseded_claim_is_fenced:
  assumes "reachable (sync_step T) s s'" "sync_inv s" "token \<notin> T"
    and "find_job i s = Some r" "sy_claim_token r \<noteq> Some token"
  shows "complete_job c i (Some token) target_ref readback ext s' = (s', Inl not_claimable)
    \<and> fail_job c i (Some token) error s' = Inl not_claimable"
proof -
  have fst: "r \<in> set (sync_outbox s)" "sy_id r = i"
    using find_Some_iff_mem [of _ "sync_outbox s" r] assms(4) by (auto simp: find_job_def)
  have held: "\<exists>r'. find_job i s' = Some r' \<and> sy_claim_token r' \<noteq> Some token"
    using assms(1)
  proof (induction rule: reachable.induct)
    case reach_start
    show ?case using assms(4,5) by blast
  next
    case (reach_step s1 s2)
    then obtain r1 where r1: "find_job i s1 = Some r1" "sy_claim_token r1 \<noteq> Some token" by blast
    have inv1: "sync_inv s1" by (rule sync_machine.reachable_inv [OF reach_step(1) assms(2)])
    have inv2: "sync_inv s2" by (rule sync_step_inv [OF reach_step(2) inv1])
    have mem: "r1 \<in> set (sync_outbox s1)" "sy_id r1 = i"
      using find_Some_iff_mem [of _ "sync_outbox s1" r1] r1(1) by (auto simp: find_job_def)
    have "unique_jobs s1" using inv1 by (simp add: sync_inv_def)
    from moved_from [OF sync_step_moves [OF reach_step(2) this] mem(1)]
    obtain r2 where r2: "r2 \<in> set (sync_outbox s2)" "job_step T r1 r2" by blast
    then have id: "sy_id r2 = i" using job_step_same [OF r2(2)] mem(2) by (simp add: same_job_def)
    have "sy_claim_token r2 \<noteq> Some token"
      using r2(2) r1(2) assms(3)
      by (cases rule: job_step.cases)
         (auto simp: claimed_job_def confirmed_job_def written_job_def failed_job_def retried_job_def)
    moreover have "find_job i s2 = Some r2"
      using find_key [of sy_id "sync_outbox s2" r2] inv2 r2(1) id
      by (simp add: find_job_def sync_inv_def unique_jobs_def)
    ultimately show ?case by blast
  qed
  then have "fenced i (Some token) s' = Inl not_claimable" by (auto simp: fenced_def)
  then show ?thesis by (simp add: complete_job_def fail_job_def)
qed

theorem superseded_claim_is_fenced_witness:
  "complete_job sync_clock (sy_id claimed_demo) (Some ''old'') ''doc-1'' demo_document None confirmed_state
      = (confirmed_state, Inl not_claimable)
    \<and> fail_job sync_clock (sy_id claimed_demo) (Some ''old'') ''timeout'' confirmed_state = Inl not_claimable"
proof (rule superseded_claim_is_fenced [where T = "{''tok''}" and s = demo_claimed])
  show "reachable (sync_step {''tok''}) demo_claimed confirmed_state"
    unfolding confirmed_state_def by (rule reach_one) (rule step_complete)
  show "sync_inv demo_claimed" by (rule sync_reachable_inv [OF demo_run [OF refl]])
  show "find_job (sy_id claimed_demo) demo_claimed = Some claimed_demo" by (rule claimed_demo_facts)
  show "sy_claim_token claimed_demo \<noteq> Some ''old''" by (simp add: claimed_demo_facts)
qed simp

text \<open>
  while a job is leased no other writer gets it: it is not among the jobs \<open>next\<close> offers and a claim is
  refused; so it is while it backs off, and a failed job until someone retries it.
\<close>

theorem leased_job_is_not_offered:
  assumes "sync_inv s" "find_job i s = Some r"
    and "(\<exists>u. sy_lease_until r = Some u \<and> clk_now c < u)
       \<or> (\<exists>u. sy_next_attempt_at r = Some u \<and> clk_now c < u) \<or> sy_state r = FAILED"
  shows "claim_job c token i owner s = Inl not_claimable
    \<and> (\<forall>j\<in>set (next_jobs (clk_now c) target limit s). sy_id j \<noteq> i)"
proof -
  have "\<not> due (clk_now c) (sy_lease_until r) \<or> \<not> due (clk_now c) (sy_next_attempt_at r) \<or> sy_state r = FAILED"
    using assms(3) by (auto simp: due_def)
  then have "claim_job c token i owner s = Inl not_claimable"
    and out: "\<not> (sy_state r \<in> {PENDING, WRITTEN, CLAIMED} \<and> due (clk_now c) (sy_next_attempt_at r)
      \<and> due (clk_now c) (sy_lease_until r))"
    using assms(2) by (auto simp: claim_job_def state_facts)
  moreover have "sy_id j \<noteq> i" if "j \<in> set (next_jobs (clk_now c) target limit s)" for j
  proof
    assume "sy_id j = i"
    have j: "j \<in> set (sync_outbox s)" "sy_state j \<in> {PENDING, WRITTEN, CLAIMED}"
      "due (clk_now c) (sy_next_attempt_at j)" "due (clk_now c) (sy_lease_until j)"
      using that unfolding next_jobs_def Let_def by (auto split: if_splits dest: in_set_takeD)
    have "j = r"
      using find_job_only [OF assms(2) _ j(1) \<open>sy_id j = i\<close>] assms(1) by (simp add: sync_inv_def)
    with j out show False by blast
  qed
  ultimately show ?thesis by blast
qed

theorem leased_job_is_not_offered_witness:
  "claim_job sync_clock ''other'' (sy_id claimed_demo) ''thief'' demo_claimed = Inl not_claimable
    \<and> sy_id claimed_demo \<notin> sy_id ` set (next_jobs (clk_now sync_clock) [] 4 demo_claimed)"
proof -
  have "\<exists>u. sy_lease_until claimed_demo = Some u \<and> clk_now sync_clock < u"
    by (simp add: claimed_demo_def claimed_job_def sync_clock_def LEASE_SECONDS_def)
  then have "(\<exists>u. sy_lease_until claimed_demo = Some u \<and> clk_now sync_clock < u)
      \<or> (\<exists>u. sy_next_attempt_at claimed_demo = Some u \<and> clk_now sync_clock < u) \<or> sy_state claimed_demo = FAILED"
    by blast
  then have "claim_job sync_clock ''other'' (sy_id claimed_demo) ''thief'' demo_claimed = Inl not_claimable
      \<and> (\<forall>j\<in>set (next_jobs (clk_now sync_clock) [] 4 demo_claimed). sy_id j \<noteq> sy_id claimed_demo)"
    by (rule leased_job_is_not_offered [OF sync_reachable_inv [OF demo_run [OF refl]] claimed_demo_facts(3)])
  then show ?thesis by (auto simp: image_iff)
qed

text \<open>
  a failure backs off: with the token of the claim, the attempt is counted, the job waits between 30
  and 900 seconds, doubling from 30, and the eighth and every later failure parks it as failed; after
  1024 failures the computation of the delay overflows and the failure cannot be recorded.
\<close>

theorem failure_backs_off:
  assumes "sync_inv s" "find_job i s = Some r" "sy_claim_token r = Some token" "sy_state r \<noteq> CONFIRMED"
  shows "if sy_attempts r < 1024
    then \<exists>s' r'. fail_job c i (Some token) error s = Inr s' \<and> find_job i s' = Some r'
      \<and> sy_attempts r' = sy_attempts r + 1 \<and> sy_claim_token r' = None \<and> sy_lease_until r' = None
      \<and> sy_state r' = (if sy_attempts r < 7 then PENDING else FAILED)
      \<and> sy_next_attempt_at r' = Some (clk_now c + min 900 (30 * 2 ^ nat (sy_attempts r)))
      \<and> same_job r r'
    else fail_job c i (Some token) error s = Inl OverflowError"
proof -
  have fenced: "fenced i (Some token) s = Inr r" using assms(2,3) by (simp add: fenced_Inr)
  have "r \<in> set (sync_outbox s)"
    using find_Some_iff_mem [of _ "sync_outbox s" r] assms(2) by (auto simp: find_job_def)
  then have nonneg: "0 \<le> sy_attempts r" using assms(1) by (auto simp: sync_inv_def job_inv_def)
  show ?thesis
  proof (cases "sy_attempts r < 1024")
    case False
    then have "fail_job c i (Some token) error s = Inl OverflowError"
      using assms(4) by (simp add: fail_job_def fenced sync_delay_def Let_def)
    with False show ?thesis by simp
  next
    case True
    let ?d = "min MAX_BACKOFF (BASE_BACKOFF * 2 ^ nat (sy_attempts r))"
    let ?st = "if MAX_ATTEMPTS \<le> sy_attempts r + 1 then FAILED else PENDING"
    let ?f = "failed_job c ?st (sy_attempts r + 1) error ?d"
    have delay: "sync_delay (sy_attempts r + 1) = Inr ?d"
      using True nonneg by (simp add: sync_delay_def Let_def)
    have id: "sy_id (?f x) = sy_id x" for x by (simp add: failed_job_def)
    have "fail_job c i (Some token) error s = Inr (sync_journal ''sync_failed'' i
        (JObj [(''attempts'', JInt (sy_attempts r + 1)), (''state'', JStr ?st)]) (clk_iso c)
        (update_jobs (\<lambda>r. sy_id r = i) ?f s))"
      using assms(4) by (simp add: fail_job_def fenced delay Let_def)
    moreover have "find_job i (sync_journal ''sync_failed'' i
        (JObj [(''attempts'', JInt (sy_attempts r + 1)), (''state'', JStr ?st)]) (clk_iso c)
        (update_jobs (\<lambda>r. sy_id r = i) ?f s)) = Some (?f r)"
      by (simp only: find_job_update [of ?f, OF id] assms(2) option.map)
    moreover have "sy_state (?f r) = (if sy_attempts r < 7 then PENDING else FAILED)"
      by (simp add: failed_job_def MAX_ATTEMPTS_def)
    ultimately show ?thesis using True job_updates(5) [of r c ?st "sy_attempts r + 1" error ?d]
      by (simp add: failed_job_def MAX_BACKOFF_def BASE_BACKOFF_def del: if_split)
  qed
qed

theorem failure_backs_off_witness:
  "\<exists>s' r'. fail_job sync_clock (sy_id claimed_demo) (Some ''tok'') ''timeout'' demo_claimed = Inr s'
      \<and> find_job (sy_id claimed_demo) s' = Some r' \<and> sy_attempts r' = 1 \<and> sy_state r' = PENDING
      \<and> sy_next_attempt_at r' = Some 30"
proof -
  have zero: "sy_attempts claimed_demo = 0" "clk_now sync_clock = 0" "sy_state claimed_demo \<noteq> CONFIRMED"
    by (simp_all add: claimed_demo_def claimed_job_def demo_job_def new_job_def sync_clock_def state_facts)
  note run = sync_reachable_inv [OF demo_run [OF refl]]
  from failure_backs_off [OF run claimed_demo_facts(3,1) zero(3), of sync_clock "''timeout''"]
  show ?thesis unfolding zero by auto
qed

text \<open>
  the snapshot of a reachable outbox counts every job it lists exactly once, as pending, failed or
  confirmed.
\<close>

theorem snapshot_counts_every_job:
  assumes "reachable (sync_step T) (empty_sync db0) s"
  shows "sn_pending (snapshot rel s) + sn_failed (snapshot rel s) + sn_confirmed (snapshot rel s)
    = length (sn_jobs (snapshot rel s))"
proof -
  have states: "sy_state r \<in> {PENDING, CLAIMED, WRITTEN, CONFIRMED, FAILED}" if "r \<in> set (sync_outbox s)" for r
    using sync_reachable_inv [OF assms] that by (auto simp: sync_inv_def job_inv_def)
  have count: "rowcount (\<lambda>r. sy_state r \<in> {PENDING, CLAIMED, WRITTEN}) rows
      + rowcount (\<lambda>r. sy_state r = FAILED) rows + rowcount (\<lambda>r. sy_state r = CONFIRMED) rows = length rows"
    if "\<forall>r\<in>set rows. sy_state r \<in> {PENDING, CLAIMED, WRITTEN, CONFIRMED, FAILED}" for rows
    using that by (induction rows) (auto simp: rowcount_def state_facts)
  show ?thesis unfolding snapshot_def Let_def sync_snapshot.simps
    by (rule count) (use states in auto)
qed

theorem snapshot_counts_every_job_witness:
  "sn_pending (snapshot [] confirmed_state) + sn_failed (snapshot [] confirmed_state)
     + sn_confirmed (snapshot [] confirmed_state) = length (sn_jobs (snapshot [] confirmed_state))
   \<and> sync_outbox confirmed_state \<noteq> []"
  using snapshot_counts_every_job [OF confirmed_run] confirmed_demo_outbox by simp

theorem document_roundtrip_witness:
  "doc_malformed (parse_document demo_document) = []
    \<and> parse_document demo_document
        = \<lparr>doc_blocks = [(sy_id claimed_demo, delivered_block [[]] claimed_demo)],
           doc_duplicates = [], doc_malformed = []\<rparr>"
proof -
  have "list_all part_ok [([], [[]], claimed_demo)]" using demo_part by simp
  from document_roundtrip [OF this, of "[]"] show ?thesis
    by (simp add: demo_document_def part_block_def)
qed

end
