(* ===== verification/Cxc.thy ===== *)
theory Cxc
  imports Text_Lines
begin

text \<open>
  \<^verbatim>\<open>cxc.py\<close>: the report statuses this relay accepts and what each may accompany, the facts that are not
  a verification, the verdict line of a review with its reader, the endings of a wait, and the pointers
  to the skills that own a rule. Values a caller supplies are JSON values.
\<close>

section \<open>Where a rule lives\<close>

record rule_source =
  src_rule :: string
  src_path :: string
  src_anchor :: string
  src_sha256 :: string

definition SOURCES :: "rule_source list" where
  "SOURCES = [
     \<lparr>src_rule = ''report-outcomes-are-not-phases'',
       src_path = ''skills/loop/SKILL.md'',
       src_anchor = ''146-148'',
       src_sha256 = ''61167d152d3c84f01b4d05ccb7ded5457db07ec42a84ae85e911eb75a44e5e2b''\<rparr>,
     \<lparr>src_rule = ''terminal-state-vocabulary'',
       src_path = ''skills/pabcd/references/loop-engineering.md'',
       src_anchor = ''32-40'',
       src_sha256 = ''c5fb8c4e9fdd7dd9ce675a712cc9eca5b8e21301e8bfe49f7e27a9185db67fc7''\<rparr>,
     \<lparr>src_rule = ''REVIEW-SYNTHESIS-01'',
       src_path = ''skills/pabcd/references/loop-engineering.md'',
       src_anchor = ''41-60'',
       src_sha256 = ''c5fb8c4e9fdd7dd9ce675a712cc9eca5b8e21301e8bfe49f7e27a9185db67fc7''\<rparr>,
     \<lparr>src_rule = ''DISPATCH-TASK-01'',
       src_path = ''skills/pabcd/references/delegation.md'',
       src_anchor = ''20-22'',
       src_sha256 = ''ba773dbd5bbe3fd975bfca9f149205907ec9ca4c5a24bd2ce3c86d52d0c578b2''\<rparr>,
     \<lparr>src_rule = ''plan-output-nine-concepts'',
       src_path = ''skills/pabcd/references/plan-output.md'',
       src_anchor = ''7-20'',
       src_sha256 = ''4535762ade768fad5aafb121e9c3b44b7cf6df17eb6b2a04cbfaa2dc366c7868''\<rparr>,
     \<lparr>src_rule = ''REVIEW-OUTPUT-01'',
       src_path = ''skills/dev-code-reviewer/SKILL.md'',
       src_anchor = ''86-95'',
       src_sha256 = ''1d66f37c7754d852931bcf958063f30b2ab261a583ec080d280daf912e5d2d28''\<rparr>,
     \<lparr>src_rule = ''ATTEST-EVIDENCE-01'',
       src_path = ''skills/pabcd/references/phase-control.md'',
       src_anchor = ''45-48'',
       src_sha256 = ''6982abddc1ceb52d046403b2a16a01ea22fab3fc30900d20c26a04a35a8b476a''\<rparr>,
     \<lparr>src_rule = ''LOOP-WAIT-EVIDENCE-01'',
       src_path = ''skills/loop/references/waiting.md'',
       src_anchor = ''31-63'',
       src_sha256 = ''988451dee609d3949fa21f68fb2453a210f8fbbd06819db4219e710ab15150c8''\<rparr>,
     \<lparr>src_rule = ''DISPATCH-SURFACE-01'',
       src_path = ''skills/pabcd/references/dispatch-surfaces.md'',
       src_anchor = ''10-20'',
       src_sha256 = ''dd3e6721718f05a45ac0031d861823441bba15592640dbe7785cae6611c26e98''\<rparr>

   ]"

definition cxc_version :: string where
  "cxc_version = ''0.2.28+codex.20260914090142''"

definition sources_for :: "string \<Rightarrow> rule_source list" where
  "sources_for rule = filter (\<lambda>s. src_rule s = rule) SOURCES"

definition affected_by :: "string list \<Rightarrow> string list" where
  "affected_by changed = sort (remdups (map src_rule (filter (\<lambda>s. src_path s \<in> set changed) SOURCES)))"

section \<open>Report statuses\<close>

definition REPORT_STATUSES :: "string list" where
  "REPORT_STATUSES = [''DONE'', ''NOOP'', ''BLOCKED'', ''UNSAFE'', ''NEEDS_HUMAN'', ''BUDGET_EXHAUSTED'']"

definition MEANING :: "(string \<times> string) list" where
  "MEANING = [
     (''DONE'', ''the child proved every recorded criterion against its own work''),
     (''NOOP'', ''nothing needed doing, and the finding that established that is the deliverable''),
     (''BLOCKED'', ''an external dependency is in the way''),
     (''UNSAFE'', ''a human risk decision is required before this can proceed''),
     (''NEEDS_HUMAN'', ''a judgment only the user can make''),
     (''BUDGET_EXHAUSTED'', ''a bound the plan actually stated ran out; best-so-far is adopted'')]"

definition COMPATIBLE_OUTCOMES :: "(string \<times> string list) list" where
  "COMPATIBLE_OUTCOMES = [
     (''DONE'', [''ready_for_review'']), (''NOOP'', [''ready_for_review'']),
     (''BLOCKED'', [''blocked_needs_input'']), (''UNSAFE'', [''blocked_needs_input'']),
     (''NEEDS_HUMAN'', [''blocked_needs_input'']),
     (''BUDGET_EXHAUSTED'', [''interrupted'', ''failed''])]"

definition outcome_inconsistent :: err where
  "outcome_inconsistent = RelayError ReceiptRefused OUTCOME_INCONSISTENT"

definition check_known :: "json \<Rightarrow> err + string" where
  "check_known status =
     (case status of
        JStr s \<Rightarrow> if s \<in> set (map fst COMPATIBLE_OUTCOMES) then Inr s else Inl outcome_inconsistent
      | _ \<Rightarrow> Inl outcome_inconsistent)"

definition check_status :: "json \<Rightarrow> string \<Rightarrow> err + string" where
  "check_status status outcome =
     bindE (check_known status) (\<lambda>s.
       case map_of COMPATIBLE_OUTCOMES s of
         None \<Rightarrow> Inl KeyError
       | Some allowed \<Rightarrow> if outcome \<in> set allowed then Inr s else Inl outcome_inconsistent)"

section \<open>What is not a verification\<close>

definition NOT_VERIFICATION :: "(string \<times> string) list" where
  "NOT_VERIFICATION = [
     (''cxc_done'', ''a DONE report is the child proving its own criteria, not the parent'' @ CHR 0x27
        # ''s verdict''),
     (''cxc_report'', ''a child report is the child describing its own execution, not a verdict''),
     (''pull_request_opened'', ''an open pull request is a place to review, not a review''),
     (''review_pass'', ''a review PASS is one reviewer'' @ CHR 0x27
        # ''s judgment, not the parent'' @ CHR 0x27 # ''s disposition''),
     (''required_checks_green'', ''a green required check is evidence for a verdict, not a verdict''),
     (''turn_completed'', ''a completed turn is the trigger to look, as protocol v1 section 2 says''),
     (''dispatched'', ''a dispatched delivery is not an acknowledgement and not a verification'')]"

definition refuse_promotion :: "string \<Rightarrow> err + string" where
  "refuse_promotion claimed =
     (case map_of NOT_VERIFICATION claimed of None \<Rightarrow> Inl KeyError | Some reason \<Rightarrow> Inr reason)"

section \<open>The verdict line\<close>

definition GO_WITH_FIXES :: string where "GO_WITH_FIXES = ''GO-WITH-FIXES''"

definition VERDICT_KINDS :: "string list" where
  "VERDICT_KINDS = [''PASS'', GO_WITH_FIXES, ''FAIL'']"

definition PREFIX :: string where "PREFIX = ''VERDICT: ''"

definition BLOCKERS_MAX :: int where "BLOCKERS_MAX = 9999"

definition verdict_line :: "json \<Rightarrow> json \<Rightarrow> err + string" where
  "verdict_line kind blockers =
     (case kind of
        JStr k \<Rightarrow>
          if k \<notin> set VERDICT_KINDS then Inl ValueError
          else if k = GO_WITH_FIXES
          then (case blockers of
                  JInt n \<Rightarrow> if n < 1 then Inl ValueError
                    else if BLOCKERS_MAX < n then Inl ValueError
                    else Inr (PREFIX @ GO_WITH_FIXES @ '' (blockers='' @ int_str n @ '')'')
                | _ \<Rightarrow> Inl ValueError)
          else if blockers \<noteq> JNull then Inl ValueError
          else Inr (PREFIX @ k)
      | _ \<Rightarrow> Inl ValueError)"

text \<open>
  \<^verbatim>\<open>isdigit()\<close> also holds of the superscripts U+00B2, U+00B3 and U+00B9, which \<^verbatim>\<open>int()\<close> refuses, as it
  refuses more than 4300 digits.
\<close>

definition py_isdigit :: "string \<Rightarrow> bool" where
  "py_isdigit s = (s \<noteq> [] \<and> list_all (\<lambda>c. is_digit c \<or> c \<in> {CHR 0xB2, CHR 0xB3, CHR 0xB9}) s)"

definition py_int :: "string \<Rightarrow> err + int" where
  "py_int s = (if list_all is_digit s \<and> s \<noteq> [] \<and> length s \<le> 4300 then Inr (int (str_nat s))
     else Inl ValueError)"

definition parse_verdict_line :: "string \<Rightarrow> err + (string \<times> int option) option" where
  "parse_verdict_line line =
     (let t = strip line
      in if \<not> starts_with PREFIX t then Inr None
         else let body = strip (drop (length PREFIX) t)
         in if body \<in> {''PASS'', ''FAIL''} then Inr (Some (body, None))
            else if starts_with GO_WITH_FIXES body
            then (let rest = strip (drop (length GO_WITH_FIXES) body)
                  in if starts_with ''(blockers='' rest \<and> ends_with '')'' rest
                     then (let digits = drop 10 (take (length rest - 1) rest)
                           in if py_isdigit digits
                              then bindE (py_int digits) (\<lambda>n.
                                if 1 \<le> n \<and> n \<le> BLOCKERS_MAX then Inr (Some (GO_WITH_FIXES, Some n))
                                else Inr None)
                              else Inr None)
                     else Inr None)
            else Inr None)"

definition assert_reviewed :: "bool \<Rightarrow> err + unit" where
  "assert_reviewed has_review = (if has_review then Inr () else Inl ValueError)"

section \<open>Waiting\<close>

datatype wait_state =
  PROGRESS | SUSPECTED_STAGNATION | CONFIRMED_FAILURE | UNOBSERVABLE | INPUT_NEEDED | TIMED_OUT

record wait_result =
  wt_state :: wait_state
  wt_reason :: string
  wt_authorises_rerun :: bool
  wt_is_failure :: bool

definition wait_of :: "wait_state \<Rightarrow> string \<Rightarrow> wait_result" where
  "wait_of state reason = \<lparr>wt_state = state, wt_reason = reason, wt_authorises_rerun = False,
     wt_is_failure = (state = CONFIRMED_FAILURE)\<rparr>"

definition classify_wait ::
    "string option \<Rightarrow> bool \<Rightarrow> bool \<Rightarrow> bool \<Rightarrow> bool \<Rightarrow> bool \<Rightarrow> wait_result" where
  "classify_wait terminal_error input_requested advancing_evidence observable stagnation_confirmed
     timed_out =
     (if truthy_text terminal_error
      then wait_of CONFIRMED_FAILURE (case terminal_error of None \<Rightarrow> [] | Some e \<Rightarrow> e)
      else if input_requested
      then wait_of INPUT_NEEDED ''the work is waiting on an answer, not failing''
      else if advancing_evidence
      then wait_of PROGRESS ''observations advanced since the last look''
      else if \<not> observable
      then wait_of UNOBSERVABLE ''available observations establish neither progress nor failure; the gap is the finding''
      else if stagnation_confirmed
      then wait_of CONFIRMED_FAILURE ''no advancement at the stated review point, compared against the prior observation''
      else if timed_out
      then wait_of TIMED_OUT ''the wait ended on its own bound. That is a normal outcome: it is neither a failure nor permission to start the work again''
      else wait_of SUSPECTED_STAGNATION ''comparable observations show no advancement yet'')"

section \<open>Skill pointers\<close>

definition SKILL_POINTERS :: "(string \<times> string) list" where
  "SKILL_POINTERS = [
     (''loop'', ''codexclaw:cxc-loop with codexclaw:cxc-pabcd''),
     (''development'', ''codexclaw:cxc-dev''),
     (''pull-request'', ''codexclaw:cxc-dev references/stacked-prs.md''),
     (''review-repair'', ''REVIEW-SYNTHESIS-01, cxc-pabcd references/loop-engineering.md 11.3''),
     (''lost-context'', ''codexclaw:cxc-recall'')]"

definition skill_pointer :: "string \<Rightarrow> err + string" where
  "skill_pointer activity =
     (case map_of SKILL_POINTERS activity of None \<Rightarrow> Inl KeyError | Some p \<Rightarrow> Inr p)"

section \<open>Facts\<close>

lemma verdict_line_cases:
  assumes "verdict_line kind blockers = Inr line"
  obtains (plain) k where "kind = JStr k" "k \<in> {''PASS'', ''FAIL''}" "blockers = JNull" "line = PREFIX @ k"
  | (fixes_first) n where "kind = JStr GO_WITH_FIXES" "blockers = JInt n" "1 \<le> n" "n \<le> BLOCKERS_MAX"
      "line = PREFIX @ GO_WITH_FIXES @ '' (blockers='' @ int_str n @ '')''"
  using assms unfolding verdict_line_def VERDICT_KINDS_def
  by (cases kind; cases blockers) (auto split: if_splits)

lemma nat_str_bound: "n < 10 ^ k \<Longrightarrow> 0 < k \<Longrightarrow> length (nat_str n) \<le> k"
proof (induction k arbitrary: n)
  case (Suc k)
  show ?case
  proof (cases "n < 10")
    case True
    then show ?thesis by (subst nat_str.simps) simp
  next
    case False
    then have "0 < k" using Suc.prems by (cases k) auto
    moreover have "n div 10 < 10 ^ k" using Suc.prems(1) by (simp add: less_mult_imp_div_less mult.commute)
    ultimately have "length (nat_str (n div 10)) \<le> k" by (rule Suc.IH [rotated])
    with False show ?thesis by (subst nat_str.simps) simp
  qed
qed simp

lemma verdict_line_parses:
  assumes "verdict_line kind blockers = Inr line"
  shows "\<exists>k n. parse_verdict_line line = Inr (Some (k, n)) \<and> kind = JStr k
    \<and> blockers = (case n of None \<Rightarrow> JNull | Some b \<Rightarrow> JInt b)"
  using assms
proof (cases rule: verdict_line_cases)
  case (plain k)
  have "parse_verdict_line (PREFIX @ ''PASS'') = Inr (Some (''PASS'', None))"
    "parse_verdict_line (PREFIX @ ''FAIL'') = Inr (Some (''FAIL'', None))" by code_simp+
  with plain show ?thesis by auto
next
  case (fixes_first n)
  define D where "D = nat_str (nat n)"
  define R where "R = ''(blockers='' @ D @ '')''"
  have line: "line = PREFIX @ GO_WITH_FIXES @ '' '' @ R"
    using fixes_first by (simp add: R_def D_def int_str_def)
  have R: "strip R = R" unfolding R_def by (rule strip_fixed) (simp_all add: is_space_def)
  have ends: "R \<noteq> []" "last R = CHR '')''" by (simp_all add: R_def)
  have space: "strip ('' '' @ R) = R" using R strip_lead [of "CHR '' ''" R] by (simp add: is_space_def)
  have 1: "strip line = line" unfolding line
    by (rule strip_fixed) (simp_all add: PREFIX_def ends is_space_def)
  have 2: "strip (GO_WITH_FIXES @ '' '' @ R) = GO_WITH_FIXES @ '' '' @ R"
    by (rule strip_fixed) (simp_all add: GO_WITH_FIXES_def ends is_space_def)
  have 3: "drop (length PREFIX) line = GO_WITH_FIXES @ '' '' @ R" "starts_with PREFIX line"
    unfolding line by simp_all
  have 4: "GO_WITH_FIXES @ '' '' @ R \<notin> {''PASS'', ''FAIL''}" by (simp add: GO_WITH_FIXES_def)
  have 5: "drop (length GO_WITH_FIXES) (GO_WITH_FIXES @ '' '' @ R) = '' '' @ R"
    "starts_with GO_WITH_FIXES (GO_WITH_FIXES @ '' '' @ R)" by simp_all
  have 6: "starts_with ''(blockers='' R" unfolding R_def by (rule starts_with_append)
  have 7: "ends_with '')'' R" unfolding R_def append_assoc [symmetric] by (rule ends_with_append)
  have 8: "drop 10 (take (length R - 1) R) = D" by (simp add: R_def)
  have 9: "py_isdigit D" "py_int D = Inr n"
  proof -
    have digits: "list_all is_digit D" "D \<noteq> []" by (simp_all add: D_def nat_str_digits)
    then show "py_isdigit D" by (simp add: py_isdigit_def list_all_iff)
    have "length D \<le> 4"
      using fixes_first unfolding D_def by (intro nat_str_bound) (simp_all add: BLOCKERS_MAX_def)
    with digits show "py_int D = Inr n" using fixes_first by (simp add: py_int_def D_def)
  qed
  have "parse_verdict_line line = bindE (py_int D) (\<lambda>n.
      if 1 \<le> n \<and> n \<le> BLOCKERS_MAX then Inr (Some (GO_WITH_FIXES, Some n)) else Inr None)"
    unfolding parse_verdict_line_def Let_def 1 3(1) 2 5(1) space 8
    using 3(2) 4 5(2) 6 7 9(1) by (simp only: simp_thms if_True if_False)
  then have "parse_verdict_line line = Inr (Some (GO_WITH_FIXES, Some n))"
    using fixes_first 9(2) by simp
  with fixes_first show ?thesis by auto
qed

text \<open>
  a verdict line is read back as the judgment it states: the kind, and the blocker count where the kind
  carries one.
\<close>

theorem verdict_line_roundtrip:
  assumes "verdict_line kind blockers = Inr line"
  shows "\<exists>k n. parse_verdict_line line = Inr (Some (k, n)) \<and> kind = JStr k
    \<and> blockers = (case n of None \<Rightarrow> JNull | Some b \<Rightarrow> JInt b)"
  by (rule verdict_line_parses [OF assms])

theorem verdict_line_roundtrip_witness:
  "\<exists>k n. parse_verdict_line ''VERDICT: GO-WITH-FIXES (blockers=3)'' = Inr (Some (k, n))
    \<and> JStr ''GO-WITH-FIXES'' = JStr k \<and> JInt 3 = (case n of None \<Rightarrow> JNull | Some b \<Rightarrow> JInt b)"
  by (rule verdict_line_roundtrip) code_simp

text \<open>
  the reader of a verdict line may raise: a count written with a superscript digit passes \<^verbatim>\<open>isdigit()\<close>
  and stops \<^verbatim>\<open>int()\<close>.
\<close>

theorem verdict_reader_raises:
  "parse_verdict_line (''VERDICT: GO-WITH-FIXES (blockers='' @ [CHR 0xB2] @ '')'') = Inl ValueError"
  by code_simp

text \<open>
  no ending of a wait authorises a second run, and only a terminal error or a confirmed stagnation of an
  observable execution that neither waits for input nor advances is a failure.
\<close>

theorem wait_never_authorises_rerun:
  "\<not> wt_authorises_rerun (classify_wait err input advancing observable confirmed timed_out)
    \<and> (wt_is_failure (classify_wait err input advancing observable confirmed timed_out) \<longleftrightarrow>
        truthy_text err \<or> (\<not> input \<and> \<not> advancing \<and> observable \<and> confirmed))"
  by (simp add: classify_wait_def wait_of_def)

end
