(* ===== verification/Report_Compose.thy ===== *)
theory Report_Compose
  imports Text_Lines Sha256
begin

text \<open>
  \<^verbatim>\<open>report._compose\<close>: fitting the sections of a message to a byte budget. Sections that are not
  essential are dropped, essential ones shortened line by line down to their floor, each removal
  leaves a mark, and the length is kept as a running total. The result is characterised by how many
  lines of each section were kept. No caller passes a section an absent line, so lines are texts.
\<close>

section \<open>Sizes\<close>

definition text_size :: "string \<Rightarrow> int" where
  "text_size s = int (length (utf8 s))"

lemma utf8_Nil [simp]: "utf8 [] = []"
  by (simp add: utf8_def)

lemma utf8_append [simp]: "utf8 (s @ t) = utf8 s @ utf8 t"
  by (simp add: utf8_def)

lemma text_size_append [simp]: "text_size (s @ t) = text_size s + text_size t"
  by (simp add: text_size_def)

lemma text_size_Nil [simp]: "text_size [] = 0"
  by (simp add: text_size_def)

lemma text_size_nonneg [simp]: "0 \<le> text_size s"
  by (simp add: text_size_def)

lemma text_size_Cons: "text_size (c # s) = (if of_char c < (128::nat) then 1 else 2) + text_size s"
  by (simp add: text_size_def utf8_def Let_def)

section \<open>Sections\<close>

definition show_command :: "string \<Rightarrow> string" where
  "show_command ev = ''codex-session-relay show --event '' @ ev"

record msection =
  sec_name :: string
  sec_lines :: "string list"
  sec_rank :: int
  sec_essential :: bool
  sec_keep :: nat
  sec_last :: bool
  sec_owners :: "json option list"

definition make_section ::
    "string \<Rightarrow> string list \<Rightarrow> int \<Rightarrow> bool \<Rightarrow> nat \<Rightarrow> bool \<Rightarrow> json option list \<Rightarrow> msection" where
  "make_section name lines rank essential keep final owners =
     \<lparr>sec_name = name, sec_lines = lines, sec_rank = rank, sec_essential = essential,
      sec_keep = keep, sec_last = final,
      sec_owners = owners @ replicate (length lines - length owners) None\<rparr>"

definition optional_section :: "string \<Rightarrow> string list \<Rightarrow> int \<Rightarrow> msection" where
  "optional_section name lines rank = make_section name lines rank False 0 False []"

definition essential_section :: "string \<Rightarrow> string list \<Rightarrow> int \<Rightarrow> nat \<Rightarrow> msection" where
  "essential_section name lines rank keep = make_section name lines rank True keep False []"

record composed =
  cm_text :: string
  cm_omitted :: "string list"
  cm_survivors :: "json list"

definition survivors :: "msection list \<Rightarrow> nat list \<Rightarrow> json list" where
  "survivors sections kept =
     concat (map (\<lambda>(s, n). List.map_filter id (take n (sec_owners s))) (zip sections kept))"

definition omission_line :: "string list \<Rightarrow> string \<Rightarrow> string" where
  "omission_line removed ev =
     ''omitted: '' @ comma_join removed @ '' - read in full with '' @ show_command ev"

definition more_marker :: "nat \<Rightarrow> string" where
  "more_marker dropped = ''  ... '' @ nat_str dropped @ '' more, see the full record''"

section \<open>Fitting\<close>

record fit =
  fit_blocks :: "string list list"
  fit_sizes :: "int list list"
  fit_kept :: "nat list"
  fit_removed :: "string list"
  fit_lines :: int
  fit_bytes :: int

definition start_fit :: "msection list \<Rightarrow> fit" where
  "start_fit sections =
     (let blocks = map sec_lines sections; sizes = map (map text_size) blocks
      in \<lparr>fit_blocks = blocks, fit_sizes = sizes, fit_kept = map length blocks, fit_removed = [],
          fit_lines = sum_list (map (\<lambda>b. int (length b)) blocks),
          fit_bytes = sum_list (map sum_list sizes)\<rparr>)"

fun tail_from :: "nat \<Rightarrow> msection list \<Rightarrow> nat option" where
  "tail_from i [] = None"
| "tail_from i (s # ss) = (if sec_last s then Some i else tail_from (Suc i) ss)"

definition body_lines :: "nat option \<Rightarrow> string list list \<Rightarrow> string list \<Rightarrow> string \<Rightarrow> string list" where
  "body_lines tail blocks removed ev =
     (let note = (if removed = [] then [] else [[], omission_line removed ev])
      in case tail of
           None \<Rightarrow> concat blocks @ note
         | Some t \<Rightarrow> concat (take t blocks @ drop (Suc t) blocks) @ note @ blocks ! t)"

definition over_budget :: "int \<Rightarrow> string \<Rightarrow> fit \<Rightarrow> bool" where
  "over_budget budget ev st =
     (let count = fit_lines st + (if fit_removed st \<noteq> [] then 2 else 0);
          total = fit_bytes st
            + (if fit_removed st \<noteq> [] then text_size (omission_line (fit_removed st) ev) else 0)
      in budget < total + max (count - 1) 0)"

definition drop_section :: "msection \<Rightarrow> nat \<Rightarrow> fit \<Rightarrow> fit" where
  "drop_section sec i st =
     st\<lparr>fit_removed := fit_removed st @ [sec_name sec],
        fit_lines := fit_lines st - int (length (fit_blocks st ! i)),
        fit_bytes := fit_bytes st - sum_list (fit_sizes st ! i),
        fit_blocks := (fit_blocks st)[i := []], fit_sizes := (fit_sizes st)[i := []],
        fit_kept := (fit_kept st)[i := 0]\<rparr>"

text \<open>The loops are given the test whether the message is still too long.\<close>

fun drop_sections :: "(fit \<Rightarrow> bool) \<Rightarrow> msection list \<Rightarrow> nat list \<Rightarrow> fit \<Rightarrow> fit" where
  "drop_sections over sections [] st = st"
| "drop_sections over sections (i # is) st =
     (if \<not> over st then st
      else if sec_essential (sections ! i) \<or> fit_blocks st ! i = [] then drop_sections over sections is st
      else drop_sections over sections is (drop_section (sections ! i) i st))"

definition shorten_once :: "msection \<Rightarrow> nat \<Rightarrow> nat \<Rightarrow> int \<Rightarrow> fit \<Rightarrow> fit" where
  "shorten_once sec i kept marker_size st =
     (let marker = more_marker (length (sec_lines sec) - kept);
          kept_lines = take kept (sec_lines sec)
      in st\<lparr>fit_bytes := fit_bytes st - text_size (sec_lines sec ! kept) + text_size marker - marker_size,
            fit_lines := fit_lines st - 1 + (if marker_size = 0 then 1 else 0),
            fit_blocks := (fit_blocks st)[i := kept_lines @ [marker]],
            fit_sizes := (fit_sizes st)[i := map text_size kept_lines @ [text_size marker]],
            fit_kept := (fit_kept st)[i := kept],
            fit_removed := (if sec_name sec \<in> set (fit_removed st) then fit_removed st
                            else fit_removed st @ [sec_name sec])\<rparr>)"

fun shorten :: "(fit \<Rightarrow> bool) \<Rightarrow> msection \<Rightarrow> nat \<Rightarrow> nat \<Rightarrow> int \<Rightarrow> fit \<Rightarrow> fit" where
  "shorten over sec i 0 marker_size st = st"
| "shorten over sec i (Suc kept) marker_size st =
     (if over st \<and> sec_keep sec < Suc kept
      then shorten over sec i kept (text_size (more_marker (length (sec_lines sec) - kept)))
             (shorten_once sec i kept marker_size st)
      else st)"

fun shorten_sections :: "(fit \<Rightarrow> bool) \<Rightarrow> msection list \<Rightarrow> nat list \<Rightarrow> fit \<Rightarrow> fit" where
  "shorten_sections over sections [] st = st"
| "shorten_sections over sections (i # is) st =
     (let sec = sections ! i
      in if \<not> sec_essential sec \<or> length (sec_lines sec) \<le> sec_keep sec
         then shorten_sections over sections is st
         else shorten_sections over sections is (shorten over sec i (length (sec_lines sec)) 0 st))"

definition removal_order :: "msection list \<Rightarrow> nat list" where
  "removal_order sections = sort_key (\<lambda>i. - sec_rank (sections ! i)) [0..<length sections]"

definition fitted :: "(fit \<Rightarrow> bool) \<Rightarrow> msection list \<Rightarrow> fit" where
  "fitted over sections =
     (let order = removal_order sections
      in shorten_sections over sections order
           (drop_sections over sections order (start_fit sections)))"

definition compose_with :: "(fit \<Rightarrow> bool) \<Rightarrow> msection list \<Rightarrow> string \<Rightarrow> int \<Rightarrow> err + composed" where
  "compose_with over sections ev budget =
     (let st = fitted over sections;
          out = join_lines (body_lines (tail_from 0 sections) (fit_blocks st) (fit_removed st) ev)
      in if budget < text_size out then Inl ValueError
         else Inr \<lparr>cm_text = out, cm_omitted = fit_removed st,
                   cm_survivors = survivors sections (fit_kept st)\<rparr>)"

definition compose :: "msection list \<Rightarrow> string \<Rightarrow> int \<Rightarrow> err + composed" where
  "compose sections ev budget = compose_with (over_budget budget ev) sections ev budget"

section \<open>What fitting does to the sections\<close>

text \<open>The block of a section of which \<open>n\<close> lines are kept.\<close>

definition block_of :: "msection \<Rightarrow> nat \<Rightarrow> string list" where
  "block_of sec n =
     (if length (sec_lines sec) \<le> n then sec_lines sec
      else if sec_essential sec then take n (sec_lines sec) @ [more_marker (length (sec_lines sec) - n)]
      else [])"

definition allowed_kept :: "msection \<Rightarrow> nat \<Rightarrow> bool" where
  "allowed_kept sec n = (n = length (sec_lines sec)
     \<or> (n < length (sec_lines sec) \<and> (if sec_essential sec then sec_keep sec \<le> n else n = 0)))"

definition fit_ok :: "msection list \<Rightarrow> fit \<Rightarrow> bool" where
  "fit_ok sections st =
     (length (fit_kept st) = length sections
      \<and> (\<forall>i<length sections. allowed_kept (sections ! i) (fit_kept st ! i)
          \<and> (fit_kept st ! i < length (sec_lines (sections ! i))
               \<longleftrightarrow> sec_name (sections ! i) \<in> set (fit_removed st)))
      \<and> set (fit_removed st) \<subseteq> sec_name ` set sections \<and> distinct (fit_removed st)
      \<and> fit_blocks st = map2 block_of sections (fit_kept st)
      \<and> fit_sizes st = map (map text_size) (fit_blocks st)
      \<and> fit_lines st = sum_list (map (\<lambda>b. int (length b)) (fit_blocks st))
      \<and> fit_bytes st = sum_list (map sum_list (fit_sizes st)))"

lemma tail_from_Some: "tail_from i ss = Some t \<Longrightarrow> i \<le> t \<and> t - i < length ss \<and> sec_last (ss ! (t - i))"
proof (induction ss arbitrary: i)
  case (Cons s ss)
  show ?case
  proof (cases "sec_last s")
    case False
    with Cons.prems have "tail_from (Suc i) ss = Some t" by simp
    from Cons.IH [OF this] show ?thesis by (auto simp: nth_Cons' Suc_diff_le)
  qed (use Cons.prems in simp)
qed simp

lemma map2_self: "map2 f xs (map g xs) = map (\<lambda>x. f x (g x)) xs"
  by (induction xs) auto

lemma map2_update:
  "length xs = length ks \<Longrightarrow> i < length xs \<Longrightarrow> map2 f xs (ks[i := k]) = (map2 f xs ks)[i := f (xs ! i) k]"
  by (rule nth_equalityI) (auto simp: nth_list_update)

lemma sum_update:
  fixes xs :: "int list"
  shows "i < length xs \<Longrightarrow> sum_list (xs[i := y]) = sum_list xs - xs ! i + y"
  by (induction xs arbitrary: i) (auto simp: nth_Cons' split: nat.splits)

lemma fit_okD:
  assumes "fit_ok sections st" "i < length sections"
  shows "fit_blocks st ! i = block_of (sections ! i) (fit_kept st ! i)"
    "fit_sizes st ! i = map text_size (fit_blocks st ! i)"
    "length (fit_blocks st) = length sections" "length (fit_sizes st) = length sections"
    "length (fit_kept st) = length sections" "allowed_kept (sections ! i) (fit_kept st ! i)"
  using assms by (auto simp: fit_ok_def)

lemma start_fit_ok: "fit_ok sections (start_fit sections)"
  by (auto simp: fit_ok_def start_fit_def Let_def map2_self allowed_kept_def block_of_def o_def)

text \<open>Replacing the block of one section.\<close>

lemma fit_ok_replace:
  assumes ok: "fit_ok sections st" and i: "i < length sections" and names: "distinct (map sec_name sections)"
    and k: "allowed_kept (sections ! i) k" "k < length (sec_lines (sections ! i))"
    and kept: "fit_kept st' = (fit_kept st)[i := k]"
    and blocks: "fit_blocks st' = (fit_blocks st)[i := block_of (sections ! i) k]"
    and sizes: "fit_sizes st' = (fit_sizes st)[i := map text_size (block_of (sections ! i) k)]"
    and removed: "fit_removed st' = (if sec_name (sections ! i) \<in> set (fit_removed st) then fit_removed st
        else fit_removed st @ [sec_name (sections ! i)])"
    and lines: "fit_lines st' = fit_lines st - int (length (fit_blocks st ! i)) + int (length (block_of (sections ! i) k))"
    and bytes: "fit_bytes st' = fit_bytes st - sum_list (fit_sizes st ! i)
        + sum_list (map text_size (block_of (sections ! i) k))"
  shows "fit_ok sections st'"
proof -
  note d = fit_okD [OF ok i]
  have "fit_lines st' = sum_list (map (\<lambda>b. int (length b)) (fit_blocks st'))"
    using ok lines sum_update [of i "map (\<lambda>b. int (length b)) (fit_blocks st)" "int (length (block_of (sections ! i) k))"] i d(3)
    by (simp add: fit_ok_def blocks map_update)
  moreover have "fit_bytes st' = sum_list (map sum_list (fit_sizes st'))"
    using ok bytes sum_update [of i "map sum_list (fit_sizes st)" "sum_list (map text_size (block_of (sections ! i) k))"] i d(4)
    by (simp add: fit_ok_def sizes map_update)
  moreover have "fit_blocks st' = map2 block_of sections (fit_kept st')"
    using ok i d(5) by (simp add: fit_ok_def blocks kept map2_update)
  moreover have "fit_sizes st' = map (map text_size) (fit_blocks st')"
    using ok by (simp add: fit_ok_def blocks sizes map_update)
  moreover have other: "sec_name (sections ! j) \<noteq> sec_name (sections ! i)" if "j < length sections" "j \<noteq> i" for j
    using names that i by (auto simp: distinct_conv_nth)
  moreover have "\<forall>j<length sections. allowed_kept (sections ! j) (fit_kept st' ! j)
      \<and> (fit_kept st' ! j < length (sec_lines (sections ! j))
           \<longleftrightarrow> sec_name (sections ! j) \<in> set (fit_removed st'))"
    (is "\<forall>j<_. ?P j")
  proof (intro allI impI)
    fix j assume j: "j < length sections"
    have old: "allowed_kept (sections ! j) (fit_kept st ! j)
      \<and> (fit_kept st ! j < length (sec_lines (sections ! j)) \<longleftrightarrow> sec_name (sections ! j) \<in> set (fit_removed st))"
      using ok j unfolding fit_ok_def by blast
    show "?P j"
    proof (cases "j = i")
      case True
      with k d(5) i show ?thesis by (auto simp: kept removed)
    next
      case False
      with other [OF j False] old show ?thesis by (auto simp: kept removed)
    qed
  qed
  moreover have "set (fit_removed st') \<subseteq> sec_name ` set sections" "distinct (fit_removed st')"
    using ok i by (auto simp: fit_ok_def removed)
  ultimately show ?thesis using d(5) by (simp add: fit_ok_def kept)
qed

lemma drop_section_ok:
  assumes "fit_ok sections st" "i < length sections" "distinct (map sec_name sections)"
    "\<not> sec_essential (sections ! i)" "fit_blocks st ! i \<noteq> []"
  shows "fit_ok sections (drop_section (sections ! i) i st)"
proof -
  note d = fit_okD [OF assms(1,2)]
  have len: "0 < length (sec_lines (sections ! i))" "\<not> fit_kept st ! i < length (sec_lines (sections ! i))"
    using d(1) assms(4,5) by (auto simp: block_of_def split: if_splits)
  then have "sec_name (sections ! i) \<notin> set (fit_removed st)" using assms(1,2) by (auto simp: fit_ok_def)
  then show ?thesis
    using assms(4) len
    by (intro fit_ok_replace [OF assms(1-3), of 0]) (auto simp: allowed_kept_def block_of_def drop_section_def)
qed

lemma more_marker_positive: "0 < text_size (more_marker n)"
  by (simp add: more_marker_def text_size_Cons add_pos_nonneg)

definition marker_at :: "msection \<Rightarrow> nat \<Rightarrow> int" where
  "marker_at sec k = (if k = length (sec_lines sec) then 0
     else text_size (more_marker (length (sec_lines sec) - k)))"

lemma shorten_once_ok:
  assumes "fit_ok sections st" "i < length sections" "distinct (map sec_name sections)"
    "sec_essential (sections ! i)" "fit_kept st ! i = Suc k" "sec_keep (sections ! i) \<le> k"
  shows "fit_ok sections (shorten_once (sections ! i) i k (marker_at (sections ! i) (Suc k)) st)"
proof -
  let ?s = "sections ! i"
  note d = fit_okD [OF assms(1,2)]
  have le: "Suc k \<le> length (sec_lines ?s)"
    using d(6) assms(5) by (auto simp: allowed_kept_def)
  have new: "block_of ?s k = take k (sec_lines ?s) @ [more_marker (length (sec_lines ?s) - k)]"
    using le assms(4) by (simp add: block_of_def)
  have old: "fit_blocks st ! i = take (Suc k) (sec_lines ?s)
      @ (if Suc k = length (sec_lines ?s) then [] else [more_marker (length (sec_lines ?s) - Suc k)])"
    using d(1) assms(4,5) le by (auto simp: block_of_def)
  have take: "take (Suc k) (sec_lines ?s) = take k (sec_lines ?s) @ [sec_lines ?s ! k]"
    using le by (simp add: take_Suc_conv_app_nth)
  have zero: "marker_at ?s (Suc k) = 0 \<longleftrightarrow> Suc k = length (sec_lines ?s)"
    using more_marker_positive [of "length (sec_lines ?s) - Suc k"] by (auto simp: marker_at_def)
  show ?thesis
  proof (rule fit_ok_replace [OF assms(1-3), of k])
    show "allowed_kept ?s k" "k < length (sec_lines ?s)" using le assms(4,6) by (auto simp: allowed_kept_def)
    show "fit_lines (shorten_once ?s i k (marker_at ?s (Suc k)) st)
        = fit_lines st - int (length (fit_blocks st ! i)) + int (length (block_of ?s k))"
      using le by (simp add: shorten_once_def Let_def new old zero)
    show "fit_bytes (shorten_once ?s i k (marker_at ?s (Suc k)) st)
        = fit_bytes st - sum_list (fit_sizes st ! i) + sum_list (map text_size (block_of ?s k))"
      unfolding d(2) old new take
      by (simp add: shorten_once_def Let_def marker_at_def)
  qed (simp_all add: shorten_once_def Let_def new)
qed

lemma shorten_once_kept:
  "fit_kept (shorten_once sec i k m st) = (fit_kept st)[i := k]"
  by (simp add: shorten_once_def Let_def)

text \<open>The two loops: what they keep, and where they stop.\<close>

lemma shorten_ok:
  fixes over :: "fit \<Rightarrow> bool"
  assumes "fit_ok sections st" "i < length sections" "distinct (map sec_name sections)"
    "sec_essential (sections ! i)" "fit_kept st ! i = k"
  defines "st' \<equiv> shorten over (sections ! i) i k (marker_at (sections ! i) k) st"
  shows "fit_ok sections st'" "over st' \<Longrightarrow> fit_kept st' ! i \<le> sec_keep (sections ! i)"
    "j \<noteq> i \<Longrightarrow> fit_kept st' ! j = fit_kept st ! j" "\<not> over st \<Longrightarrow> st' = st"
proof -
  let ?s = "sections ! i"
  have "fit_ok sections (shorten over ?s i k (marker_at ?s k) st)
      \<and> (over (shorten over ?s i k (marker_at ?s k) st) \<longrightarrow>
           fit_kept (shorten over ?s i k (marker_at ?s k) st) ! i \<le> sec_keep ?s)
      \<and> (j \<noteq> i \<longrightarrow> fit_kept (shorten over ?s i k (marker_at ?s k) st) ! j = fit_kept st ! j)"
    using assms(1,5)
  proof (induction k arbitrary: st)
    case 0
    then show ?case by simp
  next
    case (Suc k)
    show ?case
    proof (cases "over st \<and> sec_keep ?s < Suc k")
      case False
      then show ?thesis using Suc.prems by auto
    next
      case True
      let ?m = "marker_at ?s (Suc k)" and ?st1 = "shorten_once ?s i k (marker_at ?s (Suc k)) st"
      have ok1: "fit_ok sections ?st1"
        by (rule shorten_once_ok [OF Suc.prems(1) assms(2-4) Suc.prems(2)]) (use True in simp)
      have "Suc k \<le> length (sec_lines ?s)"
        using fit_okD(6) [OF Suc.prems(1) assms(2)] Suc.prems(2) by (auto simp: allowed_kept_def)
      then have m: "text_size (more_marker (length (sec_lines ?s) - k)) = marker_at ?s k"
        by (simp add: marker_at_def)
      have kept: "fit_kept ?st1 ! i = k"
        using fit_okD(5) [OF Suc.prems(1) assms(2)] assms(2) by (simp add: shorten_once_kept)
      from Suc.IH [OF ok1 kept] show ?thesis
        using True by (simp add: m shorten_once_kept)
    qed
  qed
  then show "fit_ok sections st'" "over st' \<Longrightarrow> fit_kept st' ! i \<le> sec_keep ?s"
    "j \<noteq> i \<Longrightarrow> fit_kept st' ! j = fit_kept st ! j" by (simp_all add: st'_def)
  show "\<not> over st \<Longrightarrow> st' = st" by (cases k) (simp_all add: st'_def)
qed

definition at_floor :: "msection \<Rightarrow> nat \<Rightarrow> bool" where
  "at_floor sec k = (if sec_essential sec then k \<le> sec_keep sec \<or> length (sec_lines sec) \<le> sec_keep sec
     else k = 0)"

lemma shorten_sections_done: "\<not> over st \<Longrightarrow> shorten_sections over sections is st = st"
proof (induction "is")
  case (Cons i "is")
  have "shorten over (sections ! i) i (length (sec_lines (sections ! i))) 0 st = st"
    using Cons.prems by (cases "length (sec_lines (sections ! i))") simp_all
  with Cons show ?case by (simp add: Let_def)
qed simp

lemma drop_sections_ok:
  fixes over :: "fit \<Rightarrow> bool"
  assumes "fit_ok sections st" "set is \<subseteq> {..<length sections}" "distinct (map sec_name sections)"
  defines "st' \<equiv> drop_sections over sections is st"
  shows "fit_ok sections st'"
    "over st' \<Longrightarrow> i \<in> set is \<Longrightarrow> \<not> sec_essential (sections ! i) \<Longrightarrow> fit_kept st' ! i = 0"
    "j < length sections \<Longrightarrow> sec_essential (sections ! j) \<Longrightarrow> fit_kept st' ! j = fit_kept st ! j"
    "j < length sections \<Longrightarrow> fit_kept st ! j = 0 \<Longrightarrow> fit_kept st' ! j = 0"
proof -
  let ?d = "\<lambda>is st. drop_sections over sections is st"
  have "fit_ok sections (?d is st)
     \<and> (\<forall>i\<in>set is. over (?d is st) \<longrightarrow> \<not> sec_essential (sections ! i) \<longrightarrow> fit_kept (?d is st) ! i = 0)
     \<and> (\<forall>j<length sections. (sec_essential (sections ! j) \<longrightarrow> fit_kept (?d is st) ! j = fit_kept st ! j)
          \<and> (fit_kept st ! j = 0 \<longrightarrow> fit_kept (?d is st) ! j = 0))"
    using assms(1,2)
  proof (induction "is" arbitrary: st)
    case Nil
    then show ?case by simp
  next
    case (Cons i "is")
    have i: "i < length sections" and sub: "set is \<subseteq> {..<length sections}" using Cons.prems(2) by auto
    note d = fit_okD [OF Cons.prems(1) i]
    show ?case
    proof (cases "over st")
      case False
      with Cons.prems show ?thesis by simp
    next
      case over: True
      show ?thesis
      proof (cases "sec_essential (sections ! i) \<or> fit_blocks st ! i = []")
        case True
        have "\<not> sec_essential (sections ! i) \<Longrightarrow> fit_kept st ! i = 0"
          using True d(1,6) by (auto simp: block_of_def allowed_kept_def split: if_splits)
        with True over Cons.IH [OF Cons.prems(1) sub] i show ?thesis by simp
      next
        case False
        have ok: "fit_ok sections (drop_section (sections ! i) i st)"
          by (rule drop_section_ok [OF Cons.prems(1) i assms(3)]) (use False in auto)
        have "fit_kept (drop_section (sections ! i) i st) = (fit_kept st)[i := 0]"
          by (simp add: drop_section_def)
        with False over Cons.IH [OF ok sub] i d(5) show ?thesis
          by (auto simp: nth_list_update split: if_splits)
      qed
    qed
  qed
  then show "fit_ok sections st'"
    "over st' \<Longrightarrow> i \<in> set is \<Longrightarrow> \<not> sec_essential (sections ! i) \<Longrightarrow> fit_kept st' ! i = 0"
    "j < length sections \<Longrightarrow> sec_essential (sections ! j) \<Longrightarrow> fit_kept st' ! j = fit_kept st ! j"
    "j < length sections \<Longrightarrow> fit_kept st ! j = 0 \<Longrightarrow> fit_kept st' ! j = 0"
    by (auto simp: st'_def)
qed

lemma shorten_sections_ok:
  fixes over :: "fit \<Rightarrow> bool"
  assumes "fit_ok sections st" "set is \<subseteq> {..<length sections}" "distinct is"
    and "distinct (map sec_name sections)"
    and "\<And>i. i \<in> set is \<Longrightarrow> sec_essential (sections ! i) \<Longrightarrow> fit_kept st ! i = length (sec_lines (sections ! i))"
  defines "st' \<equiv> shorten_sections over sections is st"
  shows "fit_ok sections st'"
    "over st' \<Longrightarrow> i \<in> set is \<Longrightarrow> sec_essential (sections ! i) \<Longrightarrow> at_floor (sections ! i) (fit_kept st' ! i)"
    "j < length sections \<Longrightarrow> j \<notin> set is \<or> \<not> sec_essential (sections ! j) \<Longrightarrow> fit_kept st' ! j = fit_kept st ! j"
proof -
  let ?d = "\<lambda>is st. shorten_sections over sections is st"
  have "fit_ok sections (?d is st)
     \<and> (\<forall>i\<in>set is. over (?d is st) \<longrightarrow> sec_essential (sections ! i) \<longrightarrow> at_floor (sections ! i) (fit_kept (?d is st) ! i))
     \<and> (\<forall>j<length sections. j \<notin> set is \<or> \<not> sec_essential (sections ! j) \<longrightarrow> fit_kept (?d is st) ! j = fit_kept st ! j)"
    using assms(1,2,3,5)
  proof (induction "is" arbitrary: st)
    case Nil
    then show ?case by simp
  next
    case (Cons i "is")
    have i: "i < length sections" and sub: "set is \<subseteq> {..<length sections}" and dist: "distinct is" "i \<notin> set is"
      using Cons.prems(2,3) by auto
    let ?s = "sections ! i"
    show ?case
    proof (cases "\<not> sec_essential ?s \<or> length (sec_lines ?s) \<le> sec_keep ?s")
      case True
      note ih = Cons.IH [OF Cons.prems(1) sub dist(1) Cons.prems(4)]
      have "shorten_sections over sections (i # is) st = shorten_sections over sections is st"
        using True by (auto simp: Let_def)
      with True ih show ?thesis by (auto simp: at_floor_def)
    next
      case False
      let ?st1 = "shorten over ?s i (length (sec_lines ?s)) 0 st"
      have full: "fit_kept st ! i = length (sec_lines ?s)" using Cons.prems(4) False by simp
      have zero: "marker_at ?s (length (sec_lines ?s)) = 0" by (simp add: marker_at_def)
      note sh = shorten_ok [OF Cons.prems(1) i assms(4) _ full, where over = over, unfolded zero]
      have ess: "sec_essential ?s" using False by simp
      have st1: "shorten_sections over sections (i # is) st = shorten_sections over sections is ?st1"
        using False by (simp add: Let_def)
      have ih: "fit_ok sections (?d is ?st1)
         \<and> (\<forall>i\<in>set is. over (?d is ?st1) \<longrightarrow> sec_essential (sections ! i) \<longrightarrow> at_floor (sections ! i) (fit_kept (?d is ?st1) ! i))
         \<and> (\<forall>j<length sections. j \<notin> set is \<or> \<not> sec_essential (sections ! j) \<longrightarrow> fit_kept (?d is ?st1) ! j = fit_kept ?st1 ! j)"
      proof (rule Cons.IH [OF sh(1) [OF ess] sub dist(1)])
        fix k assume k: "k \<in> set is" "sec_essential (sections ! k)"
        then have "k \<noteq> i" using dist(2) by auto
        from sh(3) [OF ess this] Cons.prems(4) [of k] k
        show "fit_kept ?st1 ! k = length (sec_lines (sections ! k))" by simp
      qed
      have floor: "at_floor ?s (fit_kept (?d is ?st1) ! i)" if "over (?d is ?st1)"
      proof -
        have "over ?st1" using that shorten_sections_done [of over ?st1] by metis
        from sh(2) [OF ess this] have "fit_kept ?st1 ! i \<le> sec_keep ?s" .
        moreover have "fit_kept (?d is ?st1) ! i = fit_kept ?st1 ! i" using ih i dist(2) by blast
        ultimately show ?thesis using ess by (simp add: at_floor_def)
      qed
      have other: "fit_kept ?st1 ! j = fit_kept st ! j" if "j \<noteq> i" for j by (rule sh(3) [OF ess that])
      have rest: "fit_kept (?d is ?st1) ! j = fit_kept st ! j"
        if "j < length sections" "j \<notin> set (i # is) \<or> \<not> sec_essential (sections ! j)" for j
      proof -
        have "j \<noteq> i" using that(2) ess by auto
        from other [OF this] ih that show ?thesis by auto
      qed
      show ?thesis unfolding st1
      proof (intro conjI ballI allI impI)
        show "fit_ok sections (?d is ?st1)" using ih by blast
        fix k assume k: "k \<in> set (i # is)" "over (?d is ?st1)" "sec_essential (sections ! k)"
        then show "at_floor (sections ! k) (fit_kept (?d is ?st1) ! k)"
          using floor ih by (cases "k = i") auto
      qed (rule rest)
    qed
  qed
  then show "fit_ok sections st'"
    "over st' \<Longrightarrow> i \<in> set is \<Longrightarrow> sec_essential (sections ! i) \<Longrightarrow> at_floor (sections ! i) (fit_kept st' ! i)"
    "j < length sections \<Longrightarrow> j \<notin> set is \<or> \<not> sec_essential (sections ! j) \<Longrightarrow> fit_kept st' ! j = fit_kept st ! j"
    by (auto simp: st'_def)
qed

lemma removal_order_facts:
  "set (removal_order sections) = {..<length sections}" "distinct (removal_order sections)"
  by (auto simp: removal_order_def)

lemma start_kept: "i < length sections \<Longrightarrow> fit_kept (start_fit sections) ! i = length (sec_lines (sections ! i))"
  by (simp add: start_fit_def Let_def)

lemma fitted_ok:
  assumes "distinct (map sec_name sections)"
  shows "fit_ok sections (fitted over sections)"
    "over (fitted over sections) \<Longrightarrow> i < length sections
       \<Longrightarrow> at_floor (sections ! i) (fit_kept (fitted over sections) ! i)"
proof -
  let ?o = "removal_order sections"
  let ?d = "drop_sections over sections ?o (start_fit sections)"
  note f = removal_order_facts [of sections]
  have sub: "set ?o \<subseteq> {..<length sections}" by (simp add: f)
  note dr = drop_sections_ok [OF start_fit_ok sub assms, where over = over]
  have full: "fit_kept ?d ! i = length (sec_lines (sections ! i))" if "i \<in> set ?o" "sec_essential (sections ! i)" for i
    using dr(3) [of i] start_kept [of i sections] that sub by auto
  note sh = shorten_sections_ok [OF dr(1) sub f(2) assms full, where over = over]
  have st: "fitted over sections = shorten_sections over sections ?o ?d"
    by (simp add: fitted_def Let_def)
  show "fit_ok sections (fitted over sections)" unfolding st by (rule sh(1))
  assume ov: "over (fitted over sections)" and i: "i < length sections"
  show "at_floor (sections ! i) (fit_kept (fitted over sections) ! i)"
  proof (cases "sec_essential (sections ! i)")
    case True
    with sh(2) [of i] ov i f(1) st show ?thesis by simp
  next
    case False
    have "over ?d" using ov shorten_sections_done [of over ?d] st by metis
    then have "fit_kept ?d ! i = 0" using dr(2) [of i] False i f(1) by simp
    moreover have "fit_kept (fitted over sections) ! i = fit_kept ?d ! i"
      unfolding st using sh(3) [of i] False i by simp
    ultimately show ?thesis using False by (simp add: at_floor_def)
  qed
qed

section \<open>The running totals are the recount\<close>

definition recount :: "msection list \<Rightarrow> string \<Rightarrow> int \<Rightarrow> fit \<Rightarrow> bool" where
  "recount sections ev budget st =
     (budget < text_size (join_lines (body_lines (tail_from 0 sections) (fit_blocks st) (fit_removed st) ev)))"

lemma join_size: "text_size (join_lines ls) = sum_list (map text_size ls) + max (int (length ls) - 1) 0"
  by (induction ls rule: join_lines.induct) (simp_all add: text_size_Cons)

lemma sum_concat: "sum_list (map f (concat bs)) = sum_list (map (\<lambda>b. sum_list (map f b)) bs)" for f :: "'a \<Rightarrow> int"
  by (induction bs) simp_all

lemma body_sum:
  fixes f :: "string \<Rightarrow> int"
  assumes "\<And>t. tail = Some t \<Longrightarrow> t < length blocks"
  shows "sum_list (map f (body_lines tail blocks removed ev))
    = sum_list (map (\<lambda>b. sum_list (map f b)) blocks)
      + (if removed = [] then 0 else f [] + f (omission_line removed ev))"
proof (cases tail)
  case None
  then show ?thesis by (simp add: body_lines_def Let_def sum_concat)
next
  case (Some t)
  have "sum_list (map (\<lambda>b. sum_list (map f b)) blocks)
      = sum_list (map (\<lambda>b. sum_list (map f b)) (take t blocks @ blocks ! t # drop (Suc t) blocks))"
    using assms [OF Some] by (simp add: id_take_nth_drop [symmetric])
  with Some show ?thesis by (simp add: body_lines_def Let_def sum_concat)
qed

lemma body_length:
  assumes "\<And>t. tail = Some t \<Longrightarrow> t < length blocks"
  shows "int (length (body_lines tail blocks removed ev))
    = sum_list (map (\<lambda>b. int (length b)) blocks) + (if removed = [] then 0 else 2)"
proof -
  have len: "int (length ls) = sum_list (map (\<lambda>_. 1) ls)" for ls :: "'a list" by (induction ls) simp_all
  show ?thesis using body_sum [OF assms, where f = "\<lambda>_. 1" and removed = removed and ev = ev]
    by (simp add: len [symmetric])
qed

lemma over_budget_recount:
  assumes "fit_ok sections st"
  shows "over_budget budget ev st = recount sections ev budget st"
proof -
  have tail: "t < length (fit_blocks st)" if "tail_from 0 sections = Some t" for t
    using tail_from_Some [OF that] assms by (simp add: fit_ok_def)
  have bytes: "fit_bytes st = sum_list (map (\<lambda>b. sum_list (map text_size b)) (fit_blocks st))"
    using assms by (simp add: fit_ok_def o_def)
  have lines: "fit_lines st = sum_list (map (\<lambda>b. int (length b)) (fit_blocks st))"
    using assms unfolding fit_ok_def by (elim conjE)
  let ?body = "body_lines (tail_from 0 sections) (fit_blocks st) (fit_removed st) ev"
  have sum: "sum_list (map text_size ?body) = sum_list (map (\<lambda>b. sum_list (map text_size b)) (fit_blocks st))
      + (if fit_removed st = [] then 0 else text_size [] + text_size (omission_line (fit_removed st) ev))"
    by (rule body_sum) (rule tail)
  have len: "int (length ?body) = sum_list (map (\<lambda>b. int (length b)) (fit_blocks st))
      + (if fit_removed st = [] then 0 else 2)"
    by (rule body_length) (rule tail)
  show ?thesis
    unfolding recount_def join_size sum len over_budget_def Let_def bytes lines by simp
qed

lemma shorten_cong:
  assumes "\<And>st. fit_ok sections st \<Longrightarrow> f st = g st"
    and "fit_ok sections st" "i < length sections" "distinct (map sec_name sections)"
    "sec_essential (sections ! i)" "fit_kept st ! i = k"
  shows "shorten f (sections ! i) i k (marker_at (sections ! i) k) st
    = shorten g (sections ! i) i k (marker_at (sections ! i) k) st"
  using assms(2,6)
proof (induction k arbitrary: st)
  case (Suc k)
  let ?s = "sections ! i"
  show ?case
  proof (cases "g st \<and> sec_keep ?s < Suc k")
    case True
    let ?st1 = "shorten_once ?s i k (marker_at ?s (Suc k)) st"
    have ok1: "fit_ok sections ?st1"
      by (rule shorten_once_ok [OF Suc.prems(1) assms(3-5) Suc.prems(2)]) (use True in simp)
    have le: "Suc k \<le> length (sec_lines ?s)"
      using fit_okD(6) [OF Suc.prems(1) assms(3)] Suc.prems(2) by (auto simp: allowed_kept_def)
    then have m: "text_size (more_marker (length (sec_lines ?s) - k)) = marker_at ?s k"
      by (simp add: marker_at_def)
    have kept: "fit_kept ?st1 ! i = k"
      using fit_okD(5) [OF Suc.prems(1) assms(3)] assms(3) by (simp add: shorten_once_kept)
    from Suc.IH [OF ok1 kept] True assms(1) [OF Suc.prems(1)] show ?thesis by (simp add: m)
  qed (use assms(1) [OF Suc.prems(1)] in auto)
qed simp

lemma drop_sections_cong:
  assumes "\<And>st. fit_ok sections st \<Longrightarrow> f st = g st"
    and "fit_ok sections st" "set is \<subseteq> {..<length sections}" "distinct (map sec_name sections)"
  shows "drop_sections f sections is st = drop_sections g sections is st"
  using assms(2,3)
proof (induction "is" arbitrary: st)
  case (Cons i "is")
  have "fit_ok sections (drop_section (sections ! i) i st)"
    if "\<not> (sec_essential (sections ! i) \<or> fit_blocks st ! i = [])"
    by (rule drop_section_ok [OF Cons.prems(1) _ assms(4)]) (use that Cons.prems(2) in auto)
  with Cons assms(1) [OF Cons.prems(1)] show ?case by auto
qed simp

lemma shorten_sections_cong:
  assumes "\<And>st. fit_ok sections st \<Longrightarrow> f st = g st"
    and "fit_ok sections st" "set is \<subseteq> {..<length sections}" "distinct is"
    and "distinct (map sec_name sections)"
    and "\<And>i. i \<in> set is \<Longrightarrow> sec_essential (sections ! i) \<Longrightarrow> fit_kept st ! i = length (sec_lines (sections ! i))"
  shows "shorten_sections f sections is st = shorten_sections g sections is st"
  using assms(2,3,4,6)
proof (induction "is" arbitrary: st)
  case (Cons i "is")
  let ?s = "sections ! i"
  have i: "i < length sections" and sub: "set is \<subseteq> {..<length sections}" and dist: "distinct is" "i \<notin> set is"
    using Cons.prems(2,3) by auto
  show ?case
  proof (cases "\<not> sec_essential ?s \<or> length (sec_lines ?s) \<le> sec_keep ?s")
    case True
    have "shorten_sections f sections is st = shorten_sections g sections is st"
      by (rule Cons.IH [OF Cons.prems(1) sub dist(1)]) (use Cons.prems(4) in auto)
    with True show ?thesis by (auto simp: Let_def)
  next
    case False
    then have ess: "sec_essential ?s" by simp
    have full: "fit_kept st ! i = length (sec_lines ?s)" using Cons.prems(4) ess by simp
    have zero: "marker_at ?s (length (sec_lines ?s)) = 0" by (simp add: marker_at_def)
    have same: "shorten f ?s i (length (sec_lines ?s)) 0 st = shorten g ?s i (length (sec_lines ?s)) 0 st"
      using shorten_cong [OF assms(1) Cons.prems(1) i assms(5) ess full] by (simp add: zero)
    note sh = shorten_ok [OF Cons.prems(1) i assms(5) ess full, where over = g, unfolded zero]
    have "shorten_sections f sections is (shorten g ?s i (length (sec_lines ?s)) 0 st)
        = shorten_sections g sections is (shorten g ?s i (length (sec_lines ?s)) 0 st)"
    proof (rule Cons.IH [OF sh(1) sub dist(1)])
      fix k assume k: "k \<in> set is" "sec_essential (sections ! k)"
      then have "k \<noteq> i" using dist(2) by auto
      from sh(3) [OF this] Cons.prems(4) [of k] k
      show "fit_kept (shorten g ?s i (length (sec_lines ?s)) 0 st) ! k = length (sec_lines (sections ! k))" by simp
    qed
    with False same show ?thesis by (simp add: Let_def)
  qed
qed simp

lemma fitted_cong:
  assumes "\<And>st. fit_ok sections st \<Longrightarrow> f st = g st" "distinct (map sec_name sections)"
  shows "fitted f sections = fitted g sections"
proof -
  note r = removal_order_facts [of sections]
  have sub: "set (removal_order sections) \<subseteq> {..<length sections}" by (simp add: r)
  note dr = drop_sections_ok [OF start_fit_ok sub assms(2), where over = g]
  have full: "fit_kept (drop_sections g sections (removal_order sections) (start_fit sections)) ! i
      = length (sec_lines (sections ! i))"
    if "i \<in> set (removal_order sections)" "sec_essential (sections ! i)" for i
    using dr(3) [of i] start_kept [of i sections] that sub by auto
  have same: "drop_sections f sections (removal_order sections) (start_fit sections)
      = drop_sections g sections (removal_order sections) (start_fit sections)"
    by (rule drop_sections_cong [OF assms(1) start_fit_ok sub assms(2)])
  show ?thesis
    unfolding fitted_def Let_def same
    by (rule shorten_sections_cong [OF assms(1) dr(1) sub r(2) assms(2) full])
qed

text \<open>
  keeping running totals instead of measuring the message again after each removal changes nothing: the
  composed message is the one a composer would make that renders and measures it every time.
\<close>

theorem compose_recounts:
  assumes "distinct (map sec_name sections)"
  shows "compose sections ev budget = compose_with (recount sections ev budget) sections ev budget"
  unfolding compose_def compose_with_def
  by (simp only: fitted_cong [OF over_budget_recount assms])

section \<open>What a composed message is\<close>

definition message_of :: "msection list \<Rightarrow> nat list \<Rightarrow> string list \<Rightarrow> string \<Rightarrow> string" where
  "message_of sections kept removed ev =
     join_lines (body_lines (tail_from 0 sections) (map2 block_of sections kept) removed ev)"

lemma compose_with_fitted:
  assumes "distinct (map sec_name sections)" "compose sections ev budget = Inr c"
  defines "st \<equiv> fitted (over_budget budget ev) sections"
  shows "cm_text c = message_of sections (fit_kept st) (fit_removed st) ev"
    "cm_omitted c = fit_removed st" "cm_survivors c = survivors sections (fit_kept st)"
    "text_size (cm_text c) \<le> budget" "fit_ok sections st"
proof -
  show ok: "fit_ok sections st" unfolding st_def by (rule fitted_ok(1) [OF assms(1)])
  have "fit_blocks st = map2 block_of sections (fit_kept st)" using ok by (simp add: fit_ok_def)
  then show "cm_text c = message_of sections (fit_kept st) (fit_removed st) ev"
    "cm_omitted c = fit_removed st" "cm_survivors c = survivors sections (fit_kept st)"
    "text_size (cm_text c) \<le> budget"
    using assms(2) unfolding compose_def compose_with_def Let_def st_def [symmetric] message_of_def
    by (auto split: if_splits)
qed

text \<open>
  C22: a composed message stays within its budget and is honest about what it left out: it consists of the
  first lines of every section, at least the floor of an essential one, none or all of another; a section
  that lost a line is named in the omission notice, and no other is; the survivors reported are the
  owners of the lines kept.
\<close>

theorem composed_message_is_honest:
  assumes "compose sections ev budget = Inr c" "distinct (map sec_name sections)"
  shows "text_size (cm_text c) \<le> budget
    \<and> (\<exists>kept. length kept = length sections
        \<and> cm_text c = message_of sections kept (cm_omitted c) ev
        \<and> cm_survivors c = survivors sections kept
        \<and> set (cm_omitted c) \<subseteq> sec_name ` set sections
        \<and> (\<forall>i<length sections. allowed_kept (sections ! i) (kept ! i)
             \<and> (kept ! i < length (sec_lines (sections ! i))
                  \<longleftrightarrow> sec_name (sections ! i) \<in> set (cm_omitted c))))"
proof -
  let ?st = "fitted (over_budget budget ev) sections"
  note c = compose_with_fitted [OF assms(2,1)]
  have "length (fit_kept ?st) = length sections \<and> set (fit_removed ?st) \<subseteq> sec_name ` set sections
    \<and> (\<forall>i<length sections. allowed_kept (sections ! i) (fit_kept ?st ! i)
        \<and> (fit_kept ?st ! i < length (sec_lines (sections ! i))
             \<longleftrightarrow> sec_name (sections ! i) \<in> set (fit_removed ?st)))"
    using c(5) unfolding fit_ok_def by blast
  with c(1-4) show ?thesis by metis
qed

text \<open>A message that fits loses nothing.\<close>

lemma fitting_message_is_whole:
  assumes "text_size (message_of sections (map (length \<circ> sec_lines) sections) [] ev) \<le> budget"
  shows "compose sections ev budget
    = Inr \<lparr>cm_text = message_of sections (map (length \<circ> sec_lines) sections) [] ev, cm_omitted = [],
           cm_survivors = survivors sections (map (length \<circ> sec_lines) sections)\<rparr>"
proof -
  let ?st = "start_fit sections"
  have blocks: "fit_blocks ?st = map2 block_of sections (map (length \<circ> sec_lines) sections)"
    by (simp add: start_fit_def Let_def map2_self block_of_def o_def)
  have removed: "fit_removed ?st = []" by (simp add: start_fit_def Let_def)
  have not: "\<not> over_budget budget ev ?st"
    using assms over_budget_recount [OF start_fit_ok, of budget ev sections]
    by (simp add: recount_def message_of_def blocks removed)
  have "drop_sections (over_budget budget ev) sections is ?st = ?st" for "is"
    using not by (cases "is") simp_all
  then have fit: "fitted (over_budget budget ev) sections = ?st"
    using shorten_sections_done [of "over_budget budget ev" ?st] not by (simp add: fitted_def Let_def)
  have kept: "fit_kept ?st = map (length \<circ> sec_lines) sections"
    by (simp add: start_fit_def Let_def o_def)
  show ?thesis
    using assms by (simp add: compose_def compose_with_def fit Let_def blocks removed kept message_of_def)
qed

section \<open>When composing succeeds\<close>

text \<open>The least a section can be reduced to, and a bound on the whole message at that point.\<close>

definition floor_block :: "msection \<Rightarrow> string list" where
  "floor_block sec = (if sec_essential sec then block_of sec (min (sec_keep sec) (length (sec_lines sec))) else [])"

definition floor_bound :: "msection list \<Rightarrow> string \<Rightarrow> int" where
  "floor_bound sections ev =
     sum_list (map (\<lambda>s. sum_list (map (\<lambda>l. text_size l + 1) (floor_block s))) sections)
     + 1 + text_size (omission_line [] ev) + sum_list (map (\<lambda>s. text_size (sec_name s) + 2) sections)"

lemma block_at_floor:
  assumes "allowed_kept sec k" "at_floor sec k" shows "block_of sec k = floor_block sec"
  using assms by (cases "sec_essential sec") (auto simp: allowed_kept_def at_floor_def floor_block_def block_of_def min_def)

lemma comma_join_size: "text_size (comma_join ws) \<le> sum_list (map (\<lambda>w. text_size w + 2) ws)"
  by (induction ws rule: comma_join.induct) (simp_all add: text_size_Cons)

lemma omission_size:
  assumes "distinct removed" "set removed \<subseteq> sec_name ` set sections"
  shows "text_size (omission_line removed ev)
    \<le> text_size (omission_line [] ev) + sum_list (map (\<lambda>s. text_size (sec_name s) + 2) sections)"
proof -
  let ?f = "\<lambda>w. text_size w + 2"
  have "sum_list (map ?f removed) = sum ?f (set removed)"
    using assms(1) by (rule sum_list_distinct_conv_sum_set)
  also have "\<dots> \<le> sum ?f (sec_name ` set sections)"
    by (rule sum_mono2) (use assms(2) in \<open>auto simp: add_nonneg_nonneg\<close>)
  also have "\<dots> = sum ?f (set (map sec_name sections))" by simp
  also have "\<dots> \<le> sum_list (map ?f (map sec_name sections))"
  proof -
    have "sum ?f (set ws) \<le> sum_list (map ?f ws)" for ws
    proof (induction ws)
      case (Cons w ws)
      then show ?case
        by (cases "w \<in> set ws") (auto simp: insert_absorb add_nonneg_nonneg intro: order_trans)
    qed simp
    then show ?thesis .
  qed
  finally have "text_size (comma_join removed) \<le> sum_list (map (\<lambda>s. text_size (sec_name s) + 2) sections)"
    using comma_join_size [of removed] by (simp add: o_def)
  then show ?thesis unfolding omission_line_def text_size_append by simp
qed

lemma sum_lines_plus: "sum_list (map (\<lambda>l. text_size l + 1) ls) = sum_list (map text_size ls) + int (length ls)"
  by (induction ls) simp_all

lemma compose_total:
  assumes "floor_bound sections ev \<le> budget" "distinct (map sec_name sections)"
  shows "\<exists>c. compose sections ev budget = Inr c"
proof -
  define st where "st = fitted (over_budget budget ev) sections"
  have ok: "fit_ok sections st" unfolding st_def by (rule fitted_ok(1) [OF assms(2)])
  have "\<not> recount sections ev budget st"
  proof
    assume over: "recount sections ev budget st"
    then have "over_budget budget ev st" using over_budget_recount [OF ok] by simp
    then have floor: "at_floor (sections ! i) (fit_kept st ! i)" if "i < length sections" for i
      using fitted_ok(2) [OF assms(2)] that by (simp add: st_def)
    have len: "length (fit_kept st) = length sections" using ok by (simp add: fit_ok_def)
    have blk: "fit_blocks st = map floor_block sections"
    proof (rule nth_equalityI)
      show "length (fit_blocks st) = length (map floor_block sections)" using ok by (simp add: fit_ok_def)
      fix i assume "i < length (fit_blocks st)"
      then have i: "i < length sections" using ok by (simp add: fit_ok_def)
      show "fit_blocks st ! i = map floor_block sections ! i"
        using block_at_floor [OF fit_okD(6) [OF ok i] floor [OF i]] fit_okD(1) [OF ok i] i by simp
    qed
    have tail: "t < length (fit_blocks st)" if "tail_from 0 sections = Some t" for t
      using tail_from_Some [OF that] ok by (simp add: fit_ok_def)
    let ?body = "body_lines (tail_from 0 sections) (fit_blocks st) (fit_removed st) ev"
    have sum: "sum_list (map (\<lambda>l. text_size l + 1) ?body)
        = sum_list (map (\<lambda>b. sum_list (map (\<lambda>l. text_size l + 1) b)) (fit_blocks st))
          + (if fit_removed st = [] then 0 else text_size [] + 1 + (text_size (omission_line (fit_removed st) ev) + 1))"
      by (rule body_sum) (rule tail)
    have om: "text_size (omission_line (fit_removed st) ev)
        \<le> text_size (omission_line [] ev) + sum_list (map (\<lambda>s. text_size (sec_name s) + 2) sections)"
      by (rule omission_size) (use ok in \<open>auto simp: fit_ok_def\<close>)
    have names: "0 \<le> sum_list (map (\<lambda>s. text_size (sec_name s) + 2) sections)"
      by (rule sum_list_nonneg) (auto simp: add_nonneg_nonneg)
    have fits: "text_size (join_lines ?body) \<le> max 0 (sum_list (map (\<lambda>l. text_size l + 1) ?body) - 1)"
      unfolding join_size sum_lines_plus by (cases ?body) simp_all
    define A where "A = sum_list (map (\<lambda>b. sum_list (map (\<lambda>l. text_size l + 1) b)) (fit_blocks st))"
    have A: "0 \<le> A" unfolding A_def
      by (intro sum_list_nonneg) (auto intro!: sum_list_nonneg add_nonneg_nonneg)
    have bound: "floor_bound sections ev = A + 1 + text_size (omission_line [] ev)
        + sum_list (map (\<lambda>s. text_size (sec_name s) + 2) sections)"
      by (simp add: floor_bound_def A_def blk o_def)
    have "text_size (join_lines ?body) \<le> floor_bound sections ev"
    proof (cases "fit_removed st = []")
      case True
      then have "text_size (join_lines ?body) \<le> max 0 (A - 1)" using fits sum by (simp add: A_def)
      with A names bound text_size_nonneg [of "omission_line [] ev"] show ?thesis by linarith
    next
      case False
      then have "text_size (join_lines ?body) \<le> max 0 (A + (2 + text_size (omission_line (fit_removed st) ev)) - 1)"
        using fits sum by (simp add: A_def)
      with A om names bound text_size_nonneg [of "omission_line (fit_removed st) ev"] show ?thesis by linarith
    qed
    with over assms(1) show False by (simp add: recount_def)
  qed
  then show ?thesis by (simp add: compose_def compose_with_def recount_def st_def Let_def)
qed

section \<open>The last line\<close>

lemma split_on_join: "split_on c (s @ c # t) = split_on c s @ split_on c t"
proof (induction s)
  case (Cons x s)
  show ?case
  proof (cases "x = c")
    case False
    obtain l ls where "split_on c s = l # ls" by (cases "split_on c s") auto
    with Cons False show ?thesis by simp
  qed (use Cons in simp)
qed simp

lemma last_line: "one_line x \<Longrightarrow> last (split_lines (join_lines (ls @ [x]))) = x"
proof (cases "ls = []")
  case False
  assume "one_line x"
  then have "split_lines x = [x]" by (simp add: one_line_def split_on_word)
  then show ?thesis by (simp add: join_lines_append False split_on_join)
qed (simp add: one_line_def split_on_word)

text \<open>
  the section marked as the last ends the message even when something was left out: its last line is the
  last line of the text, after the omission notice.
\<close>

lemma final_section_stays_last:
  assumes "compose sections ev budget = Inr c" "distinct (map sec_name sections)"
    and "tail_from 0 sections = Some t" "sec_essential (sections ! t)"
    and "length (sec_lines (sections ! t)) \<le> sec_keep (sections ! t)"
    and "sec_lines (sections ! t) = ls @ [x]" "one_line x"
  shows "last (split_lines (cm_text c)) = x"
proof -
  let ?st = "fitted (over_budget budget ev) sections"
  note c = compose_with_fitted [OF assms(2,1)]
  have t: "t < length sections" using tail_from_Some [OF assms(3)] by simp
  have "fit_kept ?st ! t = length (sec_lines (sections ! t))"
    using fit_okD(6) [OF c(5) t] assms(4,5) by (auto simp: allowed_kept_def)
  then have "fit_blocks ?st ! t = ls @ [x]"
    using fit_okD(1) [OF c(5) t] assms(6) by (simp add: block_of_def)
  moreover have "cm_text c = join_lines (body_lines (Some t) (fit_blocks ?st) (fit_removed ?st) ev)"
    using c(1,5) by (simp add: message_of_def assms(3) fit_ok_def)
  ultimately show ?thesis
    using last_line [OF assms(7)] by (simp add: body_lines_def Let_def append_assoc [symmetric] del: append_assoc)
qed

section \<open>A message that has to lose something\<close>

definition demo_sections :: "msection list" where
  "demo_sections = [essential_section ''head'' [''result: done'', ''next: merge''] 0 1,
     optional_section ''log'' [[], ''log:'', ''  a long line of output of the first check'', ''  a long line of output of the second check'',
        ''  a long line of output of the third check''] 3,
     make_section ''verdict'' [[], ''VERDICT: PASS''] 0 True 2 True []]"

lemma demo_names: "distinct (map sec_name demo_sections)"
  by code_simp

lemma demo_compose: "compose demo_sections ''ev'' 120 = Inr
   \<lparr>cm_text = join_lines [''result: done'', ''next: merge'', [],
      ''omitted: log - read in full with codex-session-relay show --event ev'', [], ''VERDICT: PASS''],
    cm_omitted = [''log''], cm_survivors = []\<rparr>"
  by code_simp

theorem composed_message_is_honest_witness:
  "\<exists>c. compose demo_sections ''ev'' 120 = Inr c \<and> text_size (cm_text c) \<le> 120 \<and> cm_omitted c = [''log'']"
  using composed_message_is_honest [OF demo_compose demo_names] demo_compose by auto

theorem compose_recounts_witness:
  "compose_with (recount demo_sections ''ev'' 120) demo_sections ''ev'' 120 = compose demo_sections ''ev'' 120"
  by (rule compose_recounts [OF demo_names, symmetric])

end
