(* ===== verification/Report_Lines.thy ===== *)
theory Report_Lines
  imports Cxc Report_Compose Restoration Store
begin

text \<open>
  The rendering half of \<^verbatim>\<open>report.py\<close>: the lines of every section of a composed message, and the two
  messages, a completion from child to parent and a correction from parent to child. A receipt, a
  review and the entries of a report are decoded JSON; entries of a stored report are texts or objects.
\<close>

section \<open>Small functions\<close>

definition rstrip :: "string \<Rightarrow> string" where
  "rstrip s = rev (dropWhile is_space (rev s))"

definition rstrip_chars :: "char set \<Rightarrow> string \<Rightarrow> string" where
  "rstrip_chars cs s = rev (dropWhile (\<lambda>c. c \<in> cs) (rev s))"

definition opt_text :: "string option \<Rightarrow> string" where
  "opt_text v = (case v of None \<Rightarrow> [] | Some s \<Rightarrow> s)"

definition BUDGET :: int where "BUDGET = 6000"
definition REF_SHOWN :: int where "REF_SHOWN = 240"

definition report_version :: string where "report_version = ''relay-report/1''"

section \<open>Identity\<close>

definition pr_number :: "work_report_row \<Rightarrow> int option" where
  "pr_number report = (case w_pr_number report of Some n \<Rightarrow> if n = 0 then None else Some n | None \<Rightarrow> None)"

definition pr_ref :: "work_report_row \<Rightarrow> string" where
  "pr_ref report = (case pr_number report of None \<Rightarrow> []
     | Some n \<Rightarrow> w_repository report @ ''#'' @ int_str n)"

definition pr_key :: "work_report_row option \<Rightarrow> (string \<times> string \<times> int) option" where
  "pr_key report = (case report of None \<Rightarrow> None
     | Some r \<Rightarrow> map_option (\<lambda>n. (w_rel r, w_repository r, n)) (pr_number r))"

text \<open>\<^verbatim>\<open>==\<close> of an integer and a decoded value: \<^verbatim>\<open>True == 1\<close>.\<close>

definition int_equals :: "int \<Rightarrow> json \<Rightarrow> bool" where
  "int_equals i v = (case v of JInt j \<Rightarrow> i = j | JBool b \<Rightarrow> i = (if b then 1 else 0) | _ \<Rightarrow> False)"

definition assert_current :: "work_report_row \<Rightarrow> json \<Rightarrow> string option \<Rightarrow> err + unit" where
  "assert_current report gen head =
     (if \<not> int_equals (w_gen report) gen then Inl (RelayError DeliveryRefused STALE_GENERATION)
      else if truthy_text head \<and> truthy_text (w_head_sha report) \<and> w_head_sha report \<noteq> head
      then Inl (RelayError DeliveryRefused STALE_MARK_CONTEXT)
      else Inr ())"

section \<open>The lines of a section\<close>

definition labelled :: "string \<Rightarrow> string option \<Rightarrow> string list" where
  "labelled prefix v = (if truthy_text v then [prefix @ opt_text v] else [])"

definition commit_lines :: "work_report_row \<Rightarrow> string list" where
  "commit_lines report =
     (let base = opt_text (w_base_ref report)
      in (if truthy_text (w_base_sha report) \<or> base \<noteq> []
          then [rstrip (''  base: '' @ base @ '' '' @ opt_text (w_base_sha report))] else [])
         @ labelled ''  head: '' (w_head_sha report)
         @ labelled ''  criteria: '' (w_criteria_digest report))"

definition pr_lines :: "work_report_row \<Rightarrow> string list" where
  "pr_lines report =
     (if pr_ref report = []
      then [[], ''repository: '' @ w_repository report,
            ''pull request: none recorded for this event''] @ commit_lines report
      else [[], ''pull request: '' @ pr_ref report
              @ (if truthy_text (w_pr_state report)
                 then ''  ('' @ opt_text (w_pr_state report) @ '')'' else [])]
           @ labelled ''  url: '' (w_pr_url report) @ commit_lines report)"

text \<open>\<^verbatim>\<open>item.get("check", "")\<close>: entries are texts or objects.\<close>

definition check_name :: "json \<Rightarrow> string" where
  "check_name e = (case e of
     JObj kvs \<Rightarrow> (case map_of kvs ''check'' of None \<Rightarrow> [] | Some v \<Rightarrow> py_str v) | _ \<Rightarrow> [])"

definition evidence_line :: "json \<Rightarrow> string" where
  "evidence_line e =
     (case e of
        JStr s \<Rightarrow> ''  '' @ s
      | _ \<Rightarrow> ''  '' @ check_name e
             @ (if jget e ''exitCode'' \<noteq> JNull then '' -> exit '' @ py_str (jget e ''exitCode'') else [])
             @ (if jtruthy (jget e ''detail'') then ''  '' @ py_str (jget e ''detail'') else []))"

definition evidence_lines :: "work_report_row \<Rightarrow> string list" where
  "evidence_lines report =
     (if w_evidence report = [] then [[], ''verification: none recorded'']
      else [[], ''verification:''] @ map evidence_line (w_evidence report))"

definition unresolved_line :: "json \<Rightarrow> string" where
  "unresolved_line e =
     (case e of
        JStr s \<Rightarrow> ''  - '' @ s
      | _ \<Rightarrow> rstrip_chars {CHR '':'', CHR '' ''}
               (''  - '' @ py_str (jget e ''id'') @ '': '' @ str_or_empty (jget e ''note'')))"

definition unresolved_lines :: "work_report_row \<Rightarrow> string list" where
  "unresolved_lines report =
     (if w_unresolved report = [] then [[], ''unresolved: none'']
      else [[], ''unresolved:''] @ map unresolved_line (w_unresolved report))"

text \<open>Findings: the recorded verdict leads, the review enriches. Each line has its owner.\<close>

definition block_label :: "json \<Rightarrow> string" where
  "block_label finding = (if jtruthy (jget finding FIELD) then '' [restoration block]'' else [])"

definition one_finding :: "json \<Rightarrow> json \<Rightarrow> err + string list" where
  "one_finding f extra =
     bindE (py_item f ''id'') (\<lambda>i.
       let note = jor (jget f ''note'') (jget extra ''note'');
           disposition = jget f ''verdict'';
           name = py_str i @ block_label f;
           anchor = jor (jget extra ''anchor'') (jget f ''anchor'')
       in Inr ([(if jtruthy disposition then ''  '' @ name @ '': '' @ py_str disposition else ''  '' @ name)
                @ (if jtruthy note then '' - '' @ py_str note else [])]
               @ (if jtruthy anchor then [''    anchor: '' @ py_str anchor] else [])))"

fun findings_lines ::
    "(json \<times> json) list \<Rightarrow> json list \<Rightarrow> err + (string \<times> json option) list" where
  "findings_lines enrichment [] = Inr []"
| "findings_lines enrichment (f # fs) =
     bindE (py_item f ''id'') (\<lambda>i.
     bindE (one_finding f (case map_of enrichment i of None \<Rightarrow> JObj [] | Some e \<Rightarrow> e)) (\<lambda>ls.
     bindE (findings_lines enrichment fs) (\<lambda>rest.
       Inr (map (\<lambda>l. (l, Some i)) ls @ rest))))"

fun dict_set :: "'k \<Rightarrow> 'v \<Rightarrow> ('k \<times> 'v) list \<Rightarrow> ('k \<times> 'v) list" where
  "dict_set k v [] = [(k, v)]"
| "dict_set k v (p # ps) = (if fst p = k then (k, v) # ps else p # dict_set k v ps)"

fun enrichment_of :: "json list \<Rightarrow> (json \<times> json) list \<Rightarrow> err + (json \<times> json) list" where
  "enrichment_of [] d = Inr d"
| "enrichment_of (f # fs) d = bindE (py_item f ''id'') (\<lambda>i. enrichment_of fs (dict_set i f d))"

definition finding_section :: "json \<Rightarrow> json option \<Rightarrow> err + (string \<times> json option) list" where
  "finding_section receipt review =
     (let authoritative = filter (\<lambda>f. jtruthy (jget f ''id'')) (jlist (jget receipt ''criteria''))
      in bindE (enrichment_of (case review of None \<Rightarrow> [] | Some r \<Rightarrow> jlist (jget r ''findings'')) [])
        (\<lambda>enrichment.
          if authoritative = [] \<and> enrichment = []
          then Inr [([], None), (''violated criteria: no per-criterion findings were recorded'', None)]
          else if authoritative = []
          then bindE (findings_lines enrichment (map snd enrichment)) (\<lambda>ls.
            Inr ([([], None), (''violated criteria:'', None),
                  (''  from the review; this assignment has no recorded criteria set:'', None)] @ ls))
          else
            let seen = map (\<lambda>f. jget f ''id'') authoritative;
                unrecorded = map snd (filter (\<lambda>kv. fst kv \<notin> set seen) enrichment)
            in bindE (findings_lines enrichment authoritative) (\<lambda>ls.
               bindE (findings_lines [] unrecorded) (\<lambda>more.
                 Inr ([([], None), (''violated criteria:'', None)] @ ls
                      @ (if unrecorded = [] then []
                         else [(''  also raised in review, not part of the recorded verdict:'', None)]
                              @ more))))))"

definition scope_lines :: "work_report_row \<Rightarrow> json \<Rightarrow> string list" where
  "scope_lines report gen =
     [[], ''SCOPE:'', ''  '' @ (if pr_ref report = [] then w_repository report else pr_ref report)]
     @ (if truthy_text (w_base_sha report)
        then [rstrip (''  base '' @ opt_text (w_base_ref report) @ '' '' @ opt_text (w_base_sha report))]
        else [])
     @ labelled ''  head '' (w_head_sha report) @ labelled ''  criteria '' (w_criteria_digest report)
     @ [''  execution generation '' @ py_str gen @ '' (new)'']"

definition preserve_lines :: "string list" where
  "preserve_lines =
     [''  preserve: everything outside the findings above, including work this'',
      ''    request does not mention and any other task in-flight beside it'']"

definition proof_line :: "json \<Rightarrow> string" where
  "proof_line e = (case e of JStr s \<Rightarrow> ''    '' @ s | _ \<Rightarrow> ''    '' @ check_name e)"

definition proof_lines :: "work_report_row \<Rightarrow> string list" where
  "proof_lines report =
     [[], ''PROOF:'']
     @ (if w_evidence report = []
        then [''  state the command, its exit code and what it showed, for each finding'']
        else [''  re-run what this review ran, and report command, exit code and result:'']
             @ map proof_line (w_evidence report))
     @ [''  a passing string match is not a passing behaviour'']"

definition RESTORE_LABELS :: "(string \<times> string) list" where
  "RESTORE_LABELS = [(''mode'', ''mode''), (''scope'', ''scope''), (''phase'', ''phase''),
     (''phaseObservedAt'', ''phase observed''), (''plan'', ''plan''), (''evidence'', ''evidence''),
     (''remaining'', ''remaining'')]"

fun pointer_lines :: "json list \<Rightarrow> err + string list" where
  "pointer_lines [] = Inr []"
| "pointer_lines (a # as) =
     bindE (case a of JStr s \<Rightarrow> skill_pointer s | _ \<Rightarrow> Inl KeyError) (\<lambda>p.
     bindE (pointer_lines as) (\<lambda>ls. Inr ((''  read: '' @ p) # ls)))"

definition restore_lines :: "work_report_row \<Rightarrow> err + string list" where
  "restore_lines report =
     (let restore = JObj (w_restore report)
      in if w_restore report = [] then Inr []
         else bindE (pointer_lines (jlist (jget restore ''skills''))) (\<lambda>pointers.
           Inr ([[], ''workflow restore:'']
             @ concat (map (\<lambda>(key, label).
                 if jtruthy (jget restore key)
                 then [''  '' @ label @ '': '' @ py_str (jget restore key)] else []) RESTORE_LABELS)
             @ pointers)))"

definition manifest_entry_line :: "json \<Rightarrow> err + string" where
  "manifest_entry_line entry =
     bindE (py_item entry ''path'') (\<lambda>path. bindE (py_item entry ''sha256'') (\<lambda>sha.
       Inr (''  '' @ py_str path @ ''  sha256='' @ py_str sha
         @ (if jget entry ''bytes'' \<noteq> JNull then ''  bytes='' @ py_str (jget entry ''bytes'') else []))))"

fun each_line :: "('a \<Rightarrow> err + string) \<Rightarrow> 'a list \<Rightarrow> err + string list" where
  "each_line f [] = Inr []"
| "each_line f (x # xs) = bindE (f x) (\<lambda>l. bindE (each_line f xs) (\<lambda>ls. Inr (l # ls)))"

definition manifest_lines :: "json \<Rightarrow> err + string list" where
  "manifest_lines receipt =
     (let manifest = jlist (jget receipt ''manifest'')
      in if manifest = [] then Inr [[], ''deliverables: none (execution-only outcome)'']
         else bindE (each_line manifest_entry_line manifest) (\<lambda>ls.
           Inr ([[], ''deliverables: '' @ nat_str (length manifest)] @ ls)))"

text \<open>The longest prefix of whole characters within \<open>n\<close> bytes.\<close>

fun take_bytes :: "int \<Rightarrow> string \<Rightarrow> string" where
  "take_bytes n [] = []"
| "take_bytes n (c # s) =
     (if text_size [c] \<le> n then c # take_bytes (n - text_size [c]) s else [])"

definition manifest_ref_lines :: "json \<Rightarrow> string list" where
  "manifest_ref_lines receipt =
     (let reference = jget receipt ''manifestRef''; t = py_str reference
      in if \<not> jtruthy reference then []
         else if REF_SHOWN < text_size t
         then [[], ''manifestRef: '' @ take_bytes REF_SHOWN t
                 @ ''... (truncated; full value in the record)'']
         else [[], ''manifestRef: '' @ t])"

definition ack_lines :: "string \<Rightarrow> string list" where
  "ack_lines ev =
     [[], ''To respond, from inside your own turn:'',
      ''  claim     --event '' @ ev @ '' --turn <your turn id>'',
      ''  ack-proof --event '' @ ev @ '' --turn <your turn id>'',
      ''  ack       --event '' @ ev @ '' --ack-turn <your turn id> --ack-proof <proof>'',
      ''  verdict   --event '' @ ev @ '' --verdict <verified|needs_changes|'' @
      ''unverified|aborted> --verdict-turn <your turn id>'',
      [],
      ''The proof is sha256(eventId|<your own turn id>). This message does not and cannot'',
      ''contain that turn id, which is what distinguishes acknowledging from echoing.'',
      ''Full record: '' @ show_command ev]"

section \<open>The two messages\<close>

definition meaning_of :: "string \<Rightarrow> err + string" where
  "meaning_of status = (case map_of MEANING status of None \<Rightarrow> Inl KeyError | Some m \<Rightarrow> Inr m)"

definition non_verification :: "string \<Rightarrow> err + string" where
  "non_verification status = refuse_promotion (if status = ''DONE'' then ''cxc_done'' else ''cxc_report'')"

definition completion_sections ::
    "string \<Rightarrow> string \<Rightarrow> json \<Rightarrow> string \<Rightarrow> work_report_row \<Rightarrow> err + msection list" where
  "completion_sections ev rel receipt request report =
     bindE (assert_current report (jor (jget receipt ''executionGeneration'') (JInt (w_gen report))) None) (\<lambda>_.
     bindE (meaning_of (w_cxc_status report)) (\<lambda>meaning.
     bindE (non_verification (w_cxc_status report)) (\<lambda>why.
     bindE (restore_lines report) (\<lambda>restore.
     bindE (manifest_lines receipt) (\<lambda>deliverables.
       Inr [
         essential_section ''header''
           [''[codex-session-relay] verification request'',
            ''result: '' @ w_summary report,
            ''cxc: '' @ w_cxc_status report @ '' - '' @ w_cxc_reason report,
            ''  meaning: '' @ meaning,
            ''  this is the child reporting on its own work. It is not a verification: '' @ why] 0 5,
         essential_section ''pull request'' (pr_lines report) 1 2,
         optional_section ''verification'' (evidence_lines report) 4,
         essential_section ''unresolved'' (unresolved_lines report) 2 2,
         essential_section ''next'' [''next: '' @ w_next_action report] 0 1,
         optional_section ''workflow restore'' restore 3,
         optional_section ''deliverables'' deliverables 6,
         essential_section ''manifest reference'' (manifest_ref_lines receipt) 2 2,
         essential_section ''relay record''
           [[], ''relay record:'', ''  requestId: '' @ request, ''  eventId: '' @ ev,
            ''  submission: '' @ int_str (w_submission_no report) @ ''  contract: '' @ report_version,
            ''  relationshipId: '' @ rel,
            ''  executionGeneration: '' @ py_str (jget receipt ''executionGeneration''),
            ''  attempt: '' @ py_str (jget receipt ''attempt''),
            ''  outcome: '' @ py_str (jget receipt ''outcome''),
            ''  revisionHash: '' @ py_str (jget receipt ''revisionHash'')] 5 5,
         essential_section ''respond'' (ack_lines ev) 0 7])))))"

definition compose_completion ::
    "string \<Rightarrow> string \<Rightarrow> json \<Rightarrow> string \<Rightarrow> work_report_row \<Rightarrow> int \<Rightarrow> err + composed" where
  "compose_completion ev rel receipt request report budget =
     bindE (completion_sections ev rel receipt request report) (\<lambda>sections. compose sections ev budget)"

definition verdict_sections :: "work_report_row \<Rightarrow> err + msection list" where
  "verdict_sections report =
     (case w_review report of
        None \<Rightarrow> Inr []
      | Some review \<Rightarrow>
          if \<not> jtruthy review then Inr []
          else bindE (py_item review ''kind'') (\<lambda>kind.
            bindE (verdict_line kind (jget review ''blockers'')) (\<lambda>line.
              Inr [make_section ''verdict'' [[], line] 0 True 2 True []])))"

definition revision_sections ::
    "string \<Rightarrow> string \<Rightarrow> json \<Rightarrow> string \<Rightarrow> work_report_row \<Rightarrow> err + msection list" where
  "revision_sections ev rel receipt request report =
     (let gen = jget receipt ''executionGeneration''
      in bindE (assert_current report (jor gen (JInt (w_gen report))) None) (\<lambda>_.
     bindE (meaning_of (w_cxc_status report)) (\<lambda>meaning.
     bindE (finding_section receipt (w_review report)) (\<lambda>findings.
     bindE (restore_lines report) (\<lambda>restore.
     bindE (verdict_sections report) (\<lambda>verdict.
       Inr ([
         essential_section ''header''
           [''[codex-session-relay] revision request'',
            ''TASK: '' @ w_summary report,
            ''cxc: '' @ w_cxc_status report @ '' - '' @ w_cxc_reason report,
            ''  meaning: '' @ meaning] 0 4,
         make_section ''violated criteria'' (map fst findings) 0 True 2 False (map snd findings),
         essential_section ''SCOPE'' (scope_lines report gen) 1 2,
         essential_section ''preserve'' preserve_lines 0 2,
         essential_section ''unresolved'' (unresolved_lines report) 2 2,
         essential_section ''MUST DO''
           [''MUST DO:'', ''  '' @ w_next_action report,
            ''  answer every finding above with a fix, a reasoned rebuttal, or an explicit'' @
            '' out-of-scope split, and reply on its thread''] 0 2,
         essential_section ''MUST NOT''
           [''MUST NOT:'',
            ''  discard work outside the findings above, rewrite another task history, or'' @
            '' force-push a shared branch'',
            ''  treat this request as an acknowledgeable message; see the note below''] 1 2,
         essential_section ''PROOF'' (proof_lines report) 2 2,
         essential_section ''RETURN FORMAT''
           [''RETURN FORMAT:'',
            ''  result summary, repository and pull request, base and head SHA, verification'' @
            '' evidence, unresolved items, next action, and the CXC report status''] 2 2,
         essential_section ''DECISION BOUNDARY''
           [''DECISION BOUNDARY:'',
            ''  fix what the findings name. Anything wider, anything that would discard'' @
            '' preserved work, and anything needing authority you were not given comes back'' @
            '' here instead of being decided locally''] 1 2,
         optional_section ''workflow restore'' restore 3,
         essential_section ''answer''
           [[],
            ''There is nothing to acknowledge. Contract v1 defines no acknowledgement for this'',
            ''direction and the relay refuses one by kind, so there is no proof to compute and'',
            ''no acknowledgement to send.'',
            ''Answer with your next completion receipt under the new generation:'',
            ''  emit --relationship '' @ rel @ '' --generation '' @ py_str gen @ '' --attempt <n>'',
            ''       --outcome ready_for_review --turn-thread <your task id>'' @
            '' --turn-id <your turn>'',
            ''       --artifact <path> [--continues-anchor <this generation dispatch turn>]''] 0 8,
         essential_section ''relay record''
           [[], ''relay record: requestId '' @ request @ '', eventId '' @ ev @ '', submission ''
              @ int_str (w_submission_no report) @ '', contract '' @ report_version,
            ''Full record: '' @ show_command ev] 0 3] @ verdict)))))))"

definition compose_revision_report ::
    "string \<Rightarrow> string \<Rightarrow> json \<Rightarrow> string \<Rightarrow> work_report_row \<Rightarrow> int \<Rightarrow> err + composed" where
  "compose_revision_report ev rel receipt request report budget =
     bindE (revision_sections ev rel receipt request report) (\<lambda>sections. compose sections ev budget)"

end
