(* ===== verification/Report_Record.thy ===== *)
theory Report_Record
  imports Report_Lines Criteria Delivery_Attempt
begin

text \<open>
  The recording half of \<^verbatim>\<open>report.py\<close>: the validators that turn the caller's JSON values into a report
  that can be rendered, the rule that protects a submission somebody may already hold, the projection
  of a restoration block, and \<open>record_report\<close>, which stores a report in one transaction.
\<close>

section \<open>Limits\<close>

definition SUMMARY_MAX :: int where "SUMMARY_MAX = 1200"
definition ACTION_MAX :: int where "ACTION_MAX = 1200"
definition REASON_MAX :: int where "REASON_MAX = 600"
definition LABEL_MAX :: int where "LABEL_MAX = 300"
definition URL_MAX :: int where "URL_MAX = 2000"
definition SQLITE_MAX_INT :: int where "SQLITE_MAX_INT = 9223372036854775807"
definition EXIT_CODE_MAX :: int where "EXIT_CODE_MAX = 2147483648"
definition REVISION_OUTCOME :: string where "REVISION_OUTCOME = ''revision_request''"

definition malformed :: err where
  "malformed = RelayError ReceiptRefused MALFORMED_RECEIPT"

section \<open>Lines\<close>

text \<open>\<^verbatim>\<open>str.splitlines\<close>: its line boundaries below code point 256.\<close>

definition is_boundary :: "char \<Rightarrow> bool" where
  "is_boundary c = (let n = of_char c :: nat in (10 \<le> n \<and> n \<le> 13) \<or> (28 \<le> n \<and> n \<le> 30) \<or> n = 133)"

function splitlines :: "string \<Rightarrow> string list" where
  "splitlines [] = []"
| "splitlines (c # s) =
     (if is_boundary c
      then [] # splitlines (if c = CHR 0x0D \<and> s \<noteq> [] \<and> hd s = CHR 0x0A then tl s else s)
      else case splitlines s of [] \<Rightarrow> [[c]] | l # ls \<Rightarrow> (c # l) # ls)"
  by pat_completeness auto
termination by (relation "measure length") auto

definition single_line :: "string \<Rightarrow> err + string" where
  "single_line t =
     (let parts = splitlines t
      in if 1 < length parts \<or> (parts \<noteq> [] \<and> hd parts \<noteq> t) then Inl malformed else Inr t)"

definition bounded :: "string \<Rightarrow> int \<Rightarrow> err + string" where
  "bounded t limit = (if limit < text_size t then Inl malformed else Inr t)"

definition required :: "json \<Rightarrow> err + string" where
  "required v =
     (case v of
        JStr s \<Rightarrow> if strip s = [] then Inl malformed else single_line (strip s)
      | _ \<Rightarrow> Inl malformed)"

definition bounded_optional :: "json \<Rightarrow> int \<Rightarrow> err + string option" where
  "bounded_optional v limit =
     (case v of
        JNull \<Rightarrow> Inr None
      | JStr s \<Rightarrow> bindE (single_line s) (\<lambda>t. bindE (bounded t limit) (\<lambda>u. Inr (Some u)))
      | _ \<Rightarrow> Inl malformed)"

definition required_bounded :: "json \<Rightarrow> int \<Rightarrow> err + string" where
  "required_bounded v limit = bindE (required v) (\<lambda>t. bounded t limit)"

definition submission :: "json \<Rightarrow> err + int" where
  "submission v = (case v of JInt n \<Rightarrow> if n < 1 \<or> SQLITE_MAX_INT < n then Inl malformed else Inr n
     | _ \<Rightarrow> Inl malformed)"

section \<open>Shapes\<close>

text \<open>Run a validator over a list, stopping at the first refusal.\<close>

fun each :: "('a \<Rightarrow> err + 'b) \<Rightarrow> 'a list \<Rightarrow> err + 'b list" where
  "each f [] = Inr []"
| "each f (x # xs) = bindE (f x) (\<lambda>y. bindE (each f xs) (\<lambda>ys. Inr (y # ys)))"

definition RESTORE_FIELDS :: "string list" where
  "RESTORE_FIELDS = [''mode'', ''scope'', ''phase'', ''phaseObservedAt'', ''plan'', ''evidence'', ''remaining'']"

definition skill_name :: "json \<Rightarrow> err + string" where
  "skill_name v = (case v of JStr s \<Rightarrow> if s \<in> set (map fst SKILL_POINTERS) then Inr s else Inl malformed
     | _ \<Rightarrow> Inl malformed)"

definition restore_field :: "string \<times> json \<Rightarrow> err + (string \<times> json) list" where
  "restore_field kv =
     (if fst kv = ''skills'' then Inr []
      else if fst kv \<notin> set RESTORE_FIELDS then Inl malformed
      else case snd kv of
        JStr s \<Rightarrow> if strip s = [] then Inr []
          else bindE (single_line (strip s)) (\<lambda>t. bindE (bounded t LABEL_MAX) (\<lambda>u. Inr [(fst kv, JStr u)]))
      | JNull \<Rightarrow> Inr []
      | _ \<Rightarrow> Inl malformed)"

definition check_restore :: "json \<Rightarrow> err + (string \<times> json) list" where
  "check_restore restore =
     (case restore of
        JNull \<Rightarrow> Inr []
      | JObj kvs \<Rightarrow>
          bindE (case jget restore ''skills'' of JNull \<Rightarrow> Inr [] | JList xs \<Rightarrow> Inr xs | _ \<Rightarrow> Inl malformed) (\<lambda>names.
          bindE (each skill_name names) (\<lambda>skills.
          bindE (each restore_field kvs) (\<lambda>checked.
            Inr ((if skills = [] then [] else [(''skills'', JList (map JStr skills))]) @ concat checked))))
      | _ \<Rightarrow> Inl malformed)"

definition text_or_empty :: "json \<Rightarrow> err + string" where
  "text_or_empty v = (case v of JNull \<Rightarrow> Inr [] | JStr s \<Rightarrow> Inr (strip s) | _ \<Rightarrow> Inl malformed)"

definition disposition :: "json \<Rightarrow> err + json" where
  "disposition v = (case v of JNull \<Rightarrow> Inr JNull
     | JStr s \<Rightarrow> if s \<in> set DISPOSITIONS then Inr (JStr s) else Inl malformed
     | _ \<Rightarrow> Inl malformed)"

definition named :: "json \<Rightarrow> string \<Rightarrow> err + string" where
  "named v k = (case v of
     JObj _ \<Rightarrow> (case jget v k of JStr s \<Rightarrow> if strip s = [] then Inl malformed else Inr (strip s)
                 | _ \<Rightarrow> Inl malformed)
   | _ \<Rightarrow> Inl malformed)"

definition review_finding :: "string list \<Rightarrow> json \<Rightarrow> err + string \<times> json" where
  "review_finding seen f =
     bindE (named f ''id'') (\<lambda>identifier.
       if identifier \<in> set seen then Inl malformed
       else
         bindE (text_or_empty (jget f ''note'')) (\<lambda>note.
         bindE (text_or_empty (jget f ''anchor'')) (\<lambda>anchor.
         bindE (single_line identifier) (\<lambda>i.
         bindE (disposition (jget f ''verdict'')) (\<lambda>v.
         bindE (single_line note) (\<lambda>n.
         bindE (single_line anchor) (\<lambda>a.
           Inr (identifier, JObj [(''id'', JStr i), (''verdict'', v), (''note'', JStr n),
             (''anchor'', JStr a)]))))))))"

fun review_findings :: "string list \<Rightarrow> json list \<Rightarrow> err + json list" where
  "review_findings seen [] = Inr []"
| "review_findings seen (f # fs) =
     bindE (review_finding seen f) (\<lambda>(i, x).
     bindE (review_findings (seen @ [i]) fs) (\<lambda>xs. Inr (x # xs)))"

definition check_review :: "json \<Rightarrow> err + json option" where
  "check_review review =
     (case review of
        JNull \<Rightarrow> Inr None
      | JObj kvs \<Rightarrow>
          bindE (case jget review ''findings'' of JNull \<Rightarrow> Inr [] | JList xs \<Rightarrow> Inr xs | _ \<Rightarrow> Inl malformed) (\<lambda>found.
          bindE (case verdict_line (jget review ''kind'') (jget review ''blockers'') of
                   Inl _ \<Rightarrow> Inl malformed | Inr l \<Rightarrow> Inr l) (\<lambda>_.
          bindE (review_findings [] found) (\<lambda>findings.
            Inr (Some (JObj [(''kind'', jget review ''kind''), (''blockers'', jget review ''blockers''),
              (''findings'', JList findings)])))))
      | _ \<Rightarrow> Inl malformed)"

definition sequence :: "json \<Rightarrow> err + json list" where
  "sequence v = (case v of JNull \<Rightarrow> Inr [] | JList xs \<Rightarrow> Inr xs | _ \<Rightarrow> Inl malformed)"

definition exit_code :: "json \<Rightarrow> err + json" where
  "exit_code v = (case v of JNull \<Rightarrow> Inr JNull
     | JInt n \<Rightarrow> if - EXIT_CODE_MAX \<le> n \<and> n \<le> EXIT_CODE_MAX then Inr (JInt n) else Inl malformed
     | _ \<Rightarrow> Inl malformed)"

definition check_evidence_item :: "json \<Rightarrow> err + json" where
  "check_evidence_item v =
     (case v of
        JStr _ \<Rightarrow> bindE (required v) (\<lambda>t. bindE (single_line t) (\<lambda>u. Inr (JStr u)))
      | _ \<Rightarrow>
          bindE (named v ''check'') (\<lambda>name. bindE (single_line name) (\<lambda>check.
          bindE (exit_code (jget v ''exitCode'')) (\<lambda>code.
          bindE (text_or_empty (jget v ''detail'')) (\<lambda>t. bindE (single_line t) (\<lambda>detail.
            Inr (JObj [(''check'', JStr check), (''exitCode'', code),
              (''detail'', if detail = [] then JNull else JStr detail)])))))))"

definition check_evidence :: "json \<Rightarrow> err + json list" where
  "check_evidence entries = bindE (sequence entries) (each check_evidence_item)"

definition check_unresolved_item :: "json \<Rightarrow> err + json" where
  "check_unresolved_item v =
     (case v of
        JStr _ \<Rightarrow> bindE (required v) (\<lambda>t. bindE (single_line t) (\<lambda>u. Inr (JStr u)))
      | _ \<Rightarrow>
          bindE (named v ''id'') (\<lambda>name. bindE (text_or_empty (jget v ''note'')) (\<lambda>t.
          bindE (single_line name) (\<lambda>i. bindE (single_line t) (\<lambda>note.
            Inr (JObj [(''id'', JStr i), (''note'', JStr note)]))))))"

definition check_unresolved :: "json \<Rightarrow> err + json list" where
  "check_unresolved entries = bindE (sequence entries) (each check_unresolved_item)"

definition check_pr_number :: "json \<Rightarrow> err + int option" where
  "check_pr_number v = (case v of JNull \<Rightarrow> Inr None
     | JInt n \<Rightarrow> if n < 1 \<or> SQLITE_MAX_INT < n then Inl malformed else Inr (Some n)
     | _ \<Rightarrow> Inl malformed)"

section \<open>A report\<close>

record report_args =
  ra_repository :: json
  ra_cxc_status :: json
  ra_cxc_reason :: json
  ra_summary :: json
  ra_next_action :: json
  ra_pr_number :: json
  ra_pr_url :: json
  ra_pr_state :: json
  ra_base_ref :: json
  ra_base_sha :: json
  ra_head_sha :: json
  ra_criteria_digest :: json
  ra_evidence :: json
  ra_unresolved :: json
  ra_review :: json
  ra_restore :: json
  ra_submission_no :: json

definition conflict_error :: err where
  "conflict_error = RelayError ReceiptRefused DISPOSITION_CONFLICT"

definition review_for :: "string \<Rightarrow> json option \<Rightarrow> err + unit" where
  "review_for outcome review =
     (if outcome = REVISION_OUTCOME
      then (if (case review of None \<Rightarrow> False | Some r \<Rightarrow> jget r ''kind'' = JStr ''PASS'')
            then Inl conflict_error else Inr ())
      else if review \<noteq> None then Inl conflict_error else Inr ())"

definition pull_request_fields ::
    "int option \<Rightarrow> string option \<Rightarrow> string option \<Rightarrow> string option \<Rightarrow> err + unit" where
  "pull_request_fields number url state head =
     (case number of
        Some _ \<Rightarrow> if truthy_text head then Inr () else Inl malformed
      | None \<Rightarrow> if truthy_text url \<or> truthy_text state then Inl malformed else Inr ())"

definition validated :: "event_row \<Rightarrow> report_args \<Rightarrow> string \<Rightarrow> err + work_report_row" where
  "validated event args now =
     bindE (if e_outcome event = REVISION_OUTCOME then check_known (ra_cxc_status args)
            else check_status (ra_cxc_status args) (e_outcome event)) (\<lambda>status.
     bindE (check_review (ra_review args)) (\<lambda>review.
     bindE (review_for (e_outcome event) review) (\<lambda>_.
     bindE (required_bounded (ra_repository args) 200) (\<lambda>repository.
     bindE (required_bounded (ra_summary args) SUMMARY_MAX) (\<lambda>summary.
     bindE (required_bounded (ra_next_action args) ACTION_MAX) (\<lambda>next_action.
     bindE (required_bounded (ra_cxc_reason args) REASON_MAX) (\<lambda>reason.
     bindE (bounded_optional (ra_pr_state args) LABEL_MAX) (\<lambda>state.
     bindE (bounded_optional (ra_pr_url args) URL_MAX) (\<lambda>url.
     bindE (bounded_optional (ra_base_ref args) LABEL_MAX) (\<lambda>base_ref.
     bindE (bounded_optional (ra_base_sha args) LABEL_MAX) (\<lambda>base_sha.
     bindE (bounded_optional (ra_head_sha args) LABEL_MAX) (\<lambda>head.
     bindE (bounded_optional (ra_criteria_digest args) LABEL_MAX) (\<lambda>digest.
     bindE (check_pr_number (ra_pr_number args)) (\<lambda>number.
     bindE (pull_request_fields number url state head) (\<lambda>_.
     bindE (check_evidence (ra_evidence args)) (\<lambda>evidence.
     bindE (check_unresolved (ra_unresolved args)) (\<lambda>unresolved.
     bindE (check_restore (ra_restore args)) (\<lambda>restore.
     bindE (submission (ra_submission_no args)) (\<lambda>number_of.
       Inr \<lparr>w_event = e_id event, w_submission_no = number_of, w_rel = e_rel event,
            w_gen = e_gen event, w_hash = e_hash event, w_repository = repository,
            w_pr_number = number, w_pr_url = url, w_pr_state = state, w_base_ref = base_ref,
            w_base_sha = base_sha, w_head_sha = head, w_criteria_digest = digest,
            w_cxc_status = status, w_cxc_reason = reason, w_contract_version = cxc_version,
            w_summary = summary, w_evidence = evidence, w_unresolved = unresolved,
            w_next_action = next_action, w_review = review, w_restore = restore,
            w_recorded_at = now\<rparr>)))))))))))))))))))"

section \<open>Submissions somebody may hold\<close>

definition may_have_reached :: "attempt_row \<Rightarrow> bool" where
  "may_have_reached a =
     (a_state a = Some INBOX_ONLY
      \<or> (case a_record a of None \<Rightarrow> True | Some r \<Rightarrow> sendAttempted r \<noteq> Send_no))"

definition submission_of :: "db \<Rightarrow> attempt_row \<Rightarrow> int option" where
  "submission_of db a =
     map_option rs_submission_no
       (List.find (\<lambda>x. rs_request x = a_request a) (report_submissions db))"

definition delivered_submission :: "db \<Rightarrow> string \<Rightarrow> int" where
  "delivered_submission db ev =
     fold (\<lambda>a delivered. if \<not> may_have_reached a then delivered
         else max delivered (case submission_of db a of None \<Rightarrow> 1 | Some n \<Rightarrow> n))
       (filter (\<lambda>a. a_event a = ev) (attempts db)) 0"

definition highest_submission :: "db \<Rightarrow> string \<Rightarrow> int" where
  "highest_submission db ev =
     (case map w_submission_no (filter (\<lambda>w. w_event w = ev) (work_reports db)) of
        [] \<Rightarrow> 0 | n # ns \<Rightarrow> fold max ns n)"

definition assert_resubmission :: "db \<Rightarrow> string \<Rightarrow> int \<Rightarrow> err + unit" where
  "assert_resubmission db ev n =
     (if highest_submission db ev \<le> n \<and> delivered_submission db ev < n then Inr () else Inl malformed)"

section \<open>The restoration block\<close>

definition STILL_ATTEMPTABLE :: "delivery_state list" where
  "STILL_ATTEMPTABLE = [QUEUED, DEFERRED_BUSY, WITHHELD_PRE_SEND, SENDING, HELD_UNCERTAIN]"

text \<open>Whether nothing will render a report for this delivery again.\<close>

definition unclaimable :: "db \<Rightarrow> delivery_row option \<Rightarrow> bool" where
  "unclaimable db delivery =
     (case delivery of
        None \<Rightarrow> True
      | Some d \<Rightarrow>
          d_hold_reason d \<noteq> None
          \<or> \<not> (\<exists>r\<in>set (relationships db). r_id r = d_rel d \<and> r_superseded_by r = None)
          \<or> (\<exists>x\<in>set (supersessions db). ss_event x = d_event d)
          \<or> \<not> (\<exists>e\<in>set (events db). e_id e = d_event d \<and> e_stage e = FINAL
                \<and> (\<exists>r\<in>set (relationships db). r_id r = e_rel e \<and> r_generation r \<le> e_gen e))
          \<or> d_state d \<notin> set STILL_ATTEMPTABLE)"

record projection =
  pj_result :: restoration_result
  pj_attempt :: "int option"
  pj_section :: "string option"

definition projection_json :: "projection \<Rightarrow> json" where
  "projection_json p =
     (case pj_attempt p of
        None \<Rightarrow> (case restoration_json (pj_result p) 0 of JObj kvs \<Rightarrow> JObj (take 3 kvs) | v \<Rightarrow> v)
      | Some n \<Rightarrow> (case restoration_json (pj_result p) n of
          JObj kvs \<Rightarrow> JObj (kvs @ [(''restoreSection'', jopt (pj_section p))]) | v \<Rightarrow> v))"

definition undeliverable :: err where
  "undeliverable = RelayError ReceiptRefused RESTORATION_UNDELIVERABLE"

text \<open>The errors of a composition that come back as a refusal.\<close>

definition caught :: "err \<Rightarrow> bool" where
  "caught e = (case e of
     ValueError \<Rightarrow> True | KeyError \<Rightarrow> True | TypeError \<Rightarrow> True
   | RelayError DeliveryRefused _ \<Rightarrow> True | RelayError ReceiptRefused _ \<Rightarrow> True | _ \<Rightarrow> False)"

definition project_restoration :: "db \<Rightarrow> event_row \<Rightarrow> work_report_row \<Rightarrow> err + projection option" where
  "project_restoration db event row =
     (if e_outcome event \<noteq> REVISION_OUTCOME then Inr None
      else let receipt = e_receipt event; findings = findings_of receipt
      in case declared findings of
           None \<Rightarrow> Inr (Some \<lparr>pj_result = not_carried (Some COMPOSED_BASIS), pj_attempt = None, pj_section = None\<rparr>)
         | Some block \<Rightarrow>
             (case delivery_of db (e_id event) of
                None \<Rightarrow> Inr (Some \<lparr>pj_result = unmeasured\<lparr>ro_basis := Some COMPOSED_BASIS\<rparr>,
                          pj_attempt = None, pj_section = None\<rparr>)
              | Some delivery \<Rightarrow>
                  if unclaimable db (Some delivery)
                  then Inr (Some \<lparr>pj_result = unmeasured\<lparr>ro_basis := Some COMPOSED_BASIS\<rparr>,
                         pj_attempt = None, pj_section = None\<rparr>)
                  else
                    let attempt = d_attempt_count delivery + 1
                    in case bindE (request_id (e_id event) attempt) (\<lambda>request.
                              compose_revision_report (e_id event) (e_rel event) receipt request row BUDGET) of
                         Inl e \<Rightarrow> if caught e then Inl undeliverable else Inl e
                       | Inr composed \<Rightarrow>
                           Inr (Some \<lparr>pj_result = project_survivors findings (cm_survivors composed)
                                        (Some COMPOSED_BASIS) BUDGET_DROPPED,
                                     pj_attempt = Some attempt,
                                     pj_section = Some (if w_restore row = [] then ''absent''
                                       else if ''workflow restore'' \<in> set (cm_omitted composed)
                                       then ''budget_dropped'' else ''carried'')\<rparr>)))"

section \<open>Recording and reading\<close>

definition report_key :: "work_report_row \<Rightarrow> string \<times> int" where
  "report_key w = (w_event w, w_submission_no w)"

definition store_report :: "work_report_row \<Rightarrow> db \<Rightarrow> db" where
  "store_report row db =
     db\<lparr>work_reports := delete_where (\<lambda>w. report_key w = report_key row) (work_reports db) @ [row]\<rparr>"

definition record_report ::
    "clock \<Rightarrow> string \<Rightarrow> report_args \<Rightarrow> db \<Rightarrow> err + db \<times> work_report_row \<times> projection option" where
  "record_report c ev args db =
     (case event_of db ev of
        None \<Rightarrow> Inl malformed
      | Some event \<Rightarrow>
          bindE (validated event args (clk_iso c)) (\<lambda>row.
          bindE (assert_resubmission db ev (w_submission_no row)) (\<lambda>_.
          bindE (project_restoration db event row) (\<lambda>projected.
            if (case projected of None \<Rightarrow> False | Some p \<Rightarrow> ro_outcome (pj_result p) \<in> set UNDELIVERABLE)
            then Inl undeliverable
            else
              let db1 = journal_entry ''work_report_recorded'' ev
                    (JObj [(''repository'', JStr (w_repository row)),
                      (''prNumber'', case w_pr_number row of None \<Rightarrow> JNull | Some n \<Rightarrow> JInt n),
                      (''cxcStatus'', JStr (w_cxc_status row)), (''headSha'', jopt (w_head_sha row)),
                      (''submissionNo'', JInt (w_submission_no row))]) (clk_iso c) (store_report row db);
                  db2 = (case projected of None \<Rightarrow> db1
                    | Some p \<Rightarrow> journal_entry ''restoration_rendered'' ev (projection_json p) (clk_iso c) db1)
              in Inr (db2, row, projected)))))"

definition read_all :: "db \<Rightarrow> string \<Rightarrow> work_report_row list" where
  "read_all db ev = sort_key w_submission_no (filter (\<lambda>w. w_event w = ev) (work_reports db))"

definition version_of :: "work_report_row option \<Rightarrow> string" where
  "version_of report = (case report of None \<Rightarrow> ''relay-message/legacy'' | Some _ \<Rightarrow> report_version)"

end
