(* ===== verification/Report_Total.thy ===== *)
theory Report_Total
  imports Report_Safety
begin

text \<open>
  A report that was recorded always renders: the part of a completion and of a correction that may not
  be dropped is bounded by the limits the validators enforce, and that bound is within the budget.
\<close>

section \<open>The texts a report looks up\<close>

lemma meaning_size: "meaning_of s = Inr m \<Longrightarrow> text_size m \<le> 79"
  by (auto simp: meaning_of_def MEANING_def text_size_Cons split: if_splits)

lemma why_size: "non_verification s = Inr m \<Longrightarrow> text_size m \<le> 79"
  by (auto simp: non_verification_def refuse_promotion_def NOT_VERIFICATION_def text_size_Cons split: if_splits)

lemma status_size: "s \<in> set REPORT_STATUSES \<Longrightarrow> text_size s \<le> 16"
  by (auto simp: REPORT_STATUSES_def text_size_Cons)

lemma meaning_total: "s \<in> set REPORT_STATUSES \<Longrightarrow> \<exists>m. meaning_of s = Inr m"
  by (auto simp: meaning_of_def MEANING_def REPORT_STATUSES_def)

lemma why_total: "\<exists>m. non_verification s = Inr m"
  by (simp add: non_verification_def refuse_promotion_def NOT_VERIFICATION_def)

section \<open>A completion\<close>

lemma completion_header_cost:
  assumes "report_ok w" "meaning_of (w_cxc_status w) = Inr m" "non_verification (w_cxc_status w) = Inr y"
  shows "lines_cost (take 5 [''[codex-session-relay] verification request'',
            ''result: '' @ w_summary w,
            ''cxc: '' @ w_cxc_status w @ '' - '' @ w_cxc_reason w,
            ''  meaning: '' @ m,
            ''  this is the child reporting on its own work. It is not a verification: '' @ y]) \<le> 2121"
proof -
  have "text_size (w_summary w) \<le> 1200" "text_size (w_cxc_reason w) \<le> 600" "text_size (w_cxc_status w) \<le> 16"
    using assms(1) status_size by (auto simp: report_ok_def line_fits_def)
  moreover note meaning_size [OF assms(2)] why_size [OF assms(3)]
  ultimately show ?thesis by (simp add: text_size_Cons)
qed

lemma next_cost:
  assumes "report_ok w" shows "lines_cost (take 1 [''next: '' @ w_next_action w]) \<le> 1207"
  using assms by (simp add: report_ok_def line_fits_def text_size_Cons)

lemma completion_record_cost:
  assumes "report_ok w" "text_size ev \<le> 64" "text_size request \<le> 64"
  shows "lines_cost (take 5 ([[], ''relay record:'', ''  requestId: '' @ request, ''  eventId: '' @ ev,
            ''  submission: '' @ int_str (w_submission_no w) @ ''  contract: '' @ report_version] @ us)) \<le> 250"
proof -
  have "text_size (int_str (w_submission_no w)) \<le> 19"
    using assms(1) by (intro int_str_size) (auto simp: report_ok_def)
  with assms(2,3) show ?thesis by (simp add: text_size_Cons report_version_def)
qed

lemma ack_cost:
  assumes "text_size ev \<le> 64" shows "lines_cost (take 7 (ack_lines ev)) \<le> 600"
  using assms by (simp add: ack_lines_def text_size_Cons)

lemma omission_cost: "text_size ev \<le> 64 \<Longrightarrow> text_size (omission_line [] ev) \<le> 130"
  by (simp add: omission_line_def show_command_def text_size_Cons)

section \<open>A correction\<close>

lemma revision_header_cost:
  assumes "report_ok w" "meaning_of (w_cxc_status w) = Inr m"
  shows "lines_cost (take 4 [''[codex-session-relay] revision request'',
            ''TASK: '' @ w_summary w,
            ''cxc: '' @ w_cxc_status w @ '' - '' @ w_cxc_reason w,
            ''  meaning: '' @ m]) \<le> 1962"
proof -
  have "text_size (w_summary w) \<le> 1200" "text_size (w_cxc_reason w) \<le> 600" "text_size (w_cxc_status w) \<le> 16"
    using assms(1) status_size by (auto simp: report_ok_def line_fits_def)
  moreover note meaning_size [OF assms(2)]
  ultimately show ?thesis by (simp add: text_size_Cons)
qed

lemma scope_cost: "lines_cost (take 2 (scope_lines w gen)) \<le> 8"
  by (simp add: scope_lines_def text_size_Cons)

lemma preserve_cost: "lines_cost (take 2 preserve_lines) \<le> 140"
  by (simp add: preserve_lines_def text_size_Cons)

lemma must_do_cost:
  assumes "report_ok w" shows "lines_cost (take 2 [''MUST DO:'', ''  '' @ w_next_action w, x]) \<le> 1212"
  using assms by (simp add: report_ok_def line_fits_def text_size_Cons)

lemma must_not_cost: "lines_cost (take 2 [''MUST NOT:'',
            ''  discard work outside the findings above, rewrite another task history, or'' @
            '' force-push a shared branch'', x]) \<le> 115"
  by (simp add: text_size_Cons)

lemma proof_cost: "lines_cost (take 2 (proof_lines w)) \<le> 8"
  by (simp add: proof_lines_def text_size_Cons)

lemma return_cost: "lines_cost (take 2 [''RETURN FORMAT:'',
            ''  result summary, repository and pull request, base and head SHA, verification'' @
            '' evidence, unresolved items, next action, and the CXC report status'']) \<le> 165"
  by (simp add: text_size_Cons)

lemma boundary_cost: "lines_cost (take 2 [''DECISION BOUNDARY:'',
            ''  fix what the findings name. Anything wider, anything that would discard'' @
            '' preserved work, and anything needing authority you were not given comes back'' @
            '' here instead of being decided locally'']) \<le> 215"
  by (simp add: text_size_Cons)

lemma answer_cost:
  assumes "text_size rel \<le> 64" "text_size g \<le> 19"
  shows "lines_cost (take 8 [[],
            ''There is nothing to acknowledge. Contract v1 defines no acknowledgement for this'',
            ''direction and the relay refuses one by kind, so there is no proof to compute and'',
            ''no acknowledgement to send.'',
            ''Answer with your next completion receipt under the new generation:'',
            ''  emit --relationship '' @ rel @ '' --generation '' @ g @ '' --attempt <n>'',
            ''       --outcome ready_for_review --turn-thread <your task id>'' @
            '' --turn-id <your turn>'',
            ''       --artifact <path> [--continues-anchor <this generation dispatch turn>]'']) \<le> 580"
  using assms by (simp add: text_size_Cons)

lemma revision_record_cost:
  assumes "report_ok w" "text_size ev \<le> 64" "text_size request \<le> 64"
  shows "lines_cost (take 3 [[], ''relay record: requestId '' @ request @ '', eventId '' @ ev @ '', submission ''
              @ int_str (w_submission_no w) @ '', contract '' @ report_version,
            ''Full record: '' @ show_command ev]) \<le> 350"
proof -
  have "text_size (int_str (w_submission_no w)) \<le> 19"
    using assms(1) by (intro int_str_size) (auto simp: report_ok_def)
  with assms(2,3) show ?thesis by (simp add: text_size_Cons report_version_def show_command_def)
qed

lemma verdict_cost: "verdict_line k b = Inr line \<Longrightarrow> lines_cost (take 2 [[], line]) \<le> 60"
proof (erule verdict_line_cases)
  fix n assume n: "1 \<le> n" "n \<le> BLOCKERS_MAX" "line = PREFIX @ GO_WITH_FIXES @ '' (blockers='' @ int_str n @ '')''"
  then have "text_size (int_str n) \<le> 19"
    by (intro int_str_size) (simp_all add: BLOCKERS_MAX_def SQLITE_MAX_INT_def)
  with n show ?thesis by (simp add: PREFIX_def GO_WITH_FIXES_def text_size_Cons)
qed (auto simp: PREFIX_def text_size_Cons)

section \<open>Composing succeeds\<close>

text \<open>What the caller of a composition knows of its arguments: ids of bounded size.\<close>

definition short :: "string \<Rightarrow> bool" where
  "short s = (text_size s \<le> 64)"

lemma floor_within:
  assumes "list_all few_lines ss" "sum_list (map section_bound ss) \<le> b"
    "sum_list (map (\<lambda>s. text_size (sec_name s) + 2) ss) \<le> n" "short ev" "b + n + 131 \<le> BUDGET"
    "distinct (map sec_name ss)"
  shows "\<exists>c. compose ss ev BUDGET = Inr c"
proof (rule compose_total)
  show "floor_bound ss ev \<le> BUDGET"
    using floor_bound_sections [OF assms(1), of ev] omission_cost [of ev] assms(2-5) by (simp add: short_def)
qed (rule assms(6))

lemma pointer_lines_total:
  "list_all (\<lambda>a. \<exists>s. a = JStr s \<and> s \<in> set (map fst SKILL_POINTERS)) as \<Longrightarrow> \<exists>ls. pointer_lines as = Inr ls"
proof (induction "as")
  case (Cons a as)
  then obtain s where s: "a = JStr s" "s \<in> dom (map_of SKILL_POINTERS)" by (auto simp: dom_map_of_conv_image_fst)
  then obtain p where "skill_pointer s = Inr p" by (auto simp: skill_pointer_def)
  with s Cons show ?case by auto
qed simp

lemma restore_lines_total: "report_ok w \<Longrightarrow> \<exists>ls. restore_lines w = Inr ls"
  using pointer_lines_total unfolding report_ok_def restore_ok_def restore_lines_def
  by (fastforce simp: Let_def)

lemma each_line_total: "list_all (\<lambda>x. is_ok (f x)) xs \<Longrightarrow> \<exists>ls. each_line f xs = Inr ls"
  by (induction xs) (auto simp: is_ok_def split: sum.splits)

lemma is_ok_iff: "is_ok x \<longleftrightarrow> (\<exists>y. x = Inr y)"
  by (cases x) (simp_all add: is_ok_def)

definition addressed :: "json \<Rightarrow> bool" where
  "addressed entry = (is_ok (py_item entry ''path'') \<and> is_ok (py_item entry ''sha256''))"

lemma manifest_lines_total:
  assumes "list_all addressed (jlist (jget receipt ''manifest''))"
  shows "\<exists>ls. manifest_lines receipt = Inr ls"
proof -
  have "list_all (\<lambda>e. is_ok (manifest_entry_line e)) (jlist (jget receipt ''manifest''))"
    using assms by (auto simp: list_all_iff addressed_def manifest_entry_line_def is_ok_iff)
  then obtain ls where "each_line manifest_entry_line (jlist (jget receipt ''manifest'')) = Inr ls"
    using each_line_total by blast
  then show ?thesis by (simp add: manifest_lines_def Let_def)
qed

lemma pr_lines_few: "length (pr_lines w) \<le> 6"
  by (simp add: pr_lines_def commit_lines_def labelled_def Let_def)

lemma completion_composes:
  assumes ok: "report_ok w" and ids: "short ev" "short request"
    and current: "assert_current w (jor (jget receipt ''executionGeneration'') (JInt (w_gen w))) None = Inr ()"
    and deliverables: "list_all addressed (jlist (jget receipt ''manifest''))"
    and few: "length (w_unresolved w) < 1000000000"
  shows "\<exists>c. compose_completion ev rel receipt request w BUDGET = Inr c"
proof -
  have "w_cxc_status w \<in> set REPORT_STATUSES" using ok by (simp add: report_ok_def)
  then obtain m where m: "meaning_of (w_cxc_status w) = Inr m" using meaning_total by blast
  obtain y where y: "non_verification (w_cxc_status w) = Inr y" using why_total by blast
  obtain rs where rs: "restore_lines w = Inr rs" using restore_lines_total [OF ok] by blast
  obtain ds where ds: "manifest_lines receipt = Inr ds" using manifest_lines_total [OF deliverables] by blast
  obtain ss where ss: "completion_sections ev rel receipt request w = Inr ss"
    by (simp add: completion_sections_def current m y rs ds)
  note head = completion_header_cost [OF ok m y] and pr = pr_lines_cost [OF ok] and nxt = next_cost [OF ok]
    and rec = completion_record_cost [OF ok ids [unfolded short_def]]
    and ack = ack_cost [OF ids(1) [unfolded short_def]]
  have shape: "map sec_name ss = [''header'', ''pull request'', ''verification'', ''unresolved'', ''next'',
      ''workflow restore'', ''deliverables'', ''manifest reference'', ''relay record'', ''respond'']"
    using ss by (auto simp: completion_sections_def current m y rs ds section_names)
  have "list_all few_lines ss"
    using ss few pr_lines_few [of w]
    by (auto simp: completion_sections_def current m y rs ds few_simps unresolved_lines_def
      manifest_ref_lines_def ack_lines_def Let_def simp del: take_bytes.simps)
  moreover have "sum_list (map section_bound ss) \<le> 5349"
    using ss head pr nxt rec ack unresolved_cost [of w] manifest_ref_cost [of receipt]
    by (auto simp: completion_sections_def current m y rs ds essential_bound optional_bound)
  moreover have "sum_list (map (\<lambda>s. text_size (sec_name s) + 2) ss) \<le> 129"
  proof -
    have "sum_list (map (\<lambda>s. text_size (sec_name s) + 2) ss) = sum_list (map (\<lambda>n. text_size n + 2) (map sec_name ss))"
      by (simp add: o_def)
    then show ?thesis by (simp add: shape text_size_Cons)
  qed
  ultimately have "\<exists>c. compose ss ev BUDGET = Inr c"
    using ids(1) by (rule floor_within) (simp_all add: BUDGET_def shape)
  then show ?thesis by (simp add: compose_completion_def ss)
qed

section \<open>Composing a correction succeeds\<close>

lemma truthy_id: "jtruthy (jget f ''id'') \<Longrightarrow> is_ok (py_item f ''id'')"
  by (cases f) (auto simp: py_item_def is_ok_def split: option.splits)

lemma one_finding_total:
  assumes "is_ok (py_item f ''id'')" obtains ls where "one_finding f e = Inr ls" "length ls \<le> 2"
  using assms unfolding is_ok_iff one_finding_def Let_def by auto

lemma findings_lines_total:
  "list_all (\<lambda>f. is_ok (py_item f ''id'')) fs \<Longrightarrow>
    \<exists>ls. findings_lines en fs = Inr ls \<and> length ls \<le> 2 * length fs"
proof (induction fs)
  case (Cons f fs)
  then obtain i where i: "py_item f ''id'' = Inr i" by (auto simp: is_ok_iff)
  obtain ls where ls: "one_finding f (case map_of en i of None \<Rightarrow> JObj [] | Some e \<Rightarrow> e) = Inr ls" "length ls \<le> 2"
    using one_finding_total [of f] Cons.prems by auto
  obtain more where "findings_lines en fs = Inr more" "length more \<le> 2 * length fs"
    using Cons by auto
  with i ls show ?case by auto
qed simp

lemma dict_set_kept:
  "length (dict_set k v d) \<le> length d + 1" "P v \<Longrightarrow> list_all P (map snd d) \<Longrightarrow> list_all P (map snd (dict_set k v d))"
  by (induction d) auto

lemma enrichment_total:
  "list_all (\<lambda>f. is_ok (py_item f ''id'')) fs \<Longrightarrow> list_all (\<lambda>f. is_ok (py_item f ''id'')) (map snd d) \<Longrightarrow>
    \<exists>e. enrichment_of fs d = Inr e \<and> length e \<le> length d + length fs
      \<and> list_all (\<lambda>f. is_ok (py_item f ''id'')) (map snd e)"
proof (induction fs arbitrary: d)
  case (Cons f fs)
  then obtain i where i: "py_item f ''id'' = Inr i" by (auto simp: is_ok_iff)
  have kept: "list_all (\<lambda>f. is_ok (py_item f ''id'')) (map snd (dict_set i f d))"
    by (rule dict_set_kept) (use Cons.prems in simp_all)
  obtain e where "enrichment_of fs (dict_set i f d) = Inr e"
    "length e \<le> length (dict_set i f d) + length fs"
    "list_all (\<lambda>f. is_ok (py_item f ''id'')) (map snd e)"
    using Cons.IH [OF _ kept] Cons.prems by auto
  with i dict_set_kept(1) [of i f d] show ?case by auto
qed simp

definition findings_count :: "json \<Rightarrow> work_report_row \<Rightarrow> nat" where
  "findings_count receipt w = length (jlist (jget receipt ''criteria''))
     + (case w_review w of None \<Rightarrow> 0 | Some r \<Rightarrow> length (jlist (jget r ''findings'')))"

lemma review_findings_ok:
  assumes "report_ok w"
  shows "list_all (\<lambda>f. is_ok (py_item f ''id''))
    (case w_review w of None \<Rightarrow> [] | Some r \<Rightarrow> jlist (jget r ''findings''))"
  using assms by (cases "w_review w") (auto simp: report_ok_def review_ok_def jlist_def)

lemma finding_section_total:
  assumes ok: "report_ok w"
  obtains ls where "finding_section receipt (w_review w) = Inr ls"
    "length ls \<le> 2 * findings_count receipt w + 4" "lines_cost (take 2 (map fst ls)) \<le> 62"
proof -
  define fs where "fs = (case w_review w of None \<Rightarrow> [] | Some r \<Rightarrow> jlist (jget r ''findings''))"
  define au where "au = filter (\<lambda>f. jtruthy (jget f ''id'')) (jlist (jget receipt ''criteria''))"
  obtain e where e: "enrichment_of fs [] = Inr e" "length e \<le> length fs"
      "list_all (\<lambda>f. is_ok (py_item f ''id'')) (map snd e)"
    using enrichment_total [OF review_findings_ok [OF ok], of "[]"] by (auto simp: fs_def)
  have au: "list_all (\<lambda>f. is_ok (py_item f ''id'')) au" by (auto simp: au_def list_all_iff truthy_id)
  have n: "length au + length fs \<le> findings_count receipt w"
    using length_filter_le [of _ "jlist (jget receipt ''criteria'')"]
    by (cases "w_review w") (auto simp: findings_count_def au_def fs_def)
  define un where "un = map snd (filter (\<lambda>kv. fst kv \<notin> set (map (\<lambda>f. jget f ''id'') au)) e)"
  have un: "list_all (\<lambda>f. is_ok (py_item f ''id'')) un" "length un \<le> length fs"
    using e(2,3) by (auto simp: un_def list_all_iff intro: order_trans [OF length_filter_le])
  obtain la where la: "findings_lines e au = Inr la" "length la \<le> 2 * length au"
    using findings_lines_total [OF au] by blast
  obtain le where le: "findings_lines e (map snd e) = Inr le" "length le \<le> 2 * length e"
    using findings_lines_total [OF e(3), of e] by auto
  obtain lu where lu: "findings_lines [] un = Inr lu" "length lu \<le> 2 * length un"
    using findings_lines_total [OF un(1)] by blast
  have run: "finding_section receipt (w_review w) =
      (if au = [] \<and> e = [] then Inr [([], None), (''violated criteria: no per-criterion findings were recorded'', None)]
       else if au = [] then Inr ([([], None), (''violated criteria:'', None),
                  (''  from the review; this assignment has no recorded criteria set:'', None)] @ le)
       else Inr ([([], None), (''violated criteria:'', None)] @ la
                      @ (if un = [] then []
                         else [(''  also raised in review, not part of the recorded verdict:'', None)] @ lu)))"
    unfolding finding_section_def Let_def au_def [symmetric] fs_def [symmetric] un_def
    by (simp only: e(1) la(1) le(1) lu(1) [unfolded un_def] bindE_Inr)
  consider "au = []" "e = []" | "au = []" "e \<noteq> []" | "au \<noteq> []" by blast
  then show ?thesis
  proof cases
    case 1
    then have "finding_section receipt (w_review w)
        = Inr [([], None), (''violated criteria: no per-criterion findings were recorded'', None)]"
      by (simp add: run)
    then show ?thesis by (rule that) (simp_all add: text_size_Cons)
  next
    case 2
    then have "finding_section receipt (w_review w) = Inr ([([], None), (''violated criteria:'', None),
        (''  from the review; this assignment has no recorded criteria set:'', None)] @ le)"
      by (simp add: run)
    then show ?thesis by (rule that) (use le(2) e(2) n in \<open>simp_all add: text_size_Cons\<close>)
  next
    case 3
    then have "finding_section receipt (w_review w) = Inr ([([], None), (''violated criteria:'', None)] @ la
        @ (if un = [] then [] else [(''  also raised in review, not part of the recorded verdict:'', None)] @ lu))"
      by (simp add: run)
    then show ?thesis by (rule that) (use la(2) lu(2) un(2) n in \<open>simp_all add: text_size_Cons\<close>)
  qed
qed

lemma gen_size:
  assumes "assert_current w (jor gen (JInt (w_gen w))) None = Inr ()" "0 \<le> w_gen w" "w_gen w \<le> SQLITE_MAX_INT"
  shows "text_size (py_str gen) \<le> 19"
proof (cases "jtruthy gen")
  case True
  then have "int_equals (w_gen w) gen" using assms(1) by (simp add: jor_def assert_current_def split: if_splits)
  then show ?thesis
    using assms int_str_size [of "w_gen w"]
    by (cases gen) (auto simp: int_equals_def py_str_def text_size_Cons split: if_splits)
next
  case False
  then show ?thesis
    using int_str_size [of 0] by (cases gen) (auto simp: py_str_def text_size_Cons SQLITE_MAX_INT_def)
qed

lemma verdict_sections_total:
  assumes "report_ok w"
  obtains "verdict_sections w = Inr []"
  | line where "verdict_sections w = Inr [make_section ''verdict'' [[], line] 0 True 2 True []]"
      "lines_cost (take 2 [[], line]) \<le> 60"
proof (cases "w_review w")
  case None
  then show ?thesis by (intro that(1)) (simp add: verdict_sections_def)
next
  case (Some r)
  then obtain kind blockers findings line where r: "r = JObj [(''kind'', kind), (''blockers'', blockers),
      (''findings'', JList findings)]" "verdict_line kind blockers = Inr line"
    using assms by (auto simp: report_ok_def review_ok_def)
  then have "verdict_sections w = Inr [make_section ''verdict'' [[], line] 0 True 2 True []]"
    using Some by (simp add: verdict_sections_def py_item_def)
  with verdict_cost [OF r(2)] show ?thesis by (rule that(2) [rotated])
qed

lemma revision_composes:
  assumes ok: "report_ok w" and ids: "short ev" "short request" "short rel"
    and current: "assert_current w (jor (jget receipt ''executionGeneration'') (JInt (w_gen w))) None = Inr ()"
    and gen: "0 \<le> w_gen w" "w_gen w \<le> SQLITE_MAX_INT"
    and few: "length (w_unresolved w) < 1000000000" "length (w_evidence w) < 1000000000"
      "findings_count receipt w < 1000000000"
  shows "\<exists>c. compose_revision_report ev rel receipt request w BUDGET = Inr c"
proof -
  have "w_cxc_status w \<in> set REPORT_STATUSES" using ok by (simp add: report_ok_def)
  then obtain m where m: "meaning_of (w_cxc_status w) = Inr m" using meaning_total by blast
  obtain rs where rs: "restore_lines w = Inr rs" using restore_lines_total [OF ok] by blast
  obtain fs where fs: "finding_section receipt (w_review w) = Inr fs"
    "length fs \<le> 2 * findings_count receipt w + 4" "lines_cost (take 2 (map fst fs)) \<le> 62"
    using finding_section_total [OF ok] by blast
  define v where "v = (case verdict_sections w of Inl _ \<Rightarrow> [] | Inr v \<Rightarrow> v)"
  have v: "verdict_sections w = Inr v" "list_all few_lines v" "sum_list (map section_bound v) \<le> 105"
    "map sec_name v = [] \<or> map sec_name v = [''verdict'']"
    by (rule verdict_sections_total [OF ok]; simp add: v_def few_simps owned_bound section_names)+
  define g where "g = py_str (jget receipt ''executionGeneration'')"
  have g: "text_size g \<le> 19" unfolding g_def by (rule gen_size [OF current gen])
  obtain ss where ss: "revision_sections ev rel receipt request w = Inr ss"
    by (simp add: revision_sections_def current m rs fs(1) v(1) Let_def)
  note head = revision_header_cost [OF ok m] and todo = must_do_cost [OF ok]
    and rec = revision_record_cost [OF ok ids(1,2) [unfolded short_def]]
    and ans = answer_cost [OF ids(3) [unfolded short_def] g]
  have shape: "map sec_name ss = [''header'', ''violated criteria'', ''SCOPE'', ''preserve'', ''unresolved'',
      ''MUST DO'', ''MUST NOT'', ''PROOF'', ''RETURN FORMAT'', ''DECISION BOUNDARY'', ''workflow restore'',
      ''answer'', ''relay record''] @ map sec_name v"
    using ss by (auto simp: revision_sections_def current m rs fs(1) v(1) section_names Let_def)
  have names: "distinct (map sec_name ss)" using v(4) unfolding shape by auto
  have lens: "length (map fst fs) < 10000000000" "length (unresolved_lines w) < 10000000000"
    "length (proof_lines w) < 10000000000" "length (scope_lines w (jget receipt ''executionGeneration'')) < 10000000000"
    "length preserve_lines < 10000000000"
    using few fs(2) by (simp_all add: unresolved_lines_def proof_lines_def scope_lines_def preserve_lines_def labelled_def)
  have "list_all few_lines ss"
    using ss lens v(2) by (auto simp: revision_sections_def current m rs fs(1) v(1) few_simps Let_def)
  moreover have "sum_list (map section_bound ss) \<le> 5480"
    using ss head todo rec ans fs(3) v(3) unresolved_cost [of w] scope_cost [of w "jget receipt ''executionGeneration''"] preserve_cost must_not_cost
      proof_cost [of w] return_cost boundary_cost
    by (auto simp: revision_sections_def current m rs fs(1) v(1) essential_bound optional_bound owned_bound g_def Let_def
      simp del: lines_cost_simps)
  moreover have "sum_list (map (\<lambda>s. text_size (sec_name s) + 2) ss) \<le> 180"
  proof -
    have "sum_list (map (\<lambda>s. text_size (sec_name s) + 2) ss) = sum_list (map (\<lambda>n. text_size n + 2) (map sec_name ss))"
      by (simp add: o_def)
    then show ?thesis using v(4) by (auto simp: shape text_size_Cons)
  qed
  ultimately have "\<exists>c. compose ss ev BUDGET = Inr c"
    using ids(1) by (rule floor_within) (simp_all add: BUDGET_def names)
  then show ?thesis by (simp add: compose_revision_report_def ss)
qed

end
