(* ===== verification/Report_Guarantees.thy ===== *)
theory Report_Guarantees
  imports Report_Total Registry
begin

text \<open>
  The guarantees of the report component: a recorded report is bounded and always renders within the
  budget, recording never rewrites what a recipient may hold, and a message ends with a judgment exactly
  when it carries one.
\<close>

section \<open>Recording\<close>

definition carried_by :: "db \<Rightarrow> attempt_row \<Rightarrow> int" where
  "carried_by db a = (case submission_of db a of None \<Rightarrow> 1 | Some n \<Rightarrow> n)"

lemma fold_reached_bound:
  "d \<le> fold (\<lambda>a d. if \<not> may_have_reached a then d else max d (k a)) as (d :: int)
    \<and> (\<forall>a\<in>set as. may_have_reached a \<longrightarrow> k a \<le> fold (\<lambda>a d. if \<not> may_have_reached a then d else max d (k a)) as d)"
proof (induction "as" arbitrary: d)
  case (Cons a as)
  show ?case using Cons.IH [of d] Cons.IH [of "max d (k a)"] by auto
qed simp

lemma delivered_submission_bound:
  assumes "a \<in> set (attempts db)" "a_event a = ev" "may_have_reached a"
  shows "carried_by db a \<le> delivered_submission db ev"
proof -
  have "a \<in> set (filter (\<lambda>a. a_event a = ev) (attempts db))" using assms by simp
  with assms(3) show ?thesis
    using fold_reached_bound [of 0 "carried_by db" "filter (\<lambda>a. a_event a = ev) (attempts db)"]
    unfolding delivered_submission_def carried_by_def by blast
qed

lemma fold_max_bound: "x \<le> fold max ns (x :: int) \<and> (\<forall>n\<in>set ns. n \<le> fold max ns x)"
proof (induction ns arbitrary: x)
  case (Cons n ns)
  show ?case using Cons.IH [of "max n x"] by auto
qed simp

lemma highest_submission_bound:
  assumes "x \<in> set (work_reports db)" "w_event x = ev"
  shows "w_submission_no x \<le> highest_submission db ev"
proof -
  define ks where "ks = map w_submission_no (filter (\<lambda>w. w_event w = ev) (work_reports db))"
  have "w_submission_no x \<in> set ks" using assms by (simp add: ks_def)
  moreover have "highest_submission db ev = (case ks of [] \<Rightarrow> 0 | n # ns \<Rightarrow> fold max ns n)"
    by (simp add: highest_submission_def ks_def)
  ultimately show ?thesis using fold_max_bound by (cases ks) auto
qed

lemma sort_last:
  assumes "w \<in> set ws" "\<forall>x\<in>set ws. x \<noteq> w \<longrightarrow> f x < (f w :: int)"
  shows "last (sort_key f ws) = w"
proof -
  let ?s = "sort_key f ws"
  have ne: "?s \<noteq> []" using assms(1) by (metis length_pos_if_in_set length_sort list.size(3) less_irrefl)
  have "w \<in> set ?s" using assms(1) by simp
  then obtain i where i: "i < length ?s" "?s ! i = w" unfolding in_set_conv_nth by blast
  have "sorted (map f ?s)" by simp
  then have "map f ?s ! i \<le> map f ?s ! (length ?s - 1)"
    using i(1) by (intro sorted_nth_mono) auto
  then have "f w \<le> f (last ?s)" using i ne by (simp add: last_conv_nth)
  moreover have "last ?s \<in> set ws" using last_in_set [OF ne] by simp
  ultimately show ?thesis using assms(2) by force
qed

text \<open>
  C18: recording a report gives it a number above every submission that an attempt may have carried to the
  recipient, keeps every stored report of another event or another number, changes no attempt, and the
  report just recorded is the one the next attempt reads.
\<close>

theorem delivered_submission_is_never_rewritten:
  assumes "record_report c ev args db = Inr (db', w, p)"
  shows "(\<forall>a\<in>set (attempts db). a_event a = ev \<and> may_have_reached a \<longrightarrow> carried_by db a < w_submission_no w)
    \<and> (\<forall>x\<in>set (work_reports db). report_key x \<noteq> (ev, w_submission_no w) \<longrightarrow> x \<in> set (work_reports db'))
    \<and> set (work_reports db') \<subseteq> insert w (set (work_reports db))
    \<and> read_work_report db' ev = Some w \<and> attempts db' = attempts db \<and> events db' = events db"
proof -
  obtain event where ev: "event_of db ev = Some event" and v: "validated event args (clk_iso c) = Inr w"
    and n: "highest_submission db ev \<le> w_submission_no w" "delivered_submission db ev < w_submission_no w"
    and db': "work_reports db' = work_reports (store_report w db)" "attempts db' = attempts db" "events db' = events db"
    using record_report_cases [OF assms] by metis
  have "e_id event = ev" using lookup_mem(2) [OF ev] by simp
  then have key: "w_event w = ev" "report_key w = (ev, w_submission_no w)"
    using validated_ok(2) [OF v] by (simp_all add: report_key_def)
  have rows: "work_reports db' = delete_where (\<lambda>x. report_key x = report_key w) (work_reports db) @ [w]"
    by (simp add: db' store_report_def)
  define ws where "ws = filter (\<lambda>x. w_event x = ev) (work_reports db')"
  have w: "w \<in> set ws" by (simp add: ws_def rows key)
  have less: "w_submission_no x < w_submission_no w" if x: "x \<in> set ws" "x \<noteq> w" for x
  proof -
    have old: "x \<in> set (work_reports db)" "report_key x \<noteq> report_key w" "w_event x = ev"
      using x key(1) by (simp_all add: ws_def rows set_delete_where)
    with highest_submission_bound [OF old(1,3)] n(1) show ?thesis
      by (simp add: report_key_def key)
  qed
  have "last (sort_key w_submission_no ws) = w" using w less by (intro sort_last) auto
  moreover have "sort_key w_submission_no ws \<noteq> []" using w by (metis length_pos_if_in_set length_sort list.size(3) less_irrefl)
  ultimately have read: "read_work_report db' ev = Some w"
    unfolding read_work_report_def ws_def [symmetric] by (cases "sort_key w_submission_no ws") auto
  have "carried_by db a < w_submission_no w" if "a \<in> set (attempts db)" "a_event a = ev" "may_have_reached a" for a
    using delivered_submission_bound [OF that] n(2) by simp
  then show ?thesis using read db'(2,3) by (auto simp: rows set_delete_where key)
qed


text \<open>
  a recorded report renders: with identities of at most 64 bytes, the generation the receipt was recorded
  under and fewer than a billion entries, the completion and the correction both compose, and the text is
  within the budget. The hypotheses on the receipt are what the intake stored.
\<close>

lemma composed_fits:
  assumes "compose ss ev b = Inr m" shows "text_size (cm_text m) \<le> b"
  using assms unfolding compose_def compose_with_def Let_def by (auto split: if_splits)

theorem recorded_report_always_renders:
  assumes "record_report c ev args db = Inr (db', w, p)"
    and "short ev" "short request" "short rel"
    and "assert_current w (jor (jget receipt ''executionGeneration'') (JInt (w_gen w))) None = Inr ()"
    and "0 \<le> w_gen w" "w_gen w \<le> SQLITE_MAX_INT"
    and "list_all addressed (jlist (jget receipt ''manifest''))"
    and "length (w_unresolved w) < 1000000000" "length (w_evidence w) < 1000000000"
      "findings_count receipt w < 1000000000"
  shows "(\<exists>m. compose_completion ev rel receipt request w BUDGET = Inr m \<and> text_size (cm_text m) \<le> BUDGET)
    \<and> (\<exists>m. compose_revision_report ev rel receipt request w BUDGET = Inr m \<and> text_size (cm_text m) \<le> BUDGET)"
proof -
  have ok: "report_ok w" using record_report_cases [OF assms(1)] validated_ok(1) by metis
  show ?thesis
    using completion_composes [OF ok assms(2,3,5,8,9), of rel] revision_composes [OF ok assms(2-7,9-11)]
      composed_fits unfolding compose_completion_def compose_revision_report_def by fastforce
qed

section \<open>The last line of a message\<close>

lemma one_line_append [simp]: "one_line (s @ t) = (one_line s \<and> one_line t)"
  by (auto simp: one_line_def)

lemma one_line_comma_join: "list_all one_line ws \<Longrightarrow> one_line (comma_join ws)"
  by (induction ws rule: comma_join.induct) (auto simp: one_line_def)

lemma one_line_omission: "list_all one_line ws \<Longrightarrow> one_line ev \<Longrightarrow> one_line (omission_line ws ev)"
  using one_line_comma_join [of ws] by (simp add: omission_line_def show_command_def) (simp add: one_line_def)

lemma not_a_verdict:
  assumes "\<not> is_space c" "c \<noteq> CHR ''V''"
  shows "parse_verdict_line (c # s) = Inr None"
proof -
  have "strip (c # s) = rev (dropWhile is_space (rev s @ [c]))" using assms(1) by (simp add: strip_def)
  also have "\<dots> = c # rev (dropWhile is_space (rev s))"
    using assms(1) by (cases "dropWhile is_space (rev s) = []") (simp_all add: dropWhile_append)
  finally obtain r where "strip (c # s) = c # r" by blast
  then have "\<not> starts_with PREFIX (strip (c # s))" using assms(2) by (simp add: starts_with_def PREFIX_def)
  then show ?thesis by (simp add: parse_verdict_line_def Let_def)
qed

lemma omission_not_a_verdict: "parse_verdict_line (omission_line ws ev) = Inr None"
proof -
  obtain s where "omission_line ws ev = CHR ''o'' # s" by (simp add: omission_line_def)
  then show ?thesis by (simp add: not_a_verdict is_space_def)
qed

lemma full_record_not_a_verdict: "parse_verdict_line (''Full record: '' @ s) = Inr None"
  by (simp add: not_a_verdict is_space_def)

text \<open>Without a section marked as the last, a message ends with its last section or with the omission notice.\<close>

lemma last_line_without_tail:
  assumes c: "compose sections ev b = Inr c" and names: "distinct (map sec_name sections)"
    and tail: "tail_from 0 sections = None" and s: "sections = us @ [s]" "sec_lines s = ls @ [x]" "one_line x"
    and lines: "list_all one_line (map sec_name sections)" "one_line ev"
  shows "last (split_lines (cm_text c)) = x \<or> (\<exists>r. last (split_lines (cm_text c)) = omission_line r ev)"
proof -
  let ?st = "fitted (over_budget b ev) sections"
  note f = compose_with_fitted [OF names c]
  have ok: "fit_ok sections ?st" by (rule f(5))
  have out: "cm_text c = join_lines (concat (fit_blocks ?st)
      @ (if fit_removed ?st = [] then [] else [[], omission_line (fit_removed ?st) ev]))"
    using f(1) ok by (simp add: message_of_def tail fit_ok_def body_lines_def Let_def)
  show ?thesis
  proof (cases "fit_removed ?st = []")
    case True
    have len: "length (fit_blocks ?st) = length sections" using ok by (simp add: fit_ok_def)
    have "fit_kept ?st ! length us = length (sec_lines s)"
      using ok True s(1) fit_okD(6) [OF ok, of "length us"]
      by (auto simp: fit_ok_def allowed_kept_def nth_append)
    then have blk: "fit_blocks ?st ! length us = ls @ [x]"
      using fit_okD(1) [OF ok, of "length us"] s by (simp add: block_of_def nth_append)
    have ne: "fit_blocks ?st \<noteq> []" using len s(1) by auto
    have "last (fit_blocks ?st) = ls @ [x]" unfolding last_conv_nth [OF ne] using blk len s(1) by simp
    then obtain B where "fit_blocks ?st = B @ [ls @ [x]]" using append_butlast_last_id [OF ne] by metis
    then have "cm_text c = join_lines ((concat B @ ls) @ [x])" using out True by simp
    then show ?thesis using last_line [OF s(3), of "concat B @ ls"] by simp
  next
    case False
    have "list_all one_line (fit_removed ?st)" using ok lines(1) by (auto simp: fit_ok_def list_all_iff)
    then have "one_line (omission_line (fit_removed ?st) ev)" using lines(2) by (rule one_line_omission)
    from last_line [OF this, of "concat (fit_blocks ?st) @ [[]]"]
    have "last (split_lines (cm_text c)) = omission_line (fit_removed ?st) ev" using False by (simp add: out)
    then show ?thesis by blast
  qed
qed

lemma completion_shape:
  assumes "completion_sections ev rel receipt request w = Inr ss"
  obtains us s ls where "ss = us @ [s]" "sec_lines s = ls @ [''Full record: '' @ show_command ev]"
    "map sec_name ss = [''header'', ''pull request'', ''verification'', ''unresolved'', ''next'',
      ''workflow restore'', ''deliverables'', ''manifest reference'', ''relay record'', ''respond'']"
    "tail_from 0 ss = None"
proof -
  from assms obtain u m y rs ds where r: "assert_current w (jor (jget receipt ''executionGeneration'') (JInt (w_gen w))) None = Inr u"
    "meaning_of (w_cxc_status w) = Inr m" "non_verification (w_cxc_status w) = Inr y"
    "restore_lines w = Inr rs" "manifest_lines receipt = Inr ds"
    unfolding completion_sections_def bindE_eq_Inr by blast
  define us where "us = butlast ss"
  have ss: "ss = us @ [essential_section ''respond'' (ack_lines ev) 0 7]"
    using assms by (auto simp: us_def completion_sections_def r)
  obtain ls where ls: "ack_lines ev = ls @ [''Full record: '' @ show_command ev]"
    by (simp add: ack_lines_def)
  show ?thesis
  proof (rule that [OF ss])
    show "sec_lines (essential_section ''respond'' (ack_lines ev) 0 7) = ls @ [''Full record: '' @ show_command ev]"
      by (simp add: essential_section_def make_section_def ls)
  qed (use assms in \<open>auto simp: completion_sections_def r section_names essential_section_def
      optional_section_def make_section_def\<close>)
qed

text \<open>
  C36: a completion never ends with a judgment: whatever the child wrote in its report, the last line of the
  text is not one a reader takes for a verdict.
\<close>

theorem completion_never_ends_with_a_judgment:
  assumes "compose_completion ev rel receipt request w b = Inr m" "one_line ev"
  shows "parse_verdict_line (last (split_lines (cm_text m))) = Inr None"
proof -
  obtain ss where ss: "completion_sections ev rel receipt request w = Inr ss" and c: "compose ss ev b = Inr m"
    using assms(1) by (auto simp: compose_completion_def)
  from ss obtain us s ls where s: "ss = us @ [s]" "sec_lines s = ls @ [''Full record: '' @ show_command ev]"
    and names: "map sec_name ss = [''header'', ''pull request'', ''verification'', ''unresolved'', ''next'',
      ''workflow restore'', ''deliverables'', ''manifest reference'', ''relay record'', ''respond'']"
    and tail: "tail_from 0 ss = None"
    by (rule completion_shape)
  have "last (split_lines (cm_text m)) = ''Full record: '' @ show_command ev
      \<or> (\<exists>r. last (split_lines (cm_text m)) = omission_line r ev)"
    by (rule last_line_without_tail [OF c _ tail s]) (use assms(2) in
      \<open>simp_all add: names one_line_append show_command_def\<close>, simp_all add: one_line_def)
  then show ?thesis using full_record_not_a_verdict omission_not_a_verdict by metis
qed

lemma revision_shape:
  assumes "revision_sections ev rel receipt request w = Inr ss"
  obtains us v where "verdict_sections w = Inr v" "ss = us @ v" "list_all (\<lambda>s. \<not> sec_last s) us"
    "map sec_name us = [''header'', ''violated criteria'', ''SCOPE'', ''preserve'', ''unresolved'',
      ''MUST DO'', ''MUST NOT'', ''PROOF'', ''RETURN FORMAT'', ''DECISION BOUNDARY'', ''workflow restore'',
      ''answer'', ''relay record'']"
    "\<exists>ls. sec_lines (last us) = ls @ [''Full record: '' @ show_command ev]"
proof -
  define gen where "gen = jget receipt ''executionGeneration''"
  from assms obtain u m fs rs v where r: "assert_current w (jor gen (JInt (w_gen w))) None = Inr u"
    "meaning_of (w_cxc_status w) = Inr m" "finding_section receipt (w_review w) = Inr fs"
    "restore_lines w = Inr rs" "verdict_sections w = Inr v"
    unfolding revision_sections_def bindE_eq_Inr Let_def gen_def by blast
  define us where "us = take 13 ss"
  have ss: "ss = us @ v"
    using assms by (auto simp: us_def revision_sections_def r [unfolded gen_def] Let_def)
  show ?thesis
  proof (rule that [OF r(5) ss])
    show "list_all (\<lambda>s. \<not> sec_last s) us"
      using assms by (auto simp: us_def revision_sections_def r [unfolded gen_def] Let_def essential_section_def
        optional_section_def make_section_def)
    show "map sec_name us = [''header'', ''violated criteria'', ''SCOPE'', ''preserve'', ''unresolved'',
      ''MUST DO'', ''MUST NOT'', ''PROOF'', ''RETURN FORMAT'', ''DECISION BOUNDARY'', ''workflow restore'',
      ''answer'', ''relay record'']"
      using assms by (auto simp: us_def revision_sections_def r [unfolded gen_def] Let_def section_names)
    show "\<exists>ls. sec_lines (last us) = ls @ [''Full record: '' @ show_command ev]"
      using assms by (auto simp: us_def revision_sections_def r [unfolded gen_def] Let_def essential_section_def
        make_section_def)
  qed
qed

lemma tail_from_append: "list_all (\<lambda>s. \<not> sec_last s) us \<Longrightarrow> tail_from i (us @ ss) = tail_from (i + length us) ss"
  by (induction us arbitrary: i) simp_all

lemma one_line_literals:
  "one_line PREFIX" "one_line GO_WITH_FIXES" "one_line ''PASS''" "one_line ''FAIL''" "one_line '' (blockers=''" "one_line '')''"
  by code_simp+

lemma one_line_digits: "list_all is_digit s \<Longrightarrow> one_line s"
  by (induction s) (auto simp: one_line_def is_digit_def)

lemma one_line_int: "0 \<le> n \<Longrightarrow> one_line (int_str n)"
  using one_line_digits [OF nat_str_digits(1) [of "nat n"]] by (simp only: int_str_def if_False not_less [symmetric] split: if_split)

lemma verdict_one_line:
  assumes "verdict_line k b = Inr line" shows "one_line line"
  using assms
proof (cases rule: verdict_line_cases)
  case (plain k)
  then consider "line = PREFIX @ ''PASS''" | "line = PREFIX @ ''FAIL''" by blast
  then show ?thesis by cases (simp_all only: one_line_append one_line_literals simp_thms)
next
  case (fixes_first n)
  have "one_line (int_str n)" using fixes_first by (intro one_line_int) simp
  then show ?thesis unfolding fixes_first(5) by (simp only: one_line_append one_line_literals simp_thms)
qed

text \<open>
  C35: a correction ends with the judgment it carries: with a review, the last line of the text reads back as
  the kind and the blocker count of that review, also when other parts were left out; without one the
  last line is not a judgment.
\<close>

theorem revision_ends_with_its_judgment:
  assumes "compose_revision_report ev rel receipt request w b = Inr m" "one_line ev"
  shows "case w_review w of
      Some review \<Rightarrow> jtruthy review \<longrightarrow>
        (\<exists>k n. parse_verdict_line (last (split_lines (cm_text m))) = Inr (Some (k, n))
          \<and> jget review ''kind'' = JStr k
          \<and> jget review ''blockers'' = (case n of None \<Rightarrow> JNull | Some b \<Rightarrow> JInt b))
    | None \<Rightarrow> parse_verdict_line (last (split_lines (cm_text m))) = Inr None"
proof -
  obtain ss where ss: "revision_sections ev rel receipt request w = Inr ss" and c: "compose ss ev b = Inr m"
    using assms(1) by (auto simp: compose_revision_report_def)
  obtain us v where v: "verdict_sections w = Inr v" and s: "ss = us @ v" and us: "list_all (\<lambda>s. \<not> sec_last s) us"
    and names: "map sec_name us = [''header'', ''violated criteria'', ''SCOPE'', ''preserve'', ''unresolved'',
      ''MUST DO'', ''MUST NOT'', ''PROOF'', ''RETURN FORMAT'', ''DECISION BOUNDARY'', ''workflow restore'',
      ''answer'', ''relay record'']"
    and full: "\<exists>ls. sec_lines (last us) = ls @ [''Full record: '' @ show_command ev]"
    by (rule revision_shape [OF ss])
  show ?thesis
  proof (cases "w_review w")
    case None
    then have nil: "v = []" using v by (simp add: verdict_sections_def)
    obtain ls where ls: "sec_lines (last us) = ls @ [''Full record: '' @ show_command ev]" using full by blast
    have "us \<noteq> []" using names by auto
    then have split: "ss = butlast us @ [last us]" by (simp add: s nil)
    have tail: "tail_from 0 ss = None" using tail_from_append [OF us, of 0 v] by (simp add: s nil)
    have nm: "map sec_name ss = [''header'', ''violated criteria'', ''SCOPE'', ''preserve'', ''unresolved'',
      ''MUST DO'', ''MUST NOT'', ''PROOF'', ''RETURN FORMAT'', ''DECISION BOUNDARY'', ''workflow restore'',
      ''answer'', ''relay record'']" using names by (simp add: s nil)
    have "last (split_lines (cm_text m)) = ''Full record: '' @ show_command ev
        \<or> (\<exists>r. last (split_lines (cm_text m)) = omission_line r ev)"
      by (rule last_line_without_tail [OF c _ tail split ls]) (use assms(2) in
        \<open>simp_all add: nm one_line_append show_command_def\<close>, simp_all add: one_line_def)
    then show ?thesis using full_record_not_a_verdict omission_not_a_verdict None by auto
  next
    case (Some review)
    show ?thesis
    proof (cases "jtruthy review")
      case True
      then obtain kind line where k: "py_item review ''kind'' = Inr kind"
        "verdict_line kind (jget review ''blockers'') = Inr line"
        "v = [make_section ''verdict'' [[], line] 0 True 2 True []]"
        using v Some by (auto simp: verdict_sections_def)
      have kind: "jget review ''kind'' = kind"
        using k(1) by (cases review) (auto simp: py_item_def split: option.splits)
      have "last (split_lines (cm_text m)) = line"
      proof (rule final_section_stays_last [OF c])
        show "distinct (map sec_name ss)" by (simp add: s k(3) names section_names)
        show "tail_from 0 ss = Some (length us)"
          using tail_from_append [OF us, of 0 v] by (simp add: s k(3) make_section_def)
        show "sec_essential (ss ! length us)" "length (sec_lines (ss ! length us)) \<le> sec_keep (ss ! length us)"
          "sec_lines (ss ! length us) = [[]] @ [line]"
          by (simp_all add: s k(3) make_section_def nth_append)
        show "one_line line" by (rule verdict_one_line [OF k(2)])
      qed
      with verdict_line_parses [OF k(2)] kind Some show ?thesis by auto
    qed (simp add: Some)
  qed
qed

section \<open>Recorded and rendered\<close>

definition demo_args :: report_args where
  "demo_args = \<lparr>ra_repository = JStr ''org/repo'', ra_cxc_status = JStr ''DONE'',
     ra_cxc_reason = JStr ''every criterion met'', ra_summary = JStr ''added the parser'',
     ra_next_action = JStr ''review the pull request'', ra_pr_number = JInt 7, ra_pr_url = JNull,
     ra_pr_state = JStr ''open'', ra_base_ref = JStr ''main'', ra_base_sha = JNull,
     ra_head_sha = JStr ''abc'', ra_criteria_digest = JNull,
     ra_evidence = JList [JObj [(''check'', JStr ''tests''), (''exitCode'', JInt 0)]],
     ra_unresolved = JList [JStr ''docs''], ra_review = JNull, ra_restore = JNull, ra_submission_no = JInt 1\<rparr>"

definition demo_report :: work_report_row where
  "demo_report = \<lparr>w_event = ''ev'', w_submission_no = 1, w_rel = ''rel'', w_gen = 1, w_hash = ''h1'',
     w_repository = ''org/repo'', w_pr_number = Some 7, w_pr_url = None, w_pr_state = Some ''open'',
     w_base_ref = Some ''main'', w_base_sha = None, w_head_sha = Some ''abc'', w_criteria_digest = None,
     w_cxc_status = ''DONE'', w_cxc_reason = ''every criterion met'', w_contract_version = cxc_version,
     w_summary = ''added the parser'',
     w_evidence = [JObj [(''check'', JStr ''tests''), (''exitCode'', JInt 0), (''detail'', JNull)]],
     w_unresolved = [JStr ''docs''], w_next_action = ''review the pull request'', w_review = None,
     w_restore = [], w_recorded_at = ''t1''\<rparr>"

definition demo_final :: db where
  "demo_final = empty_db\<lparr>events := [demo_event ''ev'' ''h1'' 1]\<rparr>"

lemma demo_validated: "validated (demo_event ''ev'' ''h1'' 1) demo_args ''t1'' = Inr demo_report"
  by code_simp

lemma demo_recorded: "\<exists>db'. record_report demo_clock ''ev'' demo_args demo_final = Inr (db', demo_report, None)"
proof -
  have "event_of demo_final ''ev'' = Some (demo_event ''ev'' ''h1'' 1)" by code_simp
  moreover have "assert_resubmission demo_final ''ev'' (w_submission_no demo_report) = Inr ()" by code_simp
  moreover have "project_restoration demo_final (demo_event ''ev'' ''h1'' 1) demo_report = Inr None"
    by (simp add: project_restoration_def demo_event_def REVISION_OUTCOME_def)
  ultimately show ?thesis
    by (simp add: record_report_def demo_validated demo_clock_def Let_def)
qed

theorem delivered_submission_is_never_rewritten_witness:
  "\<exists>db'. record_report demo_clock ''ev'' demo_args demo_final = Inr (db', demo_report, None)
    \<and> read_work_report db' ''ev'' = Some demo_report"
  using demo_recorded delivered_submission_is_never_rewritten by blast


lemma demo_report_ok: "report_ok demo_report"
  using validated_ok(1) [OF demo_validated] .

definition demo_final_receipt :: json where
  "demo_final_receipt = JObj [(''executionGeneration'', JInt 1), (''attempt'', JInt 1),
     (''outcome'', JStr ''ready_for_review''), (''revisionHash'', JStr ''h1''),
     (''manifest'', JList [JObj [(''path'', JStr ''a.py''), (''sha256'', JStr ''00'')]])]"

lemma demo_current:
  "assert_current demo_report (jor (jget demo_final_receipt ''executionGeneration'') (JInt (w_gen demo_report))) None = Inr ()"
  "list_all addressed (jlist (jget demo_final_receipt ''manifest''))"
  "short ''ev''" "short ''rel''" "short ''req''" "0 \<le> w_gen demo_report" "w_gen demo_report \<le> SQLITE_MAX_INT"
  by code_simp+

lemma demo_few:
  "length (w_unresolved demo_report) < 1000000000" "length (w_evidence demo_report) < 1000000000"
  "findings_count demo_final_receipt demo_report < 1000000000"
  by (simp_all add: demo_report_def findings_count_def demo_final_receipt_def jlist_def)

theorem recorded_report_always_renders_witness:
  "\<exists>m. compose_completion ''ev'' ''rel'' demo_final_receipt ''req'' demo_report BUDGET = Inr m \<and> text_size (cm_text m) \<le> BUDGET"
  using demo_recorded recorded_report_always_renders [OF _ demo_current(3,5,4,1,6,7,2) demo_few] by blast

theorem completion_never_ends_with_a_judgment_witness:
  "\<exists>m. compose_completion ''ev'' ''rel'' demo_final_receipt ''req'' demo_report BUDGET = Inr m
    \<and> parse_verdict_line (last (split_lines (cm_text m))) = Inr None"
proof -
  obtain m where m: "compose_completion ''ev'' ''rel'' demo_final_receipt ''req'' demo_report BUDGET = Inr m"
    using completion_composes [OF demo_report_ok demo_current(3,5,1,2) demo_few(1)] by blast
  have "one_line ''ev''" by code_simp
  with m completion_never_ends_with_a_judgment show ?thesis by blast
qed

definition demo_review :: json where
  "demo_review = JObj [(''kind'', JStr ''GO-WITH-FIXES''), (''blockers'', JInt 2),
     (''findings'', JList [JObj [(''id'', JStr ''F1''), (''note'', JStr ''off by one'')]])]"

definition demo_reviewed :: work_report_row where
  "demo_reviewed = demo_report\<lparr>w_review := Some demo_review\<rparr>"

lemma demo_reviewed_ok: "report_ok demo_reviewed"
proof -
  have "\<exists>line. verdict_line (JStr ''GO-WITH-FIXES'') (JInt 2) = Inr line"
    by (simp add: verdict_line_def VERDICT_KINDS_def GO_WITH_FIXES_def BLOCKERS_MAX_def)
  then have "review_ok demo_review"
    unfolding review_ok_def demo_review_def by (auto simp: py_item_def)
  with demo_report_ok show ?thesis
    by (cases "w_pr_number demo_report") (simp_all add: demo_reviewed_def report_ok_def)
qed

theorem revision_ends_with_its_judgment_witness:
  "\<exists>m k n. compose_revision_report ''ev'' ''rel'' demo_final_receipt ''req'' demo_reviewed BUDGET = Inr m
    \<and> parse_verdict_line (last (split_lines (cm_text m))) = Inr (Some (k, n)) \<and> JStr ''GO-WITH-FIXES'' = JStr k"
proof -
  have args: "assert_current demo_reviewed (jor (jget demo_final_receipt ''executionGeneration'') (JInt (w_gen demo_reviewed))) None = Inr ()"
    "0 \<le> w_gen demo_reviewed" "w_gen demo_reviewed \<le> SQLITE_MAX_INT"
    by code_simp+
  have few: "length (w_unresolved demo_reviewed) < 1000000000" "length (w_evidence demo_reviewed) < 1000000000"
    "findings_count demo_final_receipt demo_reviewed < 1000000000"
    by (simp_all add: demo_reviewed_def demo_review_def demo_report_def findings_count_def demo_final_receipt_def jlist_def)
  obtain m where m: "compose_revision_report ''ev'' ''rel'' demo_final_receipt ''req'' demo_reviewed BUDGET = Inr m"
    using revision_composes [OF demo_reviewed_ok demo_current(3,5,4) args few] by blast
  have "one_line ''ev''" by code_simp
  note ends = revision_ends_with_its_judgment [OF m this]
  have "w_review demo_reviewed = Some demo_review" "jtruthy demo_review" "jget demo_review ''kind'' = JStr ''GO-WITH-FIXES''"
    by (simp_all add: demo_reviewed_def demo_review_def)
  with ends m show ?thesis by auto
qed

section \<open>A value with a line break\<close>

text \<open>
  the manifest reference is the one value of a completion that no validator holds to a single line: a
  reference with a line break adds lines of its own to the message, here one that reads as a judgment.
\<close>

theorem manifest_ref_splices:
  "''VERDICT: PASS'' \<in> set (split_lines (join_lines (manifest_ref_lines
      (JObj [(''manifestRef'', JStr (''m'' @ CHR 0x0A # ''VERDICT: PASS''))]))))"
  by code_simp

end
