(* ===== verification/Marker.thy ===== *)
theory Marker
  imports Cxc "HOL-Library.AList"
begin

text \<open>
  \<^verbatim>\<open>marker.py\<close>: create-once facts on a filesystem. A path is the list of its components below the
  marker root; the files of the tree are a list from paths to contents, directories are the prefixes
  of files. Reading and listing answer with a label instead of raising: every path at which the
  operating system refuses a read or a listing, for whatever reason other than absence, is in
  \<open>tr_denied\<close>, and every path at which it refuses a write is in \<open>tr_sealed\<close>. Symbolic links, and the
  confinement check they call for, are not modelled; neither are the temporary files.
\<close>

section \<open>Identity\<close>

definition named :: "json \<Rightarrow> bool" where
  "named v = (case v of JStr s \<Rightarrow> strip s \<noteq> [] | _ \<Rightarrow> False)"

definition same_identity :: "json \<Rightarrow> json \<Rightarrow> bool" where
  "same_identity l r = (named l \<and> named r \<and> l = r)"

definition valid_segment :: "json \<Rightarrow> bool" where
  "valid_segment v =
     (case v of
        JStr s \<Rightarrow> named v \<and> s \<noteq> ''.'' \<and> s \<noteq> ''..''
                  \<and> (\<forall>c\<in>set s. c \<noteq> CHR ''/'' \<and> c \<noteq> CHR 0x5C \<and> c \<noteq> CHR 0x00)
      | _ \<Rightarrow> False)"

definition valid_assignment :: "string \<Rightarrow> bool" where
  "valid_assignment a = re_hex 64 a"

section \<open>Digests\<close>

text \<open>\<^verbatim>\<open>json.dumps\<close> with sorted keys, no white space and everything outside ASCII escaped.\<close>

definition ascii_char :: "char \<Rightarrow> string" where
  "ascii_char c =
     (if (of_char c :: nat) \<ge> 127 then [CHR 0x5C, CHR ''u'', CHR ''0'', CHR ''0''] @ hex_byte c
      else json_char c)"

definition ascii_string :: "string \<Rightarrow> string" where
  "ascii_string s = [CHR 0x22] @ concat (map ascii_char s) @ [CHR 0x22]"

fun comma_list :: "string list \<Rightarrow> string" where
  "comma_list [] = []"
| "comma_list [w] = w"
| "comma_list (w # v # ws) = w @ '','' @ comma_list (v # ws)"

fun canonical_json :: "json \<Rightarrow> string" where
  "canonical_json JNull = ''null''"
| "canonical_json (JBool b) = (if b then ''true'' else ''false'')"
| "canonical_json (JInt n) = int_str n"
| "canonical_json (JStr s) = ascii_string s"
| "canonical_json (JList vs) = ''['' @ comma_list (map canonical_json vs) @ '']''"
| "canonical_json (JObj kvs) =
     ''{'' @ comma_list (map (\<lambda>(k, t). ascii_string k @ '':'' @ t)
        (sort_key fst (map (\<lambda>kv. (fst kv, canonical_json (snd kv))) kvs))) @ ''}''"

definition fact_digest :: "(string \<times> json) list \<Rightarrow> string" where
  "fact_digest kvs = sha256_hex (canonical_json (JObj (filter (\<lambda>kv. fst kv \<noteq> ''factId'') kvs)))"

definition assignment_id :: "string \<Rightarrow> string" where
  "assignment_id dispatch = sha256_hex dispatch"

section \<open>The tree\<close>

type_synonym fpath = "string list"

text \<open>A file holds a fact, or bytes that are not JSON text.\<close>

datatype content = Fact json | Garbled

record tree =
  tr_files :: "(fpath \<times> content) list"
  tr_denied :: "fpath list"
  tr_sealed :: "fpath list"

definition below :: "fpath \<Rightarrow> fpath \<Rightarrow> bool" where
  "below d p = (length d < length p \<and> take (length d) p = d)"

definition is_file :: "tree \<Rightarrow> fpath \<Rightarrow> bool" where
  "is_file t p = (map_of (tr_files t) p \<noteq> None)"

definition is_dir :: "tree \<Rightarrow> fpath \<Rightarrow> bool" where
  "is_dir t d = list_ex (\<lambda>f. below d (fst f)) (tr_files t)"

text \<open>A path through a file: \<^verbatim>\<open>ENOTDIR\<close>, which is not absence.\<close>

definition through_file :: "tree \<Rightarrow> fpath \<Rightarrow> bool" where
  "through_file t p = list_ex (\<lambda>f. below (fst f) p) (tr_files t)"

section \<open>Reading\<close>

datatype fact_read = PRESENT json | ABSENT | UNREADABLE

definition read_fact :: "tree \<Rightarrow> fpath \<Rightarrow> fact_read" where
  "read_fact t p =
     (if p \<in> set (tr_denied t) \<or> through_file t p \<or> is_dir t p then UNREADABLE
      else case map_of (tr_files t) p of
             None \<Rightarrow> ABSENT | Some Garbled \<Rightarrow> UNREADABLE | Some (Fact v) \<Rightarrow> PRESENT v)"

definition entries_of :: "tree \<Rightarrow> fpath \<Rightarrow> string list" where
  "entries_of t d = sort (remdups (map (\<lambda>f. fst f ! length d) (filter (\<lambda>f. below d (fst f)) (tr_files t))))"

text \<open>All entries of a directory in order, or nothing when it could not be listed.\<close>

definition listing :: "tree \<Rightarrow> fpath \<Rightarrow> (string \<Rightarrow> bool) \<Rightarrow> string list option" where
  "listing t d keep =
     (if d \<in> set (tr_denied t) \<or> through_file t d \<or> is_file t d then None
      else Some (filter keep (entries_of t d)))"

definition directories :: "tree \<Rightarrow> fpath \<Rightarrow> string list option" where
  "directories t d = listing t d (\<lambda>n. is_dir t (d @ [n]))"

definition is_json_name :: "string \<Rightarrow> bool" where
  "is_json_name n = ends_with ''.json'' n"

definition stem :: "string \<Rightarrow> string" where
  "stem n = take (length n - 5) n"

definition hidden :: "string \<Rightarrow> bool" where
  "hidden n = starts_with ''.'' n"

section \<open>Publishing\<close>

datatype outcome = PUBLISHED | EXISTS

text \<open>
  The link decides: the first writer of a path wins, and every later one is told so. A write that
  fails raises and leaves the tree as it was.
\<close>

definition publish :: "fpath \<Rightarrow> json \<Rightarrow> tree \<Rightarrow> err + tree \<times> outcome" where
  "publish p v t =
     (if p \<in> set (tr_sealed t) \<or> through_file t p then Inl HostError
      else if is_file t p \<or> is_dir t p then Inr (t, EXISTS)
      else Inr (t\<lparr>tr_files := tr_files t @ [(p, Fact v)]\<rparr>, PUBLISHED))"

section \<open>An assignment\<close>

definition SINGLE_FACTS :: "(string \<times> string) list" where
  "SINGLE_FACTS = [(''intent'', ''intent.json''), (''bound'', ''bound.json''),
     (''relationship'', ''relationship.json'')]"

definition NUMBERED_FACTS :: "string list" where
  "NUMBERED_FACTS = [''attempts'', ''conflicts'', ''resolutions'']"

text \<open>The reader attaches the id it walked to; a fact that is not a record stays as it is.\<close>

definition identified :: "json \<Rightarrow> string \<Rightarrow> json" where
  "identified v fact_id = (case v of JObj kvs \<Rightarrow> JObj (AList.update ''factId'' (JStr fact_id) kvs) | _ \<Rightarrow> v)"

definition read_single :: "tree \<Rightarrow> fpath \<Rightarrow> string \<times> string \<Rightarrow> (string \<times> json) list \<times> string list" where
  "read_single t d kn =
     (case read_fact t (d @ [snd kn]) of
        ABSENT \<Rightarrow> ([], [])
      | UNREADABLE \<Rightarrow> ([], [fst kn])
      | PRESENT v \<Rightarrow> ([(fst kn, identified v (fst kn))], []))"

text \<open>The facts found under a list of file paths with their ids, and the ids that could not be read.\<close>

fun read_facts :: "tree \<Rightarrow> (fpath \<times> string) list \<Rightarrow> json list \<times> string list" where
  "read_facts t [] = ([], [])"
| "read_facts t ((p, i) # ps) =
     (case read_facts t ps of (vs, us) \<Rightarrow>
       (case read_fact t p of
          ABSENT \<Rightarrow> (vs, us) | UNREADABLE \<Rightarrow> (vs, i # us) | PRESENT v \<Rightarrow> (identified v i # vs, us)))"

definition read_numbered :: "tree \<Rightarrow> fpath \<Rightarrow> string \<Rightarrow> (string \<times> json) list \<times> string list" where
  "read_numbered t d key =
     (case listing t (d @ [key]) is_json_name of
        None \<Rightarrow> ([], [key])
      | Some names \<Rightarrow>
          (case read_facts t (map (\<lambda>n. (d @ [key, n], key @ ''/'' @ stem n))
                   (filter (\<lambda>n. \<not> hidden n) names)) of
             (vs, us) \<Rightarrow> ([(key, JList vs)], us)))"

definition read_claims :: "tree \<Rightarrow> fpath \<Rightarrow> (string \<times> json) list \<times> string list" where
  "read_claims t d =
     (case directories t (d @ [''claims'']) of
        None \<Rightarrow> ([], [''claims''])
      | Some sessions \<Rightarrow>
          (case read_facts t (map (\<lambda>s. (d @ [''claims'', s, ''claim.json''],
                   ''claims/'' @ s @ ''/claim.json'')) sessions) of
             (vs, us) \<Rightarrow> ([(''claims'', JList vs)], us)))"

definition read_assignment :: "tree \<Rightarrow> fpath \<Rightarrow> json \<times> string list" where
  "read_assignment t d =
     (let parts = map (read_single t d) SINGLE_FACTS @ map (read_numbered t d) NUMBERED_FACTS
            @ [read_claims t d]
      in (JObj (concat (map fst parts)), concat (map snd parts)))"

text \<open>The disposition at the path a Stop identity derives, and whether it could be read.\<close>

definition read_disposition :: "tree \<Rightarrow> fpath \<Rightarrow> json \<Rightarrow> json \<Rightarrow> json \<times> bool" where
  "read_disposition t d session turn =
     (case (session, turn) of
        (JStr s, JStr u) \<Rightarrow>
          if \<not> (valid_segment session \<and> valid_segment turn) then (JNull, True)
          else (case read_fact t (d @ [''dispositions'', s, u @ ''.json'']) of
                  ABSENT \<Rightarrow> (JNull, True)
                | UNREADABLE \<Rightarrow> (JNull, False)
                | PRESENT v \<Rightarrow> (identified v (''dispositions/'' @ s @ ''/'' @ u), True))
      | _ \<Rightarrow> (JNull, True))"

end
