(* ===== verification/Intent.thy ===== *)
theory Intent
  imports Marker Store
begin

text \<open>
  \<^verbatim>\<open>intent.py\<close>: the facts a coordinator publishes before the task exists, the state of an assignment
  derived from the facts that are there, and the writers of every fact. A marker is the decoded object
  \<open>read_assignment\<close> returns. \<^verbatim>\<open>datetime.fromisoformat\<close> is the parameter \<open>instant\<close>, in seconds;
  resolving a path is the parameter \<open>resolve\<close>, and the databases that can be opened are \<open>stores\<close>.
\<close>

section \<open>Vocabulary\<close>

definition BINDING_WINDOW_MINUTES :: rat where "BINDING_WINDOW_MINUTES = 30"

datatype assignment_state =
    RELATIONSHIP_REGISTERED | IDENTITY_BOUND | AMBIGUOUS_IDENTITY | INTENT_EXPIRED
  | CREATION_UNKNOWN | CREATION_ACCEPTED | INTENT_DECLARED

definition assignment_state_str :: "assignment_state \<Rightarrow> string" where
  "assignment_state_str s = (case s of
     RELATIONSHIP_REGISTERED \<Rightarrow> ''relationship_registered'' | IDENTITY_BOUND \<Rightarrow> ''identity_bound''
   | AMBIGUOUS_IDENTITY \<Rightarrow> ''ambiguous_identity'' | INTENT_EXPIRED \<Rightarrow> ''intent_expired''
   | CREATION_UNKNOWN \<Rightarrow> ''creation_unknown'' | CREATION_ACCEPTED \<Rightarrow> ''creation_accepted''
   | INTENT_DECLARED \<Rightarrow> ''intent_declared'')"

definition ATTEMPT_OUTCOMES :: "string list" where
  "ATTEMPT_OUTCOMES = [''accepted'', ''unknown'', ''failed'']"

definition INTENT_FIELDS :: "string list" where
  "INTENT_FIELDS = [''dispatchRequestIdHash'', ''issueKey'', ''workspace'', ''dbPath'',
     ''criteriaSource'', ''baselineRevision'', ''authorizedSettings'']"

definition RELEASING_OUTCOMES :: "string list" where
  "RELEASING_OUTCOMES = [''in_progress'', ''blocked_needs_input'', ''interrupted'', ''failed'']"

definition DISPOSITION_OUTCOMES :: "string list" where
  "DISPOSITION_OUTCOMES = RELEASING_OUTCOMES @ [''ready_for_review'']"

definition IDENTITY_FIELDS_OF :: "(string \<times> string list) list" where
  "IDENTITY_FIELDS_OF = [(''intent'', [''dispatchRequestIdHash'', ''dbPath'']),
     (''bound'', [''sessionId'', ''taskId'']), (''relationship'', [''relationshipId'']),
     (''attempts'', [''taskId'', ''outcome'']), (''claims'', [''sessionId'', ''dispatchRequestId'']),
     (''conflicts'', [''attemptedSessionId'', ''attemptedTaskId'']),
     (''resolutions'', [''chosenTaskId'', ''chosenSessionId''])]"

definition SINGLE :: "string list" where "SINGLE = [''intent'', ''bound'', ''relationship'']"

definition LISTED :: "string list" where
  "LISTED = [''attempts'', ''claims'', ''conflicts'', ''resolutions'']"

section \<open>Shape\<close>

definition has_key :: "json \<Rightarrow> string \<Rightarrow> bool" where
  "has_key v k = (case v of JObj kvs \<Rightarrow> map_of kvs k \<noteq> None | _ \<Rightarrow> False)"

definition is_str :: "json \<Rightarrow> bool" where
  "is_str v = (case v of JStr _ \<Rightarrow> True | _ \<Rightarrow> False)"

definition jfields :: "json \<Rightarrow> (string \<times> json) list" where
  "jfields v = (case v of JObj kvs \<Rightarrow> kvs | _ \<Rightarrow> [])"

fun first_of :: "'a option list \<Rightarrow> 'a option" where
  "first_of [] = None"
| "first_of (None # xs) = first_of xs"
| "first_of (Some x # xs) = Some x"

definition bad_single :: "json \<Rightarrow> string \<Rightarrow> string option" where
  "bad_single marker k = (if has_key marker k \<and> \<not> is_obj (jget marker k) then Some k else None)"

definition bad_list :: "json \<Rightarrow> string \<Rightarrow> string option" where
  "bad_list marker k =
     (if \<not> has_key marker k then None
      else case jget marker k of
             JList items \<Rightarrow> if list_all is_obj items then None else Some k
           | _ \<Rightarrow> Some k)"

definition bad_field :: "string \<Rightarrow> json \<Rightarrow> string \<Rightarrow> string option" where
  "bad_field k v field =
     (if has_key v field \<and> \<not> is_str (jget v field) then Some (k @ ''.'' @ field) else None)"

definition bad_adjudicated :: "string \<Rightarrow> json \<Rightarrow> string option" where
  "bad_adjudicated k v =
     (if k = ''resolutions'' \<and> has_key v ''adjudicated''
      then (case jget v ''adjudicated'' of
              JList entries \<Rightarrow> if list_all is_obj entries then None else Some (k @ ''.adjudicated'')
            | _ \<Rightarrow> Some (k @ ''.adjudicated''))
      else None)"

definition bad_item :: "string \<Rightarrow> json \<Rightarrow> string option" where
  "bad_item k v = first_of
     (map (bad_field k v) (case map_of IDENTITY_FIELDS_OF k of None \<Rightarrow> [] | Some fs \<Rightarrow> fs)
      @ [bad_adjudicated k v])"

definition items_of :: "json \<Rightarrow> string \<Rightarrow> json list" where
  "items_of marker k =
     (if \<not> has_key marker k then []
      else if k \<in> set LISTED then jlist (jget marker k) else [jget marker k])"

definition malformed_marker :: "json \<Rightarrow> string option" where
  "malformed_marker marker = first_of
     (map (bad_single marker) SINGLE @ map (bad_list marker) LISTED
      @ concat (map (\<lambda>k. map (bad_item k) (items_of marker k)) (SINGLE @ LISTED)))"

definition malformed_disposition :: "json \<Rightarrow> string option" where
  "malformed_disposition v =
     (case v of
        JNull \<Rightarrow> None
      | JObj _ \<Rightarrow> first_of (map (bad_field ''disposition'' v) [''sessionId'', ''turnId'', ''outcome''])
      | _ \<Rightarrow> Some ''disposition'')"

section \<open>Coverage\<close>

definition covers :: "json \<Rightarrow> string \<Rightarrow> json \<Rightarrow> bool" where
  "covers fact_id digest entry =
     (is_obj entry \<and> jget entry ''factId'' = fact_id \<and> jget entry ''digest'' = JStr digest)"

definition covered :: "json \<Rightarrow> json list \<Rightarrow> bool" where
  "covered v resolutions =
     (named (jget v ''factId'')
      \<and> list_ex (\<lambda>r. list_ex (covers (jget v ''factId'') (fact_digest (jfields v)))
           (jlist (jget r ''adjudicated''))) resolutions)"

definition claimant :: "json \<Rightarrow> string option" where
  "claimant claim =
     (case split_on CHR ''/'' (str_or_empty (jget claim ''factId'')) of
        [kind, owner, leaf] \<Rightarrow>
          if kind \<noteq> ''claims'' \<or> leaf \<noteq> ''claim.json'' \<or> owner \<in> {''.'', ''..''} \<or> \<not> named (JStr owner)
          then None
          else if \<not> named (jget claim ''sessionId'') \<or> jget claim ''sessionId'' \<noteq> JStr owner then None
          else Some owner
      | _ \<Rightarrow> None)"

definition accepted_attempts :: "json \<Rightarrow> json list" where
  "accepted_attempts marker =
     filter (\<lambda>a. jget a ''outcome'' = JStr ''accepted'' \<and> named (jget a ''taskId''))
       (jlist (jget marker ''attempts''))"

definition accepted_tasks :: "json \<Rightarrow> json list" where
  "accepted_tasks marker = remdups (map (\<lambda>a. jget a ''taskId'') (accepted_attempts marker))"

definition competing_facts :: "json \<Rightarrow> json list" where
  "competing_facts marker =
     (let bound = jget marker ''bound''
      in filter (\<lambda>a. \<not> same_identity (jget a ''taskId'') (jget bound ''taskId'')) (accepted_attempts marker)
         @ filter (\<lambda>c. \<not> same_identity (jopt (claimant c)) (jget bound ''sessionId''))
             (jlist (jget marker ''claims''))
         @ jlist (jget marker ''conflicts''))"

definition chosen_pair :: "json \<Rightarrow> json \<times> json" where
  "chosen_pair r = (jget r ''chosenTaskId'', jget r ''chosenSessionId'')"

definition ambiguity_resolved :: "json \<Rightarrow> bool" where
  "ambiguity_resolved marker =
     (case filter (\<lambda>r. named (jget r ''chosenTaskId'') \<and> named (jget r ''chosenSessionId''))
             (jlist (jget marker ''resolutions'')) of
        [] \<Rightarrow> False
      | r # rs \<Rightarrow>
          list_all (\<lambda>q. chosen_pair q = chosen_pair r) rs
          \<and> jget r ''chosenTaskId'' \<in> set (accepted_tasks marker)
          \<and> jget r ''chosenSessionId'' \<in> (\<lambda>c. jopt (claimant c)) `
              set (filter (\<lambda>c. claimant c \<noteq> None) (jlist (jget marker ''claims'')))
          \<and> list_all (\<lambda>f. covered f (r # rs)) (accepted_attempts marker @ jlist (jget marker ''claims'')))"

definition identity_contested :: "json \<Rightarrow> bool" where
  "identity_contested marker =
     (let bound = jget marker ''bound''
      in jtruthy bound
         \<and> (let applicable = filter (\<lambda>r. same_identity (jget r ''chosenSessionId'') (jget bound ''sessionId'')
                    \<and> same_identity (jget r ''chosenTaskId'') (jget bound ''taskId''))
                  (jlist (jget marker ''resolutions''))
            in list_ex (\<lambda>f. \<not> covered f applicable) (competing_facts marker)))"

section \<open>State\<close>

definition moment :: "(string \<Rightarrow> rat option) \<Rightarrow> json \<Rightarrow> rat option" where
  "moment instant v = (if v = JNull then None else instant (py_str v))"

definition window_closed :: "(string \<Rightarrow> rat option) \<Rightarrow> json \<Rightarrow> json \<Rightarrow> bool" where
  "window_closed instant marker now =
     (case (moment instant (jget (jget marker ''intent'') ''declaredAt''), moment instant now) of
        (Some anchor, Some seen) \<Rightarrow> anchor + BINDING_WINDOW_MINUTES * 60 < seen
      | _ \<Rightarrow> False)"

definition derive_assignment_state ::
    "(string \<Rightarrow> rat option) \<Rightarrow> json \<Rightarrow> json \<Rightarrow> assignment_state" where
  "derive_assignment_state instant marker now =
     (let attempts = jlist (jget marker ''attempts''); claims = jlist (jget marker ''claims'')
      in if jtruthy (jget marker ''bound'')
         then (if named (jget (jget marker ''relationship'') ''relationshipId'')
               then RELATIONSHIP_REGISTERED else IDENTITY_BOUND)
         else
           let resolved = ambiguity_resolved marker;
               accepted = filter (\<lambda>a. jget a ''outcome'' = JStr ''accepted'') attempts
           in if \<not> resolved \<and> (1 < length (accepted_tasks marker) \<or> 1 < length claims)
              then AMBIGUOUS_IDENTITY
              else if window_closed instant marker now then INTENT_EXPIRED
              else if \<not> resolved \<and> accepted = [] \<and> list_ex (\<lambda>a. jget a ''outcome'' = JStr ''unknown'') attempts
              then CREATION_UNKNOWN
              else if accepted \<noteq> [] then CREATION_ACCEPTED else INTENT_DECLARED)"

definition correlated :: "json \<Rightarrow> json \<Rightarrow> bool" where
  "correlated marker session =
     (case List.find (\<lambda>c. same_identity (jopt (claimant c)) session) (jlist (jget marker ''claims'')) of
        None \<Rightarrow> False
      | Some claim \<Rightarrow>
          (case jget claim ''dispatchRequestId'' of
             JStr presented \<Rightarrow> named (JStr presented)
               \<and> same_identity (JStr (sha256_hex presented))
                   (jget (jget marker ''intent'') ''dispatchRequestIdHash'')
           | _ \<Rightarrow> False))"

section \<open>Selection\<close>

definition workspace_key :: "(string \<Rightarrow> string) \<Rightarrow> string \<Rightarrow> string" where
  "workspace_key resolve workspace = sha256_hex (resolve workspace)"

definition assignment_dir :: "(string \<Rightarrow> string) \<Rightarrow> string \<Rightarrow> string \<Rightarrow> fpath" where
  "assignment_dir resolve workspace assignment = [workspace_key resolve workspace, assignment]"

type_synonym candidate = "string \<times> json \<times> string list"

definition recency :: "(string \<Rightarrow> rat option) \<Rightarrow> candidate \<Rightarrow> rat option" where
  "recency instant c =
     (case fst (snd c) of marker \<Rightarrow>
        if is_obj (jget marker ''intent'') then moment instant (jget (jget marker ''intent'') ''declaredAt'')
        else None)"

text \<open>Undated below dated, then the instant, then the name.\<close>

definition more_recent :: "(string \<Rightarrow> rat option) \<Rightarrow> candidate \<Rightarrow> candidate \<Rightarrow> bool" where
  "more_recent instant c d =
     (case (recency instant c, recency instant d) of
        (Some x, None) \<Rightarrow> True
      | (None, Some y) \<Rightarrow> False
      | (Some x, Some y) \<Rightarrow> y < x \<or> (x = y \<and> fst d < fst c)
      | (None, None) \<Rightarrow> fst d < fst c)"

fun newest :: "(string \<Rightarrow> rat option) \<Rightarrow> candidate \<Rightarrow> candidate list \<Rightarrow> candidate" where
  "newest instant c [] = c"
| "newest instant c (d # ds) = newest instant (if more_recent instant d c then d else c) ds"

definition claims_of :: "candidate \<Rightarrow> json list" where
  "claims_of c = filter is_obj (jlist (jget (fst (snd c)) ''claims''))"

definition candidates :: "tree \<Rightarrow> fpath \<Rightarrow> string list \<Rightarrow> candidate list" where
  "candidates t ws names =
     filter (\<lambda>c. has_key (fst (snd c)) ''intent'' \<or> ''intent'' \<in> set (snd (snd c)))
       (map (\<lambda>n. (n, read_assignment t (ws @ [n]))) names)"

text \<open>The selected directory with its facts, and what could not be read.\<close>

definition select_assignment ::
    "(string \<Rightarrow> rat option) \<Rightarrow> tree \<Rightarrow> fpath \<Rightarrow> json \<Rightarrow> (fpath \<times> json) option \<times> string list" where
  "select_assignment instant t ws session =
     (case directories t ws of
        None \<Rightarrow> (None, [''workspace''])
      | Some names \<Rightarrow>
          (case candidates t ws names of
             [] \<Rightarrow> (None, [])
           | c # cs \<Rightarrow>
               (case (case filter (\<lambda>x. list_ex (\<lambda>k. same_identity (jopt (claimant k)) session) (claims_of x)) (c # cs) of
                        [] \<Rightarrow> newest instant c cs | x # xs \<Rightarrow> newest instant x xs) of
                  (n, facts, problems) \<Rightarrow> (Some (ws @ [n], facts), problems))))"

section \<open>Publishing facts\<close>

definition registration :: "RefusalReason \<Rightarrow> err" where
  "registration r = RelayError RegistrationError r"

definition check_assignment :: "string \<Rightarrow> err + unit" where
  "check_assignment a = (if valid_assignment a then Inr () else Inl (registration UNKNOWN_GENERATION))"

definition check_identity :: "json \<Rightarrow> err + string" where
  "check_identity v = (case v of JStr s \<Rightarrow>
     if valid_segment v then Inr s else Inl (registration UNBOUND_GENERATION)
   | _ \<Rightarrow> Inl (registration UNBOUND_GENERATION))"

datatype agreement = FIRST | UNCHANGED | CONFLICT

definition publish_or_compare ::
    "fpath \<Rightarrow> (string \<times> json) list \<Rightarrow> string list \<Rightarrow> tree \<Rightarrow> err + tree \<times> agreement" where
  "publish_or_compare p payload compared t =
     bindE (publish p (JObj payload) t) (\<lambda>(t', out).
       if out = PUBLISHED then Inr (t', FIRST)
       else case read_fact t' p of
              PRESENT existing \<Rightarrow>
                Inr (t', if is_obj existing \<and> list_all (\<lambda>f. jget existing f = jget (JObj payload) f) compared
                         then UNCHANGED else CONFLICT)
            | _ \<Rightarrow> Inr (t', CONFLICT))"

fun used_numbers :: "string list \<Rightarrow> err + int list" where
  "used_numbers [] = Inr []"
| "used_numbers (n # ns) =
     (if hidden n \<or> \<not> py_isdigit (stem n) then used_numbers ns
      else bindE (py_int (stem n)) (\<lambda>i. bindE (used_numbers ns) (\<lambda>is. Inr (i # is))))"

text \<open>The next free slot; nothing when the directory cannot be listed.\<close>

definition next_index :: "tree \<Rightarrow> fpath \<Rightarrow> err + int option" where
  "next_index t d =
     (case listing t d is_json_name of
        None \<Rightarrow> Inr None
      | Some names \<Rightarrow> bindE (used_numbers names) (\<lambda>used.
          Inr (Some (case used of [] \<Rightarrow> 0 | i # is \<Rightarrow> fold max is i + 1))))"

fun publish_slot :: "nat \<Rightarrow> err \<Rightarrow> fpath \<Rightarrow> json \<Rightarrow> tree \<Rightarrow> err + tree \<times> int" where
  "publish_slot 0 failed d v t = Inl failed"
| "publish_slot (Suc n) failed d v t =
     bindE (next_index t d) (\<lambda>index.
       case index of
         None \<Rightarrow> Inl failed
       | Some i \<Rightarrow> bindE (publish (d @ [int_str i @ ''.json'']) v t) (\<lambda>(t', out).
           if out = PUBLISHED then Inr (t', i) else publish_slot n failed d v t'))"

definition publish_numbered :: "fpath \<Rightarrow> string \<Rightarrow> (string \<times> json) list \<Rightarrow> tree \<Rightarrow> err + tree \<times> string" where
  "publish_numbered d kind payload t =
     bindE (publish_slot 64 (registration RELATIONSHIP_CONFLICT) (d @ [kind]) (JObj payload) t)
       (\<lambda>(t', i). Inr (t', kind @ ''/'' @ int_str i))"

record intent_args =
  in_issue_key :: json
  in_criteria_source :: json
  in_baseline_revision :: json
  in_authorized_settings :: json
  in_db_path :: "string option"

definition declare_intent ::
    "(string \<Rightarrow> string) \<Rightarrow> string \<Rightarrow> json \<Rightarrow> intent_args \<Rightarrow> string \<Rightarrow> tree \<Rightarrow> err + tree \<times> string \<times> agreement" where
  "declare_intent resolve workspace dispatch args declared_at t =
     (case dispatch of
        JStr d \<Rightarrow>
          if \<not> named dispatch then Inl (registration UNBOUND_GENERATION)
          else bindE (check_assignment (assignment_id d)) (\<lambda>_.
               bindE (publish_or_compare (assignment_dir resolve workspace (assignment_id d) @ [''intent.json''])
                   ([(''dispatchRequestIdHash'', JStr (assignment_id d)), (''issueKey'', in_issue_key args),
                     (''workspace'', JStr (resolve workspace)), (''criteriaSource'', in_criteria_source args),
                     (''baselineRevision'', in_baseline_revision args),
                     (''authorizedSettings'', in_authorized_settings args), (''declaredAt'', JStr declared_at)]
                    @ (if truthy_text (in_db_path args) then [(''dbPath'', jopt (in_db_path args))] else []))
                   INTENT_FIELDS t) (\<lambda>(t', out).
                 Inr (t', assignment_id d, out)))
      | _ \<Rightarrow> Inl (registration UNBOUND_GENERATION))"

text \<open>The directory of an assignment below its workspace, once the id is one.\<close>

definition directory_of :: "fpath \<Rightarrow> string \<Rightarrow> err + fpath" where
  "directory_of ws assignment = bindE (check_assignment assignment) (\<lambda>_. Inr (ws @ [assignment]))"

definition record_attempt ::
    "fpath \<Rightarrow> string \<Rightarrow> string \<Rightarrow> json \<Rightarrow> string \<Rightarrow> tree \<Rightarrow> err + tree \<times> string" where
  "record_attempt ws assignment outcome task stamp t =
     (if outcome \<notin> set ATTEMPT_OUTCOMES then Inl (registration UNKNOWN_GENERATION)
      else bindE (directory_of ws assignment) (\<lambda>d.
        publish_numbered d ''attempts''
          ([(''outcome'', JStr outcome), (''at'', JStr stamp)] @ (if task = JNull then [] else [(''taskId'', task)])) t))"

section \<open>Binding\<close>

datatype bind_result = BIND_FIRST | BIND_UNCHANGED | BIND_CONFLICT string json json

text \<open>
  The first bind wins by its link. A later one is a replay when it names the same identity; otherwise
  the contest is recorded as a conflict fact.
\<close>

definition bind_intent ::
    "fpath \<Rightarrow> string \<Rightarrow> json \<Rightarrow> json \<Rightarrow> string \<Rightarrow> string \<Rightarrow> tree \<Rightarrow> err + tree \<times> bind_result" where
  "bind_intent ws assignment session task process stamp t =
     (if \<not> (named session \<and> named task) then Inl (registration UNBOUND_GENERATION)
      else bindE (directory_of ws assignment) (\<lambda>d.
        bindE (publish (d @ [''bound.json''])
            (JObj [(''sessionId'', session), (''taskId'', task), (''at'', JStr stamp)]) t) (\<lambda>(t', out).
          if out = PUBLISHED then Inr (t', BIND_FIRST)
          else
            let winner = jget (fst (read_assignment t' d)) ''bound''
            in if \<not> is_obj winner then Inl (registration UNBOUND_GENERATION)
               else if same_identity (jget winner ''sessionId'') session
                    \<and> same_identity (jget winner ''taskId'') task
               then Inr (t', BIND_UNCHANGED)
               else bindE (publish_numbered d ''conflicts''
                   [(''attemptedSessionId'', session), (''attemptedTaskId'', task),
                    (''loserProcess'', JStr process), (''at'', JStr stamp)] t') (\<lambda>(t'', i).
                 Inr (t'', BIND_CONFLICT i (jget winner ''sessionId'') (jget winner ''taskId''))))))"

section \<open>Registering the relationship\<close>

datatype dispatch_state = DISPATCH_CURRENT | DISPATCH_STALE | DISPATCH_ABSENT

definition dispatch_row :: "db \<Rightarrow> string \<Rightarrow> string \<Rightarrow> (int \<times> int) option" where
  "dispatch_row db rid dispatch =
     (case relationship_of db rid of
        None \<Rightarrow> None
      | Some r \<Rightarrow>
          map_option (\<lambda>g. (g_no g, r_generation r))
            (List.find (\<lambda>g. g_rel g = rid \<and> g_dispatch_request g = dispatch) (generations db)))"

text \<open>The state, and whether the database could be read.\<close>

definition dispatch_generation_state ::
    "(string \<Rightarrow> db option) \<Rightarrow> string option \<Rightarrow> string \<Rightarrow> string \<Rightarrow> dispatch_state \<times> bool" where
  "dispatch_generation_state stores db_path rid dispatch =
     (case db_path of
        None \<Rightarrow> (DISPATCH_ABSENT, False)
      | Some path \<Rightarrow>
          (case stores path of
             None \<Rightarrow> (DISPATCH_ABSENT, False)
           | Some db \<Rightarrow>
               (case dispatch_row db rid dispatch of
                  None \<Rightarrow> (DISPATCH_ABSENT, True)
                | Some (opened, current) \<Rightarrow>
                    (if opened = current then DISPATCH_CURRENT else DISPATCH_STALE, True))))"

definition register_relationship ::
    "(string \<Rightarrow> db option) \<Rightarrow> fpath \<Rightarrow> string \<Rightarrow> string \<Rightarrow> string \<Rightarrow> string \<Rightarrow> string option
     \<Rightarrow> tree \<Rightarrow> err + tree \<times> agreement" where
  "register_relationship stores ws assignment rid dispatch stamp db_path t =
     (if \<not> named (JStr rid) then Inl (registration UNREGISTERED_RELATIONSHIP)
      else if assignment_id dispatch \<noteq> assignment then Inl (registration RELATIONSHIP_CONFLICT)
      else case dispatch_generation_state stores db_path rid dispatch of (state, readable) \<Rightarrow>
        if \<not> readable then Inl (registration UNREGISTERED_RELATIONSHIP)
        else if state = DISPATCH_STALE then Inl (registration STALE_GENERATION)
        else if state = DISPATCH_ABSENT then Inl (registration RELATIONSHIP_CONFLICT)
        else bindE (directory_of ws assignment) (\<lambda>d.
          publish_or_compare (d @ [''relationship.json''])
            [(''relationshipId'', JStr rid), (''at'', JStr stamp)] [''relationshipId''] t))"

section \<open>Resolutions, claims and dispositions\<close>

fun adjudications :: "json list \<Rightarrow> err + json list" where
  "adjudications [] = Inr []"
| "adjudications (e # es) =
     bindE (py_item e ''factId'') (\<lambda>i. bindE (py_item e ''digest'') (\<lambda>d.
     bindE (adjudications es) (\<lambda>rest. Inr (JObj [(''factId'', i), (''digest'', d)] # rest))))"

definition publish_resolution ::
    "fpath \<Rightarrow> string \<Rightarrow> json \<Rightarrow> json \<Rightarrow> json \<Rightarrow> string \<Rightarrow> json list \<Rightarrow> tree \<Rightarrow> err + tree \<times> string" where
  "publish_resolution ws assignment task session reason stamp adjudicated t =
     bindE (directory_of ws assignment) (\<lambda>d.
     bindE (adjudications adjudicated) (\<lambda>entries.
       publish_numbered d ''resolutions''
         [(''chosenTaskId'', task), (''chosenSessionId'', session), (''reason'', reason),
          (''at'', JStr stamp), (''adjudicated'', JList entries)] t))"

definition publish_claim ::
    "fpath \<Rightarrow> string \<Rightarrow> json \<Rightarrow> string \<Rightarrow> json \<Rightarrow> string \<Rightarrow> tree \<Rightarrow> err + tree \<times> agreement" where
  "publish_claim ws assignment session dispatch first_turn stamp t =
     bindE (check_identity session) (\<lambda>s.
       if assignment_id dispatch \<noteq> assignment then Inl (registration RELATIONSHIP_CONFLICT)
       else bindE (directory_of ws assignment) (\<lambda>d.
         publish_or_compare (d @ [''claims'', s, ''claim.json''])
           [(''dispatchRequestId'', JStr dispatch), (''sessionId'', JStr s),
            (''firstTurnId'', first_turn), (''at'', JStr stamp)] [''dispatchRequestId'', ''sessionId''] t))"

definition publish_disposition ::
    "fpath \<Rightarrow> string \<Rightarrow> json \<Rightarrow> json \<Rightarrow> string \<Rightarrow> string \<Rightarrow> tree \<Rightarrow> err + tree \<times> agreement" where
  "publish_disposition ws assignment session turn outcome stamp t =
     bindE (check_identity session) (\<lambda>s.
     bindE (check_identity turn) (\<lambda>u.
       if outcome \<notin> set DISPOSITION_OUTCOMES then Inl (registration OUTCOME_INCONSISTENT)
       else bindE (directory_of ws assignment) (\<lambda>d.
         publish_or_compare (d @ [''dispositions'', s, u @ ''.json''])
           [(''sessionId'', JStr s), (''turnId'', JStr u), (''outcome'', JStr outcome), (''at'', JStr stamp)]
           [''sessionId'', ''turnId'', ''outcome''] t)))"

end
