(* ===== verification/Guard.thy ===== *)
theory Guard
  imports Intent Currency Manifest
begin

text \<open>
  \<^verbatim>\<open>guard.py\<close>: whether a turn of a managed child may end. One evaluation reads the marker tree and,
  when readiness was declared, the relay database; it decides within the hold bounds, claims the turn's
  hold by a create-once file and records what it saw. The evaluation is split the way it interleaves
  with others: what it reads and decides from (\<open>gather\<close>, \<open>weigh\<close>), and what it writes (\<open>settle_stop\<close>). Prose
  is not kept. \<open>ge_access\<close> tells which problems of a verification were failures to read.
\<close>

section \<open>Constants\<close>

definition MAX_HOLDS_PER_TURN :: int where "MAX_HOLDS_PER_TURN = 1"
definition MAX_HOLDS_PER_GENERATION :: int where "MAX_HOLDS_PER_GENERATION = 2"
definition MAX_HOLDS_PER_SESSION_WINDOW :: int where "MAX_HOLDS_PER_SESSION_WINDOW = 3"
definition SESSION_WINDOW_MINUTES :: rat where "SESSION_WINDOW_MINUTES = 60"

definition HOLD_FILE :: string where "HOLD_FILE = ''hold.json''"

datatype guard_decision = BLOCK | RELEASE
datatype guard_mode = OBSERVE | HOLD

datatype guard_state =
    STATE_UNREADABLE | MARKER_MALFORMED | UNMANAGED | DISPATCH_UNCORRELATED | CORRELATED_UNBOUND
  | BOUND_IDENTITY_UNNAMED | MARKER_CLAIMED_BY_OTHER_SESSION | DECLARED string | DECLARED_READY_RECEIPTED
  | MARKER_UNCLAIMED | MANAGED_UNREGISTERED | RECEIPT_MISSING | UNDECLARED_TURN_END
  | UNRESOLVED_HANDOFF | HOLD_IN_FLIGHT | GUARD_FAULTED

definition guard_state_str :: "guard_state \<Rightarrow> string" where
  "guard_state_str s = (case s of
     STATE_UNREADABLE \<Rightarrow> ''state_unreadable'' | MARKER_MALFORMED \<Rightarrow> ''marker_malformed''
   | UNMANAGED \<Rightarrow> ''unmanaged'' | DISPATCH_UNCORRELATED \<Rightarrow> ''dispatch_uncorrelated''
   | CORRELATED_UNBOUND \<Rightarrow> ''correlated_unbound'' | BOUND_IDENTITY_UNNAMED \<Rightarrow> ''bound_identity_unnamed''
   | MARKER_CLAIMED_BY_OTHER_SESSION \<Rightarrow> ''marker_claimed_by_other_session''
   | DECLARED outcome \<Rightarrow> ''declared_'' @ outcome | DECLARED_READY_RECEIPTED \<Rightarrow> ''declared_ready_receipted''
   | MARKER_UNCLAIMED \<Rightarrow> ''marker_unclaimed'' | MANAGED_UNREGISTERED \<Rightarrow> ''managed_unregistered''
   | RECEIPT_MISSING \<Rightarrow> ''receipt_missing'' | UNDECLARED_TURN_END \<Rightarrow> ''undeclared_turn_end''
   | UNRESOLVED_HANDOFF \<Rightarrow> ''unresolved_handoff'' | HOLD_IN_FLIGHT \<Rightarrow> ''hold_in_flight''
   | GUARD_FAULTED \<Rightarrow> ''guard_faulted'')"

definition OMISSIONS :: "guard_state list" where
  "OMISSIONS = [MANAGED_UNREGISTERED, RECEIPT_MISSING, UNDECLARED_TURN_END]"

definition mode_str :: "guard_mode \<Rightarrow> string" where
  "mode_str m = (case m of OBSERVE \<Rightarrow> ''observe'' | HOLD \<Rightarrow> ''hold'')"

record guard_env =
  ge_instant :: "string \<Rightarrow> rat option"
  ge_resolve :: "string \<Rightarrow> string"
  ge_stores :: "string \<Rightarrow> db option"
  ge_disk :: disk
  ge_access :: "problem \<Rightarrow> bool"

text \<open>What the host delivers at the end of a turn.\<close>

record stop_input =
  sp_cwd :: json
  sp_session :: json
  sp_turn :: json
  sp_active :: json

section \<open>The deliverable of a receipt\<close>

datatype deliverable_verdict = DELIVERABLE_CURRENT string | DELIVERABLE_CHANGED | DELIVERABLE_UNVERIFIABLE

definition stored_entry :: "json \<Rightarrow> err + Entry" where
  "stored_entry r =
     bindE (py_item r ''path'') (\<lambda>path. bindE (py_item r ''sha256'') (\<lambda>sha.
       case path of
         JStr p \<Rightarrow>
           (case jget r ''bytes'' of
              JNull \<Rightarrow> Inr \<lparr>en_path = p, en_sha256 = sha, en_bytes = None\<rparr>
            | JInt n \<Rightarrow> Inr \<lparr>en_path = p, en_sha256 = sha, en_bytes = Some n\<rparr>
            | _ \<Rightarrow> Inl TypeError)
       | _ \<Rightarrow> Inl AttributeError))"

fun stored_entries :: "json list \<Rightarrow> err + Entry list" where
  "stored_entries [] = Inr []"
| "stored_entries (r # rs) = bindE (stored_entry r) (\<lambda>e. bindE (stored_entries rs) (\<lambda>es. Inr (e # es)))"

definition unreachable_of :: "(problem \<Rightarrow> bool) \<Rightarrow> problem list \<Rightarrow> problem list" where
  "unreachable_of access ps =
     filter (\<lambda>p. (case p of ReadRefused _ \<Rightarrow> True | NoFrozenManifest \<Rightarrow> True | FrozenUnreadable _ \<Rightarrow> True | _ \<Rightarrow> False)
       \<and> access p) ps"

definition verified_entries :: "guard_env \<Rightarrow> Entry list \<Rightarrow> string option \<Rightarrow> string list \<Rightarrow> err + deliverable_verdict" where
  "verified_entries env entries manifest_ref roots =
     bindE (verify_against_disk (ge_disk env) entries roots False) (\<lambda>(problems, _).
       if problems = [] then Inr (DELIVERABLE_CURRENT ''live'')
       else
         let settled = (if unreachable_of (ge_access env) problems \<noteq> [] then DELIVERABLE_UNVERIFIABLE
                        else DELIVERABLE_CHANGED)
         in if \<not> truthy_text manifest_ref then Inr settled
            else case manifest_ref of
              None \<Rightarrow> Inr settled
            | Some reference \<Rightarrow>
                bindE (verify_frozen (ge_disk env) reference entries) (\<lambda>(_, frozen).
                  if frozen = [] then Inr (DELIVERABLE_CURRENT ''frozen'')
                  else if unreachable_of (ge_access env) frozen \<noteq> [] then Inr DELIVERABLE_UNVERIFIABLE
                  else Inr settled))"

definition judged_deliverable :: "guard_env \<Rightarrow> json \<Rightarrow> string option \<Rightarrow> string list \<Rightarrow> err + deliverable_verdict" where
  "judged_deliverable env payload manifest_ref roots =
     (case jget payload ''manifest'' of
        JList (r # rs) \<Rightarrow>
          bindE (stored_entries (r # rs)) (\<lambda>entries.
          bindE (revision_hash entries) (\<lambda>recomputed.
            if \<not> jtruthy (jget payload ''revisionHash'') then Inr DELIVERABLE_CHANGED
            else if jget payload ''revisionHash'' \<noteq> JStr recomputed then Inr DELIVERABLE_CHANGED
            else verified_entries env entries manifest_ref roots))
      | _ \<Rightarrow> Inr DELIVERABLE_CHANGED)"

text \<open>A read that could not happen is never a revision that changed; a record of the wrong shape is.\<close>

definition deliverable_state :: "guard_env \<Rightarrow> json \<Rightarrow> string option \<Rightarrow> string list \<Rightarrow> err + deliverable_verdict" where
  "deliverable_state env payload manifest_ref roots =
     (case judged_deliverable env payload manifest_ref roots of
        Inr v \<Rightarrow> Inr v
      | Inl e \<Rightarrow>
          (case e of
             HostError \<Rightarrow> Inr DELIVERABLE_UNVERIFIABLE
           | RelayError ScopeError _ \<Rightarrow> Inr DELIVERABLE_UNVERIFIABLE
           | ValueError \<Rightarrow> Inr DELIVERABLE_CHANGED | KeyError \<Rightarrow> Inr DELIVERABLE_CHANGED
           | TypeError \<Rightarrow> Inr DELIVERABLE_CHANGED | AttributeError \<Rightarrow> Inr DELIVERABLE_CHANGED
           | _ \<Rightarrow> Inl e))"

section \<open>The receipt of a turn\<close>

record found_receipt =
  fr_relationship :: json
  fr_session :: json
  fr_turn :: json
  fr_at_head :: bool
  fr_evidence :: string
  fr_event :: "string option"
  fr_binding :: "string option"

definition head_evidence_str :: "head_evidence \<Rightarrow> string" where
  "head_evidence_str v = (case v of SOLE \<Rightarrow> ''sole_revision'' | CHAIN \<Rightarrow> ''declared_chain''
     | NO_REVISION \<Rightarrow> ''no_revision'' | FORK \<Rightarrow> ''fork'' | CYCLE \<Rightarrow> ''cycle''
     | UNKNOWN_PREDECESSOR \<Rightarrow> ''unknown_predecessor'' | DISCONNECTED \<Rightarrow> ''disconnected'')"

text \<open>The row that stands at the head, or why there is none.\<close>

definition head_event :: "db \<Rightarrow> string \<Rightarrow> json \<Rightarrow> json \<Rightarrow> err + string + relationship_row \<times> event_row" where
  "head_event db rid session turn =
     (case relationship_of db rid of
        None \<Rightarrow> Inr (Inl ''relationship_absent'')
      | Some r \<Rightarrow>
          if r_status r \<noteq> ''active'' \<or> truthy_text (r_superseded_by r)
          then Inr (Inl ''relationship_not_active'')
          else bindE (head_revision db rid (r_generation r)) (\<lambda>head. Inr
            (if h_evidence head \<in> set AMBIGUOUS then Inl (''head_'' @ head_evidence_str (h_evidence head))
             else if \<not> truthy_text (h_event head) then Inl ''no_reviewable_revision''
             else case event_of db (the (h_event head)) of
                    None \<Rightarrow> Inl ''no_reviewable_revision''
                  | Some row \<Rightarrow>
                      if e_producer row \<noteq> ''child'' \<or> e_stage row \<notin> {STAGED, FINAL}
                      then Inl ''head_is_not_a_child_receipt''
                      else if \<not> (same_identity (JStr (e_thread row)) session
                               \<and> same_identity (JStr (e_turn row)) turn)
                      then Inl ''head_belongs_to_another_turn''
                      else Inr (r, row))))"

text \<open>The receipt, and whether we could look.\<close>

definition lookup_receipt ::
    "guard_env \<Rightarrow> string option \<Rightarrow> json \<Rightarrow> json \<Rightarrow> json \<Rightarrow> err + found_receipt option \<times> bool" where
  "lookup_receipt env db_path rid session turn =
     (let base = \<lparr>fr_relationship = rid, fr_session = session, fr_turn = turn, fr_at_head = False,
            fr_evidence = [], fr_event = None, fr_binding = None\<rparr>
      in case rid of
           JStr relationship \<Rightarrow>
             if \<not> (named rid \<and> named session \<and> named turn) then Inr (None, True)
             else if \<not> truthy_text db_path then Inr (None, False)
             else (case ge_stores env (the db_path) of
               None \<Rightarrow> Inr (None, False)
             | Some db \<Rightarrow>
                 bindE (head_event db relationship session turn) (\<lambda>found.
                   case found of
                     Inl why \<Rightarrow> Inr (Some (base\<lparr>fr_evidence := why\<rparr>), True)
                   | Inr (r, row) \<Rightarrow>
                       bindE (deliverable_state env (e_receipt row) (e_manifest_ref row) (r_artifact_roots r))
                         (\<lambda>state. Inr (case state of
                            DELIVERABLE_UNVERIFIABLE \<Rightarrow>
                              (Some (base\<lparr>fr_evidence := ''deliverable_unverifiable''\<rparr>), False)
                          | DELIVERABLE_CHANGED \<Rightarrow>
                              (Some (base\<lparr>fr_evidence := ''artifacts_changed_since_receipt'',
                                       fr_event := Some (e_id row)\<rparr>), True)
                          | DELIVERABLE_CURRENT binding \<Rightarrow>
                              (Some (base\<lparr>fr_at_head := True, fr_evidence := ''at_head'',
                                       fr_event := Some (e_id row), fr_binding := Some binding\<rparr>), True)))))
         | _ \<Rightarrow> Inr (None, True))"

definition receipt_matches :: "found_receipt option \<Rightarrow> stop_input \<Rightarrow> json \<Rightarrow> bool" where
  "receipt_matches receipt stop marker =
     (case receipt of
        None \<Rightarrow> False
      | Some r \<Rightarrow> fr_at_head r \<and> same_identity (fr_session r) (sp_session stop)
          \<and> same_identity (fr_turn r) (sp_turn stop)
          \<and> same_identity (fr_relationship r) (jget (jget marker ''relationship'') ''relationshipId''))"

section \<open>The hold budget\<close>

text \<open>Every hold is a file: the session and the turn of its path, and when it was made.\<close>

datatype held = Held "(string \<times> string \<times> json) list" | HeldCorrupt | HeldUnreadable

fun held_concat :: "held list \<Rightarrow> held" where
  "held_concat [] = Held []"
| "held_concat (Held xs # hs) = (case held_concat hs of Held ys \<Rightarrow> Held (xs @ ys) | h \<Rightarrow> h)"
| "held_concat (h # hs) = h"

definition held_in_turn :: "tree \<Rightarrow> fpath \<Rightarrow> string \<Rightarrow> string \<Rightarrow> held" where
  "held_in_turn t base s u =
     (case listing t (base @ [s, u]) (\<lambda>n. n = HOLD_FILE) of
        None \<Rightarrow> HeldUnreadable
      | Some [] \<Rightarrow> Held []
      | Some _ \<Rightarrow>
          (case read_fact t (base @ [s, u, HOLD_FILE]) of
             PRESENT v \<Rightarrow> if is_obj v then Held [(s, u, jget v ''at'')] else HeldCorrupt
           | _ \<Rightarrow> HeldCorrupt))"

definition held_in_session :: "tree \<Rightarrow> fpath \<Rightarrow> string \<Rightarrow> held" where
  "held_in_session t base s =
     (case directories t (base @ [s]) of
        None \<Rightarrow> HeldUnreadable | Some turns \<Rightarrow> held_concat (map (held_in_turn t base s) turns))"

text \<open>A session narrows the walk before anything is parsed.\<close>

definition held_records :: "tree \<Rightarrow> fpath \<Rightarrow> json \<Rightarrow> held" where
  "held_records t base session =
     (case directories t base of
        None \<Rightarrow> HeldUnreadable
      | Some sessions \<Rightarrow> held_concat (map (held_in_session t base)
          (filter (\<lambda>s. session = JNull \<or> session = JStr s) sessions)))"

record hold_counts =
  hc_turn :: int
  hc_generation :: int
  hc_window :: int

datatype count_problem = NO_PROBLEM | COUNT_CORRUPT | COUNT_UNREADABLE string

definition in_window :: "(string \<Rightarrow> rat option) \<Rightarrow> json \<Rightarrow> json \<Rightarrow> bool" where
  "in_window instant now stamp =
     (case (moment instant now, moment instant stamp) of
        (Some horizon, Some made) \<Rightarrow> horizon - SESSION_WINDOW_MINUTES * 60 < made
      | _ \<Rightarrow> True)"

fun window_holds ::
    "(string \<Rightarrow> rat option) \<Rightarrow> tree \<Rightarrow> json \<Rightarrow> json \<Rightarrow> int \<Rightarrow> fpath list \<Rightarrow> int \<times> count_problem" where
  "window_holds instant t session now n [] = (n, NO_PROBLEM)"
| "window_holds instant t session now n (d # ds) =
     (case held_records t (d @ [''hook'']) session of
        HeldUnreadable \<Rightarrow> (n, COUNT_UNREADABLE ''hook'')
      | HeldCorrupt \<Rightarrow> (n, COUNT_CORRUPT)
      | Held hs \<Rightarrow>
          window_holds instant t session now
            (n + int (length (filter (\<lambda>(_, _, stamp). in_window instant now stamp) hs))) ds)"

definition hold_counters ::
    "(string \<Rightarrow> rat option) \<Rightarrow> tree \<Rightarrow> fpath \<Rightarrow> json \<Rightarrow> json \<Rightarrow> json \<Rightarrow> fpath option \<Rightarrow> hold_counts \<times> count_problem" where
  "hold_counters instant t d session turn now workspace =
     (case held_records t (d @ [''hook'']) JNull of
        HeldUnreadable \<Rightarrow> (\<lparr>hc_turn = 0, hc_generation = 0, hc_window = 0\<rparr>, COUNT_UNREADABLE ''hook'')
      | HeldCorrupt \<Rightarrow> (\<lparr>hc_turn = 0, hc_generation = 0, hc_window = 0\<rparr>, COUNT_CORRUPT)
      | Held hs \<Rightarrow>
          let counts = \<lparr>hc_turn = int (length (filter (\<lambda>(s, u, _). same_identity (JStr s) session
                  \<and> same_identity (JStr u) turn) hs)),
                hc_generation = int (length hs), hc_window = 0\<rparr>
          in (case (case workspace of None \<Rightarrow> Some [d]
                    | Some ws \<Rightarrow> map_option (map (\<lambda>n. ws @ [n])) (directories t ws)) of
                None \<Rightarrow> (counts, COUNT_UNREADABLE ''workspace'')
              | Some ds \<Rightarrow>
                  (case window_holds instant t session now 0 ds of
                     (n, problem) \<Rightarrow> (counts\<lparr>hc_window := n\<rparr>, problem))))"

definition hold_path :: "fpath \<Rightarrow> string \<Rightarrow> string \<Rightarrow> fpath" where
  "hold_path d s u = d @ [''hook'', s, u, HOLD_FILE]"

text \<open>Two evaluations of one turn race for one file.\<close>

definition reserve_hold :: "fpath \<Rightarrow> json \<Rightarrow> json \<Rightarrow> json \<Rightarrow> guard_mode \<Rightarrow> tree \<Rightarrow> err + tree \<times> bool" where
  "reserve_hold d session turn stamp mode t =
     (case (session, turn) of
        (JStr s, JStr u) \<Rightarrow>
          if \<not> (valid_segment session \<and> valid_segment turn) then Inr (t, False)
          else bindE (publish (hold_path d s u)
              (JObj [(''sessionId'', session), (''turnId'', turn), (''at'', stamp), (''mode'', JStr (mode_str mode))]) t)
            (\<lambda>(t', out). Inr (t', out = PUBLISHED))
      | _ \<Rightarrow> Inr (t, False))"

definition release_hold :: "fpath \<Rightarrow> json \<Rightarrow> json \<Rightarrow> tree \<Rightarrow> tree" where
  "release_hold d session turn t =
     (case (session, turn) of
        (JStr s, JStr u) \<Rightarrow>
          if valid_segment session \<and> valid_segment turn \<and> hold_path d s u \<notin> set (tr_sealed t)
          then t\<lparr>tr_files := filter (\<lambda>f. fst f \<noteq> hold_path d s u) (tr_files t)\<rparr>
          else t
      | _ \<Rightarrow> t)"

definition record_observation :: "fpath \<Rightarrow> json \<Rightarrow> tree \<Rightarrow> err + tree \<times> string option" where
  "record_observation d v t =
     (case (jget v ''sessionId'', jget v ''turnId'') of
        (JStr s, JStr u) \<Rightarrow>
          if \<not> (valid_segment (JStr s) \<and> valid_segment (JStr u)) then Inr (t, None)
          else bindE (publish_slot 64 HostError (d @ [''hook'', s, u]) v t) (\<lambda>(t', i).
            Inr (t', Some (''hook/'' @ s @ ''/'' @ u @ ''/'' @ int_str i)))
      | _ \<Rightarrow> Inr (t, None))"

section \<open>Classification\<close>

record observation =
  ob_stop :: stop_input
  ob_marker :: json
  ob_disposition :: json
  ob_receipt :: "found_receipt option"
  ob_unreadable :: "string list"
  ob_malformed :: "string option"
  ob_now :: json

definition declared_outcome :: "json \<Rightarrow> json \<Rightarrow> json \<Rightarrow> json" where
  "declared_outcome disposition session turn =
     (if is_obj disposition \<and> same_identity (jget disposition ''turnId'') turn
         \<and> same_identity (jget disposition ''sessionId'') session
      then jget disposition ''outcome'' else JNull)"

definition classify_declaration :: "observation \<Rightarrow> guard_state" where
  "classify_declaration ob =
     (let outcome = declared_outcome (ob_disposition ob) (sp_session (ob_stop ob)) (sp_turn (ob_stop ob))
      in case outcome of
           JStr o' \<Rightarrow>
             if o' \<in> set RELEASING_OUTCOMES then DECLARED o'
             else if o' = ''ready_for_review''
             then (if receipt_matches (ob_receipt ob) (ob_stop ob) (ob_marker ob)
                   then DECLARED_READY_RECEIPTED else RECEIPT_MISSING)
             else UNDECLARED_TURN_END
         | _ \<Rightarrow> UNDECLARED_TURN_END)"

definition claimed_by :: "json \<Rightarrow> json \<Rightarrow> bool" where
  "claimed_by marker session =
     list_ex (\<lambda>c. same_identity (jopt (claimant c)) session) (jlist (jget marker ''claims''))"

definition marker_problem :: "observation \<Rightarrow> string option" where
  "marker_problem ob =
     (if truthy_text (ob_malformed ob) then ob_malformed ob
      else malformed_marker (jor (ob_marker ob) (JObj [])))"

definition observe_state :: "observation \<Rightarrow> guard_state" where
  "observe_state ob =
     (let marker = ob_marker ob; session = sp_session (ob_stop ob); bound = jget marker ''bound''
      in if ob_unreadable ob \<noteq> [] then STATE_UNREADABLE
         else if (marker \<noteq> JNull \<or> truthy_text (ob_malformed ob)) \<and> marker_problem ob \<noteq> None
         then MARKER_MALFORMED
         else if \<not> jtruthy marker then UNMANAGED
         else if \<not> jtruthy bound
         then (if correlated marker session then CORRELATED_UNBOUND else DISPATCH_UNCORRELATED)
         else if \<not> named (jget bound ''sessionId'') then BOUND_IDENTITY_UNNAMED
         else if \<not> same_identity (jget bound ''sessionId'') session then MARKER_CLAIMED_BY_OTHER_SESSION
         else case classify_declaration ob of
                DECLARED o' \<Rightarrow> DECLARED o'
              | DECLARED_READY_RECEIPTED \<Rightarrow> DECLARED_READY_RECEIPTED
              | declaration \<Rightarrow>
                  if \<not> claimed_by marker session then MARKER_UNCLAIMED
                  else if \<not> named (jget (jget marker ''relationship'') ''relationshipId'') then MANAGED_UNREGISTERED
                  else if declaration = RECEIPT_MISSING then RECEIPT_MISSING
                  else UNDECLARED_TURN_END)"

section \<open>The decision\<close>

definition malformed_counters :: "json \<Rightarrow> bool" where
  "malformed_counters counters =
     (case counters of
        JNull \<Rightarrow> False
      | JObj kvs \<Rightarrow> list_ex (\<lambda>kv. case snd kv of JInt n \<Rightarrow> n < 0 | _ \<Rightarrow> True) kvs
      | _ \<Rightarrow> True)"

definition counter_of :: "json \<Rightarrow> string \<Rightarrow> int" where
  "counter_of counters k = (case jget counters k of JInt n \<Rightarrow> n | _ \<Rightarrow> 0)"

record verdict =
  vd_decision :: guard_decision
  vd_state :: guard_state
  vd_observation :: guard_state
  vd_record :: json
  vd_receipt_evidence :: "string option"
  vd_assignment :: "string option"
  vd_counters :: json
  vd_recorded :: "string option"
  vd_fault :: "err option"
  vd_downgraded :: bool

definition readable_marker :: "observation \<Rightarrow> json" where
  "readable_marker ob =
     (if ob_unreadable ob \<noteq> [] \<or> truthy_text (ob_malformed ob)
         \<or> (jtruthy (ob_marker ob) \<and> malformed_marker (ob_marker ob) \<noteq> None)
      then JObj [] else jor (ob_marker ob) (JObj []))"

definition evidence_label :: "observation \<Rightarrow> string option" where
  "evidence_label ob = (case ob_receipt ob of None \<Rightarrow> None
     | Some r \<Rightarrow> if fr_evidence r = [] then None else Some (fr_evidence r))"

definition observation_record ::
    "(string \<Rightarrow> rat option) \<Rightarrow> observation \<Rightarrow> guard_mode \<Rightarrow> guard_decision \<Rightarrow> guard_state \<Rightarrow> guard_state \<Rightarrow> json" where
  "observation_record instant ob mode decision state final =
     (let marker = readable_marker ob
      in JObj ([(''observation'', JStr (guard_state_str state)), (''turnId'', sp_turn (ob_stop ob)),
          (''sessionId'', sp_session (ob_stop ob)), (''decisionState'', JStr (guard_state_str final)),
          (''held'', JBool (decision = BLOCK)), (''mode'', JStr (mode_str mode)), (''at'', ob_now ob)]
        @ (if state = CORRELATED_UNBOUND
           then [(''pendingObservation'', JStr (guard_state_str (classify_declaration ob)))] else [])
        @ (if jtruthy marker
           then [(''assignmentState'', JStr (assignment_state_str (derive_assignment_state instant marker (ob_now ob)))),
                 (''identityContested'', JBool (identity_contested marker))] else [])
        @ (case evidence_label ob of None \<Rightarrow> [] | Some e \<Rightarrow> [(''receiptEvidence'', JStr e)])))"

text \<open>Without hold mode a block becomes a release: recorded, never held.\<close>

definition stop_verdict ::
    "(string \<Rightarrow> rat option) \<Rightarrow> observation \<Rightarrow> guard_mode \<Rightarrow> guard_state \<Rightarrow> guard_decision \<Rightarrow> guard_state \<Rightarrow> verdict" where
  "stop_verdict instant ob mode state wanted final =
     (let decision = (if wanted = BLOCK \<and> mode \<noteq> HOLD then RELEASE else wanted)
      in \<lparr>vd_decision = decision, vd_state = final, vd_observation = state,
          vd_record = observation_record instant ob mode decision state final,
          vd_receipt_evidence = evidence_label ob, vd_assignment = None, vd_counters = JObj [],
          vd_recorded = None, vd_fault = None, vd_downgraded = False\<rparr>)"

definition decide :: "(string \<Rightarrow> rat option) \<Rightarrow> observation \<Rightarrow> json \<Rightarrow> guard_mode \<Rightarrow> verdict" where
  "decide instant ob counters mode =
     (let seen = observe_state ob;
          state = (if seen \<in> set OMISSIONS \<and> malformed_counters counters then MARKER_MALFORMED else seen);
          out = stop_verdict instant ob mode state
      in if state \<notin> set OMISSIONS then out RELEASE state
         else if MAX_HOLDS_PER_GENERATION \<le> counter_of counters ''holdsThisGeneration''
              \<or> MAX_HOLDS_PER_SESSION_WINDOW \<le> counter_of counters ''holdsThisSessionWindow''
         then out RELEASE UNRESOLVED_HANDOFF
         else if MAX_HOLDS_PER_TURN \<le> counter_of counters ''holdsThisTurn'' then out RELEASE HOLD_IN_FLIGHT
         else if jtruthy (sp_active (ob_stop ob)) then out RELEASE HOLD_IN_FLIGHT
         else out BLOCK state)"

section \<open>One evaluation\<close>

text \<open>The receipt is read only when readiness was declared on a well-shaped marker.\<close>

definition gather_receipt ::
    "guard_env \<Rightarrow> stop_input \<Rightarrow> json \<Rightarrow> json \<Rightarrow> string option \<Rightarrow> string option \<Rightarrow> string option
     \<Rightarrow> err + found_receipt option \<times> string list" where
  "gather_receipt env stop marker disposition malformed db_path default_path =
     (let registered = jget marker ''relationship'';
          recorded = (case jget (jget marker ''intent'') ''dbPath'' of JStr p \<Rightarrow> Some p | _ \<Rightarrow> None);
          path = (if truthy_text db_path then db_path else if truthy_text recorded then recorded else default_path)
      in if malformed = None
            \<and> declared_outcome disposition (sp_session stop) (sp_turn stop) = JStr ''ready_for_review''
            \<and> is_obj registered \<and> malformed_marker marker = None
         then bindE (lookup_receipt env path (jget registered ''relationshipId'') (sp_session stop) (sp_turn stop))
           (\<lambda>(receipt, readable). Inr (receipt,
              if readable then []
              else [case receipt of
                      Some r \<Rightarrow> if fr_evidence r = ''deliverable_unverifiable''
                               then ''the receipt artifacts'' else ''receipts''
                    | None \<Rightarrow> ''receipts'']))
         else Inr (None, []))"

text \<open>The directory selected for a Stop, its facts, and what could not be read.\<close>

definition select_stop ::
    "guard_env \<Rightarrow> tree \<Rightarrow> stop_input \<Rightarrow> err + (fpath \<times> json) option \<times> string list" where
  "select_stop env t stop =
     (if \<not> jtruthy (sp_cwd stop) then Inr (None, [])
      else case sp_cwd stop of
        JStr workspace \<Rightarrow> Inr (select_assignment (ge_instant env) t
            [workspace_key (ge_resolve env) workspace] (sp_session stop))
      | _ \<Rightarrow> Inl TypeError)"

definition gather ::
    "guard_env \<Rightarrow> tree \<Rightarrow> stop_input \<Rightarrow> json \<Rightarrow> string option \<Rightarrow> string option
     \<Rightarrow> (fpath \<times> json) option \<Rightarrow> string list \<Rightarrow> err + observation" where
  "gather env t stop now db_path default_path selected unreadable =
     (case selected of
        None \<Rightarrow> Inr \<lparr>ob_stop = stop, ob_marker = JNull, ob_disposition = JNull, ob_receipt = None,
                  ob_unreadable = unreadable, ob_malformed = None, ob_now = now\<rparr>
      | Some (d, marker) \<Rightarrow>
          (case read_disposition t d (sp_session stop) (sp_turn stop) of
             (disposition, readable) \<Rightarrow>
               let malformed = (if \<not> (valid_segment (sp_session stop) \<and> valid_segment (sp_turn stop))
                                then Some ''stop_identity'' else malformed_disposition disposition)
               in bindE (gather_receipt env stop marker disposition malformed db_path default_path)
                 (\<lambda>(receipt, missing). Inr
                   \<lparr>ob_stop = stop, ob_marker = marker, ob_disposition = disposition, ob_receipt = receipt,
                    ob_unreadable = unreadable @ (if readable then [] else [''disposition'']) @ missing,
                    ob_malformed = malformed, ob_now = now\<rparr>)))"

definition counters_json :: "hold_counts \<Rightarrow> json" where
  "counters_json c = JObj [(''holdsThisTurn'', JInt (hc_turn c)),
     (''holdsThisGeneration'', JInt (hc_generation c)), (''holdsThisSessionWindow'', JInt (hc_window c))]"

text \<open>The budget is read only for an omission; an unreadable one is not an empty one.\<close>

definition weigh ::
    "guard_env \<Rightarrow> tree \<Rightarrow> fpath option \<Rightarrow> observation \<Rightarrow> guard_mode \<Rightarrow> observation \<times> json \<times> verdict" where
  "weigh env t directory ob mode =
     (let first = decide (ge_instant env) ob (JObj []) mode
      in case directory of
           None \<Rightarrow> (ob, JObj [], first)
         | Some d \<Rightarrow>
             if vd_observation first \<notin> set OMISSIONS then (ob, JObj [], first)
             else case hold_counters (ge_instant env) t d (sp_session (ob_stop ob)) (sp_turn (ob_stop ob))
                         (ob_now ob) (Some (butlast d)) of
                    (counts, problem) \<Rightarrow>
                      let ob' = (case problem of COUNT_UNREADABLE label \<Rightarrow>
                                   ob\<lparr>ob_unreadable := ob_unreadable ob @ [label]\<rparr> | _ \<Rightarrow> ob);
                          counters = (if problem = COUNT_CORRUPT then JObj [(''holdsThisTurn'', JNull)]
                                      else counters_json counts)
                      in (ob', counters, decide (ge_instant env) ob' counters mode))"

definition spent :: "json \<Rightarrow> json" where
  "spent counters = (case counters of
     JObj kvs \<Rightarrow> JObj (AList.update ''holdsThisTurn'' (JInt MAX_HOLDS_PER_TURN) kvs) | v \<Rightarrow> v)"

text \<open>
  What an evaluation writes. It claims the hold it decided on and decides again when it lost it; then
  it records its observation, and a failed recording gives the hold back and fails the evaluation.
\<close>

definition claim_hold ::
    "guard_env \<Rightarrow> fpath \<Rightarrow> guard_mode \<Rightarrow> observation \<Rightarrow> json \<Rightarrow> verdict \<Rightarrow> tree \<Rightarrow> err + tree \<times> verdict" where
  "claim_hold env d mode ob counters v t =
     (if vd_decision v \<noteq> BLOCK then Inr (t, v)
      else bindE (reserve_hold d (sp_session (ob_stop ob)) (sp_turn (ob_stop ob)) (ob_now ob) mode t) (\<lambda>(t', won).
        Inr (t', if won then v else decide (ge_instant env) ob (spent counters) mode)))"

definition record_verdict ::
    "fpath \<Rightarrow> bool \<Rightarrow> observation \<Rightarrow> json \<Rightarrow> verdict \<Rightarrow> tree \<Rightarrow> tree \<times> (err + verdict)" where
  "record_verdict d recording ob counters v t =
     (let v' = v\<lparr>vd_assignment := Some (last d), vd_counters := counters\<rparr>
      in if \<not> recording then (t, Inr v')
         else (case record_observation d (vd_record v') t of
                 Inr (t', name) \<Rightarrow> (t', Inr (v'\<lparr>vd_recorded := name\<rparr>))
               | Inl e \<Rightarrow>
                   (if vd_decision v' = BLOCK
                    then release_hold d (sp_session (ob_stop ob)) (sp_turn (ob_stop ob)) t else t, Inl e)))"

definition settle_stop ::
    "guard_env \<Rightarrow> fpath option \<Rightarrow> bool \<Rightarrow> guard_mode \<Rightarrow> observation \<times> json \<times> verdict \<Rightarrow> tree
     \<Rightarrow> tree \<times> (err + verdict)" where
  "settle_stop env directory recording mode weighed t =
     (case (directory, weighed) of
        (None, (ob, counters, v)) \<Rightarrow> (t, Inr (v\<lparr>vd_counters := counters\<rparr>))
      | (Some d, (ob, counters, v)) \<Rightarrow>
          (case claim_hold env d mode ob counters v t of
             Inl e \<Rightarrow> (t, Inl e)
           | Inr (t', v') \<Rightarrow> record_verdict d recording ob counters v' t'))"

definition faulted :: "stop_input \<Rightarrow> json \<Rightarrow> guard_mode \<Rightarrow> err \<Rightarrow> verdict" where
  "faulted stop now mode e =
     \<lparr>vd_decision = RELEASE, vd_state = GUARD_FAULTED, vd_observation = GUARD_FAULTED,
      vd_record = JObj [(''observation'', JStr (guard_state_str GUARD_FAULTED)), (''turnId'', sp_turn stop),
        (''sessionId'', sp_session stop), (''decisionState'', JStr (guard_state_str GUARD_FAULTED)),
        (''held'', JBool False), (''mode'', JStr (mode_str mode)), (''at'', now)],
      vd_receipt_evidence = None, vd_assignment = None, vd_counters = JObj [], vd_recorded = None,
      vd_fault = Some e, vd_downgraded = False\<rparr>"

text \<open>Whatever escapes is a named release, recorded when there is somewhere to record it.\<close>

definition answer ::
    "stop_input \<Rightarrow> json \<Rightarrow> guard_mode \<Rightarrow> bool \<Rightarrow> fpath option \<Rightarrow> tree \<times> (err + verdict) \<Rightarrow> tree \<times> verdict" where
  "answer stop now mode recording directory result =
     (case result of
        (t, Inr v) \<Rightarrow> (t, v)
      | (t, Inl e) \<Rightarrow>
          let v = faulted stop now mode e
          in (case directory of
               Some d \<Rightarrow> if recording
                 then (case record_observation d (vd_record v) t of
                         Inr (t', name) \<Rightarrow> (t', v\<lparr>vd_recorded := name\<rparr>) | Inl _ \<Rightarrow> (t, v))
                 else (t, v)
             | None \<Rightarrow> (t, v)))"

definition evaluate_stop ::
    "guard_env \<Rightarrow> stop_input \<Rightarrow> json \<Rightarrow> guard_mode \<Rightarrow> string option \<Rightarrow> string option \<Rightarrow> bool \<Rightarrow> tree
     \<Rightarrow> tree \<times> verdict" where
  "evaluate_stop env stop now asked db_path default_path recording t =
     (let downgraded = (asked = HOLD \<and> \<not> recording);
          mode = (if downgraded then OBSERVE else asked)
      in case (case select_stop env t stop of
                 Inl e \<Rightarrow> answer stop now mode recording None (t, Inl e)
               | Inr (selected, unreadable) \<Rightarrow>
                   let directory = map_option fst selected
                   in answer stop now mode recording directory
                     (case gather env t stop now db_path default_path selected unreadable of
                        Inl e \<Rightarrow> (t, Inl e)
                      | Inr ob \<Rightarrow> settle_stop env directory recording mode (weigh env t directory ob mode) t)) of
           (t', v) \<Rightarrow> (t', v\<lparr>vd_downgraded := downgraded\<rparr>))"

end
