(* ===== verification/Marker_Safety.thy ===== *)
theory Marker_Safety
  imports Marker
begin

text \<open>
  What create-once publication promises: the first writer of a path wins, later ones are told so, and
  a fact that was readable keeps its value whatever is published afterwards. The contract is stated
  as the locale \<open>create_once\<close> and discharged for the marker tree; \<open>published\<close> is any number of
  publications by anybody.
\<close>

section \<open>The contract\<close>

locale create_once =
  fixes ok :: "'s \<Rightarrow> bool"
    and lookup :: "'s \<Rightarrow> 'k \<Rightarrow> 'c option"
    and stored :: "'v \<Rightarrow> 'c"
    and put :: "'k \<Rightarrow> 'v \<Rightarrow> 's \<Rightarrow> 'e + 's \<times> 'o"
    and won :: 'o
  assumes put_ok: "ok s \<Longrightarrow> put k v s = Inr (s', out) \<Longrightarrow> ok s'"
    and put_won: "ok s \<Longrightarrow> put k v s = Inr (s', won) \<Longrightarrow>
      lookup s k = None \<and> lookup s' = (lookup s)(k \<mapsto> stored v)"
    and put_lost: "ok s \<Longrightarrow> put k v s = Inr (s', out) \<Longrightarrow> out \<noteq> won \<Longrightarrow> s' = s"
begin

lemma put_keeps:
  assumes "ok s" "put k v s = Inr (s', out)" "lookup s j = Some c"
  shows "lookup s' j = Some c"
proof (cases "out = won")
  case True
  then have "lookup s k = None" "lookup s' = (lookup s)(k \<mapsto> stored v)"
    using put_won [of s k v s'] assms(1,2) by auto
  then show ?thesis using assms(3) by (cases "j = k") auto
next
  case False
  then show ?thesis using put_lost assms by metis
qed

lemma first_writer_wins:
  assumes "ok s" "put k v s = Inr (s1, won)" "put k w s1 = Inr (s2, out)"
  shows "out \<noteq> won" and "lookup s2 k = Some (stored v)"
proof -
  have s1: "ok s1" "lookup s1 k = Some (stored v)"
    using put_ok assms(1,2) put_won [OF assms(1,2)] by auto
  show "out \<noteq> won"
  proof
    assume "out = won"
    with assms(3) have "put k w s1 = Inr (s2, won)" by simp
    from put_won [OF s1(1) this] s1(2) show False by simp
  qed
  show "lookup s2 k = Some (stored v)"
    by (rule put_keeps [OF s1(1) assms(3) s1(2)])
qed

end

section \<open>Well-formed trees\<close>

text \<open>No path twice, and no file where a directory is.\<close>

definition wf_tree :: "tree \<Rightarrow> bool" where
  "wf_tree t = (distinct (map fst (tr_files t))
     \<and> (\<forall>f\<in>set (tr_files t). \<forall>g\<in>set (tr_files t). \<not> below (fst f) (fst g)))"

lemma is_file_iff: "is_file t p = (p \<in> fst ` set (tr_files t))"
  by (auto simp: is_file_def map_of_eq_None_iff)

lemma is_dir_iff: "is_dir t d = (\<exists>p. is_file t p \<and> below d p)"
  by (auto simp: is_dir_def list_ex_iff is_file_iff)

lemma through_file_iff: "through_file t p = (\<exists>q. is_file t q \<and> below q p)"
  by (auto simp: through_file_def list_ex_iff is_file_iff)

lemma below_irrefl [simp]: "\<not> below p p"
  by (simp add: below_def)

lemma wf_tree_iff:
  "wf_tree t = (distinct (map fst (tr_files t)) \<and> (\<forall>p q. is_file t p \<longrightarrow> is_file t q \<longrightarrow> \<not> below p q))"
  by (auto simp: wf_tree_def is_file_iff)

lemma publish_cases:
  assumes "publish p v t = Inr (t', out)"
  obtains (won) "out = PUBLISHED" "t' = t\<lparr>tr_files := tr_files t @ [(p, Fact v)]\<rparr>"
      "\<not> is_file t p" "\<not> is_dir t p" "\<not> through_file t p" "p \<notin> set (tr_sealed t)"
    | (lost) "out = EXISTS" "t' = t" "is_file t p \<or> is_dir t p"
  using assms by (auto simp: publish_def split: if_splits)

lemma wf_publish:
  assumes "wf_tree t" "publish p v t = Inr (t', out)"
  shows "wf_tree t'"
  using assms(2)
proof (cases rule: publish_cases)
  case won
  have files: "is_file t' q = (is_file t q \<or> q = p)" for q
    using won(2) by (auto simp: is_file_iff)
  show ?thesis
    using assms(1) won(2,3,4,5) unfolding wf_tree_iff files
    by (auto simp: is_file_iff is_dir_iff through_file_iff)
qed (use assms in simp)

interpretation marker: create_once wf_tree "\<lambda>t. map_of (tr_files t)" Fact publish PUBLISHED
proof
  fix s s' k v
  assume "wf_tree s" "publish k v s = Inr (s', PUBLISHED)"
  then show "map_of (tr_files s) k = None \<and> map_of (tr_files s') = (map_of (tr_files s))(k \<mapsto> Fact v)"
    by (auto elim!: publish_cases simp: is_file_def map_add_def fun_eq_iff split: option.splits)
next
  fix s s' k v out
  assume "publish k v s = Inr (s', out)" "out \<noteq> PUBLISHED"
  then show "s' = s" by (auto elim: publish_cases)
qed (rule wf_publish)

section \<open>Any number of publications\<close>

inductive published :: "tree \<Rightarrow> tree \<Rightarrow> bool" where
  none: "published t t"
| more: "published t t1 \<Longrightarrow> publish p v t1 = Inr (t2, out) \<Longrightarrow> published t t2"

lemma published_one: "publish p v t = Inr (t', out) \<Longrightarrow> published t t'"
  by (rule more [OF none])

lemma published_trans:
  assumes "published t u" "published u w"
  shows "published t w"
  using assms(2,1) by (induction) (auto intro: more)

lemma published_wf: "published t t' \<Longrightarrow> wf_tree t \<Longrightarrow> wf_tree t'"
  by (induction rule: published.induct) (auto intro: wf_publish)

lemma published_parts:
  "published t t' \<Longrightarrow> tr_denied t' = tr_denied t \<and> tr_sealed t' = tr_sealed t
     \<and> (\<exists>fs. tr_files t' = tr_files t @ fs)"
  by (induction rule: published.induct) (auto elim!: publish_cases)

lemma published_file:
  "published t t' \<Longrightarrow> map_of (tr_files t) p = Some c \<Longrightarrow> map_of (tr_files t') p = Some c"
  using published_parts [of t t'] by (auto simp: map_of_append map_add_def split: option.splits)

lemma read_fact_present:
  assumes "wf_tree t"
  shows "read_fact t p = PRESENT v \<longleftrightarrow> p \<notin> set (tr_denied t) \<and> map_of (tr_files t) p = Some (Fact v)"
proof (cases "map_of (tr_files t) p")
  case None
  then show ?thesis by (simp add: read_fact_def)
next
  case (Some c)
  then have "is_file t p" by (simp add: is_file_def)
  with assms have "\<not> through_file t p" "\<not> is_dir t p"
    by (auto simp: wf_tree_iff is_dir_iff through_file_iff)
  with Some show ?thesis by (cases c) (auto simp: read_fact_def)
qed

lemma published_fact_stays:
  assumes "published t t'" "wf_tree t" "read_fact t p = PRESENT v"
  shows "read_fact t' p = PRESENT v"
  using assms published_wf [OF assms(1,2)] published_parts [OF assms(1)] published_file [OF assms(1)]
  by (simp add: read_fact_present)

section \<open>The facts of an assignment\<close>

definition single_fact :: "tree \<Rightarrow> fpath \<Rightarrow> string \<times> string \<Rightarrow> json option" where
  "single_fact t d kn = (case read_fact t (d @ [snd kn]) of PRESENT v \<Rightarrow> Some (identified v (fst kn)) | _ \<Rightarrow> None)"

definition numbered_facts :: "tree \<Rightarrow> fpath \<Rightarrow> string \<Rightarrow> json option" where
  "numbered_facts t d k = map_option (\<lambda>names. JList (fst (read_facts t
     (map (\<lambda>n. (d @ [k, n], k @ ''/'' @ stem n)) (filter (\<lambda>n. \<not> hidden n) names)))))
     (listing t (d @ [k]) is_json_name)"

definition claim_facts :: "tree \<Rightarrow> fpath \<Rightarrow> json option" where
  "claim_facts t d = map_option (\<lambda>ss. JList (fst (read_facts t
     (map (\<lambda>s. (d @ [''claims'', s, ''claim.json''], ''claims/'' @ s @ ''/claim.json'')) ss))))
     (directories t (d @ [''claims'']))"

lemma map_of_read_single:
  "map_of (fst (read_single t d kn)) k = (if k = fst kn then single_fact t d kn else None)"
  by (auto simp: read_single_def single_fact_def split: fact_read.splits)

lemma map_of_read_numbered:
  "map_of (fst (read_numbered t d j)) k = (if k = j then numbered_facts t d j else None)"
  by (auto simp: read_numbered_def numbered_facts_def split: option.splits prod.splits)

lemma map_of_read_claims:
  "map_of (fst (read_claims t d)) k = (if k = ''claims'' then claim_facts t d else None)"
  by (auto simp: read_claims_def claim_facts_def split: option.splits prod.splits)

definition opt_json :: "json option \<Rightarrow> json" where
  "opt_json v = (case v of None \<Rightarrow> JNull | Some w \<Rightarrow> w)"

lemma read_assignment_get:
  "jget (fst (read_assignment t d)) ''intent'' = opt_json (single_fact t d (''intent'', ''intent.json''))"
  "jget (fst (read_assignment t d)) ''bound'' = opt_json (single_fact t d (''bound'', ''bound.json''))"
  "jget (fst (read_assignment t d)) ''relationship''
     = opt_json (single_fact t d (''relationship'', ''relationship.json''))"
  "jget (fst (read_assignment t d)) ''attempts'' = opt_json (numbered_facts t d ''attempts'')"
  "jget (fst (read_assignment t d)) ''conflicts'' = opt_json (numbered_facts t d ''conflicts'')"
  "jget (fst (read_assignment t d)) ''resolutions'' = opt_json (numbered_facts t d ''resolutions'')"
  "jget (fst (read_assignment t d)) ''claims'' = opt_json (claim_facts t d)"
  by (auto simp: read_assignment_def SINGLE_FACTS_def NUMBERED_FACTS_def map_add_def opt_json_def
      map_of_read_single map_of_read_numbered map_of_read_claims split: option.splits)

lemma published_single_stays:
  assumes "published t t'" "wf_tree t" "single_fact t d kn = Some v"
  shows "single_fact t' d kn = Some v"
  using assms published_fact_stays [OF assms(1,2)]
  by (auto simp: single_fact_def split: fact_read.splits)

text \<open>A fact found by its file is in the list under the id it was walked to.\<close>

lemma read_facts_mem:
  assumes "(p, i) \<in> set ps" "read_fact t p = PRESENT v"
  shows "identified v i \<in> set (fst (read_facts t ps))"
  using assms by (induction t ps rule: read_facts.induct) (auto split: prod.splits fact_read.splits)

lemma entries_of_iff: "n \<in> set (entries_of t d) \<longleftrightarrow> (\<exists>p. is_file t p \<and> below d p \<and> p ! length d = n)"
  by (auto simp: entries_of_def is_file_iff)

lemma listing_some:
  "listing t d keep = Some ns \<Longrightarrow> n \<in> set ns \<longleftrightarrow> keep n \<and> (\<exists>p. is_file t p \<and> below d p \<and> p ! length d = n)"
  by (auto simp: listing_def entries_of_iff split: if_splits)

lemma listing_distinct: "listing t d keep = Some ns \<Longrightarrow> distinct ns"
  by (auto simp: listing_def entries_of_def split: if_splits)

lemma below_append [simp]: "below d (d @ q) = (q \<noteq> [])"
  by (auto simp: below_def)

lemma below_obtain:
  assumes "below d p"
  obtains n q where "p = d @ n # q"
proof -
  from assms have "p = d @ drop (length d) p" "drop (length d) p \<noteq> []"
    using append_take_drop_id [of "length d" p] by (auto simp: below_def)
  then show thesis using that by (cases "drop (length d) p") auto
qed

lemma listing_file:
  "listing t d keep = Some ns \<Longrightarrow> is_file t (d @ n # q) \<Longrightarrow> keep n \<Longrightarrow> n \<in> set ns"
  by (subst listing_some) (auto intro!: exI [of _ "d @ n # q"])

section \<open>What grows\<close>

lemma published_is_file: "published t t' \<Longrightarrow> is_file t p \<Longrightarrow> is_file t' p"
  using published_file by (fastforce simp: is_file_def)

lemma published_is_dir: "published t t' \<Longrightarrow> is_dir t p \<Longrightarrow> is_dir t' p"
  using published_is_file by (auto simp: is_dir_iff)

lemma below_trans: "below p q \<Longrightarrow> below q r \<Longrightarrow> below p r"
  by (auto elim!: below_obtain)

text \<open>A directory somebody published into stays listed, and keeps its entries.\<close>

lemma published_listing:
  assumes grow: "published t t'" "wf_tree t" and seen: "listing t d keep = Some ns" "n \<in> set ns"
    and still: "\<And>m. keep m \<Longrightarrow> keep' m"
  obtains ns' where "listing t' d keep' = Some ns'" "set ns \<subseteq> set ns'"
proof -
  obtain p where p: "is_file t p" "below d p"
    using seen by (auto simp: listing_some)
  have "wf_tree t'" "is_file t' p" using grow p(1) by (auto intro: published_wf published_is_file)
  then have "\<not> is_file t' q" if "below q p" for q using that by (auto simp: wf_tree_iff)
  then have "\<not> is_file t' d" "\<not> through_file t' d"
    using p(2) below_trans [of _ d p] by (auto simp: through_file_iff)
  moreover have "d \<notin> set (tr_denied t')"
    using seen(1) published_parts [OF grow(1)] by (auto simp: listing_def split: if_splits)
  ultimately obtain ns' where ns': "listing t' d keep' = Some ns'"
    by (auto simp: listing_def)
  moreover have "set ns \<subseteq> set ns'"
    using listing_some [OF seen(1)] listing_some [OF ns'] published_is_file [OF grow(1)] still by blast
  ultimately show thesis by (rule that)
qed

definition fact_at :: "tree \<Rightarrow> fpath \<times> string \<Rightarrow> json option" where
  "fact_at t x = (case read_fact t (fst x) of PRESENT v \<Rightarrow> Some (identified v (snd x)) | _ \<Rightarrow> None)"

lemma read_facts_fst: "fst (read_facts t ps) = List.map_filter (fact_at t) ps"
  by (induction t ps rule: read_facts.induct)
     (auto simp: map_filter_simps fact_at_def split: prod.splits fact_read.splits)

lemma fact_at_stays:
  "published t t' \<Longrightarrow> wf_tree t \<Longrightarrow> fact_at t x = Some v \<Longrightarrow> fact_at t' x = Some v"
  by (auto simp: fact_at_def published_fact_stays split: fact_read.splits)

lemma map_filter_length: "length (List.map_filter f xs) = length (filter (\<lambda>x. f x \<noteq> None) xs)"
  by (simp add: map_filter_def)

lemma read_facts_grow:
  assumes grow: "published t t'" "wf_tree t" and ps: "set ps \<subseteq> set ps'" "distinct ps"
  shows "set (fst (read_facts t ps)) \<subseteq> set (fst (read_facts t' ps'))"
    and "length (fst (read_facts t ps)) \<le> length (fst (read_facts t' ps'))"
proof -
  note stays = fact_at_stays [OF grow]
  show "set (fst (read_facts t ps)) \<subseteq> set (fst (read_facts t' ps'))"
    using ps(1) stays by (fastforce simp: read_facts_fst map_filter_def intro: rev_image_eqI)
  have "set (filter (\<lambda>x. fact_at t x \<noteq> None) ps) \<subseteq> set (filter (\<lambda>x. fact_at t' x \<noteq> None) ps')"
    using ps(1) stays by fastforce
  then have "card (set (filter (\<lambda>x. fact_at t x \<noteq> None) ps))
      \<le> card (set (filter (\<lambda>x. fact_at t' x \<noteq> None) ps'))"
    by (rule card_mono [OF finite_set])
  then have "length (filter (\<lambda>x. fact_at t x \<noteq> None) ps) \<le> length (filter (\<lambda>x. fact_at t' x \<noteq> None) ps')"
    unfolding distinct_card [OF distinct_filter [OF ps(2)]]
    by (rule le_trans) (rule card_length)
  then show "length (fst (read_facts t ps)) \<le> length (fst (read_facts t' ps'))"
    by (simp add: read_facts_fst map_filter_length)
qed

abbreviation facts_under :: "tree \<Rightarrow> fpath \<Rightarrow> string \<Rightarrow> json list" where
  "facts_under t d k \<equiv> jlist (jget (fst (read_assignment t d)) k)"

definition walked :: "tree \<Rightarrow> (string \<Rightarrow> fpath \<times> string) \<Rightarrow> string list option \<Rightarrow> json list" where
  "walked t f names = (case names of None \<Rightarrow> [] | Some ns \<Rightarrow> fst (read_facts t (map f ns)))"

lemma walked_grow:
  assumes grow: "published t t'" "wf_tree t" and still: "\<And>m. keep m \<Longrightarrow> keep' m" and f: "inj f"
  shows "set (walked t f (map_option (filter g) (listing t d keep)))
      \<subseteq> set (walked t' f (map_option (filter g) (listing t' d keep')))
    \<and> length (walked t f (map_option (filter g) (listing t d keep)))
      \<le> length (walked t' f (map_option (filter g) (listing t' d keep')))"
proof (cases "listing t d keep = None \<or> listing t d keep = Some []")
  case True
  then show ?thesis by (auto simp: walked_def)
next
  case False
  then obtain ns where "listing t d keep = Some ns" "ns \<noteq> []" by auto
  then obtain n where ns: "listing t d keep = Some ns" "n \<in> set ns"
    by (cases ns) auto
  from published_listing [where keep' = keep', OF grow ns still]
  obtain ns' where ns': "listing t' d keep' = Some ns'" "set ns \<subseteq> set ns'" by blast
  have "set (map f (filter g ns)) \<subseteq> set (map f (filter g ns'))" using ns'(2) by auto
  moreover have "distinct (map f (filter g ns))"
    using listing_distinct [OF ns(1)] f by (auto simp: distinct_map intro: inj_on_subset)
  ultimately show ?thesis
    using read_facts_grow [OF grow] ns(1) ns'(1) by (simp add: walked_def)
qed

lemma facts_under_walked:
  "k \<in> {''attempts'', ''conflicts'', ''resolutions''} \<Longrightarrow> facts_under t d k
     = walked t (\<lambda>n. (d @ [k, n], k @ ''/'' @ stem n))
         (map_option (filter (\<lambda>n. \<not> hidden n)) (listing t (d @ [k]) is_json_name))"
  "facts_under t d ''claims'' = walked t (\<lambda>s. (d @ [''claims'', s, ''claim.json''], ''claims/'' @ s @ ''/claim.json''))
     (map_option (filter (\<lambda>_. True)) (listing t (d @ [''claims'']) (\<lambda>n. is_dir t (d @ [''claims'', n]))))"
  by (auto simp: read_assignment_get numbered_facts_def claim_facts_def directories_def walked_def opt_json_def
      jlist_def split: option.splits)

lemma facts_grow:
  assumes grow: "published t t'" "wf_tree t" and k: "k \<in> {''attempts'', ''conflicts'', ''resolutions'', ''claims''}"
  shows "set (facts_under t d k) \<subseteq> set (facts_under t' d k)
    \<and> length (facts_under t d k) \<le> length (facts_under t' d k)"
proof (cases "k = ''claims''")
  case True
  show ?thesis unfolding True facts_under_walked(2)
    by (rule walked_grow [OF grow]) (auto intro: published_is_dir [OF grow(1)] injI)
next
  case False
  then have k': "k \<in> {''attempts'', ''conflicts'', ''resolutions''}" using k by auto
  show ?thesis unfolding facts_under_walked(1) [OF k']
    by (rule walked_grow [OF grow]) (auto intro: injI)
qed

section \<open>Facts come back as they were published\<close>

lemma jget_identified:
  "k \<noteq> ''factId'' \<Longrightarrow> jget (identified v i) k = jget v k"
  "is_obj v \<Longrightarrow> jget (identified v i) ''factId'' = JStr i"
  "is_obj (identified v i) = is_obj v"
  by (cases v; simp add: identified_def update_conv')+

lemma published_read:
  assumes "wf_tree t" "publish p v t = Inr (t1, PUBLISHED)" "published t1 t2" "p \<notin> set (tr_denied t)"
  shows "read_fact t2 p = PRESENT v"
proof -
  have wf: "wf_tree t1" "wf_tree t2" using assms wf_publish published_wf by blast+
  have "map_of (tr_files t1) p = Some (Fact v)" "tr_denied t1 = tr_denied t"
    using assms(2) by (auto elim!: publish_cases simp: is_file_def map_add_def)
  then show ?thesis
    using wf(2) assms(4) published_file [OF assms(3)] published_parts [OF assms(3)]
    by (simp add: read_fact_present)
qed

lemma single_visible:
  assumes "wf_tree t" "publish (d @ [snd kn]) v t = Inr (t1, PUBLISHED)" "published t1 t2"
    "d @ [snd kn] \<notin> set (tr_denied t)"
  shows "single_fact t2 d kn = Some (identified v (fst kn))"
  using published_read [OF assms] by (simp add: single_fact_def)

lemma listing_open:
  assumes "wf_tree t" "is_file t (d @ n # q)" "d \<notin> set (tr_denied t)"
  obtains ns where "listing t d keep = Some ns" "keep n \<Longrightarrow> n \<in> set ns"
proof -
  have "\<not> is_file t d" "\<not> through_file t d"
    using assms(1,2) below_trans [of _ d "d @ n # q"] by (fastforce simp: wf_tree_iff through_file_iff)+
  then have "listing t d keep = Some (filter keep (entries_of t d))"
    using assms(3) by (simp add: listing_def)
  then show thesis using listing_file [OF _ assms(2)] by (auto intro: that)
qed

lemma numbered_visible:
  assumes wf: "wf_tree t" and pub: "publish (d @ [k, n]) v t = Inr (t1, PUBLISHED)" "published t1 t2"
    and k: "k \<in> {''attempts'', ''conflicts'', ''resolutions''}" and n: "is_json_name n" "\<not> hidden n"
    and denied: "d @ [k, n] \<notin> set (tr_denied t)" "d @ [k] \<notin> set (tr_denied t)"
  shows "identified v (k @ ''/'' @ stem n) \<in> set (facts_under t2 d k)"
proof -
  have t2: "published t t2" using pub published_one published_trans by blast
  have seen: "read_fact t2 (d @ [k, n]) = PRESENT v" by (rule published_read [OF wf pub denied(1)])
  have wf2: "wf_tree t2" and denied2: "tr_denied t2 = tr_denied t"
    using wf t2 published_wf published_parts by blast+
  have "is_file t2 ((d @ [k]) @ [n])"
    using seen by (simp add: read_fact_present [OF wf2] is_file_def)
  then obtain ns where ns: "listing t2 (d @ [k]) is_json_name = Some ns" "n \<in> set ns"
    using listing_open [OF wf2, of "d @ [k]" n "[]" is_json_name] denied(2) n(1) unfolding denied2 by metis
  have "identified v (k @ ''/'' @ stem n)
      \<in> set (fst (read_facts t2 (map (\<lambda>n. (d @ [k, n], k @ ''/'' @ stem n)) (filter (\<lambda>n. \<not> hidden n) ns))))"
    by (rule read_facts_mem [OF _ seen]) (use ns(2) n(2) in auto)
  then show ?thesis unfolding facts_under_walked(1) [OF k] by (simp add: walked_def ns(1))
qed

section \<open>What a publication leaves alone\<close>

lemma below_same [simp]: "below (d @ p) (d @ q) = below p q"
  by (auto simp: below_def)

definition apart :: "fpath \<Rightarrow> fpath \<Rightarrow> bool" where
  "apart p q = (p \<noteq> q \<and> \<not> below p q \<and> \<not> below q p)"

lemma apart_same [simp]: "apart (d @ p) (d @ q) = apart p q"
  by (simp add: apart_def)

lemma apart_simps [simp]:
  "apart (x # p) (y # q) = (if x = y then apart p q else True)" "\<not> apart [] q" "\<not> apart p []"
  by (auto simp: apart_def below_def)

lemma published_at:
  assumes "publish p v t = Inr (t', PUBLISHED)"
  shows "is_file t' q = (is_file t q \<or> q = p)" "tr_denied t' = tr_denied t"
    "q \<noteq> p \<Longrightarrow> map_of (tr_files t') q = map_of (tr_files t) q"
  using assms by (auto elim!: publish_cases simp: is_file_iff map_add_def split: option.splits)

lemma publish_frame_read:
  assumes "publish p v t = Inr (t', PUBLISHED)" "apart p q"
  shows "read_fact t' q = read_fact t q"
  using published_at [OF assms(1)] assms(2)
  by (auto simp: read_fact_def through_file_iff is_dir_iff apart_def)

lemma publish_frame_dir:
  assumes "publish p v t = Inr (t', PUBLISHED)" "\<not> below q p"
  shows "is_dir t' q = is_dir t q"
  using published_at [OF assms(1)] assms(2) by (auto simp: is_dir_iff)

lemma publish_frame_listing:
  assumes "publish p v t = Inr (t', PUBLISHED)" "apart p d" "\<And>n. keep' n = keep n"
  shows "listing t' d keep' = listing t d keep"
proof -
  have "filter (\<lambda>f. below d (fst f)) (tr_files t') = filter (\<lambda>f. below d (fst f)) (tr_files t)"
    using assms(1,2) by (auto elim!: publish_cases simp: apart_def)
  then have "entries_of t' d = entries_of t d" by (simp add: entries_of_def)
  moreover have "keep' = keep" using assms(3) by auto
  ultimately show ?thesis
    using published_at [OF assms(1)] assms(2)
    by (auto simp: listing_def through_file_iff apart_def)
qed

lemma read_facts_frame:
  assumes "publish p v t = Inr (t', PUBLISHED)" "\<And>q i. (q, i) \<in> set ps \<Longrightarrow> apart p q"
  shows "read_facts t' ps = read_facts t ps"
  using assms(2)
proof (induction ps)
  case (Cons qi ps)
  obtain q i where qi: "qi = (q, i)" by (cases qi)
  have "read_facts t' ps = read_facts t ps" by (rule Cons.IH) (use Cons.prems in auto)
  moreover have "read_fact t' q = read_fact t q"
    by (rule publish_frame_read [OF assms(1)]) (use Cons.prems [of q i] qi in simp)
  ultimately show ?case by (simp add: qi)
qed simp

text \<open>A fact of another kind changes nothing of what the reader finds.\<close>

lemma facts_frame:
  assumes pub: "publish (d @ x # rest) v t = Inr (t', PUBLISHED)" and k: "x \<noteq> k"
    "k \<in> {''attempts'', ''conflicts'', ''resolutions'', ''claims''}"
  shows "facts_under t' d k = facts_under t d k"
proof -
  have "read_facts t' (map f ns) = read_facts t (map f ns)" if "\<And>n. apart (d @ x # rest) (fst (f n))"
    for f :: "string \<Rightarrow> fpath \<times> string" and ns
  proof (rule read_facts_frame [OF pub])
    fix q i assume "(q, i) \<in> set (map f ns)"
    then obtain n where "(q, i) = f n" by auto
    with that [of n] show "apart (d @ x # rest) q" by (metis fst_conv)
  qed
  note walk = this
  show ?thesis
  proof (cases "k = ''claims''")
    case True
    have "listing t' (d @ [''claims'']) (\<lambda>n. is_dir t' (d @ [''claims'', n]))
        = listing t (d @ [''claims'']) (\<lambda>n. is_dir t (d @ [''claims'', n]))"
      by (rule publish_frame_listing [OF pub])
         (use k True in \<open>simp_all add: publish_frame_dir [OF pub] below_def\<close>)
    then show ?thesis
      using k True unfolding True facts_under_walked(2) walked_def
      by (auto simp: walk split: option.splits)
  next
    case False
    then have k': "k \<in> {''attempts'', ''conflicts'', ''resolutions''}" using k(2) by auto
    have "listing t' (d @ [k]) is_json_name = listing t (d @ [k]) is_json_name"
      by (rule publish_frame_listing [OF pub]) (use k in simp_all)
    then show ?thesis
      using k unfolding facts_under_walked(1) [OF k'] walked_def
      by (auto simp: walk split: option.splits)
  qed
qed

lemma single_frame:
  assumes pub: "publish (d @ x # rest) v t = Inr (t', PUBLISHED)" and k: "x \<notin> {''intent.json'', ''bound.json'', ''relationship.json''}"
    "k \<in> {''intent'', ''bound'', ''relationship''}"
  shows "jget (fst (read_assignment t' d)) k = jget (fst (read_assignment t d)) k"
proof -
  have "read_fact t' (d @ [n]) = read_fact t (d @ [n])" if "x \<noteq> n" for n
    by (rule publish_frame_read [OF pub]) (use that in simp)
  then show ?thesis using k by (auto simp: read_assignment_get single_fact_def)
qed

end
