(* ===== verification/Intent_Safety.thy ===== *)
theory Intent_Safety
  imports Intent Marker_Safety
begin

text \<open>
  What the writers of facts and the derived state promise: every writer publishes and does nothing
  else, a bind is decided once and its contest stays on record, an adjudication settles exactly the
  facts it names, a registration names the generation the relay is in, and the derived state never
  goes back.
\<close>

section \<open>Numbers as names\<close>

lemma int_str_chars: "c \<in> set (int_str i) \<Longrightarrow> c = CHR ''-'' \<or> is_digit c"
  using nat_str_digits by (auto simp: int_str_def list_all_iff split: if_splits)

lemma int_str_visible: "\<not> hidden (int_str i @ s)"
proof -
  have "hd (int_str i) \<in> set (int_str i)" by (simp add: int_str_def)
  then have "hd (int_str i) \<noteq> CHR ''.''"
    using int_str_chars [of "hd (int_str i)" i] by (auto simp: is_digit_def)
  then show ?thesis
    by (cases "int_str i") (auto simp: hidden_def starts_with_iff int_str_def split: if_splits)
qed

lemma numbered_name [simp]:
  "is_json_name (int_str i @ ''.json'')" "stem (int_str i @ ''.json'') = int_str i"
  "\<not> hidden (int_str i @ ''.json'')"
  by (simp_all add: is_json_name_def stem_def int_str_visible)

section \<open>Writers publish\<close>

lemma publish_or_compare_cases:
  assumes "publish_or_compare p payload compared t = Inr (t', out)"
  obtains (first) "out = FIRST" "publish p (JObj payload) t = Inr (t', PUBLISHED)"
    | (again) "out \<noteq> FIRST" "t' = t" "is_file t p \<or> is_dir t p"
        "out = UNCHANGED \<Longrightarrow> \<exists>v. read_fact t p = PRESENT v \<and> is_obj v
           \<and> list_all (\<lambda>f. jget v f = jget (JObj payload) f) compared"
proof -
  from assms obtain t1 o1 where pub: "publish p (JObj payload) t = Inr (t1, o1)"
    and rest: "(if o1 = PUBLISHED then Inr (t1, FIRST)
       else case read_fact t1 p of
              PRESENT existing \<Rightarrow>
                Inr (t1, if is_obj existing \<and> list_all (\<lambda>f. jget existing f = jget (JObj payload) f) compared
                         then UNCHANGED else CONFLICT)
            | _ \<Rightarrow> Inr (t1, CONFLICT)) = (Inr (t', out) :: err + tree \<times> agreement)"
    by (auto simp: publish_or_compare_def)
  from pub show thesis
  proof (cases rule: publish_cases)
    case won
    with rest pub that(1) show thesis by simp
  next
    case lost
    with rest that(2) show thesis by (auto split: fact_read.splits if_splits)
  qed
qed

lemma publish_slot_won:
  "publish_slot n e d v t = Inr (t', i) \<Longrightarrow> publish (d @ [int_str i @ ''.json'']) v t = Inr (t', PUBLISHED)"
proof (induction n arbitrary: t)
  case (Suc n)
  then obtain index where nxt: "next_index t d = Inr (Some index)"
    by (auto split: option.splits)
  with Suc.prems obtain t1 out where pub: "publish (d @ [int_str index @ ''.json'']) v t = Inr (t1, out)"
    and rest: "(if out = PUBLISHED then Inr (t1, index) else publish_slot n e d v t1) = Inr (t', i)"
    by auto
  from pub show ?case
  proof (cases rule: publish_cases)
    case won
    with pub rest show ?thesis by auto
  next
    case lost
    with rest Suc.IH show ?thesis by simp
  qed
qed simp

lemma publish_numbered_won:
  assumes "publish_numbered d kind payload t = Inr (t', fact_id)"
  obtains i where "fact_id = kind @ ''/'' @ int_str i"
    "publish (d @ [kind, int_str i @ ''.json'']) (JObj payload) t = Inr (t', PUBLISHED)"
  using assms that by (auto simp: publish_numbered_def dest!: publish_slot_won)

lemma published_or_compare: "publish_or_compare p payload compared t = Inr (t', out) \<Longrightarrow> published t t'"
  by (auto elim!: publish_or_compare_cases intro: none published_one)

lemma published_numbered: "publish_numbered d kind payload t = Inr (t', i) \<Longrightarrow> published t t'"
  by (auto elim!: publish_numbered_won intro: published_one)

abbreviation winner_of :: "tree \<Rightarrow> fpath \<Rightarrow> json" where
  "winner_of t d \<equiv> jget (fst (read_assignment t d)) ''bound''"

abbreviation conflict_fact :: "json \<Rightarrow> json \<Rightarrow> string \<Rightarrow> string \<Rightarrow> (string \<times> json) list" where
  "conflict_fact session task process stamp \<equiv>
     [(''attemptedSessionId'', session), (''attemptedTaskId'', task),
      (''loserProcess'', JStr process), (''at'', JStr stamp)]"

lemma bind_cases:
  assumes "bind_intent ws assignment session task process stamp t = Inr (t', r)"
  obtains (first) "r = BIND_FIRST"
      "publish (ws @ [assignment, ''bound.json''])
         (JObj [(''sessionId'', session), (''taskId'', task), (''at'', JStr stamp)]) t = Inr (t', PUBLISHED)"
    | (same) "r = BIND_UNCHANGED" "t' = t" "is_obj (winner_of t (ws @ [assignment]))"
        "same_identity (jget (winner_of t (ws @ [assignment])) ''sessionId'') session"
        "same_identity (jget (winner_of t (ws @ [assignment])) ''taskId'') task"
    | (contest) i where
        "r = BIND_CONFLICT i (jget (winner_of t (ws @ [assignment])) ''sessionId'')
                 (jget (winner_of t (ws @ [assignment])) ''taskId'')"
        "is_obj (winner_of t (ws @ [assignment]))"
        "\<not> (same_identity (jget (winner_of t (ws @ [assignment])) ''sessionId'') session
            \<and> same_identity (jget (winner_of t (ws @ [assignment])) ''taskId'') task)"
        "publish_numbered (ws @ [assignment]) ''conflicts'' (conflict_fact session task process stamp) t = Inr (t', i)"
proof -
  let ?p = "ws @ [assignment, ''bound.json'']"
  from assms obtain t1 out where pub: "publish ?p
       (JObj [(''sessionId'', session), (''taskId'', task), (''at'', JStr stamp)]) t = Inr (t1, out)"
    by (auto simp: bind_intent_def directory_of_def split: if_splits)
  from pub show thesis
  proof (cases rule: publish_cases)
    case won
    with assms pub that(1) show thesis
      by (auto simp: bind_intent_def directory_of_def split: if_splits)
  next
    case lost
    with assms pub that(2,3) show thesis
      by (auto simp: bind_intent_def directory_of_def Let_def split: if_splits)
  qed
qed

lemma published_bind:
  "bind_intent ws assignment session task process stamp t = Inr (t', r) \<Longrightarrow> published t t'"
  by (erule bind_cases) (auto intro: none published_one published_numbered)

lemma published_writers:
  "declare_intent resolve w dispatch args stamp t = Inr (t', a) \<Longrightarrow> published t t'"
  "record_attempt ws assignment result task stamp t = Inr (t', i) \<Longrightarrow> published t t'"
  "register_relationship stores ws assignment rid req stamp path t = Inr (t', out) \<Longrightarrow> published t t'"
  "publish_resolution ws assignment task session why stamp es t = Inr (t', i) \<Longrightarrow> published t t'"
  "publish_claim ws assignment session req turn stamp t = Inr (t', out) \<Longrightarrow> published t t'"
  "publish_disposition ws assignment session u result stamp t = Inr (t', out) \<Longrightarrow> published t t'"
  by (auto simp: declare_intent_def record_attempt_def register_relationship_def publish_resolution_def
      publish_claim_def publish_disposition_def published_or_compare published_numbered
      split: json.splits if_splits prod.splits)

section \<open>The state never goes back\<close>

text \<open>Which state may be derived later, when the first was derived from a subset of the facts.\<close>

definition may_follow :: "assignment_state \<Rightarrow> assignment_state \<Rightarrow> bool" where
  "may_follow before after = (case before of
     RELATIONSHIP_REGISTERED \<Rightarrow> after = RELATIONSHIP_REGISTERED
   | IDENTITY_BOUND \<Rightarrow> after \<in> {IDENTITY_BOUND, RELATIONSHIP_REGISTERED}
   | INTENT_EXPIRED \<Rightarrow> after \<in> {INTENT_EXPIRED, AMBIGUOUS_IDENTITY, IDENTITY_BOUND, RELATIONSHIP_REGISTERED}
   | AMBIGUOUS_IDENTITY \<Rightarrow> after \<notin> {INTENT_DECLARED, CREATION_UNKNOWN}
   | CREATION_ACCEPTED \<Rightarrow> after \<notin> {INTENT_DECLARED, CREATION_UNKNOWN}
   | CREATION_UNKNOWN \<Rightarrow> after \<noteq> INTENT_DECLARED
   | INTENT_DECLARED \<Rightarrow> True)"

definition accepted_any :: "json \<Rightarrow> bool" where
  "accepted_any marker = list_ex (\<lambda>a. jget a ''outcome'' = JStr ''accepted'') (jlist (jget marker ''attempts''))"

lemma resolved_accepted: "ambiguity_resolved marker \<Longrightarrow> accepted_any marker"
  by (auto simp: ambiguity_resolved_def accepted_tasks_def accepted_attempts_def accepted_any_def list_ex_iff
      split: list.splits)

lemma registered_state:
  "derive_assignment_state instant marker now = RELATIONSHIP_REGISTERED \<longleftrightarrow>
     jtruthy (jget marker ''bound'') \<and> named (jget (jget marker ''relationship'') ''relationshipId'')"
  by (auto simp: derive_assignment_state_def Let_def)

lemma bound_state:
  "derive_assignment_state instant marker now \<in> {IDENTITY_BOUND, RELATIONSHIP_REGISTERED}
     \<longleftrightarrow> jtruthy (jget marker ''bound'')"
  by (auto simp: derive_assignment_state_def Let_def)

definition contended :: "json \<Rightarrow> bool" where
  "contended marker = (1 < length (accepted_tasks marker) \<or> 1 < length (jlist (jget marker ''claims'')))"

lemma open_state:
  assumes "derive_assignment_state instant marker now \<in> {INTENT_DECLARED, CREATION_UNKNOWN, CREATION_ACCEPTED}"
  shows "\<not> window_closed instant marker now"
  using assms by (auto simp: derive_assignment_state_def Let_def split: if_splits)

lemma unaccepted_state:
  assumes "derive_assignment_state instant marker now \<in> {INTENT_DECLARED, CREATION_UNKNOWN}"
  shows "\<not> accepted_any marker \<and> \<not> contended marker"
  using assms resolved_accepted [of marker]
  by (auto simp: derive_assignment_state_def Let_def accepted_any_def contended_def filter_empty_conv list_ex_iff
      split: if_splits)

lemma declared_state:
  assumes "derive_assignment_state instant marker now = INTENT_DECLARED"
  shows "\<not> list_ex (\<lambda>a. jget a ''outcome'' = JStr ''unknown'') (jlist (jget marker ''attempts''))"
  using assms resolved_accepted [of marker]
  by (auto simp: derive_assignment_state_def Let_def accepted_any_def filter_empty_conv list_ex_iff split: if_splits)

lemma seen_state:
  "derive_assignment_state instant marker now = INTENT_EXPIRED \<Longrightarrow> window_closed instant marker now"
  "derive_assignment_state instant marker now = AMBIGUOUS_IDENTITY \<Longrightarrow> contended marker"
  "derive_assignment_state instant marker now = CREATION_ACCEPTED \<Longrightarrow> accepted_any marker"
  "derive_assignment_state instant marker now = CREATION_UNKNOWN
     \<Longrightarrow> list_ex (\<lambda>a. jget a ''outcome'' = JStr ''unknown'') (jlist (jget marker ''attempts''))"
  by (auto simp: derive_assignment_state_def Let_def accepted_any_def contended_def filter_empty_conv list_ex_iff
      split: if_splits)

lemma single_grows:
  assumes grow: "published t t'" "wf_tree t"
    and k: "k \<in> {''intent'', ''bound'', ''relationship''}" "jget (fst (read_assignment t d)) k \<noteq> JNull"
  shows "jget (fst (read_assignment t' d)) k = jget (fst (read_assignment t d)) k"
proof -
  have "opt_json (single_fact t' d kn) = opt_json (single_fact t d kn)"
    if "opt_json (single_fact t d kn) \<noteq> JNull" for kn
    using that published_single_stays [OF grow, of d kn] by (auto simp: opt_json_def split: option.splits)
  then show ?thesis using k by (auto simp: read_assignment_get)
qed

lemma window_grows:
  assumes grow: "published t t'" "wf_tree t" and now: "moment instant now = Some s" "moment instant now' = Some s'" "s \<le> s'"
    and closed: "window_closed instant (fst (read_assignment t d)) now"
  shows "window_closed instant (fst (read_assignment t' d)) now'"
proof -
  have "jget (fst (read_assignment t d)) ''intent'' \<noteq> JNull"
    using closed by (auto simp: window_closed_def moment_def split: option.splits if_splits)
  with closed now single_grows [OF grow, of "''intent''" d] show ?thesis
    by (auto simp: window_closed_def split: option.splits)
qed

lemma attempts_grow:
  assumes grow: "published t t'" "wf_tree t"
  shows "list_ex P (facts_under t d ''attempts'') \<Longrightarrow> list_ex P (facts_under t' d ''attempts'')"
    and "length (accepted_tasks (fst (read_assignment t d))) \<le> length (accepted_tasks (fst (read_assignment t' d)))"
proof -
  have sub: "set (facts_under t d ''attempts'') \<subseteq> set (facts_under t' d ''attempts'')"
    using facts_grow [OF grow, of "''attempts''"] by simp
  then show "list_ex P (facts_under t d ''attempts'') \<Longrightarrow> list_ex P (facts_under t' d ''attempts'')"
    by (auto simp: list_ex_iff)
  have "card (set (accepted_tasks (fst (read_assignment t d)))) \<le> card (set (accepted_tasks (fst (read_assignment t' d))))"
    by (rule card_mono) (use sub in \<open>auto simp: accepted_tasks_def accepted_attempts_def\<close>)
  then show "length (accepted_tasks (fst (read_assignment t d))) \<le> length (accepted_tasks (fst (read_assignment t' d)))"
    by (simp only: accepted_tasks_def distinct_card [OF distinct_remdups])
qed

text \<open>
  C26: The state of an assignment never goes back. Whatever anybody publishes, and however late the
  clock reads, a registered assignment stays registered, a bound one stays bound, an expired intent
  never becomes creatable again, and neither an acceptance nor an unknown creation is forgotten.
\<close>

theorem assignment_never_goes_back:
  assumes "published t t'" "wf_tree t"
    and "moment instant now = Some s" "moment instant now' = Some s'" "s \<le> s'"
  shows "may_follow (derive_assignment_state instant (fst (read_assignment t d)) now)
    (derive_assignment_state instant (fst (read_assignment t' d)) now')"
proof -
  let ?m = "fst (read_assignment t d)" and ?m' = "fst (read_assignment t' d)"
  have bound: "jtruthy (jget ?m' ''bound'')" if "jtruthy (jget ?m ''bound'')"
    using that single_grows [OF assms(1,2), of "''bound''" d] by (cases "jget ?m ''bound''") auto
  have registered: "named (jget (jget ?m' ''relationship'') ''relationshipId'')"
    if "named (jget (jget ?m ''relationship'') ''relationshipId'')"
    using that single_grows [OF assms(1,2), of "''relationship''" d]
    by (cases "jget ?m ''relationship''") (auto simp: named_def)
  have closed: "window_closed instant ?m' now'" if "window_closed instant ?m now"
    by (rule window_grows [OF assms that])
  have accepted: "accepted_any ?m'" if "accepted_any ?m"
    using that attempts_grow(1) [OF assms(1,2)] unfolding accepted_any_def by blast
  note unknown = attempts_grow(1) [OF assms(1,2)]
  have contested: "contended ?m'" if "contended ?m"
    using that attempts_grow(2) [OF assms(1,2), of d] facts_grow [OF assms(1,2), of "''claims''" d]
    by (auto simp: contended_def)
  show ?thesis
  proof (cases "derive_assignment_state instant ?m now")
    case RELATIONSHIP_REGISTERED
    then show ?thesis
      using bound registered registered_state [of instant ?m now] registered_state [of instant ?m' now']
      by (simp add: may_follow_def)
  next
    case IDENTITY_BOUND
    then show ?thesis
      using bound bound_state [of instant ?m now] bound_state [of instant ?m' now'] by (simp add: may_follow_def)
  next
    case AMBIGUOUS_IDENTITY
    then show ?thesis
      using contested [OF seen_state(2)] unaccepted_state [of instant ?m' now'] by (auto simp: may_follow_def)
  next
    case INTENT_EXPIRED
    then show ?thesis
      using closed [OF seen_state(1)] open_state [of instant ?m' now']
      by (cases "derive_assignment_state instant ?m' now'") (auto simp: may_follow_def)
  next
    case CREATION_UNKNOWN
    then show ?thesis
      using unknown [OF seen_state(4)] declared_state [of instant ?m' now'] by (auto simp: may_follow_def)
  next
    case CREATION_ACCEPTED
    then show ?thesis
      using accepted [OF seen_state(3)] unaccepted_state [of instant ?m' now'] by (auto simp: may_follow_def)
  next
    case INTENT_DECLARED
    then show ?thesis by (simp add: may_follow_def)
  qed
qed

section \<open>Binding\<close>

lemma covered_mono: "covered f rs \<Longrightarrow> set rs \<subseteq> set qs \<Longrightarrow> covered f qs"
  by (auto simp: covered_def list_ex_iff)

lemma conflict_contests:
  assumes "jtruthy (jget marker ''bound'')" "f \<in> set (jlist (jget marker ''conflicts''))"
  shows "covered f (jlist (jget marker ''resolutions'')) \<or> identity_contested marker"
proof -
  have "f \<in> set (competing_facts marker)" using assms(2) by (simp add: competing_facts_def Let_def)
  moreover have "covered f (jlist (jget marker ''resolutions''))"
    if "covered f (filter P (jlist (jget marker ''resolutions'')))" for P
    using that by (rule covered_mono) auto
  ultimately show ?thesis
    using assms(1) unfolding identity_contested_def Let_def list_ex_iff by blast
qed

lemma same_identity_named: "named v \<Longrightarrow> same_identity v w \<longleftrightarrow> w = v"
  by (auto simp: same_identity_def)

lemma bound_winner:
  assumes "wf_tree t" "tr_denied t = []" "published t1 t2"
    "publish (d @ [''bound.json'']) (JObj kvs) t = Inr (t1, PUBLISHED)"
  shows "winner_of t2 d = identified (JObj kvs) ''bound''"
  using single_visible [of t d "(''bound'', ''bound.json'')" "JObj kvs" t1 t2] assms
  by (simp add: read_assignment_get opt_json_def)

text \<open>
  C25: A bind is decided once. The first coordinator whose bind is published has bound the assignment
  whatever is published afterwards; the same identity again changes nothing, and any other one is
  answered with the winner and leaves a conflict on record, which keeps the identity contested until
  an adjudication covers that very record.
\<close>

theorem binding_is_decided_once:
  assumes "wf_tree t" "tr_denied t = []"
    and "bind_intent ws a s1 k1 p1 st1 t = Inr (t1, BIND_FIRST)" "published t1 t2"
    and "bind_intent ws a s2 k2 p2 st2 t2 = Inr (t3, r)"
  shows "jget (winner_of t3 (ws @ [a])) ''sessionId'' = s1 \<and> jget (winner_of t3 (ws @ [a])) ''taskId'' = k1
    \<and> (if s2 = s1 \<and> k2 = k1 then r = BIND_UNCHANGED \<and> t3 = t2
       else \<exists>i f. r = BIND_CONFLICT i s1 k1 \<and> f \<in> set (facts_under t3 (ws @ [a]) ''conflicts'')
         \<and> jget f ''factId'' = JStr i \<and> jget f ''attemptedSessionId'' = s2 \<and> jget f ''attemptedTaskId'' = k2
         \<and> (covered f (facts_under t3 (ws @ [a]) ''resolutions'')
            \<or> identity_contested (fst (read_assignment t3 (ws @ [a])))))"
proof -
  let ?d = "ws @ [a]"
  have named1: "named s1" "named k1" using assms(3) by (auto simp: bind_intent_def split: if_splits)
  from assms(3) have pub: "publish (?d @ [''bound.json''])
      (JObj [(''sessionId'', s1), (''taskId'', k1), (''at'', JStr st1)]) t = Inr (t1, PUBLISHED)"
    by (cases rule: bind_cases) auto
  have won: "winner_of u ?d = identified (JObj [(''sessionId'', s1), (''taskId'', k1), (''at'', JStr st1)]) ''bound''"
    if "published t1 u" for u
    by (rule bound_winner [OF assms(1,2) that pub])
  have "published t t2" by (rule published_trans [OF published_one [OF pub] assms(4)])
  then have t2: "wf_tree t2" "tr_denied t2 = []"
    using assms(1,2) published_wf published_parts [of t t2] by auto
  have t3: "published t1 t3" using assms(4) published_bind [OF assms(5)] by (rule published_trans)
  note w2 = won [OF assms(4)] and w3 = won [OF t3]
  show ?thesis
    using assms(5)
  proof (cases rule: bind_cases)
    case first
    have "is_file t2 (?d @ [''bound.json''])"
      using pub published_file [OF assms(4)] by (auto elim!: publish_cases simp: is_file_def map_add_def)
    with first(2) show ?thesis by (auto elim: publish_cases)
  next
    case same
    then show ?thesis using w2 named1
      by (simp add: jget_identified same_identity_named)
  next
    case (contest i)
    from contest(4) obtain n where n: "i = ''conflicts'' @ ''/'' @ int_str n"
      "publish (?d @ [''conflicts'', int_str n @ ''.json'']) (JObj (conflict_fact s2 k2 p2 st2)) t2 = Inr (t3, PUBLISHED)"
      by (rule publish_numbered_won)
    let ?f = "identified (JObj (conflict_fact s2 k2 p2 st2)) i"
    have "?f \<in> set (facts_under t3 ?d ''conflicts'')"
      using numbered_visible [OF t2(1) n(2) none] t2(2) n(1) by simp
    moreover have "jtruthy (winner_of t3 ?d)" using w3 by (simp add: identified_def)
    moreover have "\<not> (s2 = s1 \<and> k2 = k1)"
      using contest(3) named1 w2 by (simp add: jget_identified same_identity_named)
    ultimately show ?thesis
      using conflict_contests [of "fst (read_assignment t3 ?d)" ?f] contest(1) w2 w3
      by (auto simp: jget_identified intro!: exI [of _ ?f])
  qed
qed

section \<open>Adjudication\<close>

text \<open>What a coordinator hands over for a fact it has reviewed.\<close>

definition adjudication :: "json \<Rightarrow> json" where
  "adjudication f = JObj [(''factId'', jget f ''factId''), (''digest'', JStr (fact_digest (jfields f)))]"

lemma adjudications_of: "adjudications (map adjudication fs) = Inr (map adjudication fs)"
  by (induction fs) (simp_all add: adjudication_def py_item_def)

lemma covered_by:
  assumes "f \<in> set fs" "named (jget f ''factId'')" "r \<in> set rs"
    "jget r ''adjudicated'' = JList (map adjudication fs)"
  shows "covered f rs"
proof -
  have "covers (jget f ''factId'') (fact_digest (jfields f)) (adjudication f)"
    by (simp add: covers_def adjudication_def)
  with assms(1,4) have "list_ex (covers (jget f ''factId'') (fact_digest (jfields f))) (jlist (jget r ''adjudicated''))"
    by (auto simp: list_ex_iff jlist_def)
  then show ?thesis
    using assms(2,3) by (auto simp: covered_def list_ex_iff)
qed

lemma walked_mem:
  assumes "f \<in> set (walked t g ns)"
  obtains n v where "f = identified v (snd (g n))"
  using assms by (auto simp: walked_def read_facts_fst map_filter_def fact_at_def split: option.splits fact_read.splits)

lemma named_slash:
  assumes "CHR ''/'' \<in> set s"
  shows "named (JStr s)"
proof -
  have "\<not> is_space CHR ''/''" by (simp add: is_space_def)
  with assms show ?thesis by (auto simp: named_def strip_empty_iff blank_def list_all_iff)
qed

lemma resolution_written:
  "publish_resolution ws a task session why stamp (map adjudication fs) t = Inr (t', i) \<Longrightarrow>
     publish_numbered (ws @ [a]) ''resolutions''
       [(''chosenTaskId'', task), (''chosenSessionId'', session), (''reason'', why), (''at'', JStr stamp),
        (''adjudicated'', JList (map adjudication fs))] t = Inr (t', i)"
  by (auto simp: publish_resolution_def directory_of_def adjudications_of)

text \<open>The reader gives every listed record an id.\<close>

lemma listed_fact_named:
  assumes "f \<in> set (facts_under t d k)" "k \<in> {''attempts'', ''conflicts'', ''resolutions'', ''claims''}" "is_obj f"
  shows "named (jget f ''factId'')"
proof -
  have named_id: "named (jget f ''factId'')"
    if w: "f \<in> set (walked t g ns)" and slash: "\<And>n. CHR ''/'' \<in> set (snd (g n))" for g ns
  proof -
    obtain n v where f: "f = identified v (snd (g n))" using w by (rule walked_mem)
    then show ?thesis using slash [of n] assms(3) by (simp add: jget_identified named_slash)
  qed
  show ?thesis
  proof (cases "k = ''claims''")
    case True
    show ?thesis using assms(1) unfolding True facts_under_walked(2) by (rule named_id) simp
  next
    case False
    then have k: "k \<in> {''attempts'', ''conflicts'', ''resolutions''}" using assms(2) by auto
    show ?thesis using assms(1) unfolding facts_under_walked(1) [OF k] by (rule named_id) simp
  qed
qed

lemma first_of_None: "first_of xs = None \<longleftrightarrow> (\<forall>x\<in>set xs. x = None)"
  by (induction xs rule: first_of.induct) auto

lemma well_formed_lists:
  assumes "malformed_marker marker = None" "k \<in> set LISTED" "f \<in> set (jlist (jget marker k))"
  shows "is_obj f"
proof -
  have "bad_list marker k = None"
    using assms(1,2) by (auto simp: malformed_marker_def first_of_None)
  then show ?thesis
    using assms(3) by (cases marker) (auto simp: bad_list_def has_key_def jlist_def list_all_iff
        split: json.splits option.splits if_splits)
qed

text \<open>
  C27: An adjudication settles the contest it reviews. When the coordinator publishes a resolution that
  chooses the bound identity and names every competing fact with the digest of its content, no reader
  finds the identity contested any more.
\<close>

theorem adjudication_settles_the_contest:
  fixes t :: tree and d :: fpath
  defines "marker \<equiv> fst (read_assignment t d)"
  assumes "wf_tree t" "tr_denied t = []" "d = ws @ [a]" "malformed_marker marker = None"
    and "named (jget (jget marker ''bound'') ''sessionId'')" "named (jget (jget marker ''bound'') ''taskId'')"
    and "publish_resolution ws a (jget (jget marker ''bound'') ''taskId'') (jget (jget marker ''bound'') ''sessionId'')
      why stamp (map adjudication (competing_facts marker)) t = Inr (t', i)"
  shows "\<not> identity_contested (fst (read_assignment t' d))"
proof -
  let ?m' = "fst (read_assignment t' d)" and ?b = "jget marker ''bound''"
  define fs where "fs = competing_facts marker"
  obtain kvs where kvs: "publish_numbered d ''resolutions'' kvs t = Inr (t', i)"
    and fields: "jget (JObj kvs) ''chosenTaskId'' = jget ?b ''taskId''"
      "jget (JObj kvs) ''chosenSessionId'' = jget ?b ''sessionId''"
      "jget (JObj kvs) ''adjudicated'' = JList (map adjudication fs)"
    using resolution_written [OF assms(8) [folded fs_def], folded assms(4)] by (rule that) simp_all
  from kvs obtain n
    where pub: "publish (d @ [''resolutions'', int_str n @ ''.json'']) (JObj kvs) t = Inr (t', PUBLISHED)"
    by (rule publish_numbered_won)
  have same: "facts_under t' d k = facts_under t d k" if "k \<in> {''attempts'', ''conflicts'', ''claims''}" for k
    by (rule facts_frame [OF pub]) (use that in auto)
  have bound: "jget ?m' ''bound'' = ?b"
    unfolding marker_def by (rule single_frame [OF pub]) auto
  have competing: "competing_facts ?m' = fs"
    unfolding fs_def competing_facts_def accepted_attempts_def Let_def bound
    using same by (simp add: marker_def)
  define r where "r = identified (JObj kvs) (''resolutions/'' @ int_str n)"
  have r: "r \<in> set (jlist (jget ?m' ''resolutions''))"
    using numbered_visible [OF assms(2) pub none] assms(3) by (simp add: r_def)
  have r_fields: "jget r ''chosenTaskId'' = jget ?b ''taskId''" "jget r ''chosenSessionId'' = jget ?b ''sessionId''"
    "jget r ''adjudicated'' = JList (map adjudication fs)"
    using fields by (simp_all add: r_def jget_identified del: jget.simps)
  have "covered f (filter (\<lambda>r. same_identity (jget r ''chosenSessionId'') (jget ?b ''sessionId'')
        \<and> same_identity (jget r ''chosenTaskId'') (jget ?b ''taskId'')) (jlist (jget ?m' ''resolutions'')))"
    if f: "f \<in> set fs" for f
  proof (rule covered_by [OF f])
    obtain k where k: "k \<in> {''attempts'', ''conflicts'', ''claims''}" "f \<in> set (facts_under t d k)"
      using f by (auto simp: fs_def competing_facts_def accepted_attempts_def Let_def marker_def)
    then have "is_obj f" using well_formed_lists [OF assms(5), of k f] by (auto simp: LISTED_def marker_def)
    then show "named (jget f ''factId'')" using listed_fact_named [OF k(2)] k(1) by blast
    show "r \<in> set (filter (\<lambda>r. same_identity (jget r ''chosenSessionId'') (jget ?b ''sessionId'')
        \<and> same_identity (jget r ''chosenTaskId'') (jget ?b ''taskId'')) (jlist (jget ?m' ''resolutions'')))"
      using r assms(6,7) by (simp add: r_fields same_identity_def)
  qed (rule r_fields(3))
  then show ?thesis unfolding identity_contested_def Let_def list_ex_iff bound competing by blast
qed

section \<open>Registering and claiming\<close>

lemma dispatch_current:
  assumes "dispatch_generation_state stores path rid dispatch = (DISPATCH_CURRENT, True)"
  obtains p db r g where "path = Some p" "stores p = Some db" "relationship_of db rid = Some r"
    "g \<in> set (generations db)" "g_rel g = rid" "g_dispatch_request g = dispatch" "g_no g = r_generation r"
proof -
  obtain p db r g where "path = Some p" "stores p = Some db" "relationship_of db rid = Some r"
    and g: "List.find (\<lambda>g. g_rel g = rid \<and> g_dispatch_request g = dispatch) (generations db) = Some g"
    and "g_no g = r_generation r"
    using assms by (auto simp: dispatch_generation_state_def dispatch_row_def split: option.splits if_splits)
  moreover from g have "g \<in> set (generations db)" "g_rel g = rid" "g_dispatch_request g = dispatch"
    by (auto simp: find_Some_iff)
  ultimately show thesis using that by blast
qed

text \<open>
  A registration names the generation the relay is in. Whatever registering answers, the
  assignment is the hash of the dispatch request id, and the relay's own tables hold that dispatch
  under this relationship in its current generation.
\<close>

theorem registration_names_the_current_generation:
  assumes "register_relationship stores ws a rid dispatch stamp path t = Inr (t', out)"
  shows "a = sha256_hex dispatch \<and> (\<exists>p db r g. path = Some p \<and> stores p = Some db \<and> relationship_of db rid = Some r
    \<and> g \<in> set (generations db) \<and> g_rel g = rid \<and> g_dispatch_request g = dispatch \<and> g_no g = r_generation r)"
proof -
  obtain state readable where st: "dispatch_generation_state stores path rid dispatch = (state, readable)"
    by (cases "dispatch_generation_state stores path rid dispatch")
  have "a = sha256_hex dispatch" "readable" "state = DISPATCH_CURRENT"
    using assms st by (cases state; auto simp: register_relationship_def assignment_id_def split: if_splits)+
  moreover from this st obtain p db r g where "path = Some p" "stores p = Some db" "relationship_of db rid = Some r"
    "g \<in> set (generations db)" "g_rel g = rid" "g_dispatch_request g = dispatch" "g_no g = r_generation r"
    by (auto elim: dispatch_current)
  ultimately show ?thesis by blast
qed

lemma split_two:
  assumes "c \<in> set s"
  shows "2 \<le> length (split_on c s)"
proof -
  obtain u v where "s = u @ c # v" "c \<notin> set u" using assms by (meson split_list_first)
  then show ?thesis by (cases "split_on c v") (auto simp: line_simps)
qed

lemma claim_id_parts:
  "split_on CHR ''/'' (''claims/'' @ s @ ''/claim.json'') = ''claims'' # split_on CHR ''/'' (s @ ''/claim.json'')"
  using split_on_append [of "CHR ''/''" "''claims''" "s @ ''/claim.json''"] by simp

text \<open>A claim belongs to nobody but the directory it was found in.\<close>

lemma claimant_of_walk:
  assumes "claimant (identified v (''claims/'' @ s @ ''/claim.json'')) = Some owner"
  shows "owner = s" "is_obj v" "jget v ''sessionId'' = JStr s"
proof -
  show v: "is_obj v"
    using assms by (cases v) (auto simp: claimant_def identified_def str_or_empty_def split: if_splits)
  obtain parts where parts: "split_on CHR ''/'' (s @ ''/claim.json'') = parts" by blast
  have two: "parts = [owner, ''claim.json''] \<and> jget v ''sessionId'' = JStr owner"
    using assms v unfolding claimant_def
    by (auto simp: jget_identified claim_id_parts parts simp del: jget.simps split: list.splits if_splits)
  have "CHR ''/'' \<notin> set s"
  proof
    assume "CHR ''/'' \<in> set s"
    then obtain u w where s: "s = u @ CHR ''/'' # w" "CHR ''/'' \<notin> set u" by (meson split_list_first)
    then have "parts = u # split_on CHR ''/'' (w @ ''/claim.json'')"
      using parts split_on_append [of "CHR ''/''" u "w @ ''/claim.json''"] by simp
    then have "split_on CHR ''/'' (w @ ''/claim.json'') = [''claim.json'']" using two by simp
    moreover have "2 \<le> length (split_on CHR ''/'' (w @ ''/claim.json''))" by (rule split_two) simp
    ultimately show False by simp
  qed
  then show "owner = s" "jget v ''sessionId'' = JStr s"
    using two parts split_on_append [of "CHR ''/''" s "''claim.json''"] by auto
qed

lemma claim_visible:
  assumes wf: "wf_tree t" "tr_denied t = []"
    and seen: "read_fact t (d @ [''claims'', s, ''claim.json'']) = PRESENT v"
  shows "identified v (''claims/'' @ s @ ''/claim.json'') \<in> set (facts_under t d ''claims'')"
proof -
  have f: "is_file t ((d @ [''claims'']) @ s # [''claim.json''])"
    using seen by (simp add: read_fact_present [OF wf(1)] is_file_def)
  have "is_dir t (d @ [''claims'', s])"
    unfolding is_dir_iff by (rule exI, rule conjI, rule f) (simp add: below_def)
  with listing_open [OF wf(1) f, of "\<lambda>n. is_dir t (d @ [''claims'', n])"] wf(2)
  obtain ns where ns: "listing t (d @ [''claims'']) (\<lambda>n. is_dir t (d @ [''claims'', n])) = Some ns" "s \<in> set ns"
    by auto
  have "identified v (''claims/'' @ s @ ''/claim.json'') \<in> set (fst (read_facts t
      (map (\<lambda>s. (d @ [''claims'', s, ''claim.json''], ''claims/'' @ s @ ''/claim.json'')) ns)))"
    by (rule read_facts_mem [OF _ seen]) (use ns(2) in auto)
  then show ?thesis unfolding facts_under_walked(2) by (simp add: walked_def ns(1))
qed

text \<open>The claim of a session, whichever of the listed ones it is, is the one at its own path.\<close>

lemma claim_found:
  assumes "c \<in> set (facts_under t d ''claims'')" "claimant c = Some s"
  obtains v where "c = identified v (''claims/'' @ s @ ''/claim.json'')"
    "read_fact t (d @ [''claims'', s, ''claim.json'']) = PRESENT v"
proof -
  from assms(1) obtain n v where c: "c = identified v (''claims/'' @ n @ ''/claim.json'')"
    "read_fact t (d @ [''claims'', n, ''claim.json'']) = PRESENT v"
    unfolding facts_under_walked(2)
    by (auto simp: walked_def read_facts_fst map_filter_def fact_at_def split: option.splits fact_read.splits)
  with assms(2) have "s = n" using claimant_of_walk(1) by simp
  with c show thesis by (auto intro: that)
qed

lemma claimant_own:
  assumes "valid_segment (JStr s)" "is_obj v" "jget v ''sessionId'' = JStr s"
  shows "claimant (identified v (''claims/'' @ s @ ''/claim.json'')) = Some s"
proof -
  have s: "CHR ''/'' \<notin> set s" "named (JStr s)" "s \<notin> {''.'', ''..''}"
    using assms(1) by (auto simp: valid_segment_def)
  then have "split_on CHR ''/'' (''claims/'' @ s @ ''/claim.json'') = [''claims'', s, ''claim.json'']"
    using split_on_append [of "CHR ''/''" s "''claim.json''"] by (simp only: claim_id_parts) simp
  then show ?thesis
    using s assms(2,3) unfolding claimant_def by (simp add: jget_identified del: jget.simps)
qed

lemma hex_named: "re_hex 64 s \<Longrightarrow> named (JStr s)"
proof -
  assume "re_hex 64 s"
  then have "list_all is_hex (take 64 s)" "64 \<le> length s" using re_hexD [of 64 s] by auto
  then have "s \<noteq> []" "is_hex (hd s)" by (cases s; simp)+
  then have "hd s \<in> set s" "\<not> is_space (hd s)" by (auto simp: is_hex_def is_space_def)
  then show ?thesis by (auto simp: named_def strip_empty_iff blank_def list_all_iff)
qed

lemma claim_written:
  assumes "publish_claim ws a (JStr s) req turn stamp t = Inr (t', FIRST)"
  obtains kvs where "publish (ws @ [a, ''claims'', s, ''claim.json'']) (JObj kvs) t = Inr (t', PUBLISHED)"
    "jget (JObj kvs) ''sessionId'' = JStr s" "jget (JObj kvs) ''dispatchRequestId'' = JStr req"
    "valid_segment (JStr s)" "a = sha256_hex req"
proof -
  from assms have a: "a = sha256_hex req" "valid_segment (JStr s)"
    and put: "publish_or_compare (ws @ [a, ''claims'', s, ''claim.json''])
      [(''dispatchRequestId'', JStr req), (''sessionId'', JStr s), (''firstTurnId'', turn), (''at'', JStr stamp)]
      [''dispatchRequestId'', ''sessionId''] t = Inr (t', FIRST)"
    by (auto simp: publish_claim_def check_identity_def directory_of_def assignment_id_def split: if_splits)
  from put have "publish (ws @ [a, ''claims'', s, ''claim.json'']) (JObj
      [(''dispatchRequestId'', JStr req), (''sessionId'', JStr s), (''firstTurnId'', turn), (''at'', JStr stamp)]) t
      = Inr (t', PUBLISHED)"
    by (rule publish_or_compare_cases) auto
  then show thesis by (rule that) (simp_all add: a)
qed

lemma intent_written:
  assumes "declare_intent resolve w (JStr req) args stamp t = Inr (t', a, FIRST)"
  obtains kvs where "publish ([workspace_key resolve w, a] @ [''intent.json'']) (JObj kvs) t = Inr (t', PUBLISHED)"
    "jget (JObj kvs) ''dispatchRequestIdHash'' = JStr (sha256_hex req)" "a = sha256_hex req" "re_hex 64 a"
proof -
  from assms have a: "a = sha256_hex req" "re_hex 64 a"
    by (auto simp: declare_intent_def check_assignment_def valid_assignment_def assignment_id_def split: if_splits)
  from assms obtain kvs where "publish_or_compare ([workspace_key resolve w, a] @ [''intent.json''])
      ((''dispatchRequestIdHash'', JStr (sha256_hex req)) # kvs) INTENT_FIELDS t = Inr (t', FIRST)"
    by (auto simp: declare_intent_def assignment_id_def assignment_dir_def split: if_splits)
  then have "publish ([workspace_key resolve w, a] @ [''intent.json''])
      (JObj ((''dispatchRequestIdHash'', JStr (sha256_hex req)) # kvs)) t = Inr (t', PUBLISHED)"
    by (rule publish_or_compare_cases) auto
  then show thesis by (rule that) (simp, rule a, rule a)
qed

text \<open>
  C28: A claim correlates. When a child presents the dispatch request id the intent was declared with,
  every later reader finds its session correlated to the assignment, whatever else was published:
  the intent keeps only the hash, and the claim keeps the preimage.
\<close>

theorem claim_correlates:
  assumes "wf_tree t" "tr_denied t = []"
    and "declare_intent resolve w (JStr req) args st1 t = Inr (t1, a, FIRST)" "published t1 t2"
    and "publish_claim [workspace_key resolve w] a (JStr s) req turn st2 t2 = Inr (t3, FIRST)" "published t3 t4"
    and "named (JStr req)"
  shows "correlated (fst (read_assignment t4 [workspace_key resolve w, a])) (JStr s)"
proof -
  let ?d = "[workspace_key resolve w, a]"
  obtain iv where intent: "publish (?d @ [''intent.json'']) (JObj iv) t = Inr (t1, PUBLISHED)"
    "jget (JObj iv) ''dispatchRequestIdHash'' = JStr (sha256_hex req)" "a = sha256_hex req" "re_hex 64 a"
    using assms(3) by (rule intent_written)
  obtain cv where put: "publish ([workspace_key resolve w] @ [a, ''claims'', s, ''claim.json'']) (JObj cv) t2
      = Inr (t3, PUBLISHED)"
    and claim: "jget (JObj cv) ''sessionId'' = JStr s" "jget (JObj cv) ''dispatchRequestId'' = JStr req"
      "valid_segment (JStr s)"
    using assms(5) by (rule claim_written)
  have put: "publish (?d @ [''claims'', s, ''claim.json'']) (JObj cv) t2 = Inr (t3, PUBLISHED)"
    using put by (simp only: append_Cons append_Nil)
  have t2: "published t t2" using published_trans [OF published_one [OF intent(1)] assms(4)] .
  then have wf2: "wf_tree t2" "tr_denied t2 = []" using assms(1,2) published_wf published_parts [OF t2] by auto
  have t14: "published t1 t4"
    using published_trans [OF published_trans [OF assms(4) published_one [OF put]] assms(6)] .
  have t24: "published t2 t4" using published_trans [OF published_one [OF put] assms(6)] .
  then have wf4: "wf_tree t4" "tr_denied t4 = []" using wf2 published_wf published_parts [OF t24] by auto
  let ?m = "fst (read_assignment t4 ?d)" and ?c = "identified (JObj cv) (''claims/'' @ s @ ''/claim.json'')"
  have hash: "jget (jget ?m ''intent'') ''dispatchRequestIdHash'' = JStr (sha256_hex req)"
    using single_visible [of t ?d "(''intent'', ''intent.json'')" "JObj iv" t1 t4] assms(1,2) intent(1,2) t14
    by (simp add: read_assignment_get opt_json_def jget_identified del: jget.simps)
  have seen: "read_fact t4 (?d @ [''claims'', s, ''claim.json'']) = PRESENT (JObj cv)"
    by (rule published_read [OF wf2(1) put assms(6)]) (simp add: wf2)
  have own: "claimant ?c = Some s" by (rule claimant_own [OF claim(3) _ claim(1)]) simp
  let ?P = "\<lambda>c. same_identity (jopt (claimant c)) (JStr s)"
  have "?P ?c" unfolding own using claim(3) by (simp add: same_identity_def jopt_def valid_segment_def)
  moreover have "?c \<in> set (facts_under t4 ?d ''claims'')" by (rule claim_visible [OF wf4 seen])
  ultimately obtain c where c: "List.find ?P (facts_under t4 ?d ''claims'') = Some c"
    by (cases "List.find ?P (facts_under t4 ?d ''claims'')") (auto simp: find_None_iff)
  then have "c \<in> set (facts_under t4 ?d ''claims'')" "?P c" by (auto simp: find_Some_iff)
  then have found: "c \<in> set (facts_under t4 ?d ''claims'')" "claimant c = Some s"
    by (auto simp: same_identity_def jopt_def named_def split: option.splits)
  obtain v where "c = identified v (''claims/'' @ s @ ''/claim.json'')"
    "read_fact t4 (?d @ [''claims'', s, ''claim.json'']) = PRESENT v"
    by (rule claim_found [OF found])
  then have "jget c ''dispatchRequestId'' = JStr req"
    using seen claim(2) by (simp add: jget_identified del: jget.simps)
  moreover have "named (JStr (sha256_hex req))" using hex_named [OF intent(4)] intent(3) by simp
  ultimately show ?thesis
    unfolding correlated_def c hash using assms(7) by (simp add: same_identity_def)
qed

end
