(* ===== verification/Guard_Safety.thy ===== *)
theory Guard_Safety
  imports Guard Intent_Safety
begin

text \<open>
  What the guard promises: it holds a turn only for an omission of the bound child, when everything
  it needed was read and every bound has room; it writes nothing but its own hold and observations; a
  ready turn is released on a receipt the relay database carries; and the bounds are kept, the bound
  of a turn under any overlap of evaluations.
\<close>

section \<open>Deciding\<close>

lemma decide_block:
  assumes "vd_decision (decide instant ob counters mode) = BLOCK"
  shows "mode = HOLD" "vd_state (decide instant ob counters mode) = observe_state ob"
    "observe_state ob \<in> set OMISSIONS" "\<not> malformed_counters counters"
    "counter_of counters ''holdsThisGeneration'' < MAX_HOLDS_PER_GENERATION"
    "counter_of counters ''holdsThisSessionWindow'' < MAX_HOLDS_PER_SESSION_WINDOW"
    "counter_of counters ''holdsThisTurn'' < MAX_HOLDS_PER_TURN" "\<not> jtruthy (sp_active (ob_stop ob))"
  using assms by (auto simp: decide_def Let_def stop_verdict_def OMISSIONS_def split: if_splits)

lemma decide_record:
  "jget (vd_record (decide instant ob counters mode)) ''sessionId'' = sp_session (ob_stop ob)"
  "jget (vd_record (decide instant ob counters mode)) ''turnId'' = sp_turn (ob_stop ob)"
  by (simp_all add: decide_def Let_def stop_verdict_def observation_record_def)

lemma faulted_record:
  "jget (vd_record (faulted stop now mode e)) ''sessionId'' = sp_session stop"
  "jget (vd_record (faulted stop now mode e)) ''turnId'' = sp_turn stop"
  by (simp_all add: faulted_def)

lemma decide_spent: "vd_decision (decide instant ob (spent (JObj kvs)) mode) = RELEASE"
proof -
  have "counter_of (spent (JObj kvs)) ''holdsThisTurn'' = MAX_HOLDS_PER_TURN"
    by (simp add: counter_of_def spent_def update_conv')
  then show ?thesis
    using decide_block(7) [of instant ob "spent (JObj kvs)" mode]
    by (cases "vd_decision (decide instant ob (spent (JObj kvs)) mode)") auto
qed

lemma omission_observed:
  assumes "observe_state ob \<in> set OMISSIONS"
  shows "ob_unreadable ob = []" "malformed_marker (ob_marker ob) = None"
    "same_identity (jget (jget (ob_marker ob) ''bound'') ''sessionId'') (sp_session (ob_stop ob))"
    "claimed_by (ob_marker ob) (sp_session (ob_stop ob))"
    "declared_outcome (ob_disposition ob) (sp_session (ob_stop ob)) (sp_turn (ob_stop ob))
       \<notin> JStr ` set RELEASING_OUTCOMES"
proof -
  note omits = assms [unfolded observe_state_def Let_def OMISSIONS_def]
  show readable: "ob_unreadable ob = []" using omits by (rule contrapos_pp) simp
  note omits = omits [unfolded readable, simplified]
  have shaped: "\<not> ((ob_marker ob \<noteq> JNull \<or> truthy_text (ob_malformed ob)) \<and> marker_problem ob \<noteq> None)"
    using omits by (rule contrapos_pn) simp
  have managed: "jtruthy (ob_marker ob)" using omits by (rule contrapos_pp) (use shaped in simp)
  then show "malformed_marker (ob_marker ob) = None"
    using shaped by (cases "ob_marker ob") (auto simp: marker_problem_def jor_def split: if_splits)
  have bound: "jtruthy (jget (ob_marker ob) ''bound'')"
    using omits by (rule contrapos_pp) (use shaped managed in simp)
  show own: "same_identity (jget (jget (ob_marker ob) ''bound'') ''sessionId'') (sp_session (ob_stop ob))"
    using omits by (rule contrapos_pp) (use shaped managed bound in simp)
  have undeclared: "classify_declaration ob \<in> {RECEIPT_MISSING, UNDECLARED_TURN_END}"
    using omits by (rule contrapos_pp)
      (use shaped managed bound own in \<open>auto simp: classify_declaration_def Let_def split: json.splits if_splits\<close>)
  show "claimed_by (ob_marker ob) (sp_session (ob_stop ob))"
    using omits by (rule contrapos_pp) (use shaped managed bound own undeclared in auto)
  show "declared_outcome (ob_disposition ob) (sp_session (ob_stop ob)) (sp_turn (ob_stop ob))
      \<notin> JStr ` set RELEASING_OUTCOMES"
    using undeclared by (auto simp: classify_declaration_def)
qed

section \<open>Writing\<close>

lemma reserve_won:
  assumes "reserve_hold d session turn stamp mode t = Inr (t', True)"
  obtains s u v where "session = JStr s" "turn = JStr u" "publish (hold_path d s u) v t = Inr (t', PUBLISHED)"
  using assms by (auto simp: reserve_hold_def split: json.splits if_splits)

lemma reserve_lost: "reserve_hold d session turn stamp mode t = Inr (t', False) \<Longrightarrow> t' = t"
  by (auto simp: reserve_hold_def elim: publish_cases split: json.splits if_splits)

lemma release_undoes:
  assumes "publish (hold_path d s u) v t = Inr (t', PUBLISHED)" "valid_segment (JStr s)" "valid_segment (JStr u)"
  shows "release_hold d (JStr s) (JStr u) t' = t"
proof -
  have "filter (\<lambda>f. fst f \<noteq> hold_path d s u) (tr_files t) = tr_files t"
  proof (rule filter_True)
    have "\<not> is_file t (hold_path d s u)"
      using assms(1) by (auto elim: publish_cases)
    then have "hold_path d s u \<notin> fst ` set (tr_files t)" by (simp add: is_file_iff)
    then show "\<forall>f\<in>set (tr_files t). fst f \<noteq> hold_path d s u" by (metis imageI)
  qed
  moreover have "t' = t\<lparr>tr_files := tr_files t @ [(hold_path d s u, Fact v)]\<rparr>" "hold_path d s u \<notin> set (tr_sealed t)"
    using assms(1) by (auto elim!: publish_cases)
  ultimately show ?thesis using assms(2,3) by (simp add: release_hold_def)
qed

lemma reserve_segments:
  "reserve_hold d (JStr s) (JStr u) stamp mode t = Inr (t', True) \<Longrightarrow> valid_segment (JStr s) \<and> valid_segment (JStr u)"
  by (auto simp: reserve_hold_def split: if_splits)

lemma observation_written:
  assumes "record_observation d v t = Inr (t', name)"
  obtains (written) s u i where "jget v ''sessionId'' = JStr s" "jget v ''turnId'' = JStr u"
      "publish (d @ [''hook'', s, u, int_str i @ ''.json'']) v t = Inr (t', PUBLISHED)" "name \<noteq> None"
    | (unnamed) "t' = t" "name = None" "\<not> (valid_segment (jget v ''sessionId'') \<and> valid_segment (jget v ''turnId''))"
proof (cases "valid_segment (jget v ''sessionId'') \<and> valid_segment (jget v ''turnId'')")
  case True
  then obtain s u where su: "jget v ''sessionId'' = JStr s" "jget v ''turnId'' = JStr u"
    by (auto simp: valid_segment_def split: json.splits)
  with True assms obtain i where
    "publish_slot 64 HostError (d @ [''hook'', s, u]) v t = Inr (t', i)" "name \<noteq> None"
    by (auto simp: record_observation_def)
  with publish_slot_won [OF this(1)] su show thesis by (intro that(1)) auto
next
  case False
  with assms show thesis
    by (intro that(2)) (auto simp: record_observation_def split: json.splits if_splits)
qed

section \<open>One settlement\<close>

text \<open>What a recording added to the tree: its observation, or nothing.\<close>

inductive observed :: "fpath \<Rightarrow> stop_input \<Rightarrow> tree \<Rightarrow> tree \<Rightarrow> bool" where
  unseen: "observed d stop t t"
| seen: "sp_session stop = JStr s \<Longrightarrow> sp_turn stop = JStr u \<Longrightarrow>
    publish (d @ [''hook'', s, u, int_str i @ ''.json'']) v t = Inr (t', PUBLISHED) \<Longrightarrow> observed d stop t t'"

lemma record_observed:
  assumes "record_observation d v t = Inr (t', name)"
    "jget v ''sessionId'' = sp_session stop" "jget v ''turnId'' = sp_turn stop"
  shows "observed d stop t t'"
  using assms(1) by (rule observation_written) (use assms(2,3) in \<open>auto intro: observed.intros\<close>)

lemma claim_hold_cases:
  assumes "claim_hold env d mode ob (JObj kvs) v t = Inr (t', v')"
  obtains (held) s u w where "vd_decision v = BLOCK" "v' = v" "sp_session (ob_stop ob) = JStr s"
      "sp_turn (ob_stop ob) = JStr u" "valid_segment (JStr s)" "valid_segment (JStr u)"
      "publish (hold_path d s u) w t = Inr (t', PUBLISHED)"
    | (lost) "vd_decision v = BLOCK" "vd_decision v' = RELEASE" "t' = t"
        "v' = decide (ge_instant env) ob (spent (JObj kvs)) mode"
    | (free) "vd_decision v = RELEASE" "v' = v" "t' = t"
proof (cases "vd_decision v")
  case BLOCK
  with assms obtain won where
    r: "reserve_hold d (sp_session (ob_stop ob)) (sp_turn (ob_stop ob)) (ob_now ob) mode t = Inr (t', won)"
    "v' = (if won then v else decide (ge_instant env) ob (spent (JObj kvs)) mode)"
    by (auto simp: claim_hold_def)
  show thesis
  proof (cases won)
    case True
    with r(1) obtain s u w where su: "sp_session (ob_stop ob) = JStr s" "sp_turn (ob_stop ob) = JStr u"
      "publish (hold_path d s u) w t = Inr (t', PUBLISHED)" by (auto elim: reserve_won)
    with r True reserve_segments [of d s u "ob_now ob" mode t t'] BLOCK show thesis by (intro that(1)) auto
  next
    case False
    with r reserve_lost BLOCK show thesis by (intro that(2)) (auto simp: decide_spent)
  qed
next
  case RELEASE
  with assms show thesis by (intro that(3)) (auto simp: claim_hold_def)
qed

definition verdict_for :: "verdict \<Rightarrow> stop_input \<Rightarrow> bool" where
  "verdict_for v stop = (jget (vd_record v) ''sessionId'' = sp_session stop \<and> jget (vd_record v) ''turnId'' = sp_turn stop)"

lemma verdict_for_decide: "verdict_for (decide instant ob counters mode) (ob_stop ob)"
  by (simp add: verdict_for_def decide_record)

lemma recording_cases:
  assumes "record_verdict d recording ob counters v t = (t', res)" "verdict_for v (ob_stop ob)"
  obtains (recorded) v' where "res = Inr v'" "observed d (ob_stop ob) t t'" "vd_decision v' = vd_decision v"
      "vd_state v' = vd_state v" "vd_observation v' = vd_observation v"
      "recording \<longrightarrow> record_observation d (vd_record v) t = Inr (t', vd_recorded v')" "\<not> recording \<longrightarrow> t' = t"
    | (failed) e where "res = Inl e" "recording" "t' = (if vd_decision v = BLOCK
        then release_hold d (sp_session (ob_stop ob)) (sp_turn (ob_stop ob)) t else t)"
proof (cases recording)
  case False
  with assms show thesis
    by (intro that(1) [of "v\<lparr>vd_assignment := Some (last d), vd_counters := counters\<rparr>"])
       (auto simp: record_verdict_def intro: unseen)
next
  case True
  show thesis
  proof (cases "record_observation d (vd_record v) t")
    case (Inl e)
    with True assms show thesis by (intro that(2)) (auto simp: record_verdict_def)
  next
    case (Inr p)
    then obtain t1 name where p: "record_observation d (vd_record v) t = Inr (t1, name)" by (cases p) auto
    with True assms(1) have "t' = t1" "res = Inr (v\<lparr>vd_assignment := Some (last d), vd_counters := counters,
        vd_recorded := name\<rparr>)" by (auto simp: record_verdict_def)
    then show thesis
      using p True assms(2) record_observed [OF p, of "ob_stop ob"]
      by (intro that(1) [of "v\<lparr>vd_assignment := Some (last d), vd_counters := counters, vd_recorded := name\<rparr>"])
         (auto simp: verdict_for_def)
  qed
qed

text \<open>A settlement that fails leaves the tree as it was; one that holds has claimed the hold itself.\<close>

lemma settle_cases:
  assumes "settle_stop env (Some d) recording mode (ob, JObj kvs, v) t = (t', res)" "verdict_for v (ob_stop ob)"
  obtains (failed) e where "res = Inl e" "t' = t"
    | (held) s u w t1 v' where "res = Inr v'" "vd_decision v' = BLOCK" "vd_decision v = BLOCK" "vd_state v' = vd_state v"
        "sp_session (ob_stop ob) = JStr s" "sp_turn (ob_stop ob) = JStr u" "valid_segment (JStr s)" "valid_segment (JStr u)"
        "publish (hold_path d s u) w t = Inr (t1, PUBLISHED)" "observed d (ob_stop ob) t1 t'"
        "recording \<longrightarrow> record_observation d (vd_record v) t1 = Inr (t', vd_recorded v')"
    | (free) v' where "res = Inr v'" "vd_decision v' = RELEASE" "observed d (ob_stop ob) t t'"
        "vd_state v' = vd_state v \<or> vd_state v' = vd_state (decide (ge_instant env) ob (spent (JObj kvs)) mode)"
proof (cases "claim_hold env d mode ob (JObj kvs) v t")
  case (Inl e)
  with assms(1) show thesis by (intro that(1)) (auto simp: settle_stop_def)
next
  case (Inr p)
  then obtain t1 v1 where claim: "claim_hold env d mode ob (JObj kvs) v t = Inr (t1, v1)" by (cases p) auto
  with assms(1) have rec: "record_verdict d recording ob (JObj kvs) v1 t1 = (t', res)" by (simp add: settle_stop_def)
  from claim show thesis
  proof (cases rule: claim_hold_cases)
    case (held s u w)
    with rec assms(2) have "verdict_for v1 (ob_stop ob)" by simp
    with rec show thesis
    proof (cases rule: recording_cases)
      case (failed e)
      with held release_undoes [OF held(7,5,6)] show thesis by (intro that(1)) auto
    next
      case (recorded v')
      show thesis
        by (rule that(2) [of v' s u w t1]) (use recorded held in simp_all)
    qed
  next
    case lost
    then have "verdict_for v1 (ob_stop ob)" by (simp add: verdict_for_decide)
    with rec show thesis
      by (cases rule: recording_cases) (use lost that(1,3) in auto)
  next
    case free
    with rec assms(2) have "verdict_for v1 (ob_stop ob)" by simp
    with rec show thesis
      by (cases rule: recording_cases) (use free that(1,3) in auto)
  qed
qed

lemma weigh_counters:
  assumes "weigh env t directory ob mode = (ob', counters, v)"
  obtains kvs where "counters = JObj kvs" "v = decide (ge_instant env) ob' counters mode" "ob_stop ob' = ob_stop ob"
    "verdict_for v (ob_stop ob)"
proof -
  have "(\<exists>kvs. counters = JObj kvs) \<and> v = decide (ge_instant env) ob' counters mode \<and> ob_stop ob' = ob_stop ob"
    using assms
    by (auto simp: weigh_def Let_def counters_json_def split: option.splits if_splits prod.splits count_problem.splits)
  then show thesis using that verdict_for_decide [of "ge_instant env" ob' counters mode] by auto
qed

section \<open>One evaluation\<close>

definition asked_mode :: "guard_mode \<Rightarrow> bool \<Rightarrow> guard_mode" where
  "asked_mode asked recording = (if asked = HOLD \<and> \<not> recording then OBSERVE else asked)"

lemma answer_cases:
  assumes "answer stop now mode recording directory (t, res) = (t', v)"
  obtains (told) "res = Inr v" "t' = t"
    | (fault) "vd_state v = GUARD_FAULTED" "vd_decision v = RELEASE"
        "case directory of None \<Rightarrow> t' = t | Some d \<Rightarrow> observed d stop t t'"
proof (cases res)
  case (Inr w)
  with assms that(1) show thesis by (simp add: answer_def)
next
  case (Inl e)
  let ?f = "faulted stop now mode e"
  have f: "vd_state ?f = GUARD_FAULTED" "vd_decision ?f = RELEASE" by (simp_all add: faulted_def)
  show thesis
  proof (cases "directory = None \<or> \<not> recording \<or> (\<exists>e'. record_observation (the directory) (vd_record ?f) t = Inl e')")
    case True
    then have "t' = t \<and> v = ?f"
      using assms Inl by (cases directory; cases recording) (auto simp: answer_def Let_def)
    with f show thesis by (intro that(2)) (auto intro: unseen split: option.splits)
  next
    case False
    then obtain d t1 name where "directory = Some d" and rec: "recording"
      and r: "record_observation d (vd_record ?f) t = Inr (t1, name)"
      by (cases directory; cases "record_observation (the directory) (vd_record ?f) t") auto
    then have "t' = t1" "v = ?f\<lparr>vd_recorded := name\<rparr>" using assms Inl by (auto simp: answer_def Let_def)
    then show thesis
      using f \<open>directory = Some d\<close> record_observed [OF r faulted_record] by (intro that(2)) auto
  qed
qed

lemma gather_some:
  assumes "gather env t stop now db_path default_path (Some (d, marker)) unreadable = Inr ob"
  shows "ob_stop ob = stop" "ob_marker ob = marker" "ob_now ob = now"
    "ob_disposition ob = fst (read_disposition t d (sp_session stop) (sp_turn stop))"
    "ob_unreadable ob = [] \<Longrightarrow> unreadable = [] \<and> snd (read_disposition t d (sp_session stop) (sp_turn stop))"
    "\<exists>missing malformed. gather_receipt env stop marker (ob_disposition ob) malformed db_path default_path
       = Inr (ob_receipt ob, missing) \<and> (ob_unreadable ob = [] \<longrightarrow> missing = [])"
proof -
  obtain disposition readable where rd: "read_disposition t d (sp_session stop) (sp_turn stop) = (disposition, readable)"
    by (cases "read_disposition t d (sp_session stop) (sp_turn stop)")
  obtain malformed receipt missing where
    r: "gather_receipt env stop marker disposition malformed db_path default_path = Inr (receipt, missing)"
    and ob: "ob = \<lparr>ob_stop = stop, ob_marker = marker, ob_disposition = disposition, ob_receipt = receipt,
      ob_unreadable = unreadable @ (if readable then [] else [''disposition'']) @ missing,
      ob_malformed = malformed, ob_now = now\<rparr>"
    using assms by (auto simp: gather_def Let_def rd)
  show "\<exists>missing malformed. gather_receipt env stop marker (ob_disposition ob) malformed db_path default_path
      = Inr (ob_receipt ob, missing) \<and> (ob_unreadable ob = [] \<longrightarrow> missing = [])"
    by (intro exI [of _ missing] exI [of _ malformed]) (simp add: ob r)
  show "ob_stop ob = stop" "ob_marker ob = marker" "ob_now ob = now"
    "ob_disposition ob = fst (read_disposition t d (sp_session stop) (sp_turn stop))"
    "ob_unreadable ob = [] \<Longrightarrow> unreadable = [] \<and> snd (read_disposition t d (sp_session stop) (sp_turn stop))"
    using rd ob by (auto split: if_splits)
qed

lemma evaluate_answers:
  assumes "evaluate_stop env stop now asked db_path default_path recording t = (t', v)"
  obtains v1 b where "v = v1\<lparr>vd_downgraded := b\<rparr>"
    "(case select_stop env t stop of
        Inl e \<Rightarrow> answer stop now (asked_mode asked recording) recording None (t, Inl e)
      | Inr (selected, unreadable) \<Rightarrow>
          answer stop now (asked_mode asked recording) recording (map_option fst selected)
            (case gather env t stop now db_path default_path selected unreadable of
               Inl e \<Rightarrow> (t, Inl e)
             | Inr ob \<Rightarrow> settle_stop env (map_option fst selected) recording (asked_mode asked recording)
                 (weigh env t (map_option fst selected) ob (asked_mode asked recording)) t)) = (t', v1)"
proof -
  let ?X = "case select_stop env t stop of
        Inl e \<Rightarrow> answer stop now (asked_mode asked recording) recording None (t, Inl e)
      | Inr (selected, unreadable) \<Rightarrow>
          answer stop now (asked_mode asked recording) recording (map_option fst selected)
            (case gather env t stop now db_path default_path selected unreadable of
               Inl e \<Rightarrow> (t, Inl e)
             | Inr ob \<Rightarrow> settle_stop env (map_option fst selected) recording (asked_mode asked recording)
                 (weigh env t (map_option fst selected) ob (asked_mode asked recording)) t)"
  obtain t1 v1 where X: "?X = (t1, v1)" by (cases ?X)
  then have "v = v1\<lparr>vd_downgraded := asked = HOLD \<and> \<not> recording\<rparr>" "t' = t1"
    using assms unfolding evaluate_stop_def Let_def asked_mode_def [symmetric] by simp_all
  with X show thesis by (intro that) simp_all
qed

lemma unmanaged_release:
  assumes "gather env t stop now db_path default_path None unreadable = Inr ob"
    "settle_stop env None recording mode (weigh env t None ob mode) t = (t', Inr v)"
  shows "t' = t" "vd_decision v = RELEASE" "vd_state v \<in> {STATE_UNREADABLE, UNMANAGED}"
proof -
  have ob: "ob_marker ob = JNull" "ob_malformed ob = None" using assms(1) by (auto simp: gather_def)
  then have "observe_state ob \<in> {STATE_UNREADABLE, UNMANAGED}" by (simp add: observe_state_def Let_def)
  then show "t' = t" "vd_decision v = RELEASE" "vd_state v \<in> {STATE_UNREADABLE, UNMANAGED}"
    using assms(2)
    by (auto simp: settle_stop_def weigh_def decide_def Let_def stop_verdict_def OMISSIONS_def split: if_splits)
qed

lemma evaluate_cases:
  assumes "evaluate_stop env stop now asked db_path default_path recording t = (t', v)"
  obtains (fault) unreadable where "vd_state v = GUARD_FAULTED" "vd_decision v = RELEASE"
      "t' = t \<or> (\<exists>d marker. select_stop env t stop = Inr (Some (d, marker), unreadable) \<and> observed d stop t t')"
    | (nowhere) unreadable where "select_stop env t stop = Inr (None, unreadable)" "t' = t"
        "vd_decision v = RELEASE" "vd_state v \<in> {STATE_UNREADABLE, UNMANAGED}"
    | (settled) d marker unreadable ob ob' counters v0 v' where
        "select_stop env t stop = Inr (Some (d, marker), unreadable)"
        "gather env t stop now db_path default_path (Some (d, marker)) unreadable = Inr ob"
        "weigh env t (Some d) ob (asked_mode asked recording) = (ob', counters, v0)"
        "settle_stop env (Some d) recording (asked_mode asked recording) (ob', counters, v0) t = (t', Inr v')"
        "vd_decision v = vd_decision v'" "vd_state v = vd_state v'" "vd_recorded v = vd_recorded v'"
proof -
  let ?mode = "asked_mode asked recording"
  from assms obtain v1 b where v: "v = v1\<lparr>vd_downgraded := b\<rparr>"
    and a: "(case select_stop env t stop of
        Inl e \<Rightarrow> answer stop now ?mode recording None (t, Inl e)
      | Inr (selected, unreadable) \<Rightarrow>
          answer stop now ?mode recording (map_option fst selected)
            (case gather env t stop now db_path default_path selected unreadable of
               Inl e \<Rightarrow> (t, Inl e)
             | Inr ob \<Rightarrow> settle_stop env (map_option fst selected) recording ?mode
                 (weigh env t (map_option fst selected) ob ?mode) t)) = (t', v1)"
    by (rule evaluate_answers)
  have fields: "vd_state v = vd_state v1" "vd_decision v = vd_decision v1" "vd_recorded v = vd_recorded v1"
    by (simp_all add: v)
  consider (refused) e where "select_stop env t stop = Inl e"
    | (none) unreadable where "select_stop env t stop = Inr (None, unreadable)"
    | (some) d marker unreadable where "select_stop env t stop = Inr (Some (d, marker), unreadable)"
    by (metis old.prod.exhaust option.exhaust sum.exhaust)
  then show thesis
  proof cases
    case refused
    with a have "answer stop now ?mode recording None (t, Inl e) = (t', v1)" by simp
    then show thesis by (cases rule: answer_cases) (use fields that(1) in auto)
  next
    case none
    obtain ob where g: "gather env t stop now db_path default_path None unreadable = Inr ob"
      by (simp add: gather_def)
    obtain t1 res where s: "settle_stop env None recording ?mode (weigh env t None ob ?mode) t = (t1, res)"
      by (cases "settle_stop env None recording ?mode (weigh env t None ob ?mode) t")
    then obtain w where res: "res = Inr w" by (auto simp: settle_stop_def split: prod.splits)
    with none a g s have "answer stop now ?mode recording None (t1, Inr w) = (t', v1)" by simp
    then have "t' = t1" "v1 = w" by (simp_all add: answer_def)
    then show thesis using that(2) [OF none] unmanaged_release [OF g s [unfolded res]] fields by simp
  next
    case some
    show thesis
    proof (cases "gather env t stop now db_path default_path (Some (d, marker)) unreadable")
      case (Inl e)
      with a some have "answer stop now ?mode recording (Some d) (t, Inl e) = (t', v1)" by simp
      then show thesis by (cases rule: answer_cases) (use fields some that(1) in auto)
    next
      case (Inr ob)
      obtain ob' counters v0 where w: "weigh env t (Some d) ob ?mode = (ob', counters, v0)"
        by (cases "weigh env t (Some d) ob ?mode") auto
      obtain kvs where kvs: "counters = JObj kvs" "ob_stop ob' = ob_stop ob" "verdict_for v0 (ob_stop ob')"
        using w by (rule weigh_counters) auto
      obtain t1 res where s: "settle_stop env (Some d) recording ?mode (ob', counters, v0) t = (t1, res)"
        by (cases "settle_stop env (Some d) recording ?mode (ob', counters, v0) t")
      with a some Inr w have ans: "answer stop now ?mode recording (Some d) (t1, res) = (t', v1)" by simp
      show thesis
      proof (cases res)
        case (Inr w')
        with ans have "t' = t1" "v1 = w'" by (simp_all add: answer_def)
        with s Inr fields show thesis
          by (intro that(3) [OF some \<open>gather env t stop now db_path default_path (Some (d, marker)) unreadable = Inr ob\<close> w])
             simp_all
      next
        case (Inl e)
        have "t1 = t" using s kvs unfolding Inl by (auto elim: settle_cases)
        with ans Inl have "answer stop now ?mode recording (Some d) (t, Inl e) = (t', v1)" by simp
        then show thesis by (cases rule: answer_cases) (use fields some that(1) in auto)
      qed
    qed
  qed
qed

lemma weigh_omission:
  assumes "weigh env t (Some d) ob mode = (ob', counters, v)" "observe_state ob' \<in> set OMISSIONS"
  shows "ob' = ob"
proof -
  have "observe_state (ob\<lparr>ob_unreadable := ob_unreadable ob @ [label]\<rparr>) = STATE_UNREADABLE" for label
    by (simp add: observe_state_def Let_def)
  then show ?thesis
    using assms by (auto simp: weigh_def Let_def OMISSIONS_def split: if_splits prod.splits count_problem.splits)
qed

lemma published_file_at: "publish p v t = Inr (t', PUBLISHED) \<Longrightarrow> is_file t' p \<and> \<not> is_file t p"
  by (erule publish_cases) (simp_all add: is_file_iff)

lemma observed_published: "observed d stop t t' \<Longrightarrow> published t t'"
  by (auto elim!: observed.cases intro: published_one none)


text \<open>Files added in the directory of one turn, and nothing else.\<close>

definition hook_files :: "fpath \<Rightarrow> stop_input \<Rightarrow> (fpath \<times> content) list \<Rightarrow> bool" where
  "hook_files d stop added = (case (sp_session stop, sp_turn stop) of
     (JStr s, JStr u) \<Rightarrow> list_all (\<lambda>f. butlast (fst f) = d @ [''hook'', s, u] \<and> fst f \<noteq> []) added
   | _ \<Rightarrow> added = [])"

lemma hook_files_append: "hook_files d stop xs \<Longrightarrow> hook_files d stop ys \<Longrightarrow> hook_files d stop (xs @ ys)"
  by (auto simp: hook_files_def split: json.splits)

lemma hook_files_none [simp]: "hook_files d stop []"
  by (auto simp: hook_files_def split: json.splits)

lemma observed_adds:
  assumes "observed d stop t t'"
  obtains added where "t' = t\<lparr>tr_files := tr_files t @ added\<rparr>" "hook_files d stop added" "length added \<le> 1"
  using assms
proof cases
  case unseen
  then show thesis by (intro that [of "[]"]) simp_all
next
  case (seen s u i v)
  from seen(3) have "t' = t\<lparr>tr_files := tr_files t @ [(d @ [''hook'', s, u, int_str i @ ''.json''], Fact v)]\<rparr>"
    by (auto elim: publish_cases)
  then show thesis by (rule that) (simp_all add: hook_files_def butlast_append seen(1,2))
qed


section \<open>Releasing a ready turn\<close>

lemma weigh_readable:
  assumes "weigh env t (Some d) ob mode = (ob', counters, v)" "observe_state ob' \<noteq> STATE_UNREADABLE"
  shows "ob' = ob"
proof -
  have "observe_state (ob\<lparr>ob_unreadable := ob_unreadable ob @ [label]\<rparr>) = STATE_UNREADABLE" for label
    by (simp add: observe_state_def Let_def)
  then show ?thesis
    using assms by (auto simp: weigh_def Let_def split: if_splits prod.splits count_problem.splits)
qed

lemma decide_ready:
  "vd_state (decide instant ob counters mode) = DECLARED_READY_RECEIPTED \<Longrightarrow> observe_state ob = DECLARED_READY_RECEIPTED"
  by (auto simp: decide_def Let_def stop_verdict_def OMISSIONS_def split: if_splits)

lemma ready_observed:
  assumes "observe_state ob = DECLARED_READY_RECEIPTED"
  shows "ob_unreadable ob = []" "receipt_matches (ob_receipt ob) (ob_stop ob) (ob_marker ob)"
    "same_identity (jget (jget (ob_marker ob) ''bound'') ''sessionId'') (sp_session (ob_stop ob))"
    "declared_outcome (ob_disposition ob) (sp_session (ob_stop ob)) (sp_turn (ob_stop ob)) = JStr ''ready_for_review''"
proof -
  note obs = assms [unfolded observe_state_def Let_def]
  show readable: "ob_unreadable ob = []" using obs by (rule contrapos_pp) simp
  have shaped: "\<not> ((ob_marker ob \<noteq> JNull \<or> truthy_text (ob_malformed ob)) \<and> marker_problem ob \<noteq> None)"
    using obs by (rule contrapos_pn) (use readable in simp)
  have managed: "jtruthy (ob_marker ob)"
    using obs by (rule contrapos_pp) (use shaped readable in simp)
  have bound: "jtruthy (jget (ob_marker ob) ''bound'')"
    using obs by (rule contrapos_pp) (use shaped managed readable in simp)
  show own: "same_identity (jget (jget (ob_marker ob) ''bound'') ''sessionId'') (sp_session (ob_stop ob))"
    using obs by (rule contrapos_pp) (use shaped managed bound readable in simp)
  have "classify_declaration ob = DECLARED_READY_RECEIPTED"
    using obs by (rule contrapos_pp)
      (use shaped managed bound readable own in \<open>auto split: guard_state.splits\<close>)
  then show "receipt_matches (ob_receipt ob) (ob_stop ob) (ob_marker ob)"
    "declared_outcome (ob_disposition ob) (sp_session (ob_stop ob)) (sp_turn (ob_stop ob)) = JStr ''ready_for_review''"
    by (auto simp: classify_declaration_def Let_def split: json.splits if_splits)
qed

lemma head_event_row:
  assumes "head_event db rid session turn = Inr (Inr (r, row))"
  obtains head where "relationship_of db rid = Some r" "r_status r = ''active''" "\<not> truthy_text (r_superseded_by r)"
    "head_revision db rid (r_generation r) = Inr head" "h_evidence head \<notin> set AMBIGUOUS"
    "event_of db (the (h_event head)) = Some row" "truthy_text (h_event head)"
    "e_producer row = ''child''" "e_stage row \<in> {STAGED, FINAL}"
    "JStr (e_thread row) = session" "JStr (e_turn row) = turn"
  using assms by (auto simp: head_event_def same_identity_def split: option.splits if_splits)

lemma lookup_at_head:
  assumes "lookup_receipt env path rid session turn = Inr (Some f, readable)" "fr_at_head f"
  obtains rel p db r row b where "rid = JStr rel" "path = Some p" "ge_stores env p = Some db"
    "head_event db rel session turn = Inr (Inr (r, row))"
    "deliverable_state env (e_receipt row) (e_manifest_ref row) (r_artifact_roots r) = Inr (DELIVERABLE_CURRENT b)"
    "fr_event f = Some (e_id row)" "readable"
proof -
  obtain rel where rel: "rid = JStr rel" using assms(1) by (cases rid) (auto simp: lookup_receipt_def)
  then obtain p db where p: "path = Some p" "ge_stores env p = Some db"
    using assms(1)
    by (cases path; cases "ge_stores env (the path)") (auto simp: lookup_receipt_def Let_def split: if_splits)
  note look = assms(1) [unfolded lookup_receipt_def rel p Let_def]
  have "\<exists>r row b. head_event db rel session turn = Inr (Inr (r, row))
      \<and> deliverable_state env (e_receipt row) (e_manifest_ref row) (r_artifact_roots r) = Inr (DELIVERABLE_CURRENT b)
      \<and> fr_event f = Some (e_id row) \<and> readable"
  proof (cases "head_event db rel session turn")
    case (Inl e)
    with look p assms(2) show ?thesis by (auto split: if_splits)
  next
    case (Inr found)
    show ?thesis
    proof (cases found)
      case (Inl why)
      with look p assms(2) Inr show ?thesis by (auto split: if_splits)
    next
      case (Inr rr)
      obtain r row where rr: "rr = (r, row)" by (cases rr)
      note at = \<open>head_event db rel session turn = Inr found\<close> Inr rr
      show ?thesis
      proof (cases "deliverable_state env (e_receipt row) (e_manifest_ref row) (r_artifact_roots r)")
        case (Inl e)
        with look p assms(2) at show ?thesis by (auto split: if_splits)
      next
        case (Inr state)
        with look p assms(2) at show ?thesis by (cases state) (auto split: if_splits)
      qed
    qed
  qed
  then show thesis using that [OF rel p] by blast
qed

text \<open>
  C15: A ready turn is released on a receipt. When the answer is that readiness was declared and
  receipted, the child declared this very turn ready, the relationship its assignment registered is
  active in a store that could be read, one event stands at the head of its current generation, the
  child of this session emitted it in this turn, and its artifacts hash to the revision it names, live
  or in the frozen copy, at the moment of the answer.
\<close>

theorem ready_release_rests_on_a_receipt:
  assumes "evaluate_stop env stop now asked db_path default_path recording t = (t', v)"
    and "vd_state v = DECLARED_READY_RECEIPTED"
  shows "\<exists>d marker rid p db r head row b. select_stop env t stop = Inr (Some (d, marker), [])
    \<and> declared_outcome (fst (read_disposition t d (sp_session stop) (sp_turn stop))) (sp_session stop) (sp_turn stop)
      = JStr ''ready_for_review''
    \<and> jget (jget marker ''relationship'') ''relationshipId'' = JStr rid
    \<and> ge_stores env p = Some db \<and> relationship_of db rid = Some r
    \<and> r_status r = ''active'' \<and> \<not> truthy_text (r_superseded_by r)
    \<and> head_revision db rid (r_generation r) = Inr head \<and> h_evidence head \<notin> set AMBIGUOUS
    \<and> event_of db (the (h_event head)) = Some row \<and> e_producer row = ''child''
    \<and> sp_session stop = JStr (e_thread row) \<and> sp_turn stop = JStr (e_turn row)
    \<and> deliverable_state env (e_receipt row) (e_manifest_ref row) (r_artifact_roots r) = Inr (DELIVERABLE_CURRENT b)"
  using assms(1)
proof (cases rule: evaluate_cases)
  case (settled d marker unreadable ob ob' counters v0 v')
  obtain kvs where kvs: "counters = JObj kvs" "v0 = decide (ge_instant env) ob' counters (asked_mode asked recording)"
    "verdict_for v0 (ob_stop ob')"
    using settled(3) by (rule weigh_counters) auto
  have "settle_stop env (Some d) recording (asked_mode asked recording) (ob', JObj kvs, v0) t = (t', Inr v')"
    using settled(4) kvs(1) by simp
  from this kvs(3) have "observe_state ob' = DECLARED_READY_RECEIPTED"
    by (cases rule: settle_cases) (use assms(2) settled(6) kvs(2) in \<open>auto intro: decide_ready decide_ready [OF sym]\<close>)
  moreover from this have same: "ob' = ob" using weigh_readable [OF settled(3)] by simp
  ultimately have ready: "observe_state ob = DECLARED_READY_RECEIPTED" by simp
  note seen = gather_some [OF settled(2)]
  note facts = ready_observed [OF ready, unfolded seen(1,2)]
  have un: "unreadable = []" using seen(5) facts(1) by simp
  obtain f where f: "ob_receipt ob = Some f" "fr_at_head f"
    using facts(2) by (auto simp: receipt_matches_def split: option.splits)
  then obtain missing malformed where
    g: "gather_receipt env stop marker (ob_disposition ob) malformed db_path default_path = Inr (Some f, missing)"
    using seen(6) by auto
  then obtain path readable where
    "lookup_receipt env path (jget (jget marker ''relationship'') ''relationshipId'') (sp_session stop) (sp_turn stop)
      = Inr (Some f, readable)"
    by (auto simp: gather_receipt_def Let_def split: if_splits)
  then obtain rid p db r row b where row: "jget (jget marker ''relationship'') ''relationshipId'' = JStr rid"
    "ge_stores env p = Some db" "head_event db rid (sp_session stop) (sp_turn stop) = Inr (Inr (r, row))"
    "deliverable_state env (e_receipt row) (e_manifest_ref row) (r_artifact_roots r) = Inr (DELIVERABLE_CURRENT b)"
    using f(2) by (rule lookup_at_head) auto
  from row(3) obtain head where "relationship_of db rid = Some r" "r_status r = ''active''"
    "\<not> truthy_text (r_superseded_by r)" "head_revision db rid (r_generation r) = Inr head"
    "h_evidence head \<notin> set AMBIGUOUS" "event_of db (the (h_event head)) = Some row" "e_producer row = ''child''"
    "JStr (e_thread row) = sp_session stop" "JStr (e_turn row) = sp_turn stop"
    by (rule head_event_row)
  then show ?thesis using settled(1) un facts(4) seen(4) row by metis
qed (use assms(2) in auto)

end
