(* ===== verification/Guard_Bounds.thy ===== *)
theory Guard_Bounds
  imports Guard_Safety
begin

text \<open>
  The bounds on holding. Evaluations one after the other never hold an assignment more often than the
  bound of a generation, whatever is published in between; and evaluations that overlap, in any
  interleaving of reading, claiming and recording, hold one turn at most once.
\<close>

section \<open>Holds\<close>

definition is_hold :: "fpath \<Rightarrow> fpath \<Rightarrow> bool" where
  "is_hold d p = (length p = length d + 4 \<and> take (length d) p = d
     \<and> p ! length d = ''hook'' \<and> p ! (length d + 3) = HOLD_FILE)"

lemma is_hold_path [simp]: "is_hold d (hold_path d' s u) \<longleftrightarrow> d = d'"
  by (auto simp: is_hold_def hold_path_def nth_append)

lemma four_elements: "length q = 4 \<Longrightarrow> \<exists>a b c e. q = [a, b, c, e]"
  by (auto simp: numeral_eq_Suc length_Suc_conv)

lemma is_holdD:
  assumes "is_hold d p"
  obtains s u where "p = hold_path d s u"
proof -
  have "take (length d) p = d" "length p = length d + 4" using assms by (simp_all add: is_hold_def)
  then have q: "p = d @ drop (length d) p" "length (drop (length d) p) = 4"
    by (metis append_take_drop_id) (simp add: \<open>length p = length d + 4\<close>)
  from q(2) obtain a b c e where "drop (length d) p = [a, b, c, e]"
    using four_elements by blast
  with q(1) have "p = d @ [a, b, c, e]" by simp
  then show thesis using assms that [of b c] by (auto simp: is_hold_def hold_path_def nth_append)
qed

lemma hold_path_inject [simp]: "hold_path d s u = hold_path d' s' u' \<longleftrightarrow> d = d' \<and> s = s' \<and> u = u'"
  by (auto simp: hold_path_def)

lemma numbered_not_hold: "int_str i @ ''.json'' \<noteq> HOLD_FILE"
proof
  assume "int_str i @ ''.json'' = HOLD_FILE"
  then have "int_str i = ''hold''" using append_same_eq [of "int_str i" "''.json''" "''hold''"] by (simp add: HOLD_FILE_def)
  then show False using int_str_chars [of "CHR ''h''" i] by (simp add: is_digit_def)
qed

lemma hold_not_numbered [simp]:
  "hold_path d s u \<noteq> d' @ [''hook'', s', u', int_str i @ ''.json'']"
  "d' @ [''hook'', s', u', int_str i @ ''.json''] \<noteq> hold_path d s u"
  using numbered_not_hold [of i] by (auto simp: hold_path_def dest!: arg_cong [where f = last])

definition hold_count :: "fpath \<Rightarrow> tree \<Rightarrow> int" where
  "hold_count d t = int (length (filter (\<lambda>f. is_hold d (fst f)) (tr_files t)))"

lemma held_concat_mem:
  "held_concat (map f xs) = Held hs \<Longrightarrow> x \<in> set xs \<Longrightarrow> \<exists>ys. f x = Held ys \<and> set ys \<subseteq> set hs"
proof (induction xs arbitrary: hs)
  case (Cons y ys)
  then obtain as where a: "f y = Held as" by (cases "f y") auto
  with Cons.prems(1) obtain bs where "held_concat (map f ys) = Held bs" "hs = as @ bs"
    by (cases "held_concat (map f ys)") auto
  with a Cons.IH [of bs] Cons.prems(2) show ?case by auto
qed simp

text \<open>A walk that could be read found every hold there is.\<close>

lemma held_records_cover:
  assumes read: "held_records t (d @ [''hook'']) JNull = Held hs" and there: "is_file t (hold_path d s u)"
  shows "\<exists>stamp. (s, u, stamp) \<in> set hs"
proof -
  let ?b = "d @ [''hook'']"
  from read obtain ss where ss: "directories t ?b = Some ss" "held_concat (map (held_in_session t ?b) ss) = Held hs"
    by (auto simp: held_records_def split: option.splits)
  have "s \<in> set ss"
    by (rule listing_file [OF ss(1) [unfolded directories_def], of s "[u, HOLD_FILE]"])
       (use there in \<open>auto simp: hold_path_def is_dir_iff below_def intro!: exI [of _ "hold_path d s u"]\<close>)
  then obtain ys where ys: "held_in_session t ?b s = Held ys" "set ys \<subseteq> set hs"
    using held_concat_mem [OF ss(2)] by blast
  then obtain us where us: "directories t (?b @ [s]) = Some us" "held_concat (map (held_in_turn t ?b s) us) = Held ys"
    by (auto simp: held_in_session_def split: option.splits)
  have "u \<in> set us"
    by (rule listing_file [OF us(1) [unfolded directories_def], of u "[HOLD_FILE]"])
       (use there in \<open>auto simp: hold_path_def is_dir_iff below_def intro!: exI [of _ "hold_path d s u"]\<close>)
  then obtain zs where zs: "held_in_turn t ?b s u = Held zs" "set zs \<subseteq> set ys"
    using held_concat_mem [OF us(2)] by blast
  then obtain ns where ns: "listing t (?b @ [s, u]) (\<lambda>n. n = HOLD_FILE) = Some ns"
    by (auto simp: held_in_turn_def split: option.splits)
  have "HOLD_FILE \<in> set ns"
    by (rule listing_file [OF ns, of HOLD_FILE "[]"]) (use there in \<open>simp_all add: hold_path_def\<close>)
  then have "\<exists>stamp. zs = [(s, u, stamp)]"
    using zs(1) ns by (auto simp: held_in_turn_def split: list.splits fact_read.splits if_splits)
  then show ?thesis using zs(2) ys(2) by auto
qed

lemma hold_count_held:
  assumes "wf_tree t" "held_records t (d @ [''hook'']) JNull = Held hs"
  shows "hold_count d t \<le> int (length hs)"
proof -
  let ?ps = "map fst (filter (\<lambda>f. is_hold d (fst f)) (tr_files t))"
  have "set ?ps \<subseteq> (\<lambda>(s, u, _). hold_path d s u) ` set hs"
  proof
    fix p assume "p \<in> set ?ps"
    then have "is_hold d p" "is_file t p" by (auto simp: is_file_iff)
    then obtain s u where p: "p = hold_path d s u" by (auto elim: is_holdD)
    then obtain stamp where "(s, u, stamp) \<in> set hs"
      using held_records_cover [OF assms(2)] \<open>is_file t p\<close> by blast
    then show "p \<in> (\<lambda>(s, u, _). hold_path d s u) ` set hs" using p by force
  qed
  then have "card (set ?ps) \<le> length hs"
    by (meson card_image_le card_length card_mono finite_imageI finite_set le_trans)
  moreover have "distinct ?ps"
    using assms(1) by (simp add: wf_tree_def distinct_map_filter)
  ultimately show ?thesis using distinct_card [of ?ps] by (simp add: hold_count_def)
qed

section \<open>One after the other\<close>

lemma counted_holds:
  assumes "hold_counters instant t d session turn now ws = (counts, NO_PROBLEM)"
  obtains hs where "held_records t (d @ [''hook'']) JNull = Held hs" "hc_generation counts = int (length hs)"
proof (cases "held_records t (d @ [''hook'']) JNull")
  case (Held hs)
  then have "hc_generation counts = int (length hs)"
    using assms by (auto simp: hold_counters_def Let_def split: option.splits prod.splits)
  with Held show thesis by (rule that)
qed (use assms in \<open>auto simp: hold_counters_def\<close>)

lemma block_below_bound:
  assumes "wf_tree t" "weigh env t (Some d) ob mode = (ob', counters, v)" "vd_decision v = BLOCK"
  shows "hold_count d t < MAX_HOLDS_PER_GENERATION"
proof -
  let ?first = "decide (ge_instant env) ob (JObj []) mode"
  let ?read = "hold_counters (ge_instant env) t d (sp_session (ob_stop ob)) (sp_turn (ob_stop ob)) (ob_now ob)
     (Some (butlast d))"
  obtain kvs where v: "v = decide (ge_instant env) ob' counters mode" "counters = JObj kvs"
    using assms(2) by (rule weigh_counters) auto
  note block = decide_block [OF assms(3) [unfolded v(1)]]
  have same: "ob' = ob" by (rule weigh_omission [OF assms(2) block(3)])
  have "vd_observation ?first \<in> set OMISSIONS"
    using block(3) same by (auto simp: decide_def Let_def stop_verdict_def malformed_counters_def)
  moreover obtain counts problem where read: "?read = (counts, problem)" by (cases ?read)
  ultimately have w: "counters = (if problem = COUNT_CORRUPT then JObj [(''holdsThisTurn'', JNull)] else counters_json counts)"
    "ob' = (case problem of COUNT_UNREADABLE label \<Rightarrow> ob\<lparr>ob_unreadable := ob_unreadable ob @ [label]\<rparr> | _ \<Rightarrow> ob)"
    using assms(2) by (auto simp: weigh_def Let_def)
  have "problem \<noteq> COUNT_CORRUPT" using block(4) w(1) by (auto simp: malformed_counters_def)
  moreover have "problem \<noteq> COUNT_UNREADABLE label" for label
    using w(2) omission_observed(1) [OF block(3)] by auto
  ultimately have fine: "problem = NO_PROBLEM" by (cases problem) auto
  obtain hs where hs: "held_records t (d @ [''hook'']) JNull = Held hs" "hc_generation counts = int (length hs)"
    using read [unfolded fine] by (rule counted_holds)
  have "hc_generation counts < MAX_HOLDS_PER_GENERATION"
    using block(5) w(1) fine by (simp add: counters_json_def counter_of_def)
  then show ?thesis using hold_count_held [OF assms(1) hs(1)] hs(2) by simp
qed

lemma hold_count_publish:
  "publish p v t = Inr (t', PUBLISHED) \<Longrightarrow> hold_count d t' = hold_count d t + (if is_hold d p then 1 else 0)"
  by (auto elim!: publish_cases simp: hold_count_def)

lemma observed_hold_count: "observed d' stop t t' \<Longrightarrow> hold_count d t' = hold_count d t"
proof (induction rule: observed.induct)
  case (seen stop s u d' i v t t')
  have "\<not> is_hold d (d' @ [''hook'', s, u, int_str i @ ''.json''])"
    by (auto elim!: is_holdD)
  then show ?case using hold_count_publish [OF seen(3), of d] by simp
qed simp

text \<open>
  A history of one assignment: its guard answers Stops, for whatever environment and input, and
  anybody publishes anything but a hold of it.
\<close>

inductive history :: "fpath \<Rightarrow> tree \<Rightarrow> tree \<Rightarrow> bool" where
  begun: "history d t t"
| answered: "history d t0 t \<Longrightarrow> evaluate_stop env stop now asked db_path default_path recording t = (t', v)
    \<Longrightarrow> history d t0 t'"
| elsewhere: "history d t0 t \<Longrightarrow> publish p w t = Inr (t', out) \<Longrightarrow> \<not> is_hold d p \<Longrightarrow> history d t0 t'"

lemma observed_wf: "observed d stop t t' \<Longrightarrow> wf_tree t \<Longrightarrow> wf_tree t'"
  using observed_published published_wf by blast

lemma evaluate_bound:
  assumes "evaluate_stop env stop now asked db_path default_path recording t = (t', v)" "wf_tree t"
    "hold_count d t \<le> MAX_HOLDS_PER_GENERATION"
  shows "wf_tree t' \<and> hold_count d t' \<le> MAX_HOLDS_PER_GENERATION"
  using assms(1)
proof (cases rule: evaluate_cases)
  case (fault unreadable)
  then show ?thesis using assms(2,3) observed_wf observed_hold_count by metis
next
  case (settled d' marker unreadable ob ob' counters v0 v')
  let ?mode = "asked_mode asked recording"
  obtain kvs where kvs: "counters = JObj kvs" "verdict_for v0 (ob_stop ob')"
    using settled(3) by (rule weigh_counters) auto
  have "settle_stop env (Some d') recording ?mode (ob', JObj kvs, v0) t = (t', Inr v')"
    using settled(4) kvs(1) by simp
  from this kvs(2) show ?thesis
  proof (cases rule: settle_cases)
    case (held s u w t1 v'')
    have "hold_count d t1 = hold_count d t + (if d = d' then 1 else 0)"
      using hold_count_publish [OF held(9), of d] by simp
    moreover have "hold_count d t' = hold_count d t1" by (rule observed_hold_count [OF held(10)])
    moreover have "hold_count d' t < MAX_HOLDS_PER_GENERATION"
      by (rule block_below_bound [OF assms(2) settled(3) held(3)])
    moreover have "wf_tree t'" using observed_wf [OF held(10)] wf_publish [OF assms(2) held(9)] by blast
    ultimately show ?thesis using assms(3) by auto
  next
    case (free v'')
    then show ?thesis using assms(2,3) observed_wf observed_hold_count by metis
  qed simp
qed (use assms in simp)

text \<open>
  C13: Holding an assignment is bounded. Through any sequence of evaluations and publications of other
  facts, one assignment is held at most as often as the bound of a generation says.
\<close>

theorem holds_are_bounded:
  assumes "history d t0 t" "wf_tree t0" "hold_count d t0 = 0"
  shows "hold_count d t \<le> MAX_HOLDS_PER_GENERATION"
proof -
  from assms have "wf_tree t \<and> hold_count d t \<le> MAX_HOLDS_PER_GENERATION"
  proof (induction rule: history.induct)
    case (answered d t0 t env stop now asked db_path default_path recording t' v)
    then show ?case using evaluate_bound by blast
  next
    case (elsewhere d t0 t p w t' out)
    then have "wf_tree t'" "hold_count d t' = hold_count d t"
      using wf_publish hold_count_publish [of p w t t' d] by (auto elim: publish_cases)
    with elsewhere show ?case by simp
  qed (simp add: MAX_HOLDS_PER_GENERATION_def)
  then show ?thesis by simp
qed

section \<open>Overlapping evaluations\<close>

text \<open>
  The steps of evaluations that run at the same time on one tree: one reads and decides, later it
  claims the hold it decided on, later still it records and answers; a step that raises leaves no
  answer here (its release is the fault verdict). A job carries what its evaluation keeps between the
  steps. Hold mode requires recording.
\<close>

record job =
  jb_env :: guard_env
  jb_dir :: fpath
  jb_mode :: guard_mode
  jb_ob :: observation
  jb_counters :: json
  jb_verdict :: verdict

record machine =
  mc_tree :: tree
  mc_decided :: "job list"
  mc_claimed :: "job list"
  mc_answers :: "(job \<times> verdict) list"

inductive overlap :: "machine \<Rightarrow> machine \<Rightarrow> bool" where
  decided: "gather env (mc_tree m) stop now db_path default_path (Some (d, marker)) unreadable = Inr ob
    \<Longrightarrow> weigh env (mc_tree m) (Some d) ob mode = (ob', counters, v)
    \<Longrightarrow> overlap m (m\<lparr>mc_decided := mc_decided m @ [\<lparr>jb_env = env, jb_dir = d, jb_mode = mode, jb_ob = ob',
          jb_counters = counters, jb_verdict = v\<rparr>]\<rparr>)"
| claimed: "mc_decided m = js @ j # ks
    \<Longrightarrow> claim_hold (jb_env j) (jb_dir j) (jb_mode j) (jb_ob j) (jb_counters j) (jb_verdict j) (mc_tree m) = Inr (t, v)
    \<Longrightarrow> overlap m (m\<lparr>mc_tree := t, mc_decided := js @ ks, mc_claimed := mc_claimed m @ [j\<lparr>jb_verdict := v\<rparr>]\<rparr>)"
| refused: "mc_decided m = js @ j # ks
    \<Longrightarrow> claim_hold (jb_env j) (jb_dir j) (jb_mode j) (jb_ob j) (jb_counters j) (jb_verdict j) (mc_tree m) = Inl e
    \<Longrightarrow> overlap m (m\<lparr>mc_decided := js @ ks\<rparr>)"
| recorded: "mc_claimed m = js @ j # ks
    \<Longrightarrow> record_verdict (jb_dir j) True (jb_ob j) (jb_counters j) (jb_verdict j) (mc_tree m) = (t, Inr v)
    \<Longrightarrow> overlap m (m\<lparr>mc_tree := t, mc_claimed := js @ ks, mc_answers := mc_answers m @ [(j, v)]\<rparr>)"
| unrecorded: "mc_claimed m = js @ j # ks
    \<Longrightarrow> record_verdict (jb_dir j) True (jb_ob j) (jb_counters j) (jb_verdict j) (mc_tree m) = (t, Inl e)
    \<Longrightarrow> overlap m (m\<lparr>mc_tree := t, mc_claimed := js @ ks\<rparr>)"
| published: "publish p w (mc_tree m) = Inr (t, out) \<Longrightarrow> overlap m (m\<lparr>mc_tree := t\<rparr>)"

definition of_turn :: "fpath \<Rightarrow> string \<Rightarrow> string \<Rightarrow> job \<Rightarrow> bool" where
  "of_turn d s u j = (jb_dir j = d \<and> sp_session (ob_stop (jb_ob j)) = JStr s \<and> sp_turn (ob_stop (jb_ob j)) = JStr u)"

definition blocking :: "fpath \<Rightarrow> string \<Rightarrow> string \<Rightarrow> job \<Rightarrow> bool" where
  "blocking d s u j = (of_turn d s u j \<and> vd_decision (jb_verdict j) = BLOCK)"

definition blocked :: "fpath \<Rightarrow> string \<Rightarrow> string \<Rightarrow> job \<times> verdict \<Rightarrow> bool" where
  "blocked d s u a = (of_turn d s u (fst a) \<and> vd_decision (snd a) = BLOCK)"

text \<open>Who holds a turn: claimed and not yet recorded, or answered.\<close>

definition holders :: "fpath \<Rightarrow> string \<Rightarrow> string \<Rightarrow> machine \<Rightarrow> nat" where
  "holders d s u m = length (filter (blocking d s u) (mc_claimed m)) + length (filter (blocked d s u) (mc_answers m))"

definition well_kept :: "job \<Rightarrow> bool" where
  "well_kept j = (is_obj (jb_counters j) \<and> verdict_for (jb_verdict j) (ob_stop (jb_ob j))
     \<and> (vd_decision (jb_verdict j) = BLOCK \<longrightarrow> valid_segment (sp_session (ob_stop (jb_ob j)))
          \<and> valid_segment (sp_turn (ob_stop (jb_ob j)))))"

definition held_once :: "machine \<Rightarrow> bool" where
  "held_once m = (list_all (\<lambda>j. is_obj (jb_counters j) \<and> verdict_for (jb_verdict j) (ob_stop (jb_ob j))) (mc_decided m)
     \<and> list_all well_kept (mc_claimed m)
     \<and> (\<forall>d s u. holders d s u m \<le> (if is_file (mc_tree m) (hold_path d s u) then 1 else 0)))"

lemma observed_hold_file: "observed d' stop t t' \<Longrightarrow> is_file t' (hold_path d s u) = is_file t (hold_path d s u)"
  by (induction rule: observed.induct) (simp_all add: published_at)

lemma filter_middle:
  "length (filter P (js @ j # ks)) = length (filter P (js @ ks)) + (if P j then 1 else 0)"
  by simp

lemma holders_claimed:
  "mc_claimed m = js @ j # ks \<Longrightarrow> holders d s u (m\<lparr>mc_tree := t, mc_claimed := js @ ks\<rparr>)
     + (if blocking d s u j then 1 else 0) = holders d s u m"
  by (simp add: holders_def)

lemma is_file_filter: "is_file (t\<lparr>tr_files := filter (\<lambda>f. fst f \<noteq> p) (tr_files t)\<rparr>) q \<longleftrightarrow> is_file t q \<and> q \<noteq> p"
  unfolding is_file_iff by force

lemma held_once_step:
  assumes "overlap m m'" "held_once m"
  shows "held_once m'"
  using assms
proof (induction rule: overlap.induct)
  case (decided env m stop now db_path default_path d marker unreadable ob mode ob' counters v)
  obtain kvs where "counters = JObj kvs" "v = decide (ge_instant env) ob' counters mode"
    using decided(2) by (rule weigh_counters) auto
  with decided(3) show ?case by (simp add: held_once_def holders_def verdict_for_decide)
next
  case (claimed m js j ks t v)
  obtain kvs where kvs: "jb_counters j = JObj kvs" and j: "verdict_for (jb_verdict j) (ob_stop (jb_ob j))"
    using claimed(1,3) by (cases "jb_counters j") (auto simp: held_once_def)
  let ?j = "j\<lparr>jb_verdict := v\<rparr>"
  have holders: "holders d s u (m\<lparr>mc_tree := t, mc_decided := js @ ks, mc_claimed := mc_claimed m @ [?j]\<rparr>)
      = holders d s u m + (if blocking d s u ?j then 1 else 0)" for d s u
    by (simp add: holders_def)
  from claimed(2)[unfolded kvs] show ?case
  proof (cases rule: claim_hold_cases)
    case (held s u w)
    have blocks: "blocking d' s' u' ?j \<longleftrightarrow> d' = jb_dir j \<and> s' = s \<and> u' = u" for d' s' u'
      using held by (auto simp: blocking_def of_turn_def)
    have files: "is_file t (hold_path d' s' u') =
        (is_file (mc_tree m) (hold_path d' s' u') \<or> d' = jb_dir j \<and> s' = s \<and> u' = u)" for d' s' u'
      using published_at(1) [OF held(7)] by auto
    have fresh: "\<not> is_file (mc_tree m) (hold_path (jb_dir j) s u)" using published_file_at [OF held(7)] by blast
    have old: "holders d' s' u' m \<le> (if is_file (mc_tree m) (hold_path d' s' u') then 1 else 0)" for d' s' u'
      using claimed(3) by (simp add: held_once_def)
    have "holders d' s' u' m + (if blocking d' s' u' ?j then 1 else 0)
        \<le> (if is_file t (hold_path d' s' u') then 1 else 0)" for d' s' u'
      unfolding blocks files using old [of d' s' u'] fresh
      by (cases "d' = jb_dir j \<and> s' = s \<and> u' = u") auto
    moreover have "well_kept ?j" using held j kvs by (simp add: well_kept_def)
    ultimately show ?thesis using claimed(1,3) unfolding held_once_def holders by simp
  next
    case lost
    then have "well_kept ?j" using kvs by (simp add: well_kept_def verdict_for_decide)
    moreover have "\<not> blocking d' s' u' ?j" for d' s' u' using lost by (simp add: blocking_def)
    ultimately show ?thesis using claimed(1,3) lost(3) unfolding held_once_def holders by simp
  next
    case free
    then have "well_kept ?j" using kvs j by (simp add: well_kept_def)
    moreover have "\<not> blocking d' s' u' ?j" for d' s' u' using free by (simp add: blocking_def)
    ultimately show ?thesis using claimed(1,3) free(3) unfolding held_once_def holders by simp
  qed
next
  case (refused m js j ks e)
  then show ?case by (simp add: held_once_def holders_def)
next
  case (recorded m js j ks t v)
  have kept: "well_kept j" using recorded(1,3) by (simp add: held_once_def)
  then have for_j: "verdict_for (jb_verdict j) (ob_stop (jb_ob j))" by (simp add: well_kept_def)
  from recorded(2) for_j obtain v' where "v = v'" "observed (jb_dir j) (ob_stop (jb_ob j)) (mc_tree m) t"
    "vd_decision v' = vd_decision (jb_verdict j)"
    by (cases rule: recording_cases) auto
  then have files: "is_file t (hold_path d s u) = is_file (mc_tree m) (hold_path d s u)"
    and told: "blocked d s u (j, v) = blocking d s u j" for d s u
    by (auto simp: observed_hold_file blocked_def blocking_def)
  have "holders d s u (m\<lparr>mc_tree := t, mc_claimed := js @ ks, mc_answers := mc_answers m @ [(j, v)]\<rparr>) = holders d s u m"
    for d s u by (simp add: holders_def recorded(1) told)
  with recorded(1,3) show ?case unfolding held_once_def by (simp add: files)
next
  case (unrecorded m js j ks t e)
  have kept: "well_kept j" using unrecorded(1,3) by (simp add: held_once_def)
  then have for_j: "verdict_for (jb_verdict j) (ob_stop (jb_ob j))" by (simp add: well_kept_def)
  from unrecorded(2) for_j have t: "t = (if vd_decision (jb_verdict j) = BLOCK
      then release_hold (jb_dir j) (sp_session (ob_stop (jb_ob j))) (sp_turn (ob_stop (jb_ob j))) (mc_tree m)
      else mc_tree m)"
    by (cases rule: recording_cases) auto
  have "holders d s u (m\<lparr>mc_tree := t, mc_claimed := js @ ks\<rparr>) \<le> (if is_file t (hold_path d s u) then 1 else 0)" for d s u
  proof -
    have old: "holders d s u m \<le> (if is_file (mc_tree m) (hold_path d s u) then 1 else 0)"
      using unrecorded(3) by (simp add: held_once_def)
    have "is_file t (hold_path d s u) = is_file (mc_tree m) (hold_path d s u)" if "\<not> blocking d s u j"
      using that kept
      by (auto simp: t release_hold_def blocking_def of_turn_def is_file_filter well_kept_def split: json.splits)
    then show ?thesis using old holders_claimed [OF unrecorded(1), of d s u t] by (auto split: if_splits)
  qed
  with unrecorded(1,3) show ?case unfolding held_once_def by simp
next
  case (published p w m t out)
  then have kept: "is_file (mc_tree m) q \<Longrightarrow> is_file t q" for q by (auto elim!: publish_cases simp: is_file_iff)
  have "holders d s u m \<le> (if is_file t (hold_path d s u) then 1 else 0)" for d s u
  proof -
    have "holders d s u m \<le> (if is_file (mc_tree m) (hold_path d s u) then 1 else 0)"
      using published(2) by (simp add: held_once_def)
    then show ?thesis using kept [of "hold_path d s u"] by (auto split: if_splits)
  qed
  moreover have "holders d s u (m\<lparr>mc_tree := t\<rparr>) = holders d s u m" for d s u by (simp add: holders_def)
  ultimately show ?case using published(2) unfolding held_once_def by simp
qed

text \<open>
  C14: Overlapping evaluations hold a turn at most once. However many evaluations of one Stop run at
  the same time, however their reads, claims and recordings interleave, and whatever is published
  meanwhile, at most one of them answers with a block of that turn.
\<close>

theorem overlapping_stops_hold_once:
  assumes "overlap\<^sup>*\<^sup>* \<lparr>mc_tree = t, mc_decided = [], mc_claimed = [], mc_answers = []\<rparr> m"
  shows "length (filter (blocked d s u) (mc_answers m)) \<le> 1"
proof -
  have "held_once m"
    using assms
  proof (induction rule: rtranclp_induct)
    case base
    show ?case by (simp add: held_once_def holders_def)
  next
    case (step m m')
    then show ?case by (blast intro: held_once_step)
  qed
  then have "holders d s u m \<le> (if is_file (mc_tree m) (hold_path d s u) then 1 else 0)" by (simp add: held_once_def)
  then show ?thesis by (simp add: holders_def split: if_splits)
qed

end
