(* ===== verification/Guard_Examples.thy ===== *)
theory Guard_Examples
  imports Guard_Bounds
begin

text \<open>The theorems on the marker and the guard, each applied to a concrete tree.\<close>

lemmas tree_defs = read_assignment_def SINGLE_FACTS_def NUMBERED_FACTS_def read_single_def read_numbered_def
  read_claims_def read_fact_def directories_def listing_def through_file_def below_def is_file_def entries_of_def
  is_dir_def identified_def hidden_def is_json_name_def

section \<open>A child that ends undeclared\<close>

definition demo_env :: guard_env where
  "demo_env = \<lparr>ge_instant = (\<lambda>_. None), ge_resolve = id, ge_stores = (\<lambda>_. None),
     ge_disk = \<lparr>hash_path = (\<lambda>_ _ _. PathMissing), frozen_entries = (\<lambda>_. Inr None), frozen_blob = (\<lambda>_ _. BlobUnreadable)\<rparr>,
     ge_access = (\<lambda>_. True)\<rparr>"

definition demo_stop :: stop_input where
  "demo_stop = \<lparr>sp_cwd = JStr ''/w'', sp_session = JStr ''s'', sp_turn = JStr ''u'', sp_active = JBool False\<rparr>"

text \<open>A bound child that claimed its assignment, whose relationship nobody registered.\<close>

definition demo_tree :: "string \<Rightarrow> tree" where
  "demo_tree k = \<lparr>tr_files = [([k, ''a'', ''intent.json''], Fact (JObj [])),
     ([k, ''a'', ''bound.json''], Fact (JObj [(''sessionId'', JStr ''s'')])),
     ([k, ''a'', ''claims'', ''s'', ''claim.json''], Fact (JObj [(''sessionId'', JStr ''s'')]))],
     tr_denied = [], tr_sealed = []\<rparr>"

definition demo_marker :: json where
  "demo_marker = JObj [(''intent'', JObj [(''factId'', JStr ''intent'')]),
     (''bound'', JObj [(''sessionId'', JStr ''s''), (''factId'', JStr ''bound'')]),
     (''attempts'', JList []), (''conflicts'', JList []), (''resolutions'', JList []),
     (''claims'', JList [JObj [(''sessionId'', JStr ''s''), (''factId'', JStr ''claims/s/claim.json'')]])]"

lemma demo_listed: "directories (demo_tree k) [k] = Some [''a'']"
  by (simp add: tree_defs demo_tree_def)

lemma demo_tree_read: "read_assignment (demo_tree k) [k, ''a''] = (demo_marker, [])"
  by (simp add: tree_defs demo_tree_def demo_marker_def)

lemma demo_selected: "select_assignment (\<lambda>_. None) (demo_tree k) [k] (JStr ''s'') = (Some ([k, ''a''], demo_marker), [])"
proof -
  have c: "candidates (demo_tree k) [k] [''a''] = [(''a'', demo_marker, [])]"
    by (simp add: candidates_def demo_tree_read has_key_def) (simp add: demo_marker_def has_key_def)
  have "list_ex (\<lambda>q. same_identity (jopt (claimant q)) (JStr ''s'')) (claims_of (''a'', demo_marker, []))" by code_simp
  then show ?thesis by (simp add: select_assignment_def demo_listed c)
qed

definition demo_key :: string where "demo_key = workspace_key id ''/w''"

lemma demo_select_stop: "select_stop demo_env (demo_tree demo_key) demo_stop = Inr (Some ([demo_key, ''a''], demo_marker), [])"
  by (simp add: select_stop_def demo_env_def demo_stop_def demo_selected demo_key_def [symmetric])

definition demo_observation :: observation where
  "demo_observation = \<lparr>ob_stop = demo_stop, ob_marker = demo_marker, ob_disposition = JNull, ob_receipt = None,
     ob_unreadable = [], ob_malformed = None, ob_now = JStr ''t''\<rparr>"

lemma demo_gather:
  "gather demo_env (demo_tree k) demo_stop (JStr ''t'') None None (Some ([k, ''a''], demo_marker)) [] = Inr demo_observation"
proof -
  have "read_disposition (demo_tree k) [k, ''a''] (sp_session demo_stop) (sp_turn demo_stop) = (JNull, True)"
    by (simp add: read_disposition_def demo_stop_def tree_defs demo_tree_def)
  moreover have "valid_segment (sp_session demo_stop)" "valid_segment (sp_turn demo_stop)" by code_simp+
  ultimately show ?thesis
    by (simp add: gather_def gather_receipt_def malformed_disposition_def declared_outcome_def demo_observation_def)
qed

definition no_holds :: json where
  "no_holds = counters_json \<lparr>hc_turn = 0, hc_generation = 0, hc_window = 0\<rparr>"

lemma demo_held: "held_records (demo_tree k) [k, ''a'', ''hook''] v = Held []"
  by (simp add: held_records_def tree_defs demo_tree_def)

lemma demo_weigh:
  "weigh demo_env (demo_tree k) (Some [k, ''a'']) demo_observation HOLD
     = (demo_observation, no_holds, decide (\<lambda>_. None) demo_observation no_holds HOLD)"
proof -
  have "vd_observation (decide (\<lambda>_. None) demo_observation (JObj []) HOLD) \<in> set OMISSIONS" by code_simp
  moreover have "hold_counters (\<lambda>_. None) (demo_tree k) [k, ''a''] (JStr ''s'') (JStr ''u'') (JStr ''t'') (Some [k])
      = (\<lparr>hc_turn = 0, hc_generation = 0, hc_window = 0\<rparr>, NO_PROBLEM)"
    by (simp add: hold_counters_def demo_held demo_listed Let_def)
  moreover have "sp_session (ob_stop demo_observation) = JStr ''s''" "sp_turn (ob_stop demo_observation) = JStr ''u''"
    "ob_now demo_observation = JStr ''t''" by (simp_all add: demo_observation_def demo_stop_def)
  ultimately show ?thesis by (simp add: weigh_def Let_def demo_env_def no_holds_def)
qed

lemma demo_decision:
  "vd_decision (decide (\<lambda>_. None) demo_observation no_holds HOLD) = BLOCK"
  "vd_state (decide (\<lambda>_. None) demo_observation no_holds HOLD) = MANAGED_UNREGISTERED"
  by code_simp+

definition held_tree :: "string \<Rightarrow> tree" where
  "held_tree k = (demo_tree k)\<lparr>tr_files := tr_files (demo_tree k)
     @ [(hold_path [k, ''a''] ''s'' ''u'', Fact (JObj [(''sessionId'', JStr ''s''), (''turnId'', JStr ''u''),
          (''at'', JStr ''t''), (''mode'', JStr ''hold'')]))]\<rparr>"

lemma demo_segments: "valid_segment (JStr ''s'')" "valid_segment (JStr ''u'')"
  by code_simp+

lemma demo_reserve:
  "reserve_hold [k, ''a''] (JStr ''s'') (JStr ''u'') (JStr ''t'') HOLD (demo_tree k) = Inr (held_tree k, True)"
  by (simp add: reserve_hold_def demo_segments publish_def held_tree_def mode_str_def)
     (simp add: hold_path_def tree_defs demo_tree_def)

lemma demo_next: "next_index (held_tree k) [k, ''a'', ''hook'', ''s'', ''u''] = Inr (Some 0)"
proof -
  have "listing (held_tree k) [k, ''a'', ''hook'', ''s'', ''u''] is_json_name = Some [''hold.json'']"
    by (simp add: held_tree_def hold_path_def HOLD_FILE_def demo_tree_def listing_def through_file_def below_def
        is_file_def entries_of_def) code_simp
  moreover have "used_numbers [''hold.json''] = Inr []" by code_simp
  ultimately show ?thesis by (simp add: next_index_def)
qed

lemma demo_record:
  assumes "jget v ''sessionId'' = JStr ''s''" "jget v ''turnId'' = JStr ''u''"
  shows "\<exists>t. record_observation [k, ''a''] v (held_tree k) = Inr (t, Some ''hook/s/u/0'')"
proof -
  have "int_str 0 = ''0''" by code_simp
  then have "\<exists>t. publish ([k, ''a'', ''hook'', ''s'', ''u''] @ [int_str 0 @ ''.json'']) v (held_tree k) = Inr (t, PUBLISHED)"
    by (simp add: publish_def held_tree_def hold_path_def HOLD_FILE_def tree_defs demo_tree_def)
  then obtain t where "publish ([k, ''a'', ''hook'', ''s'', ''u''] @ [int_str 0 @ ''.json'']) v (held_tree k) = Inr (t, PUBLISHED)"
    by blast
  then have "publish_slot (Suc 63) HostError [k, ''a'', ''hook'', ''s'', ''u''] v (held_tree k) = Inr (t, 0)"
    by (simp only: publish_slot.simps demo_next bindE_Inr option.case) simp
  then show ?thesis
    using assms demo_segments \<open>int_str 0 = ''0''\<close> by (simp add: record_observation_def)
qed

lemma demo_evaluated:
  "\<exists>t' v. evaluate_stop demo_env demo_stop (JStr ''t'') HOLD None None True (demo_tree demo_key) = (t', v)
     \<and> vd_decision v = BLOCK \<and> vd_state v = MANAGED_UNREGISTERED \<and> vd_recorded v = Some ''hook/s/u/0''
     \<and> is_file t' (hold_path [demo_key, ''a''] ''s'' ''u'')"
proof -
  let ?v = "decide (\<lambda>_. None) demo_observation no_holds HOLD" and ?d = "[demo_key, ''a'']"
  have stop: "sp_session (ob_stop demo_observation) = JStr ''s''" "sp_turn (ob_stop demo_observation) = JStr ''u''"
    "ob_now demo_observation = JStr ''t''" by (simp_all add: demo_observation_def demo_stop_def)
  obtain t where rec: "record_observation ?d (vd_record ?v) (held_tree demo_key) = Inr (t, Some ''hook/s/u/0'')"
    using demo_record decide_record stop by metis
  have claim: "claim_hold demo_env ?d HOLD demo_observation no_holds ?v (demo_tree demo_key) = Inr (held_tree demo_key, ?v)"
    by (simp add: claim_hold_def demo_decision stop demo_reserve)
  have "settle_stop demo_env (Some ?d) True HOLD (demo_observation, no_holds, ?v) (demo_tree demo_key)
      = (t, Inr (?v\<lparr>vd_assignment := Some ''a'', vd_counters := no_holds, vd_recorded := Some ''hook/s/u/0''\<rparr>))"
    by (simp add: settle_stop_def claim record_verdict_def rec)
  moreover have "is_file t (hold_path ?d ''s'' ''u'')"
  proof -
    have "observed ?d demo_stop (held_tree demo_key) t"
      by (rule record_observed [OF rec]) (simp_all add: decide_record demo_observation_def)
    moreover have "is_file (held_tree demo_key) (hold_path ?d ''s'' ''u'')" by (simp add: is_file_iff held_tree_def)
    ultimately show ?thesis using observed_published published_is_file by blast
  qed
  ultimately show ?thesis
    by (simp add: evaluate_stop_def demo_select_stop demo_gather demo_weigh answer_def demo_decision)
qed



theorem holds_are_bounded_witness:
  "\<exists>t'. history [demo_key, ''a''] (demo_tree demo_key) t' \<and> is_file t' (hold_path [demo_key, ''a''] ''s'' ''u'')
     \<and> hold_count [demo_key, ''a''] t' \<le> 2"
proof -
  let ?d = "[demo_key, ''a'']"
  obtain t' v where e: "evaluate_stop demo_env demo_stop (JStr ''t'') HOLD None None True (demo_tree demo_key) = (t', v)"
    "is_file t' (hold_path ?d ''s'' ''u'')" using demo_evaluated by blast
  have "wf_tree (demo_tree demo_key)" "hold_count ?d (demo_tree demo_key) = 0"
    by (simp_all add: wf_tree_def demo_tree_def below_def hold_count_def is_hold_def)
  moreover have h: "history ?d (demo_tree demo_key) t'" by (rule answered [OF begun e(1)])
  ultimately have "hold_count ?d t' \<le> MAX_HOLDS_PER_GENERATION" using holds_are_bounded [OF h] by blast
  then show ?thesis using h e(2) by (auto simp: MAX_HOLDS_PER_GENERATION_def)
qed

text \<open>Two evaluations decide to block before either claims; one of them answers with the block.\<close>

definition demo_stop_job :: job where
  "demo_stop_job = \<lparr>jb_env = demo_env, jb_dir = [demo_key, ''a''], jb_mode = HOLD, jb_ob = demo_observation,
     jb_counters = no_holds, jb_verdict = decide (\<lambda>_. None) demo_observation no_holds HOLD\<rparr>"

lemma demo_race:
  "\<exists>m. overlap\<^sup>*\<^sup>* \<lparr>mc_tree = demo_tree demo_key, mc_decided = [], mc_claimed = [], mc_answers = []\<rparr> m
     \<and> mc_tree m = held_tree demo_key \<and> mc_decided m = [demo_stop_job] \<and> mc_claimed m = [demo_stop_job] \<and> mc_answers m = []"
proof -
  let ?m0 = "\<lparr>mc_tree = demo_tree demo_key, mc_decided = [], mc_claimed = [], mc_answers = []\<rparr>"
  let ?m1 = "?m0\<lparr>mc_decided := [demo_stop_job]\<rparr>"
  let ?m2 = "?m0\<lparr>mc_decided := [demo_stop_job, demo_stop_job]\<rparr>"
  let ?m3 = "?m0\<lparr>mc_tree := held_tree demo_key, mc_decided := [demo_stop_job], mc_claimed := [demo_stop_job]\<rparr>"
  have stop: "sp_session (ob_stop demo_observation) = JStr ''s''" "sp_turn (ob_stop demo_observation) = JStr ''u''"
    "ob_now demo_observation = JStr ''t''" by (simp_all add: demo_observation_def demo_stop_def)
  have "overlap ?m0 ?m1"
    using overlap.decided [of demo_env ?m0 demo_stop "JStr ''t''" None None "[demo_key, ''a'']" demo_marker "[]"
        demo_observation HOLD] demo_gather demo_weigh by (simp add: demo_stop_job_def)
  moreover have "overlap ?m1 ?m2"
    using overlap.decided [of demo_env ?m1 demo_stop "JStr ''t''" None None "[demo_key, ''a'']" demo_marker "[]"
        demo_observation HOLD] demo_gather demo_weigh by (simp add: demo_stop_job_def)
  moreover have "overlap ?m2 ?m3"
    using overlap.claimed [of ?m2 "[]" demo_stop_job "[demo_stop_job]" "held_tree demo_key" "jb_verdict demo_stop_job"]
    by (simp add: demo_stop_job_def claim_hold_def demo_decision stop demo_reserve)
  ultimately have "overlap\<^sup>*\<^sup>* ?m0 ?m3" by (meson rtranclp.rtrancl_into_rtrancl rtranclp.rtrancl_refl)
  then show ?thesis by (intro exI [of _ ?m3]) simp
qed

theorem overlapping_stops_hold_once_witness:
  "\<exists>m v. overlap\<^sup>*\<^sup>* \<lparr>mc_tree = demo_tree demo_key, mc_decided = [], mc_claimed = [], mc_answers = []\<rparr> m
     \<and> mc_decided m = [demo_stop_job] \<and> mc_answers m = [(demo_stop_job, v)] \<and> vd_decision v = BLOCK
     \<and> length (filter (blocked [demo_key, ''a''] ''s'' ''u'') (mc_answers m)) \<le> 1"
proof -
  let ?m0 = "\<lparr>mc_tree = demo_tree demo_key, mc_decided = [], mc_claimed = [], mc_answers = []\<rparr>"
  obtain m where m: "overlap\<^sup>*\<^sup>* ?m0 m" "mc_tree m = held_tree demo_key" "mc_decided m = [demo_stop_job]"
    "mc_claimed m = [demo_stop_job]" "mc_answers m = []"
    using demo_race by auto
  let ?v = "jb_verdict demo_stop_job"
  obtain t where rec: "record_observation [demo_key, ''a''] (vd_record ?v) (held_tree demo_key)
      = Inr (t, Some ''hook/s/u/0'')"
    using demo_record [of "vd_record ?v" demo_key]
    by (auto simp: demo_stop_job_def decide_record demo_observation_def demo_stop_def)
  let ?w = "?v\<lparr>vd_assignment := Some ''a'', vd_counters := no_holds, vd_recorded := Some ''hook/s/u/0''\<rparr>"
  have "record_verdict (jb_dir demo_stop_job) True (jb_ob demo_stop_job) (jb_counters demo_stop_job) ?v (mc_tree m) = (t, Inr ?w)"
    using rec by (simp add: record_verdict_def m(2) demo_stop_job_def)
  then have "overlap m (m\<lparr>mc_tree := t, mc_claimed := [], mc_answers := [(demo_stop_job, ?w)]\<rparr>)"
    using overlap.recorded [of m "[]" demo_stop_job "[]" t ?w] m(4,5) by simp
  with m(1) have r: "overlap\<^sup>*\<^sup>* ?m0 (m\<lparr>mc_tree := t, mc_claimed := [], mc_answers := [(demo_stop_job, ?w)]\<rparr>)"
    by (rule rtranclp.rtrancl_into_rtrancl)
  have "vd_decision ?w = BLOCK" by (simp add: demo_stop_job_def demo_decision)
  then show ?thesis using r overlapping_stops_hold_once [OF r, of "[demo_key, ''a'']" "''s''" "''u''"] m(3) by fastforce
qed

section \<open>A child that ends ready\<close>

definition ready_stop :: stop_input where
  "ready_stop = \<lparr>sp_cwd = JStr ''/w'', sp_session = JStr ''child'', sp_turn = JStr ''turn-1'', sp_active = JBool False\<rparr>"

definition ready_entry :: Entry where
  "ready_entry = \<lparr>en_path = ''/work/a'', en_sha256 = JStr (replicate 64 (CHR ''a'')), en_bytes = None\<rparr>"

definition ready_receipt :: "string \<Rightarrow> json" where
  "ready_receipt revision = JObj [(''manifest'', JList [JObj [(''path'', JStr ''/work/a''),
     (''sha256'', JStr (replicate 64 (CHR ''a'')))]]), (''revisionHash'', JStr revision)]"

definition ready_row :: "string \<Rightarrow> event_row" where
  "ready_row revision = (demo_event ''ev'' ''h1'' 1)\<lparr>e_receipt := ready_receipt revision\<rparr>"

definition ready_db :: "string \<Rightarrow> db" where
  "ready_db revision = empty_db\<lparr>relationships := [demo_relationship], events := [ready_row revision]\<rparr>"

definition ready_env :: "string \<Rightarrow> guard_env" where
  "ready_env revision = demo_env\<lparr>ge_stores := (\<lambda>_. Some (ready_db revision)),
     ge_disk := (ge_disk demo_env)\<lparr>hash_path := (\<lambda>_ _ _. PathRead (replicate 64 (CHR ''a'')) 1 BEST_EFFORT_DETECTION)\<rparr>\<rparr>"

definition ready_tree :: "string \<Rightarrow> tree" where
  "ready_tree k = \<lparr>tr_files = [([k, ''a'', ''intent.json''], Fact (JObj [(''dbPath'', JStr ''db'')])),
     ([k, ''a'', ''bound.json''], Fact (JObj [(''sessionId'', JStr ''child'')])),
     ([k, ''a'', ''relationship.json''], Fact (JObj [(''relationshipId'', JStr ''rel'')])),
     ([k, ''a'', ''dispositions'', ''child'', ''turn-1.json''], Fact (JObj [(''sessionId'', JStr ''child''),
        (''turnId'', JStr ''turn-1''), (''outcome'', JStr ''ready_for_review'')]))],
     tr_denied = [], tr_sealed = []\<rparr>"

definition ready_marker :: json where
  "ready_marker = JObj [(''intent'', JObj [(''dbPath'', JStr ''db''), (''factId'', JStr ''intent'')]),
     (''bound'', JObj [(''sessionId'', JStr ''child''), (''factId'', JStr ''bound'')]),
     (''relationship'', JObj [(''relationshipId'', JStr ''rel''), (''factId'', JStr ''relationship'')]),
     (''attempts'', JList []), (''conflicts'', JList []), (''resolutions'', JList []), (''claims'', JList [])]"

definition ready_disposition :: json where
  "ready_disposition = JObj [(''sessionId'', JStr ''child''), (''turnId'', JStr ''turn-1''),
     (''outcome'', JStr ''ready_for_review''), (''factId'', JStr ''dispositions/child/turn-1'')]"

lemma ready_listed: "directories (ready_tree k) [k] = Some [''a'']"
  by (simp add: tree_defs ready_tree_def)

lemma ready_read: "read_assignment (ready_tree k) [k, ''a''] = (ready_marker, [])"
  by (simp add: tree_defs ready_tree_def ready_marker_def)

lemma ready_selected: "select_assignment (\<lambda>_. None) (ready_tree k) [k] (JStr ''child'') = (Some ([k, ''a''], ready_marker), [])"
proof -
  have c: "candidates (ready_tree k) [k] [''a''] = [(''a'', ready_marker, [])]"
    by (simp add: candidates_def ready_read has_key_def) (simp add: ready_marker_def has_key_def)
  have "\<not> list_ex (\<lambda>q. same_identity (jopt (claimant q)) (JStr ''child'')) (claims_of (''a'', ready_marker, []))" by code_simp
  then show ?thesis by (simp add: select_assignment_def ready_listed c)
qed

lemma ready_select_stop: "select_stop (ready_env r) (ready_tree demo_key) ready_stop = Inr (Some ([demo_key, ''a''], ready_marker), [])"
  by (simp add: select_stop_def ready_env_def demo_env_def ready_stop_def ready_selected demo_key_def [symmetric])

lemma ready_head_event: "head_event (ready_db r) ''rel'' (JStr ''child'') (JStr ''turn-1'') = Inr (Inr (demo_relationship, ready_row r))"
  by code_simp

definition ready_revision :: string where
  "ready_revision = sha256_hex (''/work/a:'' @ replicate 64 (CHR ''a''))"

lemma ready_hash: "revision_hash [ready_entry] = Inr ready_revision"
proof -
  have "canonical_payload [ready_entry] = Inr (''/work/a:'' @ replicate 64 (CHR ''a''))" by code_simp
  then show ?thesis by (simp add: revision_hash_def ready_revision_def)
qed

lemma ready_deliverable:
  "deliverable_state (ready_env ready_revision) (ready_receipt ready_revision) None [''/work'']
     = Inr (DELIVERABLE_CURRENT ''live'')"
proof -
  have "ready_revision \<noteq> []" using sha.digest_length [of "''/work/a:'' @ replicate 64 (CHR ''a'')"]
    by (auto simp: ready_revision_def)
  moreover have "stored_entries [JObj [(''path'', JStr ''/work/a''), (''sha256'', JStr (replicate 64 (CHR ''a'')))]]
      = Inr [ready_entry]"
    by (simp add: stored_entry_def py_item_def ready_entry_def)
  moreover have "verify_against_disk (ge_disk (ready_env r)) [ready_entry] roots False
      = Inr ([], [(''/work/a'', BEST_EFFORT_DETECTION)])" for r roots
    by (simp add: ready_env_def ready_entry_def sha_is_def)
  ultimately show ?thesis
    by (simp add: deliverable_state_def judged_deliverable_def ready_receipt_def ready_hash verified_entries_def)
qed

lemma ready_found:
  "lookup_receipt (ready_env ready_revision) (Some ''db'') (JStr ''rel'') (JStr ''child'') (JStr ''turn-1'')
     = Inr (Some \<lparr>fr_relationship = JStr ''rel'', fr_session = JStr ''child'', fr_turn = JStr ''turn-1'',
         fr_at_head = True, fr_evidence = ''at_head'', fr_event = Some ''ev'', fr_binding = Some ''live''\<rparr>, True)"
proof -
  have n: "named (JStr ''rel'')" "named (JStr ''child'')" "named (JStr ''turn-1'')" by code_simp+
  have row: "e_receipt (ready_row r) = ready_receipt r" "e_manifest_ref (ready_row r) = None" "e_id (ready_row r) = ''ev''"
    "r_artifact_roots demo_relationship = [''/work'']" for r
    by (simp_all add: ready_row_def demo_event_def demo_relationship_def)
  have store: "ge_stores (ready_env r) p = Some (ready_db r)" for r p by (simp add: ready_env_def)
  show ?thesis by (simp add: lookup_receipt_def Let_def n store ready_head_event row ready_deliverable)
qed

definition ready_observation :: observation where
  "ready_observation = \<lparr>ob_stop = ready_stop, ob_marker = ready_marker, ob_disposition = ready_disposition,
     ob_receipt = Some \<lparr>fr_relationship = JStr ''rel'', fr_session = JStr ''child'', fr_turn = JStr ''turn-1'',
         fr_at_head = True, fr_evidence = ''at_head'', fr_event = Some ''ev'', fr_binding = Some ''live''\<rparr>,
     ob_unreadable = [], ob_malformed = None, ob_now = JStr ''t''\<rparr>"

lemma ready_gather:
  "gather (ready_env ready_revision) (ready_tree k) ready_stop (JStr ''t'') None None (Some ([k, ''a''], ready_marker)) []
     = Inr ready_observation"
proof -
  have seg: "valid_segment (JStr ''child'')" "valid_segment (JStr ''turn-1'')" by code_simp+
  then have disp: "read_disposition (ready_tree k) [k, ''a''] (JStr ''child'') (JStr ''turn-1'') = (ready_disposition, True)"
    by (simp add: read_disposition_def tree_defs ready_tree_def ready_disposition_def)
  have stop: "sp_session ready_stop = JStr ''child''" "sp_turn ready_stop = JStr ''turn-1''"
    by (simp_all add: ready_stop_def)
  have shape: "malformed_marker ready_marker = None" "malformed_disposition ready_disposition = None"
    "declared_outcome ready_disposition (JStr ''child'') (JStr ''turn-1'') = JStr ''ready_for_review''"
    "is_obj (jget ready_marker ''relationship'')"
    "jget (jget ready_marker ''relationship'') ''relationshipId'' = JStr ''rel''"
    "jget (jget ready_marker ''intent'') ''dbPath'' = JStr ''db''"
    by code_simp+
  show ?thesis
    by (simp add: gather_def gather_receipt_def Let_def stop seg disp shape ready_found ready_observation_def
        del: jget.simps)
qed

lemma ready_decision:
  "vd_state (decide instant ready_observation (JObj []) OBSERVE) = DECLARED_READY_RECEIPTED"
  "vd_decision (decide instant ready_observation (JObj []) OBSERVE) = RELEASE"
  "vd_observation (decide instant ready_observation (JObj []) OBSERVE) \<notin> set OMISSIONS"
proof -
  have "observe_state ready_observation = DECLARED_READY_RECEIPTED" by code_simp
  then show "vd_state (decide instant ready_observation (JObj []) OBSERVE) = DECLARED_READY_RECEIPTED"
    "vd_decision (decide instant ready_observation (JObj []) OBSERVE) = RELEASE"
    "vd_observation (decide instant ready_observation (JObj []) OBSERVE) \<notin> set OMISSIONS"
    by (simp_all add: decide_def Let_def stop_verdict_def OMISSIONS_def)
qed

theorem ready_release_rests_on_a_receipt_witness:
  "\<exists>t' v db r (row :: event_row). evaluate_stop (ready_env ready_revision) ready_stop (JStr ''t'') OBSERVE None None False
      (ready_tree demo_key) = (t', v) \<and> vd_decision v = RELEASE \<and> vd_state v = DECLARED_READY_RECEIPTED
    \<and> relationship_of db ''rel'' = Some r \<and> r_status r = ''active'' \<and> e_producer row = ''child''
    \<and> JStr (e_turn row) = JStr ''turn-1''"
proof -
  let ?env = "ready_env ready_revision" and ?t = "ready_tree demo_key"
  have "\<exists>t' v. evaluate_stop ?env ready_stop (JStr ''t'') OBSERVE None None False ?t = (t', v)
      \<and> vd_decision v = RELEASE \<and> vd_state v = DECLARED_READY_RECEIPTED"
    by (simp add: evaluate_stop_def ready_select_stop ready_gather weigh_def Let_def ready_decision settle_stop_def
        claim_hold_def record_verdict_def answer_def)
  then obtain t' v where e: "evaluate_stop ?env ready_stop (JStr ''t'') OBSERVE None None False ?t = (t', v)"
    "vd_decision v = RELEASE" "vd_state v = DECLARED_READY_RECEIPTED" by blast
  have sel: "select_stop ?env ?t ready_stop = Inr (Some ([demo_key, ''a''], ready_marker), [])"
    by (rule ready_select_stop)
  have rid: "jget (jget ready_marker ''relationship'') ''relationshipId'' = JStr ''rel''" by code_simp
  obtain d marker rid' db r and row :: event_row where f: "select_stop ?env ?t ready_stop = Inr (Some (d, marker), [])"
    "jget (jget marker ''relationship'') ''relationshipId'' = JStr rid'"
    "relationship_of db rid' = Some r" "r_status r = ''active''" "e_producer row = ''child''"
    "sp_turn ready_stop = JStr (e_turn row)"
    using ready_release_rests_on_a_receipt [OF e(1,3)] by (elim exE conjE) (rule that; assumption)
  from f(1,2) sel rid have "rid' = ''rel''" by simp
  with f(3-6) have "relationship_of db ''rel'' = Some r \<and> r_status r = ''active'' \<and> e_producer row = ''child''
      \<and> JStr (e_turn row) = JStr ''turn-1''" by (simp add: ready_stop_def)
  then show ?thesis using e by blast
qed

section \<open>Intents, binds and adjudications\<close>

definition intent_tree :: tree where
  "intent_tree = \<lparr>tr_files = [([''w'', replicate 64 (CHR ''a''), ''intent.json''],
     Fact (JObj [(''declaredAt'', JStr ''0'')]))], tr_denied = [], tr_sealed = []\<rparr>"

definition hours :: "string \<Rightarrow> rat option" where
  "hours s = (if s = ''0'' then Some 0 else if s = ''2'' then Some 7200 else None)"

theorem assignment_never_goes_back_witness:
  "\<exists>t'. publish [''w'', replicate 64 (CHR ''a''), ''attempts'', ''0.json'']
         (JObj [(''outcome'', JStr ''accepted''), (''taskId'', JStr ''k'')]) intent_tree = Inr (t', PUBLISHED)
     \<and> derive_assignment_state hours (fst (read_assignment intent_tree [''w'', replicate 64 (CHR ''a'')])) (JStr ''2'')
       = INTENT_EXPIRED
     \<and> may_follow INTENT_EXPIRED
         (derive_assignment_state hours (fst (read_assignment t' [''w'', replicate 64 (CHR ''a'')])) (JStr ''2''))"
proof -
  let ?a = "replicate 64 (CHR ''a'')" and ?p = "JObj [(''outcome'', JStr ''accepted''), (''taskId'', JStr ''k'')]"
  obtain t' where t': "publish [''w'', ?a, ''attempts'', ''0.json''] ?p intent_tree = Inr (t', PUBLISHED)"
    by (auto simp: publish_def intent_tree_def through_file_def below_def is_file_def is_dir_def)
  have m: "fst (read_assignment intent_tree [''w'', ?a]) = JObj [(''intent'', JObj [(''declaredAt'', JStr ''0''),
      (''factId'', JStr ''intent'')]), (''attempts'', JList []), (''conflicts'', JList []), (''resolutions'', JList []),
      (''claims'', JList [])]"
    by code_simp
  have now: "moment hours (JStr ''2'') = Some 7200" "moment hours (JStr ''0'') = Some 0"
    by (simp_all add: moment_def hours_def)
  have "derive_assignment_state hours (fst (read_assignment intent_tree [''w'', ?a])) (JStr ''2'') = INTENT_EXPIRED"
    by (simp add: m derive_assignment_state_def ambiguity_resolved_def accepted_tasks_def accepted_attempts_def
        jlist_def window_closed_def now BINDING_WINDOW_MINUTES_def)
  moreover have "wf_tree intent_tree" by (simp add: wf_tree_def intent_tree_def below_def)
  ultimately show ?thesis
    using assignment_never_goes_back [OF published_one [OF t'] _ now(1) now(1) order_refl, of "[''w'', ?a]"] t' by auto
qed

definition one_assignment :: string where "one_assignment = replicate 64 (CHR ''a'')"

lemma one_assignment_valid: "check_assignment one_assignment = Inr ()"
  by code_simp

lemma intent_tree_fine: "wf_tree intent_tree" "tr_denied intent_tree = []"
  by (simp_all add: wf_tree_def intent_tree_def below_def)

definition bound_tree :: tree where
  "bound_tree = intent_tree\<lparr>tr_files := tr_files intent_tree @ [([''w'', one_assignment, ''bound.json''],
     Fact (JObj [(''sessionId'', JStr ''s''), (''taskId'', JStr ''k''), (''at'', JStr ''t'')]))]\<rparr>"

lemma first_bind:
  "bind_intent [''w''] one_assignment (JStr ''s'') (JStr ''k'') ''p1'' ''t'' intent_tree = Inr (bound_tree, BIND_FIRST)"
proof -
  have "named (JStr ''s'')" "named (JStr ''k'')" by code_simp+
  then show ?thesis
    by (simp add: bind_intent_def directory_of_def one_assignment_valid bound_tree_def)
       (simp add: publish_def intent_tree_def one_assignment_def through_file_def below_def is_file_def is_dir_def)
qed

lemma second_bind:
  "\<exists>t. bind_intent [''w''] one_assignment (JStr ''s2'') (JStr ''k2'') ''p2'' ''t'' bound_tree
     = Inr (t, BIND_CONFLICT ''conflicts/0'' (JStr ''s'') (JStr ''k''))"
proof -
  have "case bind_intent [''w''] one_assignment (JStr ''s2'') (JStr ''k2'') ''p2'' ''t'' bound_tree of
      Inr (t, r) \<Rightarrow> r = BIND_CONFLICT ''conflicts/0'' (JStr ''s'') (JStr ''k'') | Inl _ \<Rightarrow> False"
    by code_simp
  then show ?thesis by (auto split: sum.splits prod.splits)
qed

theorem binding_is_decided_once_witness:
  "\<exists>t f. bind_intent [''w''] one_assignment (JStr ''s2'') (JStr ''k2'') ''p2'' ''t'' bound_tree
       = Inr (t, BIND_CONFLICT ''conflicts/0'' (JStr ''s'') (JStr ''k''))
     \<and> jget (winner_of t [''w'', one_assignment]) ''sessionId'' = JStr ''s''
     \<and> f \<in> set (facts_under t [''w'', one_assignment] ''conflicts'') \<and> jget f ''attemptedSessionId'' = JStr ''s2''"
proof -
  obtain t where t: "bind_intent [''w''] one_assignment (JStr ''s2'') (JStr ''k2'') ''p2'' ''t'' bound_tree
     = Inr (t, BIND_CONFLICT ''conflicts/0'' (JStr ''s'') (JStr ''k''))" using second_bind by blast
  show ?thesis
    using binding_is_decided_once [OF intent_tree_fine first_bind none t] t by auto
qed

text \<open>The loser's record is the one competing fact; an adjudication that names it settles the contest.\<close>

definition contest_tree :: tree where
  "contest_tree = bound_tree\<lparr>tr_files := tr_files bound_tree
     @ [([''w'', one_assignment, ''conflicts'', ''0.json''], Fact (JObj (conflict_fact (JStr ''s2'') (JStr ''k2'') ''p2'' ''t'')))]\<rparr>"

lemma contest_facts:
  "malformed_marker (fst (read_assignment contest_tree [''w'', one_assignment])) = None"
  "jget (winner_of contest_tree [''w'', one_assignment]) ''taskId'' = JStr ''k''"
  "jget (winner_of contest_tree [''w'', one_assignment]) ''sessionId'' = JStr ''s''"
  "jtruthy (winner_of contest_tree [''w'', one_assignment])"
  "facts_under contest_tree [''w'', one_assignment] ''resolutions'' = []"
  "competing_facts (fst (read_assignment contest_tree [''w'', one_assignment])) \<noteq> []"
  "next_index contest_tree [''w'', one_assignment, ''resolutions''] = Inr (Some 0)"
  by code_simp+

lemma contest_open: "identity_contested (fst (read_assignment contest_tree [''w'', one_assignment]))"
  using contest_facts(6)
  by (cases "competing_facts (fst (read_assignment contest_tree [''w'', one_assignment]))")
     (simp_all add: identity_contested_def Let_def contest_facts(4,5) covered_def)

lemma contest_fine: "wf_tree contest_tree" "tr_denied contest_tree = []"
  by (simp_all add: wf_tree_def contest_tree_def bound_tree_def intent_tree_def one_assignment_def below_def)

lemma contest_resolved:
  "\<exists>t'. publish_resolution [''w''] one_assignment task session why stamp (map adjudication fs) contest_tree
     = Inr (t', ''resolutions/0'')"
proof -
  have zero: "int_str 0 = ''0''" by code_simp
  have "\<exists>t'. publish ([''w'', one_assignment, ''resolutions''] @ [int_str 0 @ ''.json'']) v contest_tree = Inr (t', PUBLISHED)" for v
    by (simp add: zero publish_def contest_tree_def bound_tree_def intent_tree_def through_file_def below_def is_file_def is_dir_def)
  then obtain f where "publish ([''w'', one_assignment, ''resolutions''] @ [int_str 0 @ ''.json'']) v contest_tree
      = Inr (f v, PUBLISHED)" for v by metis
  then have "publish_slot (Suc 63) e [''w'', one_assignment, ''resolutions''] v contest_tree = Inr (f v, 0)" for e v
    by (simp only: publish_slot.simps contest_facts bindE_Inr option.case) simp
  then show ?thesis
    by (simp add: publish_resolution_def directory_of_def one_assignment_valid adjudications_of publish_numbered_def zero)
qed

theorem adjudication_settles_the_contest_witness:
  "identity_contested (fst (read_assignment contest_tree [''w'', one_assignment]))
   \<and> (\<exists>t'. publish_resolution [''w''] one_assignment (JStr ''k'') (JStr ''s'') JNull ''t''
          (map adjudication (competing_facts (fst (read_assignment contest_tree [''w'', one_assignment])))) contest_tree
          = Inr (t', ''resolutions/0'')
       \<and> \<not> identity_contested (fst (read_assignment t' [''w'', one_assignment])))"
proof -
  let ?m = "fst (read_assignment contest_tree [''w'', one_assignment])"
  obtain t' where t': "publish_resolution [''w''] one_assignment (JStr ''k'') (JStr ''s'') JNull ''t''
      (map adjudication (competing_facts ?m)) contest_tree = Inr (t', ''resolutions/0'')"
    using contest_resolved by blast
  have named: "named (JStr ''k'')" "named (JStr ''s'')" by code_simp+
  have "\<not> identity_contested (fst (read_assignment t' [''w'', one_assignment]))"
    by (rule adjudication_settles_the_contest [OF contest_fine, of _ "[''w'']" one_assignment JNull "''t''" t' "''resolutions/0''"])
       (simp_all add: contest_facts named t')
  then show ?thesis using t' contest_open by blast
qed

section \<open>Registering and claiming\<close>

definition dispatched_db :: db where
  "dispatched_db = empty_db\<lparr>relationships := [demo_relationship], generations := [\<lparr>g_rel = ''rel'', g_no = 1,
     g_dispatch_request = ''q'', g_anchor_state = ANCHOR_BOUND, g_dispatch_turn = Some ''turn-1'',
     g_reason = ''initial_assignment'', g_opened_at = ''t0'', g_bound_at = Some ''t0''\<rparr>]\<rparr>"

definition empty_tree :: tree where "empty_tree = \<lparr>tr_files = [], tr_denied = [], tr_sealed = []\<rparr>"

lemma publish_empty: "publish p v empty_tree = Inr (\<lparr>tr_files = [(p, Fact v)], tr_denied = [], tr_sealed = []\<rparr>, PUBLISHED)"
  by (simp add: publish_def empty_tree_def through_file_def is_file_def is_dir_def)

theorem registration_names_the_current_generation_witness:
  "\<exists>t' out db r g. register_relationship (\<lambda>_. Some dispatched_db) [''w''] (sha256_hex ''q'') ''rel'' ''q'' ''t'' (Some ''db'')
        empty_tree = Inr (t', out)
     \<and> relationship_of db ''rel'' = Some r \<and> g \<in> set (generations db) \<and> g_dispatch_request g = ''q''
     \<and> g_no g = r_generation r"
proof -
  have n: "named (JStr ''rel'')" by code_simp
  have st: "dispatch_generation_state (\<lambda>_. Some dispatched_db) (Some ''db'') ''rel'' ''q'' = (DISPATCH_CURRENT, True)"
    by code_simp
  have "check_assignment (sha256_hex ''q'') = Inr ()"
    by (simp add: check_assignment_def valid_assignment_def sha.digest_re)
  then obtain t' out where r: "register_relationship (\<lambda>_. Some dispatched_db) [''w''] (sha256_hex ''q'') ''rel'' ''q'' ''t'' (Some ''db'')
        empty_tree = Inr (t', out)"
    by (simp add: register_relationship_def n st assignment_id_def directory_of_def publish_or_compare_def publish_empty)
  show ?thesis using registration_names_the_current_generation [OF r] r by blast
qed

theorem claim_correlates_witness:
  "\<exists>t1 t3. declare_intent id ''/w'' (JStr ''q'') \<lparr>in_issue_key = JNull, in_criteria_source = JNull, in_baseline_revision = JNull,
        in_authorized_settings = JNull, in_db_path = None\<rparr> ''t'' empty_tree = Inr (t1, sha256_hex ''q'', FIRST)
     \<and> publish_claim [workspace_key id ''/w''] (sha256_hex ''q'') (JStr ''s'') ''q'' JNull ''t'' t1 = Inr (t3, FIRST)
     \<and> correlated (fst (read_assignment t3 [workspace_key id ''/w'', sha256_hex ''q''])) (JStr ''s'')"
proof -
  let ?args = "\<lparr>in_issue_key = JNull, in_criteria_source = JNull, in_baseline_revision = JNull,
    in_authorized_settings = JNull, in_db_path = None\<rparr>"
  have n: "named (JStr ''q'')" "valid_segment (JStr ''s'')" by code_simp+
  have ok: "check_assignment (sha256_hex ''q'') = Inr ()"
    by (simp add: check_assignment_def valid_assignment_def sha.digest_re)
  obtain t1 v where i: "declare_intent id ''/w'' (JStr ''q'') ?args ''t'' empty_tree = Inr (t1, sha256_hex ''q'', FIRST)"
    and t1: "t1 = \<lparr>tr_files = [([workspace_key id ''/w'', sha256_hex ''q'', ''intent.json''], Fact v)], tr_denied = [], tr_sealed = []\<rparr>"
    by (simp add: declare_intent_def n ok assignment_id_def assignment_dir_def publish_or_compare_def publish_empty)
  obtain t3 where c: "publish_claim [workspace_key id ''/w''] (sha256_hex ''q'') (JStr ''s'') ''q'' JNull ''t'' t1 = Inr (t3, FIRST)"
    by (simp add: publish_claim_def check_identity_def n assignment_id_def directory_of_def ok publish_or_compare_def
        publish_def t1 through_file_def below_def is_file_def is_dir_def)
  have "wf_tree empty_tree" "tr_denied empty_tree = []" by (simp_all add: empty_tree_def wf_tree_def)
  then show ?thesis using claim_correlates [OF _ _ i none c none n(1)] i c by blast
qed

end
