(* ===== verification/Spec2Isabelle.thy ===== *)
theory Spec2Isabelle
  imports Relay_Machine Ack_Examples Sync_Safety Report_Guarantees Guard_Examples
begin

text \<open>
  The session relay of this repository, \<^verbatim>\<open>packages/codex-session-relay/src/codex_session_relay\<close>
  (file names below are relative to it). A parent task assigns an issue to a child task; the child
  submits receipts of its work; the relay delivers each accepted one to the parent, and each correction
  the parent asks for back to the child, through a host that may refuse, time out or lie dormant; the
  parent acknowledges and rules. Everything durable of that is in one
  SQLite database, which several processes share. Two components work beside it: before there is a child,
  the coordinator declares, binds and registers an assignment by create-once files in a marker directory,
  and the completion guard reads those files when a turn of the child ends; and the outbox of the issue
  tracker mirrors the state of the relationships into a managed block of a document.

  \<^bold>\<open>How the program is modelled.\<close> \<open>Store\<close> has one record per table of \<^verbatim>\<open>store.py\<close> and the record
  \<open>db\<close> of all tables, each a list of rows in insertion order; nullable columns are options and JSON
  columns hold decoded values (\<open>json\<close>). An operation that is one transaction is a function from
  \<open>db\<close> to an error or the new \<open>db\<close> (an error rolls back); one that commits more than once returns the
  \<open>db\<close> beside its result. Errors are values: \<open>RelayError\<close> with its class and reason, and the Python
  errors the code can raise. The wall clock is read once per operation and passed in (\<open>clock\<close>, and the
  seconds as a rational). The host adapter of \<^verbatim>\<open>hostadapter.py\<close> is a record of functions, \<open>host\<close>, and every
  operation that reads the host takes one: nothing is assumed of it. Also parameters: the disk behind a
  manifest (\<open>disk\<close>), the composition of a message where only its being frozen matters (\<open>renderer\<close>; it
  is defined in \<open>Report_Compose\<close>), \<^verbatim>\<open>datetime.fromisoformat\<close> (\<open>instant\<close>), the resolution of a
  working directory, the opening of a store by its path, and which problems of a verification were
  failures to read (the record \<open>guard_env\<close>). Strings are lists of code points below 256. SHA-256 is computed
  (\<open>Sha256\<close>); no theorem assumes it free of collisions, the injectivity properties are about the hashed
  payloads.

  \<^bold>\<open>The theories\<close>, in the order they build on each other:
  \<^item> \<open>Relay_Prelude\<close> (\<^verbatim>\<open>errors.py\<close>, \<^verbatim>\<open>clock.py\<close>): error and JSON values, text, tables, and the interface
    \<open>invariant_machine\<close> by which a component states what its steps keep;
  \<^item> \<open>Sha256\<close>, \<open>Identity\<close> (\<^verbatim>\<open>identity.py\<close>): every identifier, its payload and its pattern;
  \<^item> \<open>Policy\<close> (\<^verbatim>\<open>policy.py\<close>): delays and caps; \<open>Transport\<close> (\<^verbatim>\<open>transport.py\<close>): what a receipt of the host
    proves, and the attempt record;
  \<^item> \<open>Store\<close> (\<^verbatim>\<open>store.py\<close>), \<open>Lifecycle\<close> (\<^verbatim>\<open>lifecycle.py\<close>), \<open>Settings\<close> (\<^verbatim>\<open>settings.py\<close>), \<open>Restoration\<close>
    (\<^verbatim>\<open>restoration.py\<close>), \<open>Scope\<close> (\<^verbatim>\<open>scope.py\<close>);
  \<^item> \<open>Currency\<close> (\<^verbatim>\<open>currency.py\<close>): the head of a generation; \<open>Registry\<close> (\<^verbatim>\<open>registry.py\<close>): assignments,
    generations and anchors, with the machine \<open>registry_step\<close>;
  \<^item> \<open>Delivery_Queue\<close>, \<open>Delivery_Attempt\<close> (\<^verbatim>\<open>delivery.py\<close>): queue, fair selection, suppression, the claim and
    the attempt; \<open>Delivery_Safety\<close>: the invariant \<open>delivery_inv\<close> of deliveries, attempts and frozen messages;
    \<open>Reconcile\<close> (\<^verbatim>\<open>reconcile.py\<close>): what settles an uncertain attempt, and the restart pass;
  \<^item> \<open>Python_Text\<close>, \<open>Manifest\<close> (\<^verbatim>\<open>manifest.py\<close>), \<open>Criteria\<close> (\<^verbatim>\<open>criteria.py\<close>), \<open>Admission\<close>
    (\<^verbatim>\<open>admission.py\<close>), \<open>Receipts\<close> and \<open>Receipt_Safety\<close> (\<^verbatim>\<open>receipts.py\<close>): the intake of receipts, with the
    machine \<open>intake_step\<close>;
  \<^item> \<open>Ack\<close>, \<open>Ack_Safety\<close>, \<open>Ack_Examples\<close> (\<^verbatim>\<open>ack.py\<close>): acknowledgements, verdicts and the deferred
    verification, with the machine \<open>ack_step\<close>;
  \<^item> \<open>Text_Lines\<close>, \<open>Sync_Block\<close>, \<open>Sync_Roundtrip\<close>, \<open>Sync_Outbox\<close>, \<open>Sync_Safety\<close> (\<^verbatim>\<open>sync.py\<close>): the
    managed block and the parser of a document, the jobs of the outbox with their leases, and the machine
    of its operations;
  \<^item> \<open>Cxc\<close> (\<^verbatim>\<open>cxc.py\<close>): report statuses, the judgment line and its reader, the ending of a wait;
  \<^item> \<open>Report_Compose\<close>, \<open>Report_Lines\<close>, \<open>Report_Record\<close>, \<open>Report_Safety\<close>, \<open>Report_Total\<close>,
    \<open>Report_Guarantees\<close> (\<^verbatim>\<open>report.py\<close>): the validation and recording of a work report, every section of a
    completion and of a correction, and the fitting of a message to its budget;
  \<^item> \<open>Marker\<close>, \<open>Marker_Safety\<close> (\<^verbatim>\<open>marker.py\<close>): the file tree, its create-once publication and its
    readers; the locale \<open>create_once\<close> states what publication promises, and its clients' lemmas rest on
    the interpretation \<open>marker\<close>;
  \<^item> \<open>Intent\<close>, \<open>Intent_Safety\<close> (\<^verbatim>\<open>intent.py\<close>): the facts of an assignment, the state derived from them, the
    bind and its conflicts, adjudication and registration;
  \<^item> \<open>Guard\<close>, \<open>Guard_Safety\<close>, \<open>Guard_Bounds\<close>, \<open>Guard_Examples\<close> (\<^verbatim>\<open>guard.py\<close>): one evaluation of the end of a
    turn, split into what it reads and what it writes, with the history of an assignment (\<open>history\<close>) and
    the interleaving of evaluations (\<open>overlap\<close>);
  \<^item> \<open>Relay_Machine\<close>: all operations as steps of one machine \<open>relay_step\<close> on the shared store, and the
    abstract life of a delivery (\<open>phase\<close>, \<open>move\<close>) that the machine refines.

  \<^bold>\<open>What the theorems show.\<close> Across components (this theory): at most one attempt of an event can have
  reached its recipient in any reachable state; the relay refines the life of a delivery; a dispatched
  delivery is never sent again; the restart pass is a run of the machine. Per component: what a claim, a
  transport call, a reconciliation, an accepted receipt, a final event, an acknowledgement and a verdict
  rest on; that corrections are written whole; that generations, anchors, settled events and verified
  acknowledgements are kept; ownership of an issue; the head of a generation and its independence of
  arrival order; fairness of the selection; containment of paths; injectivity and round trips of the
  identities; and error behaviour. Of the outbox: what a confirmation rests on, the fencing of superseded
  claims, and that a document is read back block for block. Of the reports: that a composed message keeps
  its budget and names what it dropped, that what was delivered is never rewritten, and which last line
  can be read as a verdict. Of the marker and the guard: that the state of an assignment never goes back,
  that a bind is decided once and a contest is settled by adjudication only, what a hold and a ready
  release rest on, that an evaluation only adds files, and that holds are bounded, also when evaluations
  overlap. A few theorems record what the code does against its intention:
  \<open>late_settle_reopens\<close>, \<open>ownership_gaps\<close>, \<open>withheld_ack_wedges_the_pass\<close>, \<open>refused_receipt_still_admits\<close>,
  \<open>unbindable_identity_escapes\<close>, \<open>payload_collides_on_newline\<close>, \<open>digest_check_accepts_newline\<close>.

  \<^bold>\<open>Bounds.\<close> One fuel is the program's own: a numbered fact is published under the next free number, and
  \<open>publish_slot\<close> gives up after as many collisions as the code does (64). Otherwise no fuel is used: loops of the program are structural or have a measure (\<open>deal\<close>,
  \<open>returns_to_seen\<close>, \<open>doublings\<close>), and \<open>chain\<close> walks at most as many steps as there are revisions.

  \<^bold>\<open>Interleaving.\<close> A step of \<open>relay_step\<close> is one transaction or one whole attempt; claiming and reporting are
  also steps of their own, so that anything may happen while a message is in flight. The write of
  \<^verbatim>\<open>DeliveryService._settle\<close> has no guard of its own; the step \<open>reporting\<close> is its guarded use, and
  \<open>late_settle_reopens\<close> is what its unguarded use does.

  \<^bold>\<open>Not modelled\<close>: SQLite itself and schema migration; the text of exceptions, of the reasons a guard
  gives and of the packet protocol of \<^verbatim>\<open>sync.py\<close>; file leases of \<^verbatim>\<open>scope.py\<close> and the writing of frozen
  manifests; symbolic links, temporary files and the choice of the marker root in \<^verbatim>\<open>marker.py\<close>;
  \<^verbatim>\<open>assignment.py\<close>; the process loop of \<^verbatim>\<open>daemon.py\<close> and \<^verbatim>\<open>service.py\<close>; command line, session files and
  the bridge client; the thread bridge package; installers, hooks and CI scripts.
\<close>

section \<open>Properties of the whole relay\<close>


text \<open>A store on which a first attempt was refused as busy and a second one reached the recipient.\<close>

definition busy_reply :: json where
  "busy_reply = JObj [(''status'', JStr ''failed''), (''rpcError'', JObj [(''code'', JStr ''thread_busy'')])]"

definition busy_host :: host where
  "busy_host = idle_host\<lparr>get_operation := \<lambda>_. Inr (Some busy_reply),
     send_message := \<lambda>_ _ _ _. Inr busy_reply\<rparr>"

definition once_refused :: db where
  "once_refused = fst (attempt demo_config busy_host demo_clock 1000 ''w1'' demo_id demo_ready)"

definition then_sent :: db where
  "then_sent = fst (attempt demo_config idle_host demo_clock 2000 ''w2'' demo_id once_refused)"

lemma then_sent_reachable: "reachable relay_step demo_ready then_sent"
proof -
  have "reachable relay_step demo_ready once_refused"
    unfolding once_refused_def by (intro reach_one attempting)
  then show ?thesis
    unfolding then_sent_def by (rule reach_step) (rule attempting)
qed






text \<open>
  C23: The restart pass is itself a run of the machine, so all that holds in every reachable state holds
  after it.
\<close>

theorem recovery_is_a_run:
  assumes "delivery_inv db"
  shows "reachable relay_step db (fst (recover_on_start p adapter clk now db))
    \<and> (\<forall>ev. move\<^sup>*\<^sup>* (phase_of db ev) (phase_of (fst (recover_on_start p adapter clk now db)) ev))"
  using recover_run [OF assms] life_machine.reachable_inv [OF recover_run [OF assms], of db] assms
    lives_same [of db db]
  by (simp add: lives_def)

theorem recovery_is_a_run_witness:
  "phase_of demo_inflight demo_id = Phase SENDING 1
   \<and> phase_of (fst (recover_on_start default_policy found_host demo_clock 1000 demo_inflight)) demo_id
       = Phase DISPATCHED 1
   \<and> move\<^sup>*\<^sup>* (Phase SENDING 1) (Phase DISPATCHED 1)"
proof -
  have p: "phase_of demo_inflight demo_id = Phase SENDING 1"
    "phase_of (fst (recover_on_start default_policy found_host demo_clock 1000 demo_inflight)) demo_id
       = Phase DISPATCHED 1" by code_simp+
  have "delivery_inv demo_inflight"
    unfolding demo_inflight_def by (rule claim_inv [OF demo_ready_inv])
  from recovery_is_a_run [OF this, of default_policy found_host demo_clock 1000] p show ?thesis by metis
qed

text \<open>The stores of a run in which the settlement of a first attempt comes late.\<close>

definition late1 :: db where
  "late1 = fst (claim demo_config demo_clock demo_id 1000 ''w1'' ''parent'' demo_ready)"

definition late2 :: db where
  "late2 = (case reconcile_attempt default_policy busy_host demo_clock 1010 demo_request late1 of
     Inr (db, _) \<Rightarrow> db | _ \<Rightarrow> late1)"

definition late3 :: db where
  "late3 = fst (attempt demo_config idle_host demo_clock 2000 ''w2'' demo_id late2)"

definition busy_settle :: "db \<Rightarrow> err + db" where
  "busy_settle db = bindE (classify_operation_receipt busy_reply) (\<lambda>facts.
     bindE (attempt_record facts demo_request demo_id 1 ''parent'' ''idle'' ''t1'' None) (\<lambda>rcd.
       settle default_policy demo_clock demo_id demo_request rcd facts False 1000 db))"

definition late4 :: db where
  "late4 = (case busy_settle late3 of Inr db \<Rightarrow> db | _ \<Rightarrow> late3)"

lemma late_claim: "\<exists>m. claim demo_config demo_clock demo_id 1000 ''w1'' ''parent'' demo_ready
    = (late1, Inr (1, demo_request, m))"
proof -
  have "(case snd (claim demo_config demo_clock demo_id 1000 ''w1'' ''parent'' demo_ready) of
      Inr (n, rq, _) \<Rightarrow> n = 1 \<and> rq = demo_request | _ \<Rightarrow> False)" by code_simp
  then show ?thesis
    unfolding late1_def by (cases "claim demo_config demo_clock demo_id 1000 ''w1'' ''parent'' demo_ready")
      (auto split: sum.splits)
qed

lemma late_reconcile: "\<exists>rc. reconcile_attempt default_policy busy_host demo_clock 1010 demo_request late1
    = Inr (late2, rc)"
proof -
  have "(case reconcile_attempt default_policy busy_host demo_clock 1010 demo_request late1 of
      Inr _ \<Rightarrow> True | _ \<Rightarrow> False)" by code_simp
  then show ?thesis unfolding late2_def by (auto split: sum.splits)
qed

lemma late_attempt: "\<exists>m r. attempt demo_config idle_host demo_clock 2000 ''w2'' demo_id late2
    = (late3, [(''del-aaaaaaaaaaaa-a2'', ''parent'', m)], r)"
proof -
  have "(case fst (snd (attempt demo_config idle_host demo_clock 2000 ''w2'' demo_id late2)) of
      [(q, t, _)] \<Rightarrow> q = ''del-aaaaaaaaaaaa-a2'' \<and> t = ''parent'' | _ \<Rightarrow> False)" by code_simp
  then show ?thesis
    unfolding late3_def by (cases "attempt demo_config idle_host demo_clock 2000 ''w2'' demo_id late2")
      (auto split: list.splits)
qed

lemma late_settle: "busy_settle late3 = Inr late4"
proof -
  have "(case busy_settle late3 of Inr _ \<Rightarrow> True | _ \<Rightarrow> False)" by code_simp
  then show ?thesis unfolding late4_def by (auto split: sum.splits)
qed

lemma late_resend: "\<exists>db5 m r. attempt demo_config idle_host demo_clock 3000 ''w2'' demo_id late4
    = (db5, [(''del-aaaaaaaaaaaa-a3'', ''parent'', m)], r)"
proof -
  have "(case fst (snd (attempt demo_config idle_host demo_clock 3000 ''w2'' demo_id late4)) of
      [(q, t, _)] \<Rightarrow> q = ''del-aaaaaaaaaaaa-a3'' \<and> t = ''parent'' | _ \<Rightarrow> False)" by code_simp
  then show ?thesis
    by (cases "attempt demo_config idle_host demo_clock 3000 ''w2'' demo_id late4") (auto split: list.splits)
qed

text \<open>
  C40: The one write that is not guarded: the settlement of an attempt rewrites its delivery whatever
  happened since the claim. The host refuses a first attempt as busy; before its sender records that,
  the reconciler reads the same receipt, and a second attempt reaches the recipient; the sender's late
  settlement then makes the dispatched delivery claimable again, and a third attempt sends it a second
  time. Every reply of the host in this run is true.
\<close>

theorem late_settle_reopens:
  "\<exists>db1 m1 db2 rc db3 m2 r2 facts rcd db4 db5 m3 r3.
     claim demo_config demo_clock demo_id 1000 ''w1'' ''parent'' demo_ready = (db1, Inr (1, demo_request, m1))
   \<and> reconcile_attempt default_policy busy_host demo_clock 1010 demo_request db1 = Inr (db2, rc)
   \<and> attempt demo_config idle_host demo_clock 2000 ''w2'' demo_id db2
       = (db3, [(''del-aaaaaaaaaaaa-a2'', ''parent'', m2)], r2)
   \<and> phase_of db3 demo_id = Phase DISPATCHED 2
   \<and> classify_operation_receipt busy_reply = Inr facts
   \<and> attempt_record facts demo_request demo_id 1 ''parent'' ''idle'' ''t1'' None = Inr rcd
   \<and> settle default_policy demo_clock demo_id demo_request rcd facts False 1000 db3 = Inr db4
   \<and> phase_of db4 demo_id = Phase DEFERRED_BUSY 2
   \<and> attempt demo_config idle_host demo_clock 3000 ''w2'' demo_id db4
       = (db5, [(''del-aaaaaaaaaaaa-a3'', ''parent'', m3)], r3)"
proof -
  have "phase_of late3 demo_id = Phase DISPATCHED 2" "phase_of late4 demo_id = Phase DEFERRED_BUSY 2"
    by code_simp+
  moreover obtain facts rcd where "classify_operation_receipt busy_reply = Inr facts"
    "attempt_record facts demo_request demo_id 1 ''parent'' ''idle'' ''t1'' None = Inr rcd"
    "settle default_policy demo_clock demo_id demo_request rcd facts False 1000 late3 = Inr late4"
    using late_settle by (auto simp: busy_settle_def)
  ultimately show ?thesis
    using late_claim late_reconcile late_attempt late_resend by blast
qed

end
